(* ===== verification/Go_Prelude.thy ===== *)
theory Go_Prelude
  imports Main "HOL-Library.Multiset" "HOL-Library.Sublist"
begin

text \<open>
  The part of the Go language and its standard library that the power manager relies on,
  shared by every component theory:
  \<^item> errors as values (\<open>err\<close>, with \<open>errors.Join\<close>, wrapping by \<open>%w\<close> and the message that
    \<open>Error()\<close> returns) and results (\<open>res\<close>: a value, an error or a panic);
  \<^item> the idiom \<open>for _, x := range xs { if err := f(x); err != nil { return err } }\<close> as the
    combinator \<open>foreach\<close> over an explicit state;
  \<^item> machine integers (\<open>int\<close>, \<open>uint\<close>, \<open>int32\<close>) by reduction of mathematical integers;
  \<^item> the functions of \<open>strings\<close> and \<open>strconv\<close> the code calls;
  \<^item> slices: \<open>IndexOf\<close> loops and removal by swapping with the last element.
  The generic lemmas are proved here once and collected in \<open>go_loops\<close>, \<open>go_strings\<close> and
  \<open>go_slices\<close>.
\<close>

named_theorems go_loops \<open>facts on range loops\<close>
named_theorems go_strings \<open>facts on strings and numerals\<close>
named_theorems go_slices \<open>facts on slices\<close>

section \<open>Errors and results\<close>

text \<open>
  \<open>Errorf m\<close> is an error created with message \<open>m\<close>; \<open>Wrapf m e\<close> is
  \<open>fmt.Errorf("m: %w", e)\<close>; \<open>NotFound\<close> and \<open>ServiceUnavailable\<close> are the API status errors
  that \<open>errors.IsNotFound\<close> and \<open>errors.NewServiceUnavailable\<close> are about; \<open>NotExist\<close> is the
  operating system error for which \<open>os.IsNotExist\<close> holds; \<open>Joined\<close> is the result of
  \<open>errors.Join\<close>.
\<close>

datatype err =
    Errorf string
  | Wrapf string err
  | NotFound string
  | ServiceUnavailable string
  | NotExist string
  | Joined "err list"

datatype 'a res = Ok 'a | Error err | Panic string

fun intercalate :: "string \<Rightarrow> string list \<Rightarrow> string" where
  "intercalate sep [] = []"
| "intercalate sep [x] = x"
| "intercalate sep (x # y # ys) = x @ sep @ intercalate sep (y # ys)"

fun err_msg :: "err \<Rightarrow> string" where
  "err_msg (Errorf m) = m"
| "err_msg (Wrapf m e) = m @ '': '' @ err_msg e"
| "err_msg (NotFound m) = m"
| "err_msg (ServiceUnavailable m) = m"
| "err_msg (NotExist m) = m"
| "err_msg (Joined es) = intercalate [CHR 0x0A] (map err_msg es)"

fun IsNotFound :: "err \<Rightarrow> bool" where
  "IsNotFound (NotFound m) = True"
| "IsNotFound (Wrapf m e) = IsNotFound e"
| "IsNotFound _ = False"

fun the_default :: "'a \<Rightarrow> 'a option \<Rightarrow> 'a" where
  "the_default d None = d" | "the_default d (Some x) = x"

fun somes :: "'a option list \<Rightarrow> 'a list" where
  "somes [] = []"
| "somes (None # xs) = somes xs"
| "somes (Some x # xs) = x # somes xs"

text \<open>\<open>errors.Join\<close> drops the nil errors and is nil when every error is.\<close>

definition errors_Join :: "err option list \<Rightarrow> err option" where
  "errors_Join es = (if somes es = [] then None else Some (Joined (somes es)))"

lemma somes_Some [simp]: "somes (map Some xs) = xs"
  by (induction xs) auto

lemma set_somes: "x \<in> set (somes es) \<longleftrightarrow> Some x \<in> set es"
  by (induction es rule: somes.induct) auto

lemma somes_empty_iff: "somes es = [] \<longleftrightarrow> (\<forall>e \<in> set es. e = None)"
  by (induction es rule: somes.induct) auto

lemma find_None: "find P xs = None \<longleftrightarrow> (\<forall>x \<in> set xs. \<not> P x)"
  by (induction xs) auto

lemma find_SomeD: "find P xs = Some x \<Longrightarrow> x \<in> set xs \<and> P x"
  by (induction xs) (auto split: if_splits)

section \<open>Range loops that stop at the first error\<close>

fun foreach :: "('a \<Rightarrow> 's \<Rightarrow> 's \<times> unit res) \<Rightarrow> 'a list \<Rightarrow> 's \<Rightarrow> 's \<times> unit res" where
  "foreach f [] s = (s, Ok ())"
| "foreach f (x # xs) s =
     (case f x s of
        (s', Ok _) \<Rightarrow> foreach f xs s'
      | (s', Error e) \<Rightarrow> (s', Error e)
      | (s', Panic m) \<Rightarrow> (s', Panic m))"

text \<open>\<open>then_do\<close> is the sequence of two fallible calls: the second runs when the first is ok.\<close>

definition then_do :: "'s \<times> 'a res \<Rightarrow> ('a \<Rightarrow> 's \<Rightarrow> 's \<times> 'b res) \<Rightarrow> 's \<times> 'b res" where
  "then_do r f =
     (case r of
        (s, Ok a) \<Rightarrow> f a s
      | (s, Error e) \<Rightarrow> (s, Error e)
      | (s, Panic m) \<Rightarrow> (s, Panic m))"

text \<open>\<open>if err != nil { return fmt.Errorf("m: %w", err) }\<close>\<close>

definition wrap_err :: "string \<Rightarrow> 's \<times> 'a res \<Rightarrow> 's \<times> 'a res" where
  "wrap_err m r = (case r of (s, Error e) \<Rightarrow> (s, Error (Wrapf m e)) | _ \<Rightarrow> r)"

text \<open>\<open>catch_err\<close>: the handling of \<open>err != nil\<close> after a call.\<close>

definition catch_err :: "'s \<times> 'a res \<Rightarrow> (err \<Rightarrow> 's \<Rightarrow> 's \<times> 'b res) \<Rightarrow> ('a \<Rightarrow> 's \<Rightarrow> 's \<times> 'b res) \<Rightarrow> 's \<times> 'b res" where
  "catch_err r handle k =
     (case r of
        (s, Ok a) \<Rightarrow> k a s
      | (s, Error e) \<Rightarrow> handle e s
      | (s, Panic m) \<Rightarrow> (s, Panic m))"

lemma catch_err_simps [simp]:
  "catch_err (s, Ok a) f k = k a s"
  "catch_err (s, Error e) f k = f e s"
  "catch_err (s, Panic m) f k = (s, Panic m)"
  by (simp_all add: catch_err_def)

lemma wrap_err_simps [simp]:
  "wrap_err m (s, Ok a) = (s, Ok a)"
  "wrap_err m (s, Error e) = (s, Error (Wrapf m e))"
  "wrap_err m (s, Panic k) = (s, Panic k)"
  "fst (wrap_err m r) = fst r"
  by (auto simp: wrap_err_def split: prod.splits res.splits)

lemma wrap_err_Ok_iff [simp]: "wrap_err m r = (s, Ok a) \<longleftrightarrow> r = (s, Ok a)"
  by (auto simp: wrap_err_def split: prod.splits res.splits)

lemma then_do_simps [simp]:
  "then_do (s, Ok a) f = f a s"
  "then_do (s, Error e) f = (s, Error e)"
  "then_do (s, Panic m) f = (s, Panic m)"
  by (simp_all add: then_do_def)

lemma then_do_OkE [go_loops]:
  assumes "then_do r f = (s', Ok b)"
  obtains s a where "r = (s, Ok a)" and "f a s = (s', Ok b)"
  using assms by (auto simp: then_do_def split: prod.splits res.splits)

lemma then_do_Ok_iff:
  "then_do r f = (s', Ok b) \<longleftrightarrow> (\<exists>s a. r = (s, Ok a) \<and> f a s = (s', Ok b))"
  by (auto simp: then_do_def split: prod.splits res.splits)

lemma catch_err_Ok_iff:
  "catch_err r f k = (s', Ok b) \<longleftrightarrow>
     (\<exists>s a. r = (s, Ok a) \<and> k a s = (s', Ok b)) \<or> (\<exists>s e. r = (s, Error e) \<and> f e s = (s', Ok b))"
  by (auto simp: catch_err_def split: prod.splits res.splits)

lemma then_do_inv:
  assumes "I (fst r)" and "\<And>a s. r = (s, Ok a) \<Longrightarrow> I s \<Longrightarrow> I (fst (f a s))"
  shows "I (fst (then_do r f))"
  using assms by (auto simp: then_do_def split: prod.splits res.splits)

lemma foreach_inv [go_loops]:
  assumes "I s" and "\<And>x s. x \<in> set xs \<Longrightarrow> I s \<Longrightarrow> I (fst (f x s))"
  shows "I (fst (foreach f xs s))"
  using assms
proof (induction xs arbitrary: s)
  case (Cons x xs)
  obtain s' r where f: "f x s = (s', r)" by (cases "f x s")
  with Cons.prems(2)[of x s] Cons.prems(1) have "I s'" by simp
  with f Cons show ?case by (auto split: res.splits)
qed simp

lemma foreach_no_panic [go_loops]:
  assumes "I s"
    and "\<And>x s. x \<in> set xs \<Longrightarrow> I s \<Longrightarrow> I (fst (f x s)) \<and> (\<forall>m. snd (f x s) \<noteq> Panic m)"
  shows "snd (foreach f xs s) \<noteq> Panic m"
  using assms
proof (induction xs arbitrary: s)
  case (Cons x xs)
  obtain s' r where f: "f x s = (s', r)" by (cases "f x s")
  with Cons.prems(2)[of x s] Cons.prems(1) have "I s'" and "\<forall>m. r \<noteq> Panic m" by simp_all
  with f Cons show ?case by (auto split: res.splits)
qed simp

text \<open>
  A loop whose body establishes a property of its element, and keeps the properties of the
  elements with another key, establishes them all.
\<close>

lemma foreach_keeps:
  assumes "foreach f xs s = (s', Ok ())" and "P s"
    and "\<And>x s s'. x \<in> set xs \<Longrightarrow> P s \<Longrightarrow> f x s = (s', Ok ()) \<Longrightarrow> P s'"
  shows "P s'"
  using assms
proof (induction xs arbitrary: s)
  case (Cons x xs)
  then obtain t where "f x s = (t, Ok ())" "foreach f xs t = (s', Ok ())"
    by (auto split: prod.splits res.splits)
  with Cons show ?case by (metis list.set_intros)
qed simp

lemma foreach_establishes_inv [go_loops]:
  assumes "foreach f xs s = (s', Ok ())" and "distinct (map key xs)" and "I s"
    and "\<And>x s s'. x \<in> set xs \<Longrightarrow> I s \<Longrightarrow> f x s = (s', Ok ()) \<Longrightarrow> I s'"
    and "\<And>x s s'. x \<in> set xs \<Longrightarrow> I s \<Longrightarrow> f x s = (s', Ok ()) \<Longrightarrow> P x s'"
    and "\<And>x y s s'. x \<in> set xs \<Longrightarrow> y \<in> set xs \<Longrightarrow> key x \<noteq> key y \<Longrightarrow> I s \<Longrightarrow> P x s \<Longrightarrow>
           f y s = (s', Ok ()) \<Longrightarrow> P x s'"
  shows "\<forall>x \<in> set xs. P x s'"
  using assms
proof (induction xs arbitrary: s)
  case (Cons x xs)
  obtain t where t: "f x s = (t, Ok ())" "foreach f xs t = (s', Ok ())"
    using Cons.prems(1) by (auto split: prod.splits res.splits)
  have It: "I t" using Cons.prems(4)[OF _ Cons.prems(3) t(1)] by simp
  have Pt: "P x t" using Cons.prems(5)[OF _ Cons.prems(3) t(1)] by simp
  have "I s' \<and> P x s'"
  proof (rule foreach_keeps[OF t(2)])
    show "I t \<and> P x t" using It Pt by simp
    show "I v \<and> P x v" if "y \<in> set xs" "I u \<and> P x u" "f y u = (v, Ok ())" for y u v
    proof
      show "I v" using Cons.prems(4)[of y u v] that by simp
      have "key x \<noteq> key y" using that(1) Cons.prems(2) by auto
      then show "P x v" using Cons.prems(6)[of x y u v] that by simp
    qed
  qed
  moreover have "\<forall>y \<in> set xs. P y s'"
  proof (rule Cons.IH[OF t(2) _ It])
    show "distinct (map key xs)" using Cons.prems(2) by simp
    show "I v" if "y \<in> set xs" "I u" "f y u = (v, Ok ())" for y u v
      using Cons.prems(4)[of y u v] that by simp
    show "P y v" if "y \<in> set xs" "I u" "f y u = (v, Ok ())" for y u v
      using Cons.prems(5)[of y u v] that by simp
    show "P y v" if "y \<in> set xs" "z \<in> set xs" "key y \<noteq> key z" "I u" "P y u" "f z u = (v, Ok ())" for y z u v
      using Cons.prems(6)[of y z u v] that by simp
  qed
  ultimately show ?case by simp
qed simp

lemma foreach_establishes:
  assumes "foreach f xs s = (s', Ok ())" and "distinct (map key xs)"
    and "\<And>x s s'. x \<in> set xs \<Longrightarrow> f x s = (s', Ok ()) \<Longrightarrow> P x s'"
    and "\<And>x y s s'. x \<in> set xs \<Longrightarrow> y \<in> set xs \<Longrightarrow> key x \<noteq> key y \<Longrightarrow> P x s \<Longrightarrow>
           f y s = (s', Ok ()) \<Longrightarrow> P x s'"
  shows "\<forall>x \<in> set xs. P x s'"
  by (rule foreach_establishes_inv[where I = "\<lambda>_. True", OF assms(1,2)]) (use assms(3,4) in blast)+

lemma foreach_append:
  "foreach f (xs @ ys) s = then_do (foreach f xs s) (\<lambda>_. foreach f ys)"
  by (induction xs arbitrary: s) (auto split: prod.splits res.splits)

lemma foreach_cong [fundef_cong]:
  assumes "xs = ys" and "s = t" and "\<And>x s. x \<in> set ys \<Longrightarrow> f x s = g x s"
  shows "foreach f xs s = foreach g ys t"
  using assms(3) unfolding assms(1,2)
  by (induction ys arbitrary: t) (auto split: prod.splits res.splits)

lemma foreach_skip: "(\<And>x. x \<in> set xs \<Longrightarrow> f x s = (s, Ok ())) \<Longrightarrow> foreach f xs s = (s, Ok ())"
  by (induction xs) auto

text \<open>The loop as a fold, when no step fails.\<close>

lemma foreach_ok_fold:
  assumes "\<And>x s. x \<in> set xs \<Longrightarrow> f x s = (g x s, Ok ())"
  shows "foreach f xs s = (fold g xs s, Ok ())"
  using assms by (induction xs arbitrary: s) auto


section \<open>Absence of panics\<close>

named_theorems no_panics \<open>calls that do not panic\<close>

fun is_panic :: "'a res \<Rightarrow> bool" where
  "is_panic (Panic m) = True" | "is_panic _ = False"

lemma is_panic_iff: "is_panic r \<longleftrightarrow> (\<exists>m. r = Panic m)"
  by (cases r) auto

lemma then_do_panic [no_panics]:
  assumes "\<not> is_panic (snd r)" and "\<And>a s. r = (s, Ok a) \<Longrightarrow> \<not> is_panic (snd (f a s))"
  shows "\<not> is_panic (snd (then_do r f))"
  using assms by (auto simp: then_do_def split: prod.splits res.splits)

lemma then_do_panic_iff:
  "is_panic (snd (then_do r f)) \<longleftrightarrow>
     is_panic (snd r) \<or> (\<exists>s a. r = (s, Ok a) \<and> is_panic (snd (f a s)))"
  by (auto simp: then_do_def split: prod.splits res.splits)

lemma wrap_err_panic [simp]: "is_panic (snd (wrap_err m r)) = is_panic (snd r)"
  by (auto simp: wrap_err_def split: prod.splits res.splits)

lemma foreach_panic [no_panics]:
  assumes "I s" and "\<And>x s. x \<in> set xs \<Longrightarrow> I s \<Longrightarrow> I (fst (f x s))"
    and "\<And>x s. x \<in> set xs \<Longrightarrow> I s \<Longrightarrow> \<not> is_panic (snd (f x s))"
  shows "\<not> is_panic (snd (foreach f xs s))"
  using foreach_no_panic[of I s xs f] assms by (fastforce simp: is_panic_iff)

end
