(* ===== verification/Go_Strings.thy ===== *)
theory Go_Strings
  imports Go_Prelude
begin

text \<open>
  Machine integers and the functions of \<open>strings\<close> and \<open>strconv\<close>. Go's \<open>int\<close> and \<open>uint\<close> are
  64 bits wide on the supported platforms. Conversions reduce a mathematical integer to the
  range of the target type; decimal conversion is modelled down to the digits, because the
  library prints CPU numbers into file names and parses CPU lists back.
\<close>

section \<open>Conversions between integer types\<close>

definition max_int64 :: int where "max_int64 = 2 ^ 63 - 1"

definition to_int32 :: "int \<Rightarrow> int" where
  "to_int32 x = (x + 2 ^ 31) mod 2 ^ 32 - 2 ^ 31"

definition to_int64 :: "int \<Rightarrow> int" where
  "to_int64 x = (x + 2 ^ 63) mod 2 ^ 64 - 2 ^ 63"

definition to_uint64 :: "int \<Rightarrow> nat" where
  "to_uint64 x = nat (x mod 2 ^ 64)"

lemma to_int32_id [simp]: "- (2 ^ 31) \<le> x \<Longrightarrow> x < 2 ^ 31 \<Longrightarrow> to_int32 x = x"
  by (simp add: to_int32_def)

lemma to_int64_id [simp]: "- (2 ^ 63) \<le> x \<Longrightarrow> x < 2 ^ 63 \<Longrightarrow> to_int64 x = x"
  by (simp add: to_int64_def)

lemma to_uint64_id [simp]: "0 \<le> x \<Longrightarrow> x < 2 ^ 64 \<Longrightarrow> to_uint64 x = nat x"
  by (simp add: to_uint64_def)

lemma to_uint64_of_nat [simp]: "n < 2 ^ 64 \<Longrightarrow> to_uint64 (int n) = n"
proof -
  assume "n < 2 ^ 64"
  then have "int n < 2 ^ 64" by (metis of_nat_less_iff of_nat_numeral of_nat_power)
  then show ?thesis by simp
qed

lemma to_int32_range: "- (2 ^ 31) \<le> to_int32 x \<and> to_int32 x < 2 ^ 31"
proof -
  have "0 \<le> (x + 2 ^ 31) mod 2 ^ 32" and "(x + 2 ^ 31) mod 2 ^ 32 < 2 ^ 32" by simp_all
  then show ?thesis by (simp add: to_int32_def)
qed

lemma to_uint64_less: "to_uint64 x < 2 ^ 64"
proof -
  have "x mod 2 ^ 64 < 2 ^ 64" by simp
  then have "nat (x mod 2 ^ 64) < nat (2 ^ 64)" by (subst nat_less_eq_zless) simp_all
  then show ?thesis by (simp add: to_uint64_def nat_power_eq)
qed

section \<open>Decimal numerals\<close>

definition digit_char :: "nat \<Rightarrow> char" where
  "digit_char d = char_of (48 + d)"

definition digit_of :: "char \<Rightarrow> nat option" where
  "digit_of c = (let n = of_char c :: nat in if 48 \<le> n \<and> n \<le> 57 then Some (n - 48) else None)"

fun nat_str :: "nat \<Rightarrow> string" where
  "nat_str n = (if n < 10 then [digit_char n] else nat_str (n div 10) @ [digit_char (n mod 10)])"

declare nat_str.simps [simp del]

definition Itoa :: "int \<Rightarrow> string" where
  "Itoa i = (if i < 0 then CHR ''-'' # nat_str (nat (- i)) else nat_str (nat i))"

fun dec_acc :: "nat \<Rightarrow> string \<Rightarrow> nat option" where
  "dec_acc a [] = Some a"
| "dec_acc a (c # cs) = (case digit_of c of None \<Rightarrow> None | Some d \<Rightarrow> dec_acc (10 * a + d) cs)"

definition parse_dec :: "string \<Rightarrow> nat option" where
  "parse_dec s = (if s = [] then None else dec_acc 0 s)"

text \<open>\<open>strconv.Atoi\<close>: an optional sign, at least one digit, a value of type \<open>int\<close>.\<close>

definition Atoi :: "string \<Rightarrow> int option" where
  "Atoi s =
     (case s of
        [] \<Rightarrow> None
      | c # cs \<Rightarrow>
          (if c = CHR ''-'' then
             (case parse_dec cs of
                None \<Rightarrow> None
              | Some n \<Rightarrow> if int n \<le> 2 ^ 63 then Some (- int n) else None)
           else
             (case parse_dec (if c = CHR ''+'' then cs else s) of
                None \<Rightarrow> None
              | Some n \<Rightarrow> if int n \<le> max_int64 then Some (int n) else None)))"

text \<open>The \<open>NumError\<close> that \<open>strconv.Atoi\<close> returns on a string it does not accept.\<close>

definition atoi_err :: "string \<Rightarrow> err" where
  "atoi_err s =
     Errorf (''strconv.Atoi: parsing '' @ [CHR 0x22] @ s @ [CHR 0x22] @ '': '' @
       (if parse_dec (case s of [] \<Rightarrow> [] | c # cs \<Rightarrow> if c \<in> {CHR ''-'', CHR ''+''} then cs else s) = None
        then ''invalid syntax'' else ''value out of range''))"

text \<open>\<open>strconv.ParseUint(s, 10, bits)\<close>: no sign.\<close>

definition ParseUint :: "nat \<Rightarrow> string \<Rightarrow> nat option" where
  "ParseUint bits s =
     (case parse_dec s of None \<Rightarrow> None | Some n \<Rightarrow> if n < 2 ^ bits then Some n else None)"

lemma digit_of_digit_char [go_strings]: "d < 10 \<Longrightarrow> digit_of (digit_char d) = Some d"
  by (simp add: digit_of_def digit_char_def Let_def)

lemma digit_char_inj: "d < 10 \<Longrightarrow> e < 10 \<Longrightarrow> digit_char d = digit_char e \<Longrightarrow> d = e"
  by (metis digit_of_digit_char option.inject)

lemma digit_char_not [go_strings]:
  assumes "d < 10"
  shows "digit_char d \<noteq> CHR ''-''" and "digit_char d \<noteq> CHR '',''" and "digit_char d \<noteq> CHR ''+''"
    and "digit_char d \<noteq> CHR ''/''"
  using digit_of_digit_char[OF assms] by (auto simp: digit_of_def)

lemma nat_str_not_Nil [simp]: "nat_str n \<noteq> []"
  by (subst nat_str.simps) simp

lemma nat_str_digits: "c \<in> set (nat_str n) \<Longrightarrow> \<exists>d<10. c = digit_char d"
proof (induction n rule: nat_str.induct)
  case (1 n)
  show ?case
  proof (cases "n < 10")
    case True
    with "1.prems" show ?thesis by (subst (asm) nat_str.simps) auto
  next
    case False
    with "1.prems" have "c \<in> set (nat_str (n div 10)) \<or> c = digit_char (n mod 10)"
      by (subst (asm) nat_str.simps) auto
    then show ?thesis using "1.IH"[OF False] by (metis mod_less_divisor zero_less_numeral)
  qed
qed

lemma nat_str_no_sep [simp]:
  "CHR ''-'' \<notin> set (nat_str n)" "CHR '','' \<notin> set (nat_str n)" "CHR ''+'' \<notin> set (nat_str n)"
  "CHR ''/'' \<notin> set (nat_str n)"
  using nat_str_digits digit_char_not by metis+

lemma dec_acc_append: "dec_acc a (xs @ ys) = Option.bind (dec_acc a xs) (\<lambda>b. dec_acc b ys)"
  by (induction xs arbitrary: a) (auto split: option.splits)

lemma dec_acc_nat_str: "dec_acc 0 (nat_str n) = Some n"
proof (induction n rule: nat_str.induct)
  case (1 n)
  show ?case
  proof (cases "n < 10")
    case True
    then show ?thesis by (subst nat_str.simps) (simp add: digit_of_digit_char)
  next
    case False
    then show ?thesis
      by (subst nat_str.simps) (simp add: dec_acc_append "1.IH" digit_of_digit_char)
  qed
qed

lemma parse_dec_nat_str [simp]: "parse_dec (nat_str n) = Some n"
  by (simp add: parse_dec_def dec_acc_nat_str)

lemma nat_str_inj [simp]: "nat_str m = nat_str n \<longleftrightarrow> m = n"
  by (metis option.inject parse_dec_nat_str)

lemma ParseUint_nat_str [simp]: "n < 2 ^ b \<Longrightarrow> ParseUint b (nat_str n) = Some n"
  by (simp add: ParseUint_def)

lemma Atoi_nat_str [simp]: "int n \<le> max_int64 \<Longrightarrow> Atoi (nat_str n) = Some (int n)"
proof -
  assume n: "int n \<le> max_int64"
  obtain c cs where cs: "nat_str n = c # cs" by (cases "nat_str n") auto
  then have "c \<noteq> CHR ''-''" and "c \<noteq> CHR ''+''"
    using nat_str_no_sep[of n] by auto
  then show ?thesis using n cs parse_dec_nat_str[of n] by (simp add: Atoi_def)
qed

lemma Atoi_Itoa: "- (2 ^ 63) \<le> i \<Longrightarrow> i \<le> max_int64 \<Longrightarrow> Atoi (Itoa i) = Some i"
proof (cases "i < 0")
  case True
  assume "- (2 ^ 63) \<le> i"
  with True have "int (nat (- i)) \<le> 2 ^ 63" by simp
  with True show ?thesis by (simp add: Itoa_def Atoi_def)
qed (simp add: Itoa_def)

lemma Atoi_no_sign:
  assumes "Atoi s = Some i" and "CHR ''-'' \<notin> set s"
  shows "0 \<le> i \<and> i \<le> max_int64"
  using assms by (auto simp: Atoi_def split: list.splits option.splits if_splits)

lemma map_int_upto_aux: "map int [a..<Suc b] = [int a..int b]"
proof (induction "Suc b - a" arbitrary: a)
  case 0
  then show ?case by simp
next
  case (Suc n)
  then have "a \<le> b" by simp
  then have "[a..<Suc b] = a # [Suc a..<Suc b]" by (simp add: upt_rec)
  moreover have "[int a..int b] = int a # [int a + 1..int b]" using \<open>a \<le> b\<close> by (simp add: upto_rec1)
  moreover have "map int [Suc a..<Suc b] = [int (Suc a)..int b]"
    using Suc.hyps(1)[of "Suc a"] Suc.hyps(2) by simp
  ultimately show ?case by (simp add: add.commute)
qed

text \<open>
  \<open>for i := a; i <= b; i++\<close> on \<open>int\<close>, with the values of \<open>i\<close>. The increment wraps around, so when \<open>b\<close> is
  the largest \<open>int\<close> the condition never fails and the loop does not end (\<open>None\<close>).
\<close>

partial_function (option) int_loop :: "int \<Rightarrow> int \<Rightarrow> int list option" where
  "int_loop a b = (if a \<le> b then Option.bind (int_loop (to_int64 (a + 1)) b) (\<lambda>xs. Some (a # xs)) else Some [])"

lemma to_int64_le: "to_int64 x \<le> max_int64"
proof -
  have "(x + 2 ^ 63) mod 2 ^ 64 < (2 ^ 64 :: int)" by (rule pos_mod_bound) simp
  then show ?thesis by (simp add: to_int64_def max_int64_def)
qed

lemma int_loop_returns: "- (2 ^ 63) \<le> a \<Longrightarrow> b < max_int64 \<Longrightarrow> int_loop a b = Some [a..b]"
proof (induction "nat (b + 1 - a)" arbitrary: a)
  case 0
  then show ?case by (subst int_loop.simps) simp
next
  case (Suc n)
  then have ab: "a \<le> b" by simp
  then have "to_int64 (a + 1) = a + 1" using Suc.prems by (intro to_int64_id) (simp_all add: max_int64_def)
  moreover have "int_loop (a + 1) b = Some [a + 1..b]" using Suc.hyps(2) Suc.prems by (intro Suc.hyps(1)) simp_all
  ultimately show ?case using ab by (subst int_loop.simps) (simp add: upto_rec1)
qed

lemma int_loop_endless:
  assumes "a \<le> max_int64"
  shows "int_loop a max_int64 = None"
proof (rule ccontr)
  assume "int_loop a max_int64 \<noteq> None"
  then obtain xs where "int_loop a max_int64 = Some xs" by blast
  moreover have "b = max_int64 \<longrightarrow> \<not> a \<le> max_int64" if "int_loop a b = Some xs" for a b xs
  proof (rule int_loop.raw_induct[where P = "\<lambda>a b xs. b = max_int64 \<longrightarrow> \<not> a \<le> max_int64", OF _ that])
    fix f a b xs
    assume "\<And>a b xs. f a b = Some xs \<Longrightarrow> b = max_int64 \<longrightarrow> \<not> a \<le> max_int64"
      and "(if a \<le> b then Option.bind (f (to_int64 (a + 1)) b) (\<lambda>xs. Some (a # xs)) else Some []) = Some xs"
    then show "b = max_int64 \<longrightarrow> \<not> a \<le> max_int64"
      using to_int64_le[of "a + 1"] by (auto simp: bind_eq_Some_conv split: if_splits)
  qed
  ultimately show False using assms by blast
qed

lemma int_loop_nat [simp]:
  "int b < max_int64 \<Longrightarrow> int_loop (int a) (int b) = Some (map int [a..<Suc b])"
  using map_int_upto_aux[of a b] by (simp add: int_loop_returns)

lemma Atoi_range: "Atoi s = Some i \<Longrightarrow> - (2 ^ 63) \<le> i \<and> i \<le> max_int64"
  by (auto simp: Atoi_def max_int64_def split: list.splits if_splits option.splits)

lemma int_loop_Atoi: "Atoi x = Some i \<Longrightarrow> Atoi y = Some j \<Longrightarrow> j \<noteq> max_int64 \<Longrightarrow> int_loop i j = Some [i..j]"
  using Atoi_range[of x i] Atoi_range[of y j] by (intro int_loop_returns) auto

section \<open>Splitting, joining and trimming\<close>

text \<open>\<open>strings.Split\<close> with a separator of one character.\<close>

fun split_on :: "char \<Rightarrow> string \<Rightarrow> string list" where
  "split_on c [] = [[]]"
| "split_on c (x # xs) =
     (if x = c then [] # split_on c xs
      else (case split_on c xs of [] \<Rightarrow> [[x]] | y # ys \<Rightarrow> (x # y) # ys))"

definition HasPrefix :: "string \<Rightarrow> string \<Rightarrow> bool" where
  "HasPrefix s p = (take (length p) s = p)"

fun strings_Contains :: "string \<Rightarrow> string \<Rightarrow> bool" where
  "strings_Contains [] p = (p = [])"
| "strings_Contains (c # cs) p = (HasPrefix (c # cs) p \<or> strings_Contains cs p)"

definition HasSuffix :: "string \<Rightarrow> string \<Rightarrow> bool" where
  "HasSuffix s p = (length p \<le> length s \<and> drop (length s - length p) s = p)"

definition TrimPrefix :: "string \<Rightarrow> string \<Rightarrow> string" where
  "TrimPrefix s p = (if HasPrefix s p then drop (length p) s else s)"

definition TrimSuffix :: "string \<Rightarrow> string \<Rightarrow> string" where
  "TrimSuffix s p = (if HasSuffix s p then take (length s - length p) s else s)"

fun TrimRight :: "char \<Rightarrow> string \<Rightarrow> string" where
  "TrimRight c [] = []"
| "TrimRight c (x # xs) =
     (case TrimRight c xs of [] \<Rightarrow> if x = c then [] else [x] | ys \<Rightarrow> x # ys)"

fun str_contains :: "string \<Rightarrow> string \<Rightarrow> bool" where
  "str_contains [] p = (p = [])"
| "str_contains (x # xs) p = (HasPrefix (x # xs) p \<or> str_contains xs p)"

lemma HasPrefix_append [simp]: "HasPrefix (p @ s) p"
  by (simp add: HasPrefix_def)

lemma TrimPrefix_append [simp]: "TrimPrefix (p @ s) p = s"
  by (simp add: TrimPrefix_def)

lemma HasSuffix_append [simp]: "HasSuffix (s @ p) p"
  by (simp add: HasSuffix_def)

lemma TrimSuffix_append [simp]: "TrimSuffix (s @ p) p = s"
  by (simp add: TrimSuffix_def)

lemma TrimRight_id: "s = [] \<or> last s \<noteq> c \<Longrightarrow> TrimRight c s = s"
  by (induction s) (auto split: list.splits if_splits)

lemma TrimRight_snoc [simp]: "TrimRight c (s @ [c]) = TrimRight c s"
  by (induction s) (auto split: list.splits)

lemma split_on_not_Nil [simp]: "split_on c s \<noteq> []"
  by (induction s) (auto split: list.splits)

lemma split_on_elem: "w \<in> set (split_on c s) \<Longrightarrow> c \<notin> set w"
  by (induction s arbitrary: w) (auto split: if_splits list.splits)

lemma split_on_id [simp]: "c \<notin> set s \<Longrightarrow> split_on c s = [s]"
  by (induction s) auto

lemma split_on_append [simp]:
  "c \<notin> set w \<Longrightarrow> split_on c (w @ c # s) = w # split_on c s"
  by (induction w) auto

lemma split_on_intercalate:
  "ws \<noteq> [] \<Longrightarrow> \<forall>w \<in> set ws. c \<notin> set w \<Longrightarrow> split_on c (intercalate [c] ws) = ws"
  by (induction "[c]" ws rule: intercalate.induct) auto

end
