(* ===== verification/CPU_List.thy ===== *)
theory CPU_List
  imports Go_Strings
begin

text \<open>
  The Linux CPU list format (\<open>"0-5,34,46-48"\<close>) as a contract between the code that prints CPU
  lists (\<open>CPUSet.String\<close>, \<open>prettifyCoreList\<close>) and the code that reads them (\<open>cpuset.Parse\<close>,
  \<open>getCleanCoreList\<close>). A list of ranges is the abstract syntax; a printer promises that its
  output is the concrete form of ranges that enumerate its content, a parser promises to
  recover the enumeration. The round trip is proved once, in the locale of a printer and a
  parser, and is used through the interpretations on the four functions.
\<close>

section \<open>Ranges and their text\<close>

definition range_str :: "nat \<times> nat \<Rightarrow> string" where
  "range_str r = (if fst r = snd r then nat_str (fst r)
                  else nat_str (fst r) @ CHR ''-'' # nat_str (snd r))"

definition print_ranges :: "(nat \<times> nat) list \<Rightarrow> string" where
  "print_ranges rs = intercalate '','' (map range_str rs)"

definition expand :: "(nat \<times> nat) list \<Rightarrow> nat list" where
  "expand rs = concat (map (\<lambda>r. [fst r ..< Suc (snd r)]) rs)"

definition valid_ranges :: "(nat \<times> nat) list \<Rightarrow> bool" where
  "valid_ranges rs = list_all (\<lambda>r. fst r \<le> snd r) rs"

lemma expand_simps [simp]:
  "expand [] = []"
  "expand (r # rs) = [fst r ..< Suc (snd r)] @ expand rs"
  "expand (rs @ rs') = expand rs @ expand rs'"
  by (simp_all add: expand_def)

lemma valid_ranges_simps [simp]:
  "valid_ranges []"
  "valid_ranges (r # rs) \<longleftrightarrow> fst r \<le> snd r \<and> valid_ranges rs"
  "valid_ranges (rs @ rs') \<longleftrightarrow> valid_ranges rs \<and> valid_ranges rs'"
  by (simp_all add: valid_ranges_def)

lemma range_str_no_comma [simp]: "CHR '','' \<notin> set (range_str r)"
  by (simp add: range_str_def)

lemma range_str_not_Nil [simp]: "range_str r \<noteq> []"
  by (simp add: range_str_def)

lemma split_print_ranges:
  "rs \<noteq> [] \<Longrightarrow> split_on CHR '','' (print_ranges rs) = map range_str rs"
  by (simp add: print_ranges_def split_on_intercalate)

lemma split_range_str:
  "split_on CHR ''-'' (range_str r) =
     (if fst r = snd r then [nat_str (fst r)] else [nat_str (fst r), nat_str (snd r)])"
  by (simp add: range_str_def)

lemma last_range_str [simp]: "last (range_str r) \<noteq> CHR '',''"
  by (metis last_in_set range_str_no_comma range_str_not_Nil)

lemma print_ranges_Nil_iff [simp]: "print_ranges rs = [] \<longleftrightarrow> rs = []"
proof (cases rs)
  case (Cons r rs')
  then show ?thesis by (cases rs') (simp_all add: print_ranges_def)
qed (simp add: print_ranges_def)

lemma last_print_ranges: "rs \<noteq> [] \<Longrightarrow> last (print_ranges rs) \<noteq> CHR '',''"
proof (induction rs)
  case (Cons r rs)
  show ?case
  proof (cases rs)
    case (Cons q qs)
    then have "print_ranges (r # rs) = range_str r @ '','' @ print_ranges rs"
      by (simp add: print_ranges_def)
    with Cons Cons.IH show ?thesis by simp
  qed (simp add: print_ranges_def)
qed simp

lemma print_ranges_trailing:
  "concat (map (\<lambda>r. range_str r @ '','') rs) = (if rs = [] then [] else print_ranges rs @ '','')"
proof (induction rs)
  case (Cons r rs)
  then show ?case by (cases rs) (auto simp: print_ranges_def)
qed simp

section \<open>Contracts\<close>

locale cpulist_printer =
  fixes print :: "'a \<Rightarrow> string"
    and content :: "'a \<Rightarrow> nat list"
    and wf :: "'a \<Rightarrow> bool"
  assumes prints: "wf x \<Longrightarrow> \<exists>rs. print x = print_ranges rs \<and> valid_ranges rs \<and> expand rs = content x"
begin

lemma print_empty_iff: "wf x \<Longrightarrow> print x = [] \<longleftrightarrow> content x = []"
proof -
  assume "wf x"
  then obtain rs where rs: "print x = print_ranges rs" "valid_ranges rs" "expand rs = content x"
    using prints by blast
  then show ?thesis by (cases rs) auto
qed

lemma print_inj: "wf x \<Longrightarrow> wf y \<Longrightarrow> print x = print y \<Longrightarrow> set (content x) = set (content y)"
proof -
  assume "wf x" "wf y" and eq: "print x = print y"
  then obtain rs qs where r: "print x = print_ranges rs" "expand rs = content x"
    and q: "print y = print_ranges qs" "expand qs = content y"
    using prints by metis
  have "rs = qs"
  proof (cases "rs = []")
    case False
    with eq r q have "qs \<noteq> []" by (metis print_ranges_Nil_iff)
    with False eq r q have m: "map range_str rs = map range_str qs"
      by (metis split_print_ranges)
    have "inj range_str"
    proof (rule injI)
      fix a b :: "nat \<times> nat"
      assume "range_str a = range_str b"
      then have "split_on CHR ''-'' (range_str a) = split_on CHR ''-'' (range_str b)" by simp
      then show "a = b" by (simp add: split_range_str prod_eq_iff split: if_splits)
    qed
    with m show ?thesis by (simp add: inj_map_eq_map)
  qed (metis eq print_ranges_Nil_iff q(1) r(1))
  with r q show ?thesis by simp
qed

end

locale cpulist_parser =
  fixes parse :: "string \<Rightarrow> 'b"
    and accepts :: "'b \<Rightarrow> nat list \<Rightarrow> bool"
    and bound :: nat
  assumes parses: "valid_ranges rs \<Longrightarrow> (\<And>c. c \<in> set (expand rs) \<Longrightarrow> c < bound) \<Longrightarrow>
    accepts (parse (print_ranges rs)) (expand rs)"

locale cpulist_codec = cpulist_printer print content wf + cpulist_parser parse accepts bound
  for print :: "'a \<Rightarrow> string" and content wf
    and parse :: "string \<Rightarrow> 'b" and accepts bound
begin

lemma round_trip:
  assumes "wf x" and "\<And>c. c \<in> set (content x) \<Longrightarrow> c < bound"
  shows "accepts (parse (print x)) (content x)"
  using prints[OF assms(1)] parses assms(2) by metis

end

end
