(* ===== verification/Cpuset.thy ===== *)
theory Cpuset
  imports CPU_List
begin

text \<open>
  \<open>pkg/cpuset/cpuset.go\<close>: the mutable builder, the immutable set of CPU numbers and the Linux
  CPU list format. The map \<open>elems map[int]struct{}\<close> is the list of its keys in the order in
  which this run enumerates them; the invariant \<open>cpuset_ok\<close> says that a key occurs once, and
  \<open>cpus\<close> is the set the value stands for. Loops over the map are loops over that list.
\<close>

record CPUSet =
  elems :: "int list"

record Builder =
  result :: CPUSet
  finished :: bool

definition cpus :: "CPUSet \<Rightarrow> int set" where
  "cpus s = set (elems s)"

definition cpuset_ok :: "CPUSet \<Rightarrow> bool" where
  "cpuset_ok s = distinct (elems s)"

section \<open>The builder\<close>

definition NewBuilder :: Builder where
  "NewBuilder = \<lparr>result = \<lparr>elems = []\<rparr>, finished = False\<rparr>"

definition map_store :: "int \<Rightarrow> int list \<Rightarrow> int list" where
  "map_store x ks = (if x \<in> set ks then ks else ks @ [x])"

definition Builder_Add :: "int list \<Rightarrow> Builder \<Rightarrow> Builder" where
  "Builder_Add es b =
     (if finished b then b
      else b\<lparr>result := \<lparr>elems = fold map_store es (elems (result b))\<rparr>\<rparr>)"

definition Builder_Result :: "Builder \<Rightarrow> Builder \<times> CPUSet" where
  "Builder_Result b = (b\<lparr>finished := True\<rparr>, result b)"

definition NewCPUSet :: "int list \<Rightarrow> CPUSet" where
  "NewCPUSet cs = snd (Builder_Result (fold (\<lambda>c. Builder_Add [c]) cs NewBuilder))"

section \<open>Set operations\<close>

definition Size :: "CPUSet \<Rightarrow> int" where
  "Size s = int (length (elems s))"

definition IsEmpty :: "CPUSet \<Rightarrow> bool" where
  "IsEmpty s = (Size s = 0)"

definition CPUSet_Contains :: "CPUSet \<Rightarrow> int \<Rightarrow> bool" where
  "CPUSet_Contains s c = (c \<in> set (elems s))"

text \<open>\<open>reflect.DeepEqual\<close> on two maps made by the builder: the same keys.\<close>

definition Equals :: "CPUSet \<Rightarrow> CPUSet \<Rightarrow> bool" where
  "Equals s s2 = (length (elems s) = length (elems s2) \<and> (\<forall>c \<in> set (elems s). c \<in> set (elems s2)))"

definition Filter :: "CPUSet \<Rightarrow> (int \<Rightarrow> bool) \<Rightarrow> CPUSet" where
  "Filter s P =
     snd (Builder_Result (fold (\<lambda>c b. if P c then Builder_Add [c] b else b) (elems s) NewBuilder))"

definition FilterNot :: "CPUSet \<Rightarrow> (int \<Rightarrow> bool) \<Rightarrow> CPUSet" where
  "FilterNot s P =
     snd (Builder_Result (fold (\<lambda>c b. if \<not> P c then Builder_Add [c] b else b) (elems s) NewBuilder))"

fun subset_loop :: "int list \<Rightarrow> CPUSet \<Rightarrow> bool" where
  "subset_loop [] s2 = True"
| "subset_loop (c # cs) s2 = (if \<not> CPUSet_Contains s2 c then False else subset_loop cs s2)"

definition IsSubsetOf :: "CPUSet \<Rightarrow> CPUSet \<Rightarrow> bool" where
  "IsSubsetOf s s2 = subset_loop (elems s) s2"

definition Union :: "CPUSet \<Rightarrow> CPUSet \<Rightarrow> CPUSet" where
  "Union s s2 =
     snd (Builder_Result
       (fold (\<lambda>c. Builder_Add [c]) (elems s2) (fold (\<lambda>c. Builder_Add [c]) (elems s) NewBuilder)))"

definition UnionAll :: "CPUSet \<Rightarrow> CPUSet list \<Rightarrow> CPUSet" where
  "UnionAll s ss =
     snd (Builder_Result
       (fold (\<lambda>cs. fold (\<lambda>c. Builder_Add [c]) (elems cs)) ss
          (fold (\<lambda>c. Builder_Add [c]) (elems s) NewBuilder)))"

definition Intersection :: "CPUSet \<Rightarrow> CPUSet \<Rightarrow> CPUSet" where
  "Intersection s s2 = Filter s (CPUSet_Contains s2)"

definition Difference :: "CPUSet \<Rightarrow> CPUSet \<Rightarrow> CPUSet" where
  "Difference s s2 = FilterNot s (CPUSet_Contains s2)"

definition ToSlice :: "CPUSet \<Rightarrow> int list" where
  "ToSlice s = sort (elems s)"

definition ToSliceNoSort :: "CPUSet \<Rightarrow> int list" where
  "ToSliceNoSort s = elems s"

definition ToSliceInt64 :: "CPUSet \<Rightarrow> int list" where
  "ToSliceInt64 s = sort (map to_int64 (elems s))"

definition ToSliceNoSortInt64 :: "CPUSet \<Rightarrow> int list" where
  "ToSliceNoSortInt64 s = map to_int64 (elems s)"

definition Clone :: "CPUSet \<Rightarrow> CPUSet" where
  "Clone s = snd (Builder_Result (fold (\<lambda>c. Builder_Add [c]) (elems s) NewBuilder))"

section \<open>The CPU list format\<close>

definition extend_ranges :: "int \<Rightarrow> (int \<times> int) list \<Rightarrow> (int \<times> int) list" where
  "extend_ranges e rs =
     (if e = snd (last rs) + 1 then butlast rs @ [(fst (last rs), e)] else rs @ [(e, e)])"

definition int_range_str :: "int \<times> int \<Rightarrow> string" where
  "int_range_str r = (if fst r = snd r then Itoa (fst r) else Itoa (fst r) @ CHR ''-'' # Itoa (snd r))"

definition CPUSet_String :: "CPUSet \<Rightarrow> string" where
  "CPUSet_String s =
     (if IsEmpty s then ''''
      else
        (let es = ToSlice s;
             ranges = fold extend_ranges (tl es) [(hd es, hd es)]
         in TrimRight CHR '','' (concat (map (\<lambda>r. int_range_str r @ '','') ranges))))"

fun parse_loop :: "string list \<Rightarrow> Builder \<Rightarrow> Builder res option" where
  "parse_loop [] b = Some (Ok b)"
| "parse_loop (r # rs) b =
     (case split_on CHR ''-'' r of
        [x] \<Rightarrow>
          (case Atoi x of
             None \<Rightarrow> Some (Error (atoi_err x))
           | Some e \<Rightarrow> parse_loop rs (Builder_Add [e] b))
      | [x, y] \<Rightarrow>
          (case Atoi x of
             None \<Rightarrow> Some (Error (atoi_err x))
           | Some start \<Rightarrow>
               (case Atoi y of
                  None \<Rightarrow> Some (Error (atoi_err y))
                | Some stop \<Rightarrow>
                    (case int_loop start stop of
                       None \<Rightarrow> None
                     | Some es \<Rightarrow> parse_loop rs (fold (\<lambda>e. Builder_Add [e]) es b))))
      | _ \<Rightarrow> parse_loop rs b)"

text \<open>\<open>Parse\<close> is \<open>None\<close> where the code does not return (a range up to the largest \<open>int\<close>).\<close>

definition Parse :: "string \<Rightarrow> CPUSet res option" where
  "Parse s =
     (if s = '''' then Some (Ok (snd (Builder_Result NewBuilder)))
      else
        (case parse_loop (split_on CHR '','' s) NewBuilder of
           None \<Rightarrow> None
         | Some (Ok b) \<Rightarrow> Some (Ok (snd (Builder_Result b)))
         | Some (Error e) \<Rightarrow> Some (Error e)
         | Some (Panic m) \<Rightarrow> Some (Panic m)))"

text \<open>\<open>MustParse\<close>: \<open>klog.Fatalf\<close> ends the process.\<close>

definition MustParse :: "string \<Rightarrow> CPUSet res option" where
  "MustParse s =
     (case Parse s of
        Some (Error e) \<Rightarrow> Some (Panic (''unable to parse ['' @ s @ ''] as CPUSet: '' @ err_msg e))
      | r \<Rightarrow> r)"

section \<open>The set operations implement finite sets\<close>

lemma set_map_store [simp]: "set (map_store x ks) = insert x (set ks)"
  by (auto simp: map_store_def)

lemma set_fold_store [simp]: "set (fold map_store cs ks) = set ks \<union> set cs"
  by (induction cs arbitrary: ks) auto

lemma distinct_fold_store [simp]: "distinct (fold map_store cs ks) = distinct ks"
  by (induction cs arbitrary: ks) (auto simp: map_store_def)

lemma fold_Builder_Add:
  "\<not> finished b \<Longrightarrow>
   fold (\<lambda>c. Builder_Add [c]) cs b = b\<lparr>result := \<lparr>elems = fold map_store cs (elems (result b))\<rparr>\<rparr>"
  by (induction cs arbitrary: b) (auto simp: Builder_Add_def)

lemma fold_Builder_Add_if:
  "fold (\<lambda>c b. if P c then Builder_Add [c] b else b) cs b = fold (\<lambda>c. Builder_Add [c]) (filter P cs) b"
  by (induction cs arbitrary: b) auto

lemma fold_Builder_Add_all:
  "fold (\<lambda>cs. fold (\<lambda>c. Builder_Add [c]) (elems cs)) ss b =
   fold (\<lambda>c. Builder_Add [c]) (concat (map elems ss)) b"
  by (induction ss arbitrary: b) auto

lemma NewCPUSet_elems: "elems (NewCPUSet cs) = fold map_store cs []"
  by (simp add: NewCPUSet_def Builder_Result_def fold_Builder_Add NewBuilder_def)

lemmas built_defs = Union_def UnionAll_def Intersection_def Difference_def Filter_def FilterNot_def
  Clone_def NewCPUSet_def Builder_Result_def fold_Builder_Add_if fold_Builder_Add_all

lemma cpus_ops [simp]:
  "cpus (NewCPUSet cs) = set cs"
  "cpus (Union s s2) = cpus s \<union> cpus s2"
  "cpus (UnionAll s ss) = cpus s \<union> (\<Union>t \<in> set ss. cpus t)"
  "cpus (Intersection s s2) = cpus s \<inter> cpus s2"
  "cpus (Difference s s2) = cpus s - cpus s2"
  "cpus (Filter s P) = {c \<in> cpus s. P c}"
  "cpus (FilterNot s P) = {c \<in> cpus s. \<not> P c}"
  "cpus (Clone s) = cpus s"
  by (auto simp: built_defs fold_Builder_Add NewBuilder_def cpus_def CPUSet_Contains_def
      simp flip: fold_append[unfolded comp_def])

lemma cpuset_ok_ops [simp]:
  "cpuset_ok (NewCPUSet cs)" "cpuset_ok (Union s s2)" "cpuset_ok (UnionAll s ss)"
  "cpuset_ok (Intersection s s2)" "cpuset_ok (Difference s s2)" "cpuset_ok (Filter s P)"
  "cpuset_ok (FilterNot s P)" "cpuset_ok (Clone s)"
  by (auto simp: built_defs fold_Builder_Add NewBuilder_def cpuset_ok_def
      simp flip: fold_append[unfolded comp_def])

lemma IsSubsetOf_iff: "IsSubsetOf s s2 \<longleftrightarrow> cpus s \<subseteq> cpus s2"
proof -
  have "subset_loop cs s2 \<longleftrightarrow> set cs \<subseteq> cpus s2" for cs
    by (induction cs) (auto simp: CPUSet_Contains_def cpus_def)
  then show ?thesis by (simp add: IsSubsetOf_def cpus_def)
qed

lemma Equals_iff: "cpuset_ok s \<Longrightarrow> cpuset_ok s2 \<Longrightarrow> Equals s s2 \<longleftrightarrow> cpus s = cpus s2"
  unfolding Equals_def cpuset_ok_def cpus_def
  by (metis card_subset_eq distinct_card finite_set subsetI subset_antisym equalityD1 subsetD)

lemma IsEmpty_iff: "IsEmpty s \<longleftrightarrow> cpus s = {}"
  by (simp add: IsEmpty_def Size_def cpus_def)

lemma Size_card: "cpuset_ok s \<Longrightarrow> Size s = int (card (cpus s))"
  by (simp add: Size_def cpuset_ok_def cpus_def distinct_card)

text \<open>The contract of a finite set with the binary operations the package offers.\<close>

locale finite_set_ops =
  fixes abs :: "'s \<Rightarrow> 'e set" and ok :: "'s \<Rightarrow> bool"
    and union inter diff :: "'s \<Rightarrow> 's \<Rightarrow> 's"
    and subset equal_sets :: "'s \<Rightarrow> 's \<Rightarrow> bool"
  assumes union_abs: "abs (union s t) = abs s \<union> abs t"
    and inter_abs: "abs (inter s t) = abs s \<inter> abs t"
    and diff_abs: "abs (diff s t) = abs s - abs t"
    and ok_ops: "ok (union s t)" "ok (inter s t)" "ok (diff s t)"
    and subset_abs: "subset s t \<longleftrightarrow> abs s \<subseteq> abs t"
    and equal_abs: "ok s \<Longrightarrow> ok t \<Longrightarrow> equal_sets s t \<longleftrightarrow> abs s = abs t"
begin

lemmas set_laws = union_abs inter_abs diff_abs subset_abs

lemma partition_law: "ok s \<Longrightarrow> equal_sets (union (inter s t) (diff s t)) s"
  by (subst equal_abs) (auto simp: ok_ops set_laws)

lemma disjoint_law: "subset (inter (inter s t) (diff s t)) u"
  by (auto simp: set_laws)

lemma de_morgan_law:
  "equal_sets (diff u (union s t)) (inter (diff u s) (diff u t))"
  by (subst equal_abs) (auto simp: ok_ops set_laws)

end

interpretation cpuset_ops: finite_set_ops cpus cpuset_ok Union Intersection Difference IsSubsetOf Equals
  by unfold_locales (auto simp: IsSubsetOf_iff Equals_iff)

section \<open>Printing and parsing\<close>

definition int_pair :: "nat \<times> nat \<Rightarrow> int \<times> int" where
  "int_pair r = (int (fst r), int (snd r))"

lemma int_range_str_pair [simp]: "int_range_str (int_pair r) = range_str r"
  by (simp add: int_range_str_def int_pair_def range_str_def Itoa_def)

lemma fold_extend_ranges:
  assumes "rs \<noteq> []" and "valid_ranges rs"
  shows "\<exists>rs'. fold extend_ranges (map int ns) (map int_pair rs) = map int_pair rs' \<and> rs' \<noteq> [] \<and>
           valid_ranges rs' \<and> expand rs' = expand rs @ ns"
  using assms
proof (induction ns arbitrary: rs)
  case (Cons n ns)
  obtain qs q where q: "rs = qs @ [q]" using Cons.prems(1) by (cases rs rule: rev_cases) auto
  let ?rs = "if n = Suc (snd q) then qs @ [(fst q, n)] else rs @ [(n, n)]"
  have step: "extend_ranges (int n) (map int_pair rs) = map int_pair ?rs"
    by (auto simp: q extend_ranges_def int_pair_def)
  have "?rs \<noteq> []" and "valid_ranges ?rs" and "expand ?rs = expand rs @ [n]"
    using Cons.prems(2) by (auto simp: q)
  with Cons.IH[of ?rs] step show ?case by auto
qed auto

abbreviation (input) nonneg_cpuset :: "CPUSet \<Rightarrow> bool" where
  "nonneg_cpuset s \<equiv> \<forall>c \<in> cpus s. 0 \<le> c"

lemma CPUSet_String_ranges:
  assumes "nonneg_cpuset s"
  shows "\<exists>rs. CPUSet_String s = print_ranges rs \<and> valid_ranges rs \<and> expand rs = map nat (ToSlice s)"
proof (cases "ToSlice s")
  case Nil
  then have "elems s = []" by (metis ToSlice_def length_0_conv length_sort)
  with Nil show ?thesis
    by (intro exI[of _ "[]"]) (simp add: CPUSet_String_def IsEmpty_def Size_def print_ranges_def)
next
  case (Cons e es)
  define ns where "ns = map nat (ToSlice s)"
  have "\<forall>c \<in> set (ToSlice s). 0 \<le> c" using assms by (simp add: ToSlice_def cpus_def)
  then have ns: "ToSlice s = map int ns" by (simp add: ns_def map_idI)
  obtain m ms where m: "ns = m # ms" using ns Cons by (cases ns) auto
  obtain rs where rs: "fold extend_ranges (map int ms) (map int_pair [(m, m)]) = map int_pair rs"
    "rs \<noteq> []" "valid_ranges rs" "expand rs = expand [(m, m)] @ ms"
    using fold_extend_ranges[of "[(m, m)]" ms] by auto
  have "\<not> IsEmpty s" using Cons by (auto simp: IsEmpty_def Size_def ToSlice_def)
  moreover have "fold extend_ranges (tl (ToSlice s)) [(hd (ToSlice s), hd (ToSlice s))] = map int_pair rs"
    using rs(1) ns m by (simp add: int_pair_def)
  ultimately have "CPUSet_String s =
    TrimRight CHR '','' (concat (map (\<lambda>r. range_str r @ '','') rs))"
    by (simp add: CPUSet_String_def Let_def comp_def)
  then have "CPUSet_String s = print_ranges rs"
    using rs(2) last_print_ranges[OF rs(2)] by (simp add: print_ranges_trailing TrimRight_id)
  with rs(3,4) m ns_def show ?thesis by auto
qed

lemma parse_loop_returns:
  assumes "\<forall>r \<in> set rs. Atoi (last (split_on CHR ''-'' r)) \<noteq> Some max_int64"
  shows "\<exists>res. parse_loop rs b = Some res"
  using assms
proof (induction rs arbitrary: b)
  case (Cons r rs)
  have i: "\<exists>res. parse_loop rs b' = Some res" for b' using Cons by simp
  consider x where "split_on CHR ''-'' r = [x]" | x y where "split_on CHR ''-'' r = [x, y]"
    | x y z zs where "split_on CHR ''-'' r = x # y # z # zs"
    using split_on_not_Nil[of "CHR ''-''" r] by (metis neq_Nil_conv)
  then show ?case
  proof cases
    case (2 x y)
    then have "Atoi y \<noteq> Some max_int64" using Cons.prems by simp
    then show ?thesis using 2 i int_loop_Atoi[of x _ y] by (cases "Atoi x"; cases "Atoi y") auto
  qed (auto simp: i split: option.split)
qed simp

lemma parse_loop_ranges:
  assumes "valid_ranges rs" and "\<And>c. c \<in> set (expand rs) \<Longrightarrow> int c < max_int64" and "\<not> finished b"
  shows "parse_loop (map range_str rs) b = Some (Ok (fold (\<lambda>e. Builder_Add [e]) (map int (expand rs)) b))"
  using assms
proof (induction rs arbitrary: b)
  case (Cons r rs)
  have "snd r \<in> set (expand (r # rs))" and "fst r \<in> set (expand (r # rs))"
    using Cons.prems(1) by auto
  with Cons.prems(2) have "int (snd r) < max_int64" and "int (fst r) < max_int64" by blast+
  then have a: "Atoi (nat_str (fst r)) = Some (int (fst r))" "Atoi (nat_str (snd r)) = Some (int (snd r))"
    and l: "int_loop (int (fst r)) (int (snd r)) = Some (map int [fst r..<Suc (snd r)])"
    by simp_all
  have unfin: "\<not> finished (fold (\<lambda>e. Builder_Add [e]) es b)" for es
    using Cons.prems(3) by (simp add: fold_Builder_Add)
  then have IH: "parse_loop (map range_str rs) (fold (\<lambda>e. Builder_Add [e]) es b) =
      Some (Ok (fold (\<lambda>e. Builder_Add [e]) (map int (expand rs)) (fold (\<lambda>e. Builder_Add [e]) es b)))" for es
    using Cons.IH Cons.prems by simp
  show ?case
  proof (cases "fst r = snd r")
    case True
    then show ?thesis using IH[of "[int (snd r)]"] a by (simp add: split_range_str)
  next
    case False
    then show ?thesis using IH a l by (simp add: split_range_str)
  qed
qed simp

definition parsed_as :: "CPUSet res option \<Rightarrow> nat list \<Rightarrow> bool" where
  "parsed_as r cs = (\<exists>s. r = Some (Ok s) \<and> cpuset_ok s \<and> cpus s = int ` set cs)"

interpretation cpuset_codec: cpulist_codec CPUSet_String "\<lambda>s. map nat (ToSlice s)" "\<lambda>s. nonneg_cpuset s"
  Parse parsed_as "nat max_int64"
proof (unfold_locales, goal_cases)
  case (1 s)
  then show ?case by (rule CPUSet_String_ranges)
next
  case (2 rs)
  show ?case
  proof (cases "rs = []")
    case True
    then show ?thesis
      by (simp add: parsed_as_def Parse_def print_ranges_def Builder_Result_def NewBuilder_def
          cpuset_ok_def cpus_def)
  next
    case False
    have "int c < max_int64" if "c \<in> set (expand rs)" for c
      using 2(2)[OF that] by (simp add: max_int64_def)
    with 2(1) False show ?thesis
      by (simp add: parsed_as_def Parse_def split_print_ranges parse_loop_ranges NewBuilder_def
          fold_Builder_Add Builder_Result_def cpuset_ok_def cpus_def)
  qed
qed


section \<open>Properties\<close>

text \<open>
  C37. Printing a CPU set and parsing the text gives the set back: for every set of CPU numbers
  below the largest \<open>int\<close>, \<open>Parse\<close> of \<open>String\<close> returns, without error, a set with the same
  elements.
\<close>
theorem cpuset_parse_print:
  assumes "nonneg_cpuset s" and "\<forall>c \<in> cpus s. c < max_int64"
  shows "\<exists>t. Parse (CPUSet_String s) = Some (Ok t) \<and> cpuset_ok t \<and> cpus t = cpus s"
proof -
  have "set (map nat (ToSlice s)) = nat ` cpus s" by (simp add: ToSlice_def cpus_def)
  moreover have "c < nat max_int64" if "c \<in> set (map nat (ToSlice s))" for c
    using that assms calculation by (auto simp: nat_less_eq_zless max_int64_def)
  ultimately have "parsed_as (Parse (CPUSet_String s)) (map nat (ToSlice s))"
    using cpuset_codec.round_trip[OF assms(1)] by blast
  moreover have "int ` nat ` cpus s = cpus s" using assms(1) by (force simp: image_iff)
  ultimately show ?thesis by (auto simp: parsed_as_def ToSlice_def cpus_def)
qed

theorem cpuset_parse_print_witness:
  "\<exists>t. Parse (CPUSet_String (NewCPUSet [5, 0, 2, 1])) = Some (Ok t) \<and> cpus t = {0, 1, 2, 5}"
proof -
  have "cpus (NewCPUSet [5, 0, 2, 1]) = {0, 1, 2, 5}" by code_simp
  then show ?thesis using cpuset_parse_print[of "NewCPUSet [5, 0, 2, 1]"]
    by (auto simp: max_int64_def)
qed

text \<open>
  The set operations are those of finite sets: intersection and difference split a set into
  two disjoint parts, and the difference by a union is the intersection of the differences, as
  judged by the package's own \<open>Equals\<close> and \<open>IsSubsetOf\<close>.
\<close>
theorem cpuset_algebra:
  assumes "cpuset_ok s"
  shows "Equals (Union (Intersection s t) (Difference s t)) s \<and>
         IsSubsetOf (Intersection (Intersection s t) (Difference s t)) (NewCPUSet []) \<and>
         Equals (Difference u (Union s t)) (Intersection (Difference u s) (Difference u t))"
  using cpuset_ops.partition_law[OF assms] cpuset_ops.disjoint_law cpuset_ops.de_morgan_law by blast

theorem cpuset_algebra_witness:
  "Equals (Union (Intersection (NewCPUSet [1, 2]) (NewCPUSet [2, 3]))
             (Difference (NewCPUSet [1, 2]) (NewCPUSet [2, 3]))) (NewCPUSet [1, 2])"
  using cpuset_algebra[of "NewCPUSet [1, 2]" "NewCPUSet [2, 3]"] by simp

end
