(* ===== verification/Float64.thy ===== *)
theory Float64
  imports Complex_Main "HOL-Library.Log_Nat"
begin

text \<open>
  Go's \<open>float64\<close>: IEEE 754 binary64 with rounding to nearest, ties to even. A finite value is
  the rational it denotes (the sign of zero is not kept: no computation of the code divides by
  a computed zero). Every operation is the exact result on rationals, rounded. The conversion
  \<open>int(f)\<close> truncates; for a value outside the range of \<open>int\<close>, an infinity or a NaN, the language
  leaves the result to the implementation, and it is a parameter of \<open>float_to_int\<close>.
\<close>

datatype float64 = Fin rat | PosInf | NegInf | NaN

definition pow2 :: "int \<Rightarrow> rat" where
  "pow2 e = (if 0 \<le> e then 2 ^ nat e else 1 / 2 ^ nat (- e))"

definition flog2 :: "rat \<Rightarrow> int" where
  "flog2 q =
     (let (n, d) = quotient_of q;
          k = int (floorlog 2 (nat n)) - int (floorlog 2 (nat d))
      in if pow2 k \<le> q then k else k - 1)"

definition round_even :: "rat \<Rightarrow> int" where
  "round_even x =
     (let f = \<lfloor>x\<rfloor>; r = x - of_int f
      in if r < 1 / 2 then f else if 1 / 2 < r then f + 1 else if even f then f else f + 1)"

definition ulp_exp :: "rat \<Rightarrow> int" where
  "ulp_exp q = max (- 1074) (flog2 \<bar>q\<bar> - 52)"

definition round64 :: "rat \<Rightarrow> rat" where
  "round64 q =
     (if q = 0 then 0
      else sgn q * (of_int (round_even (\<bar>q\<bar> / pow2 (ulp_exp q))) * pow2 (ulp_exp q)))"

definition fl :: "rat \<Rightarrow> float64" where
  "fl q =
     (let v = round64 q
      in if 2 ^ 1024 \<le> v then PosInf else if v \<le> - (2 ^ 1024) then NegInf else Fin v)"

definition float_of_int :: "int \<Rightarrow> float64" where
  "float_of_int i = fl (of_int i)"

fun fneg :: "float64 \<Rightarrow> float64" where
  "fneg (Fin a) = Fin (- a)" | "fneg PosInf = NegInf" | "fneg NegInf = PosInf" | "fneg NaN = NaN"

fun fadd :: "float64 \<Rightarrow> float64 \<Rightarrow> float64" where
  "fadd (Fin a) (Fin b) = fl (a + b)"
| "fadd NaN _ = NaN" | "fadd _ NaN = NaN"
| "fadd PosInf NegInf = NaN" | "fadd NegInf PosInf = NaN"
| "fadd PosInf _ = PosInf" | "fadd NegInf _ = NegInf"
| "fadd _ PosInf = PosInf" | "fadd _ NegInf = NegInf"

definition fsub :: "float64 \<Rightarrow> float64 \<Rightarrow> float64" where
  "fsub x y = fadd x (fneg y)"

definition inf_times :: "bool \<Rightarrow> rat \<Rightarrow> float64" where
  "inf_times pos a = (if a = 0 then NaN else if (0 < a) = pos then PosInf else NegInf)"

fun fmul :: "float64 \<Rightarrow> float64 \<Rightarrow> float64" where
  "fmul (Fin a) (Fin b) = fl (a * b)"
| "fmul NaN _ = NaN" | "fmul _ NaN = NaN"
| "fmul PosInf PosInf = PosInf" | "fmul NegInf NegInf = PosInf"
| "fmul PosInf NegInf = NegInf" | "fmul NegInf PosInf = NegInf"
| "fmul PosInf (Fin a) = inf_times True a" | "fmul NegInf (Fin a) = inf_times False a"
| "fmul (Fin a) PosInf = inf_times True a" | "fmul (Fin a) NegInf = inf_times False a"

text \<open>Division; the divisor \<open>0\<close> is the positive zero.\<close>

fun fdiv :: "float64 \<Rightarrow> float64 \<Rightarrow> float64" where
  "fdiv (Fin a) (Fin b) =
     (if b = 0 then (if a = 0 then NaN else if 0 < a then PosInf else NegInf) else fl (a / b))"
| "fdiv NaN _ = NaN" | "fdiv _ NaN = NaN"
| "fdiv (Fin a) PosInf = Fin 0" | "fdiv (Fin a) NegInf = Fin 0"
| "fdiv PosInf (Fin b) = (if b < 0 then NegInf else PosInf)"
| "fdiv NegInf (Fin b) = (if b < 0 then PosInf else NegInf)"
| "fdiv _ _ = NaN"

definition trunc :: "rat \<Rightarrow> int" where
  "trunc q = (if q < 0 then \<lceil>q\<rceil> else \<lfloor>q\<rfloor>)"

definition float_to_int :: "(float64 \<Rightarrow> int) \<Rightarrow> float64 \<Rightarrow> int" where
  "float_to_int oor f =
     (case f of
        Fin q \<Rightarrow> if - (2 ^ 63) \<le> trunc q \<and> trunc q < 2 ^ 63 then trunc q else oor f
      | _ \<Rightarrow> oor f)"

fun float_ceil :: "float64 \<Rightarrow> float64" where
  "float_ceil (Fin q) = Fin (of_int \<lceil>q\<rceil>)" | "float_ceil f = f"

fun float_floor :: "float64 \<Rightarrow> float64" where
  "float_floor (Fin q) = Fin (of_int \<lfloor>q\<rfloor>)" | "float_floor f = f"

section \<open>Accuracy\<close>

lemma pow2_pos [simp]: "0 < pow2 e"
  by (simp add: pow2_def)

lemma pow2_nonzero [simp]: "pow2 e \<noteq> 0"
  using pow2_pos[of e] by linarith

lemma pow2_nat [simp]: "pow2 (int n) = 2 ^ n"
  by (simp add: pow2_def)

lemma pow2_add: "pow2 (a + b) = pow2 a * pow2 b"
proof -
  have eq: "(of_rat (pow2 e) :: real) = 2 powr of_int e" for e
    by (auto simp: pow2_def of_rat_power of_rat_divide powr_minus_divide
        simp flip: powr_realpow)
  have "(of_rat (pow2 (a + b)) :: real) = of_rat (pow2 a * pow2 b)"
    by (simp only: eq of_rat_mult of_int_add powr_add)
  then show ?thesis by (simp only: of_rat_eq_iff)
qed

lemma pow2_Suc: "pow2 (e + 1) = 2 * pow2 e"
  using pow2_add[of e 1] by (simp add: pow2_def)

lemma pow2_mono: "a \<le> b \<Longrightarrow> pow2 a \<le> pow2 b"
proof -
  assume "a \<le> b"
  then have "pow2 b = pow2 a * 2 ^ nat (b - a)"
    using pow2_add[of a "b - a"] by (simp add: pow2_def[of "b - a"])
  moreover have "pow2 a * 1 \<le> pow2 a * 2 ^ nat (b - a)"
    by (rule mult_left_mono) (simp_all add: less_imp_le)
  ultimately show ?thesis by simp
qed

lemma pow2_less_cancel: "pow2 a < pow2 b \<Longrightarrow> a < b"
  using pow2_mono[of b a] by linarith

lemma floorlog_pow2:
  assumes "0 < n"
  shows "pow2 (int (floorlog 2 n) - 1) \<le> of_nat n" and "of_nat n < pow2 (int (floorlog 2 n))"
proof -
  have b: "2 ^ (floorlog 2 n - 1) \<le> n \<and> n < 2 ^ floorlog 2 n"
    using assms floorlog_bounds[of n 2] by simp
  have p: "0 < floorlog 2 n" using assms by (simp add: floorlog_def)
  have "(2::rat) ^ (floorlog 2 n - 1) \<le> of_nat n"
    using b by (metis of_nat_le_iff of_nat_numeral of_nat_power)
  then show "pow2 (int (floorlog 2 n) - 1) \<le> of_nat n"
    using p pow2_nat[of "floorlog 2 n - 1"] by (simp add: of_nat_diff)
  have "of_nat n < (2::rat) ^ floorlog 2 n"
    using b by (metis of_nat_less_iff of_nat_numeral of_nat_power)
  then show "of_nat n < pow2 (int (floorlog 2 n))" by simp
qed

lemma flog2_bounds:
  assumes "0 < q"
  shows "pow2 (flog2 q) \<le> q" and "q < pow2 (flog2 q + 1)"
proof -
  obtain n d where nd: "quotient_of q = (n, d)" by fastforce
  then have d: "0 < d" and q: "q = of_int n / of_int d"
    using quotient_of_denom_pos quotient_of_div by blast+
  with assms have n: "0 < n" by (simp add: zero_less_divide_iff)
  let ?a = "int (floorlog 2 (nat n))" and ?b = "int (floorlog 2 (nat d))"
  have nb: "pow2 (?a - 1) \<le> of_int n" "of_int n < pow2 ?a"
    using floorlog_pow2[of "nat n"] n by simp_all
  have db: "pow2 (?b - 1) \<le> of_int d" "of_int d < pow2 ?b"
    using floorlog_pow2[of "nat d"] d by simp_all
  have "pow2 (?a - ?b - 1) * of_int d \<le> pow2 (?a - ?b - 1) * pow2 ?b"
    using db by (intro mult_left_mono) (simp_all add: less_imp_le)
  also have "\<dots> = pow2 (?a - ?b - 1 + ?b)" by (rule pow2_add[symmetric])
  also have "\<dots> = pow2 (?a - 1)" by simp
  finally have lo: "pow2 (?a - ?b - 1) \<le> q" using nb d by (simp add: q field_simps)
  have "pow2 ?a = pow2 (?a - ?b + 1 + (?b - 1))" by simp
  also have "\<dots> = pow2 (?a - ?b + 1) * pow2 (?b - 1)" by (rule pow2_add)
  also have "\<dots> \<le> pow2 (?a - ?b + 1) * of_int d"
    using db by (intro mult_left_mono) (simp_all add: less_imp_le)
  finally have "of_int n < pow2 (?a - ?b + 1) * of_int d" using nb(2) by linarith
  then have hi: "q < pow2 (?a - ?b + 1)" using d by (simp add: q pos_divide_less_eq)
  show "pow2 (flog2 q) \<le> q" and "q < pow2 (flog2 q + 1)"
    using lo hi by (simp_all add: flog2_def nd Let_def)
qed

lemma round_even_error: "\<bar>of_int (round_even x) - x\<bar> \<le> 1 / 2"
proof -
  have "of_int \<lfloor>x\<rfloor> \<le> x" and "x < of_int \<lfloor>x\<rfloor> + 1" by linarith+
  then show ?thesis by (auto simp: round_even_def Let_def abs_le_iff)
qed

lemma round_even_of_int [simp]: "round_even (of_int i) = i"
  by (simp add: round_even_def)

lemma round64_error: "\<bar>round64 q - q\<bar> \<le> pow2 (ulp_exp q) / 2"
proof (cases "q = 0")
  case False
  define u where "u = pow2 (ulp_exp q)"
  have u: "0 < u" by (simp add: u_def)
  have "\<bar>of_int (round_even (\<bar>q\<bar> / u)) - \<bar>q\<bar> / u\<bar> * u \<le> 1 / 2 * u"
    using round_even_error u by (intro mult_right_mono) simp_all
  moreover have "(of_int (round_even (\<bar>q\<bar> / u)) - \<bar>q\<bar> / u) * u = of_int (round_even (\<bar>q\<bar> / u)) * u - \<bar>q\<bar>"
    using u by (simp add: left_diff_distrib)
  ultimately have "\<bar>of_int (round_even (\<bar>q\<bar> / u)) * u - \<bar>q\<bar>\<bar> \<le> u / 2"
    using u abs_mult[of "of_int (round_even (\<bar>q\<bar> / u)) - \<bar>q\<bar> / u" u] by simp
  moreover have "round64 q - q = sgn q * (of_int (round_even (\<bar>q\<bar> / u)) * u - \<bar>q\<bar>)"
    using False by (simp add: round64_def u_def right_diff_distrib mult_sgn_abs)
  ultimately show ?thesis using False by (simp add: abs_mult u_def abs_sgn_eq)
qed (simp add: round64_def less_imp_le)

lemma ulp_exp_le:
  assumes "q \<noteq> 0" and "\<bar>q\<bar> < pow2 e" and "- 1021 \<le> e"
  shows "ulp_exp q \<le> e - 53"
proof -
  have "pow2 (flog2 \<bar>q\<bar>) \<le> \<bar>q\<bar>" using assms(1) by (intro flog2_bounds) simp
  with assms(2) have "pow2 (flog2 \<bar>q\<bar>) < pow2 e" by linarith
  then have "flog2 \<bar>q\<bar> < e" by (rule pow2_less_cancel)
  with assms(3) show ?thesis by (simp add: ulp_exp_def)
qed

lemma round64_of_int [simp]:
  assumes "\<bar>i\<bar> < 2 ^ 53"
  shows "round64 (of_int i) = of_int i"
proof (cases "i = 0")
  case False
  have "(of_int \<bar>i\<bar> :: rat) < of_int (2 ^ 53)" using assms by (simp only: of_int_less_iff)
  then have "\<bar>of_int i :: rat\<bar> < pow2 53" using pow2_nat[of 53] by simp
  then have e: "ulp_exp (of_int i) \<le> 0" using ulp_exp_le[of "of_int i" 53] False by simp
  define k where "k = nat (- ulp_exp (of_int i))"
  have p: "pow2 (ulp_exp (of_int i)) = 1 / 2 ^ k"
    using e by (cases "ulp_exp (of_int i) = 0") (auto simp: pow2_def k_def)
  have "\<bar>of_int i :: rat\<bar> / pow2 (ulp_exp (of_int i)) = of_int (\<bar>i\<bar> * 2 ^ k)" by (simp add: p)
  then have "round64 (of_int i) = sgn (of_int i) * (of_int (\<bar>i\<bar> * 2 ^ k) * (1 / 2 ^ k))"
    using False by (simp only: round64_def round_even_of_int p) simp
  also have "\<dots> = of_int i" by (simp add: mult_sgn_abs)
  finally show ?thesis .
qed (simp add: round64_def)

lemma round64_percent:
  assumes "\<bar>p\<bar> < 2 ^ 46"
  shows "\<lceil>round64 (of_int p / 100)\<rceil> = \<lceil>of_int p / 100 :: rat\<rceil>"
    and "\<lfloor>round64 (of_int p / 100)\<rfloor> = \<lfloor>of_int p / 100 :: rat\<rfloor>"
proof -
  define q :: rat where "q = of_int p / 100"
  have "\<lceil>round64 q\<rceil> = \<lceil>q\<rceil> \<and> \<lfloor>round64 q\<rfloor> = \<lfloor>q\<rfloor>"
  proof (cases "p mod 100 = 0")
    case True
    then obtain k where k: "p = 100 * k" by (metis mod_0_imp_dvd dvdE)
    then have "q = of_int k" by (simp add: q_def)
    moreover have "\<bar>k\<bar> < 2 ^ 53" using assms k by auto
    ultimately show ?thesis by simp
  next
    case False
    have "(of_int \<bar>p\<bar> :: rat) < of_int (2 ^ 46)" using assms by (simp only: of_int_less_iff)
    then have "\<bar>of_int p :: rat\<bar> < 2 ^ 46" by simp
    then have "\<bar>q\<bar> < pow2 46" using pow2_nat[of 46] by (simp add: q_def)
    moreover have "q \<noteq> 0" using False by (auto simp: q_def)
    ultimately have "ulp_exp q \<le> - 7" using ulp_exp_le[of q 46] by simp
    then have "pow2 (ulp_exp q) \<le> pow2 (- 7)" by (rule pow2_mono)
    then have err: "\<bar>round64 q - q\<bar> \<le> 1 / 256"
      using round64_error[of q] by (simp add: pow2_def[of "- 7"])
    obtain k r where p: "p = 100 * k + r" and r: "1 \<le> r" "r \<le> 99"
    proof
      show "p = 100 * (p div 100) + p mod 100" by simp
      show "1 \<le> p mod 100" and "p mod 100 \<le> 99"
        using False pos_mod_bound[of 100 p] pos_mod_sign[of 100 p] by linarith+
    qed
    have q: "q = of_int k + of_int r / 100" by (simp add: q_def p add_divide_distrib)
    have "(of_int 1 :: rat) \<le> of_int r" and "of_int r \<le> (of_int 99 :: rat)"
      using r by (simp_all only: of_int_le_iff)
    then have "of_int k + 1 / 100 \<le> q" and "q \<le> of_int k + 99 / 100"
      by (simp_all add: q)
    moreover from err have "q - 1 / 256 \<le> round64 q" and "round64 q \<le> q + 1 / 256" by linarith+
    ultimately have "\<lfloor>q\<rfloor> = k" "\<lfloor>round64 q\<rfloor> = k" "\<lceil>q\<rceil> = k + 1" "\<lceil>round64 q\<rceil> = k + 1"
      unfolding floor_eq_iff ceiling_eq_iff by auto
    then show ?thesis by simp
  qed
  then show "\<lceil>round64 (of_int p / 100)\<rceil> = \<lceil>of_int p / 100 :: rat\<rceil>"
    and "\<lfloor>round64 (of_int p / 100)\<rfloor> = \<lfloor>of_int p / 100 :: rat\<rfloor>" by (simp_all add: q_def)
qed

section \<open>Rounding and order\<close>

lemma round_even_ge: "of_int j \<le> x \<Longrightarrow> j \<le> round_even x"
  by (auto simp: round_even_def Let_def le_floor_iff intro: order_trans[of j "\<lfloor>x\<rfloor>"])

lemma round_even_le:
  assumes "x \<le> of_int j"
  shows "round_even x \<le> j"
proof (cases "x = of_int j")
  case False
  then have "\<lfloor>x\<rfloor> < j" using assms by (simp add: floor_less_iff)
  then show ?thesis by (auto simp: round_even_def Let_def)
qed simp

lemma round64_minus: "round64 (- q) = - round64 q"
  by (simp add: round64_def ulp_exp_def sgn_minus)

lemma round64_nonneg: "0 \<le> q \<Longrightarrow> 0 \<le> round64 q"
  using round_even_ge[of 0 "\<bar>q\<bar> / pow2 (ulp_exp q)"] by (simp add: round64_def less_imp_le)

lemma int_multiple: "e \<le> 0 \<Longrightarrow> of_int i = of_int (i * 2 ^ nat (- e)) * pow2 e"
  by (cases "e = 0") (auto simp: pow2_def)

text \<open>Rounding does not cross an integer below \<open>2 ^ 53\<close>.\<close>

lemma round64_ge_nat:
  assumes "0 \<le> i" and "i < 2 ^ 53" and "of_int i \<le> q"
  shows "of_int i \<le> round64 q"
proof (cases "0 < q")
  case True
  let ?e = "ulp_exp q"
  have r: "round64 q = of_int (round_even (q / pow2 ?e)) * pow2 ?e" using True by (simp add: round64_def)
  have mono: "of_int j * pow2 ?e \<le> round64 q" if "of_int j \<le> q / pow2 ?e" for j
    unfolding r using round_even_ge[OF that] by (intro mult_right_mono) (simp_all add: less_imp_le)
  show ?thesis
  proof (cases "?e \<le> 0")
    case e: True
    have "of_int (i * 2 ^ nat (- ?e)) * pow2 ?e \<le> q" using int_multiple[OF e, of i] assms(3) by metis
    then have "of_int (i * 2 ^ nat (- ?e)) \<le> q / pow2 ?e" by (simp only: pos_le_divide_eq[OF pow2_pos])
    from mono[OF this] show ?thesis using int_multiple[OF e, of i] by metis
  next
    case e: False
    then have f: "flog2 q = 52 + ?e" using True by (simp add: ulp_exp_def max_def split: if_splits)
    have "pow2 52 * pow2 ?e \<le> q" using flog2_bounds(1)[OF True] by (simp only: f pow2_add)
    then have "of_int (2 ^ 52) \<le> q / pow2 ?e" using pow2_nat[of 52] by (simp add: pos_le_divide_eq)
    from mono[OF this] have "of_int (2 ^ 52) * pow2 ?e \<le> round64 q" .
    moreover have "pow2 1 \<le> pow2 ?e" using e by (intro pow2_mono) simp
    then have "of_int (2 ^ 52) * 2 \<le> (of_int (2 ^ 52) * pow2 ?e :: rat)" by (intro mult_left_mono) (simp_all add: pow2_def)
    moreover have "(of_int i :: rat) \<le> of_int (2 ^ 53)" using assms(2) by (simp only: of_int_le_iff)
    ultimately show ?thesis by simp
  qed
next
  case False
  then have "q = 0" "i = 0" using assms by auto
  then show ?thesis by (simp add: round64_def)
qed

lemma round64_le_nat:
  assumes "0 \<le> i" and "i < 2 ^ 53" and "q \<le> of_int i"
  shows "round64 q \<le> of_int i"
proof (cases "0 < q")
  case True
  let ?e = "ulp_exp q"
  have "(of_int i :: rat) < of_int (2 ^ 53)" using assms(2) by (simp only: of_int_less_iff)
  then have "\<bar>q\<bar> < pow2 53" using assms(3) True pow2_nat[of 53] by simp
  then have e: "?e \<le> 0" using ulp_exp_le[of q 53] True by simp
  have r: "round64 q = of_int (round_even (q / pow2 ?e)) * pow2 ?e" using True by (simp add: round64_def)
  have "q \<le> of_int (i * 2 ^ nat (- ?e)) * pow2 ?e" using int_multiple[OF e, of i] assms(3) by metis
  then have "q / pow2 ?e \<le> of_int (i * 2 ^ nat (- ?e))" by (simp only: pos_divide_le_eq[OF pow2_pos])
  from round_even_le[OF this] have "round64 q \<le> of_int (i * 2 ^ nat (- ?e)) * pow2 ?e"
    unfolding r by (intro mult_right_mono) (simp_all only: of_int_le_iff, simp add: less_imp_le)
  then show ?thesis using int_multiple[OF e, of i] by metis
next
  case False
  then have "0 \<le> round64 (- q)" by (intro round64_nonneg) simp
  then have "round64 q \<le> 0" by (simp add: round64_minus)
  moreover have "(0 :: rat) \<le> of_int i" using assms(1) by simp
  ultimately show ?thesis by linarith
qed

lemma round64_ge_int: "\<bar>i\<bar> < 2 ^ 53 \<Longrightarrow> of_int i \<le> q \<Longrightarrow> of_int i \<le> round64 q"
  using round64_ge_nat[of i q] round64_le_nat[of "- i" "- q"] by (cases "0 \<le> i") (simp_all add: round64_minus)

lemma round64_le_int: "\<bar>i\<bar> < 2 ^ 53 \<Longrightarrow> q \<le> of_int i \<Longrightarrow> round64 q \<le> of_int i"
  using round64_le_nat[of i q] round64_ge_nat[of "- i" "- q"] by (cases "0 \<le> i") (simp_all add: round64_minus)

lemma fl_between:
  assumes "of_int a \<le> q" and "q \<le> of_int b" and "\<bar>a\<bar> < 2 ^ 53" and "\<bar>b\<bar> < 2 ^ 53"
  obtains v where "fl q = Fin v" and "of_int a \<le> v" and "v \<le> of_int b"
proof -
  have v: "of_int a \<le> round64 q" "round64 q \<le> of_int b"
    using round64_ge_int[OF assms(3,1)] round64_le_int[OF assms(4,2)] by simp_all
  have "(2 :: rat) ^ 53 < 2 ^ 1024" by (rule power_strict_increasing) simp_all
  moreover have "(of_int b :: rat) < of_int (2 ^ 53)" "of_int (- (2 ^ 53)) < (of_int a :: rat)"
    using assms(3,4) by (simp_all only: of_int_less_iff)
  ultimately have "fl q = Fin (round64 q)" using v by (simp add: fl_def Let_def)
  with v that show ?thesis by blast
qed

end
