(* ===== verification/IntStr.thy ===== *)
theory IntStr
  imports Float64 Go_Strings
begin

text \<open>
  \<open>IntOrString\<close> and its scaling to an absolute number, from the vendored
  \<open>k8s.io/apimachinery/pkg/util/intstr\<close>. A value is an \<open>int32\<close> or a string (the \<open>Type\<close> tag has
  no third value for objects decoded from JSON or built by the constructors). Percentages are
  scaled through \<open>float64\<close>; \<open>scaled_percent\<close> shows that the result is the exact rounded
  percentage for every frequency or CPU count that occurs.
\<close>

datatype IntOrString = IntV int | StrV string

fun IntVal :: "IntOrString \<Rightarrow> int" where
  "IntVal (IntV i) = i" | "IntVal (StrV s) = 0"

fun is_IntV :: "IntOrString \<Rightarrow> bool" where
  "is_IntV (IntV i) = True" | "is_IntV (StrV s) = False"

definition FromInt :: "int \<Rightarrow> IntOrString" where
  "FromInt v = IntV (to_int32 v)"

definition FromString :: "string \<Rightarrow> IntOrString" where
  "FromString s = StrV s"

definition IntOrString_String :: "IntOrString \<Rightarrow> string" where
  "IntOrString_String x = (case x of StrV s \<Rightarrow> s | IntV i \<Rightarrow> Itoa i)"

fun getIntOrPercentValueSafely :: "IntOrString \<Rightarrow> (int \<times> bool) res" where
  "getIntOrPercentValueSafely (IntV i) = Ok (i, False)"
| "getIntOrPercentValueSafely (StrV s) =
     (if HasSuffix s ''%'' then
        (case Atoi (TrimSuffix s ''%'') of
           None \<Rightarrow> Error (Errorf (''invalid value '' @ s @ '': '' @ err_msg (atoi_err (TrimSuffix s ''%''))))
         | Some v \<Rightarrow> Ok (v, True))
      else Error (Errorf ''invalid type: string is not a percentage''))"

definition scale_percent :: "(float64 \<Rightarrow> int) \<Rightarrow> int \<Rightarrow> int \<Rightarrow> bool \<Rightarrow> int" where
  "scale_percent oor v tot roundUp =
     (let q = fdiv (fmul (float_of_int v) (float_of_int tot)) (float_of_int 100)
      in float_to_int oor (if roundUp then float_ceil q else float_floor q))"

definition GetScaledValueFromIntOrPercent ::
  "(float64 \<Rightarrow> int) \<Rightarrow> IntOrString \<Rightarrow> int \<Rightarrow> bool \<Rightarrow> int res" where
  "GetScaledValueFromIntOrPercent oor x tot roundUp =
     (case getIntOrPercentValueSafely x of
        Error e \<Rightarrow> Error (Errorf (''invalid value for IntOrString: '' @ err_msg e))
      | Panic m \<Rightarrow> Panic m
      | Ok (v, isPercent) \<Rightarrow> Ok (if isPercent then scale_percent oor v tot roundUp else v))"

section \<open>Exactness of scaling\<close>

lemma fl_id:
  assumes "\<bar>q\<bar> < 2 ^ 53" and "round64 q = v" and "\<bar>v\<bar> \<le> 2 ^ 53"
  shows "fl q = Fin v"
proof -
  have "(2::rat) ^ 53 < 2 ^ 1024" by (rule power_strict_increasing) simp_all
  with assms show ?thesis by (simp only: fl_def Let_def) (auto simp: abs_le_iff)
qed

lemma fl_of_int [simp]: "\<bar>i\<bar> < 2 ^ 53 \<Longrightarrow> fl (of_int i) = Fin (of_int i)"
proof -
  assume i: "\<bar>i\<bar> < 2 ^ 53"
  then have "(of_int \<bar>i\<bar> :: rat) < of_int (2 ^ 53)" by (simp only: of_int_less_iff)
  with i show ?thesis by (intro fl_id) simp_all
qed

lemma round64_percent_bound: "\<bar>p\<bar> < 2 ^ 46 \<Longrightarrow> \<bar>round64 (of_int p / 100)\<bar> \<le> 2 ^ 53"
proof -
  assume p: "\<bar>p\<bar> < 2 ^ 46"
  let ?v = "round64 (of_int p / 100)"
  have "(of_int \<bar>p\<bar> :: rat) < of_int (2 ^ 46)" using p by (simp only: of_int_less_iff)
  then have "\<bar>of_int p / 100 :: rat\<bar> < 2 ^ 46" by simp
  then have "\<lceil>of_int p / 100 :: rat\<rceil> \<le> 2 ^ 46" and "- (2 ^ 46) \<le> \<lfloor>of_int p / 100 :: rat\<rfloor>"
    by (simp_all add: ceiling_le_iff le_floor_iff abs_less_iff)
  then have "\<lceil>?v\<rceil> \<le> 2 ^ 46" and "- (2 ^ 46) \<le> \<lfloor>?v\<rfloor>" using round64_percent[OF p] by simp_all
  then have "?v \<le> 2 ^ 46" and "- (2 ^ 46) \<le> ?v" by (simp_all add: ceiling_le_iff le_floor_iff)
  then show ?thesis by (simp add: abs_le_iff)
qed

lemma scale_percent_exact:
  assumes "\<bar>v\<bar> < 2 ^ 46" and "\<bar>t\<bar> < 2 ^ 46" and "\<bar>v * t\<bar> < 2 ^ 46"
  shows "scale_percent oor v t True = \<lceil>of_int (v * t) / 100 :: rat\<rceil>"
    and "scale_percent oor v t False = \<lfloor>of_int (v * t) / 100 :: rat\<rfloor>"
proof -
  let ?q = "of_int (v * t) / 100 :: rat"
  have "(of_int \<bar>v * t\<bar> :: rat) < of_int (2 ^ 46)" using assms(3) by (simp only: of_int_less_iff)
  then have qb: "\<bar>?q\<bar> < 2 ^ 46" by simp
  have f: "fdiv (fmul (float_of_int v) (float_of_int t)) (float_of_int 100) = Fin (round64 ?q)"
  proof -
    have "fmul (float_of_int v) (float_of_int t) = fl (of_int (v * t))"
      using assms by (simp add: float_of_int_def)
    also have "\<dots> = Fin (of_int (v * t))" using assms(3) by (intro fl_of_int) simp
    finally have m: "fmul (float_of_int v) (float_of_int t) = Fin (of_int (v * t))" .
    have h: "float_of_int 100 = Fin 100" using fl_of_int[of 100] by (simp add: float_of_int_def)
    have "fl ?q = Fin (round64 ?q)"
      using qb round64_percent_bound[OF assms(3)] by (intro fl_id) simp_all
    then show ?thesis by (simp only: m h) simp
  qed
  have c: "\<lceil>?q\<rceil> \<le> 2 ^ 46" "- (2 ^ 46) \<le> \<lceil>?q\<rceil>" "\<lfloor>?q\<rfloor> \<le> 2 ^ 46" "- (2 ^ 46) \<le> \<lfloor>?q\<rfloor>"
    using qb by (auto simp only: abs_less_iff) (linarith | simp add: ceiling_le_iff le_floor_iff)+
  show "scale_percent oor v t True = \<lceil>?q\<rceil>"
    using c round64_percent(1)[OF assms(3)]
    by (simp only: scale_percent_def f Let_def if_True float_ceil.simps) (simp add: float_to_int_def trunc_def)
  show "scale_percent oor v t False = \<lfloor>?q\<rfloor>"
    using c round64_percent(2)[OF assms(3)]
    by (simp only: scale_percent_def f Let_def if_False float_floor.simps) (simp add: float_to_int_def trunc_def)
qed

lemma GetScaled_percent:
  assumes "Atoi s = Some v" and "\<bar>v\<bar> < 2 ^ 46" and "\<bar>t\<bar> < 2 ^ 46" and "\<bar>v * t\<bar> < 2 ^ 46"
  shows "GetScaledValueFromIntOrPercent oor (StrV (s @ ''%'')) t True = Ok \<lceil>of_int (v * t) / 100 :: rat\<rceil>"
    and "GetScaledValueFromIntOrPercent oor (StrV (s @ ''%'')) t False = Ok \<lfloor>of_int (v * t) / 100 :: rat\<rfloor>"
  using assms HasSuffix_append[of s "''%''"] TrimSuffix_append[of s "''%''"]
  by (simp_all add: GetScaledValueFromIntOrPercent_def scale_percent_exact del: of_int_mult)

end
