(* ===== verification/Go_Slices.thy ===== *)
theory Go_Slices
  imports Go_Prelude
begin

text \<open>
  Slices as the library uses them: \<open>IndexOf\<close> loops, removal of an element by overwriting it
  with the last one and shrinking, and range loops over a slice whose body removes elements
  from the same backing array, either by shifting the tail or by overwriting with the last
  element. These sections make the aliasing explicit (a backing array, a length that shrinks, an
  index that does not look at it) and show when such a loop visits exactly the elements the slice
  held when the loop started.
\<close>

section \<open>Searching and removing\<close>

text \<open>\<open>IndexOf\<close>: the index of the first occurrence, or \<open>-1\<close> when there is none.\<close>

fun index_from :: "int \<Rightarrow> 'a list \<Rightarrow> 'a \<Rightarrow> int" where
  "index_from i [] x = - 1"
| "index_from i (y # ys) x = (if y = x then i else index_from (i + 1) ys x)"

definition IndexOf :: "'a list \<Rightarrow> 'a \<Rightarrow> int" where
  "IndexOf xs x = index_from 0 xs x"

text \<open>
  \<open>(*xs)[index] = (*xs)[size]; *xs = (*xs)[:size]\<close> with \<open>size = len(*xs) - 1\<close>; \<open>None\<close> when the
  element is not in the slice.
\<close>

definition swap_remove :: "'a list \<Rightarrow> 'a \<Rightarrow> 'a list option" where
  "swap_remove xs x =
     (let index = IndexOf xs x in
      if index < 0 then None
      else (let size = length xs - 1 in Some (take size (xs[nat index := xs ! size]))))"

lemma index_from_neg: "0 \<le> i \<Longrightarrow> index_from i xs x < 0 \<longleftrightarrow> x \<notin> set xs"
  by (induction i xs x rule: index_from.induct) auto

lemma index_from_pos:
  "x \<in> set xs \<Longrightarrow> 0 \<le> i \<Longrightarrow>
   \<exists>k < length xs. index_from i xs x = i + int k \<and> xs ! k = x \<and> (\<forall>j < k. xs ! j \<noteq> x)"
proof (induction i xs x rule: index_from.induct)
  case (2 i y ys x)
  show ?case
  proof (cases "y = x")
    case False
    with 2 obtain k where "k < length ys" "index_from (i + 1) ys x = i + 1 + int k" "ys ! k = x"
      "\<forall>j < k. ys ! j \<noteq> x" by auto
    with False show ?thesis
      by (intro exI[of _ "Suc k"]) (auto simp: less_Suc_eq_0_disj)
  qed auto
qed simp

lemma IndexOf_neg [go_slices]: "IndexOf xs x < 0 \<longleftrightarrow> x \<notin> set xs"
  by (simp add: IndexOf_def index_from_neg)

lemma IndexOf_pos [go_slices]:
  assumes "x \<in> set xs"
  obtains k where "IndexOf xs x = int k" and "k < length xs" and "xs ! k = x"
    and "\<forall>j < k. xs ! j \<noteq> x"
  using index_from_pos[OF assms, of 0] by (auto simp: IndexOf_def)

lemma IndexOf_ge: "0 \<le> IndexOf xs x \<longleftrightarrow> x \<in> set xs"
  using IndexOf_neg[of xs x] by linarith

lemma swap_remove_None [go_slices]: "swap_remove xs x = None \<longleftrightarrow> x \<notin> set xs"
  by (simp add: swap_remove_def Let_def IndexOf_neg)

lemma mset_swap_remove [go_slices]:
  assumes "swap_remove xs x = Some ys"
  shows "mset xs = add_mset x (mset ys)"
proof -
  from assms swap_remove_None[of xs x] have "x \<in> set xs" by auto
  then obtain k where k: "IndexOf xs x = int k" "k < length xs" "xs ! k = x" by (rule IndexOf_pos)
  define n where "n = length xs - 1"
  have n: "n < length xs" "length xs = Suc n" using k(2) by (auto simp: n_def)
  have ys: "ys = take n (xs[k := xs ! n])"
    using assms k by (simp add: swap_remove_def n_def Let_def)
  have "xs[k := xs ! n] = ys @ [xs[k := xs ! n] ! n]"
    using n(2) ys by (metis Cons_nth_drop_Suc append_take_drop_id drop_all length_list_update lessI nth_append_length order_refl)
  moreover have "xs[k := xs ! n] ! n = xs ! n" using k(2) by (cases "k = n") simp_all
  ultimately have "mset (xs[k := xs ! n]) = add_mset (xs ! n) (mset ys)"
    by (metis add_mset_add_single mset.simps(1) mset.simps(2) mset_append)
  moreover have "mset (xs[k := xs ! n]) = add_mset (xs ! n) (mset xs - {#x#})"
    using k mset_update[of k xs "xs ! n"] by simp
  ultimately have "mset ys = mset xs - {#x#}" by simp
  then show ?thesis using \<open>x \<in> set xs\<close> by simp
qed

lemma swap_remove_distinct [go_slices]:
  assumes "swap_remove xs x = Some ys" and "distinct xs"
  shows "distinct ys \<and> set ys = set xs - {x}"
proof -
  have m: "mset xs = add_mset x (mset ys)" by (rule mset_swap_remove[OF assms(1)])
  have "distinct (x # ys)"
    using assms(2) m by (metis distinct_count_atmost_1 mset.simps(2) mset_eq_setD)
  moreover have "set xs = insert x (set ys)" using m by (metis mset.simps(2) list.set(2) set_mset_mset)
  ultimately show ?thesis by auto
qed

lemma swap_remove_Some [go_slices]: "x \<in> set xs \<Longrightarrow> \<exists>ys. swap_remove xs x = Some ys"
  using swap_remove_None by fastforce

section \<open>Deleting by shifting while ranging over the same backing array\<close>

text \<open>
  \<open>for i, x := range s { if match(x) { s = append(s[:i], s[i+1:]...) } }\<close>, with no break: the loop
  runs over the \<open>n\<close> slots the slice had at the start, while each deletion shifts the tail of the
  shared backing array to the left and shortens \<open>s\<close>. Reading \<open>s[i+1:]\<close> with \<open>i + 1\<close> beyond the
  current length panics (\<open>None\<close>).
\<close>

definition arr_delete :: "nat \<Rightarrow> 'a list \<Rightarrow> nat \<Rightarrow> 'a list \<times> nat" where
  "arr_delete i arr len =
     (take i arr @ take (len - Suc i) (drop (Suc i) arr) @ drop (len - 1) arr, len - 1)"

function range_delete :: "('a \<Rightarrow> bool) \<Rightarrow> nat \<Rightarrow> nat \<Rightarrow> 'a list \<Rightarrow> nat \<Rightarrow> 'a list option" where
  "range_delete match i n arr len =
     (if i < n then
        (if match (arr ! i) then
           (if len < Suc i then None
            else (case arr_delete i arr len of
                    (arr', len') \<Rightarrow> range_delete match (Suc i) n arr' len'))
         else range_delete match (Suc i) n arr len)
      else Some (take len arr))"
  by pat_completeness auto
termination
  by (relation "measure (\<lambda>(match, i, n, arr, len). n - i)") auto

declare range_delete.simps [simp del]

lemma range_delete_no_match:
  "(\<And>j. i \<le> j \<Longrightarrow> j < n \<Longrightarrow> \<not> match (arr ! j)) \<Longrightarrow> range_delete match i n arr len = Some (take len arr)"
proof (induction "n - i" arbitrary: i)
  case 0
  then show ?case by (simp add: range_delete.simps)
next
  case (Suc m)
  then show ?case by (subst range_delete.simps) simp
qed

lemma range_delete_skip:
  "i \<le> k \<Longrightarrow> k \<le> n \<Longrightarrow> (\<And>j. i \<le> j \<Longrightarrow> j < k \<Longrightarrow> \<not> match (arr ! j)) \<Longrightarrow>
   range_delete match i n arr len = range_delete match k n arr len"
proof (induction "k - i" arbitrary: i)
  case (Suc m)
  then have "i < n" and "\<not> match (arr ! i)" by simp_all
  then have "range_delete match i n arr len = range_delete match (Suc i) n arr len"
    by (subst range_delete.simps) simp
  also have "\<dots> = range_delete match k n arr len" using Suc by simp
  finally show ?case .
qed simp

lemma range_delete_unique:
  assumes "\<And>i j. i < length xs \<Longrightarrow> j < length xs \<Longrightarrow> match (xs ! i) \<Longrightarrow> match (xs ! j) \<Longrightarrow> i = j"
  shows "range_delete match 0 (length xs) xs (length xs) = Some (filter (\<lambda>x. \<not> match x) xs)"
proof (cases "\<exists>k < length xs. match (xs ! k)")
  case False
  then have "filter (\<lambda>x. \<not> match x) xs = xs" by (auto simp: in_set_conv_nth intro!: filter_True)
  then show ?thesis using False by (subst range_delete_no_match) auto
next
  case True
  then obtain k where k: "k < length xs" "match (xs ! k)" by blast
  with assms have other: "\<not> match (xs ! j)" if "j < length xs" "j \<noteq> k" for j using that by blast
  obtain arr len where del: "arr_delete k xs (length xs) = (arr, len)" by fastforce
  with k have arr: "arr = take k xs @ drop (Suc k) xs @ drop (length xs - 1) xs"
    and len: "len = length xs - 1" by (auto simp: arr_delete_def)
  have "range_delete match 0 (length xs) xs (length xs) = range_delete match k (length xs) xs (length xs)"
    by (rule range_delete_skip) (use k other in auto)
  also have "\<dots> = range_delete match (Suc k) (length xs) arr len"
    using k del by (subst range_delete.simps) simp
  also have "\<dots> = Some (take len arr)"
  proof (rule range_delete_no_match)
    fix j assume j: "Suc k \<le> j" "j < length xs"
    have "arr ! j = xs ! (if j < length xs - 1 then Suc j else j)"
    proof (cases "j < length xs - 1")
      case True
      with j show ?thesis by (auto simp: arr nth_append min_def)
    next
      case False
      with j have "j = length xs - 1" by simp
      with j show ?thesis by (simp add: arr nth_append)
    qed
    moreover have "(if j < length xs - 1 then Suc j else j) < length xs"
      and "(if j < length xs - 1 then Suc j else j) \<noteq> k" using j by auto
    ultimately show "\<not> match (arr ! j)" using other by metis
  qed
  also have "take len arr = take k xs @ drop (Suc k) xs"
  proof (cases "k = length xs - 1")
    case False
    with k have "k < length xs - 1" by simp
    then show ?thesis by (simp add: arr len min_def)
  qed (use k in \<open>simp add: arr len\<close>)
  also have "\<dots> = filter (\<lambda>x. \<not> match x) xs"
  proof -
    have "filter (\<lambda>x. \<not> match x) (take k xs) = take k xs"
      using other k by (intro filter_True) (auto simp: in_set_conv_nth)
    moreover have "filter (\<lambda>x. \<not> match x) (drop (Suc k) xs) = drop (Suc k) xs"
      using other k by (intro filter_True) (auto simp: in_set_conv_nth)
    moreover have "xs = take k xs @ xs ! k # drop (Suc k) xs" by (rule id_take_nth_drop[OF k(1)])
    ultimately show ?thesis using k(2) by (metis (no_types, lifting) filter.simps(2) filter_append)
  qed
  finally show ?thesis .
qed

section \<open>Range loops whose body shrinks the slice behind the pointer\<close>

text \<open>
  \<open>for _, x := range *xs { body }\<close>, where the body may remove elements from the slice that \<open>xs\<close>
  points to. The slice lives in the state (\<open>view s\<close>) and is always a prefix of the backing array;
  the loop reads slot \<open>i\<close> of the array for the \<open>n\<close> slots of the header it started with. \<open>overlay\<close> is
  the array after the body has rewritten the prefix.
\<close>

definition overlay :: "'a list \<Rightarrow> 'a list \<Rightarrow> 'a list" where
  "overlay ys arr = ys @ drop (length ys) arr"

function range_alias ::
  "('s \<Rightarrow> 'a list) \<Rightarrow> ('a \<Rightarrow> 's \<Rightarrow> 's \<times> unit res) \<Rightarrow> nat \<Rightarrow> nat \<Rightarrow> 'a list \<Rightarrow> 's \<Rightarrow> 's \<times> unit res" where
  "range_alias view body i n arr s =
     (if i < n then
        (case body (arr ! i) s of
           (s', Ok _) \<Rightarrow> range_alias view body (Suc i) n (overlay (view s') arr) s'
         | (s', Error e) \<Rightarrow> (s', Error e)
         | (s', Panic m) \<Rightarrow> (s', Panic m))
      else (s, Ok ()))"
  by pat_completeness auto
termination
  by (relation "measure (\<lambda>(view, body, i, n, arr, s). n - i)") auto

declare range_alias.simps [simp del]

definition range_slice :: "('s \<Rightarrow> 'a list) \<Rightarrow> ('a \<Rightarrow> 's \<Rightarrow> 's \<times> unit res) \<Rightarrow> 's \<Rightarrow> 's \<times> unit res" where
  "range_slice view body s = range_alias view body 0 (length (view s)) (view s) s"

lemma overlay_remove:
  assumes sr: "swap_remove ys x = Some ys'" and pre: "take (length ys) arr = ys"
    and d: "distinct xs" and i: "i < length xs" and la: "length arr = length xs"
    and da: "drop i arr = drop i xs" and x: "x = xs ! i"
  shows "drop (Suc i) (overlay ys' arr) = drop (Suc i) xs" and "length (overlay ys' arr) = length xs"
proof -
  have "x \<in> set ys" using sr swap_remove_None[of ys x] by auto
  then obtain k where k: "IndexOf ys x = int k" "k < length ys" "ys ! k = x" by (rule IndexOf_pos)
  have le: "length ys \<le> length arr" using arg_cong[OF pre, of length] by simp
  have ak: "arr ! k = x" using k pre by (metis nth_take)
  have "k \<le> i"
  proof (rule ccontr)
    assume ki: "\<not> k \<le> i"
    have "arr ! k = drop i arr ! (k - i)" using ki k(2) le by simp
    also have "\<dots> = xs ! k" using ki da i la by (simp add: nth_drop)
    finally have "xs ! k = xs ! i" using ak x by simp
    with d i k(2) le la ki show False by (simp add: nth_eq_iff_index_eq)
  qed
  let ?n = "length ys - 1"
  have ys': "ys' = take ?n (ys[k := ys ! ?n])" using sr k by (simp add: swap_remove_def Let_def)
  have eq: "overlay ys' arr = arr[k := arr ! ?n]"
  proof (rule nth_equalityI)
    show len: "length (overlay ys' arr) = length (arr[k := arr ! ?n])"
      using k(2) le by (simp add: overlay_def ys')
    have yn: "ys ! ?n = arr ! ?n" using pre k(2) by (metis diff_less less_nat_zero_code linorder_neqE_nat nth_take zero_less_one)
    fix j assume "j < length (overlay ys' arr)"
    then have j: "j < length arr" using len by simp
    have lys: "length ys' = ?n" by (simp add: ys')
    show "overlay ys' arr ! j = arr[k := arr ! ?n] ! j"
    proof (cases "j < ?n")
      case True
      then have "overlay ys' arr ! j = ys[k := arr ! ?n] ! j" using yn by (simp add: overlay_def nth_append ys')
      also have "\<dots> = arr[k := arr ! ?n] ! j"
      proof (cases "j = k")
        case False
        have "ys ! j = arr ! j" using pre True by (metis less_diff_conv less_imp_diff_less nth_take add_lessD1)
        then show ?thesis using False by simp
      qed (use j k(2) in simp)
      finally show ?thesis .
    next
      case False
      then have "overlay ys' arr ! j = arr ! j" using j lys by (simp add: overlay_def nth_append)
      moreover have "arr[k := arr ! ?n] ! j = arr ! j"
        using False k(2) j by (cases "j = k") (auto simp: nth_list_update intro: arg_cong[of _ _ "nth arr"])
      ultimately show ?thesis by simp
    qed
  qed
  show "drop (Suc i) (overlay ys' arr) = drop (Suc i) xs"
    unfolding eq using \<open>k \<le> i\<close> da by (metis drop_Suc drop_tl drop_update_cancel le_imp_less_Suc)
  show "length (overlay ys' arr) = length xs" unfolding eq using la by simp
qed

text \<open>
  The contract of such a body: it removes nothing, or the element it was given, by \<open>swap_remove\<close>.
  Then the loop is a loop over the elements the slice held at its start.
\<close>

locale shrinking_body =
  fixes view :: "'s \<Rightarrow> 'a list" and body :: "'a \<Rightarrow> 's \<Rightarrow> 's \<times> unit res" and inv :: "'s \<Rightarrow> bool"
  assumes view_distinct: "inv s \<Longrightarrow> distinct (view s)"
    and body_inv: "inv s \<Longrightarrow> x \<in> set (view s) \<Longrightarrow> body x s = (s', Ok ()) \<Longrightarrow> inv s'"
    and body_view: "inv s \<Longrightarrow> x \<in> set (view s) \<Longrightarrow> body x s = (s', Ok ()) \<Longrightarrow>
      view s' = view s \<or> swap_remove (view s) x = Some (view s')"
begin

lemma range_alias_foreach:
  assumes "inv s" and "distinct xs" and "length arr = length xs" and "i \<le> length xs"
    and "drop i arr = drop i xs" and "take (length (view s)) arr = view s" and "set (drop i xs) \<subseteq> set (view s)"
  shows "range_alias view body i (length xs) arr s = foreach body (drop i xs) s"
  using assms
proof (induction "length xs - i" arbitrary: i arr s)
  case 0
  then show ?case by (simp add: range_alias.simps)
next
  case (Suc m)
  then have i: "i < length xs" by simp
  have d: "drop i xs = xs ! i # drop (Suc i) xs" by (rule Cons_nth_drop_Suc[OF i, symmetric])
  have ai: "arr ! i = xs ! i" using Suc.prems(3,5) i by (metis hd_drop_conv_nth)
  have x: "xs ! i \<in> set (view s)" using Suc.prems(7) d by auto
  obtain s' r where b: "body (xs ! i) s = (s', r)" by (cases "body (xs ! i) s")
  show ?case
  proof (cases r)
    case (Ok u)
    then have b': "body (xs ! i) s = (s', Ok ())" using b by simp
    let ?arr = "overlay (view s') arr"
    have inv': "inv s'" by (rule body_inv[OF Suc.prems(1) x b'])
    consider "view s' = view s" | "swap_remove (view s) (xs ! i) = Some (view s')"
      using body_view[OF Suc.prems(1) x b'] by blast
    then have a: "drop (Suc i) ?arr = drop (Suc i) xs \<and> length ?arr = length xs \<and>
        set (drop (Suc i) xs) \<subseteq> set (view s')"
    proof cases
      case 1
      have "?arr = arr" using 1 Suc.prems(6) by (metis append_take_drop_id overlay_def)
      moreover have "drop (Suc i) arr = drop (Suc i) xs"
        using Suc.prems(5) by (metis drop_Suc drop_tl)
      ultimately show ?thesis using 1 Suc.prems(3,7) d by auto
    next
      case 2
      have "xs ! i \<notin> set (drop (Suc i) xs)" using Suc.prems(2) d by (metis distinct.simps(2) distinct_drop)
      moreover have "set (view s') = set (view s) - {xs ! i}"
        using swap_remove_distinct[OF 2 view_distinct[OF Suc.prems(1)]] by simp
      ultimately have "set (drop (Suc i) xs) \<subseteq> set (view s')" using Suc.prems(7) d by auto
      then show ?thesis
        using overlay_remove[OF 2 Suc.prems(6,2) i Suc.prems(3,5) refl] by blast
    qed
    have "range_alias view body (Suc i) (length xs) ?arr s' = foreach body (drop (Suc i) xs) s'"
      by (rule Suc.hyps(1)) (use Suc.hyps(2) i inv' Suc.prems(2) a in \<open>auto simp: overlay_def\<close>)
    then show ?thesis using i b' ai d by (subst range_alias.simps) simp
  next
    case (Error e)
    then show ?thesis using i b ai d by (subst range_alias.simps) simp
  next
    case (Panic k)
    then show ?thesis using i b ai d by (subst range_alias.simps) simp
  qed
qed

lemma range_slice_foreach: "inv s \<Longrightarrow> range_slice view body s = foreach body (view s) s"
  unfolding range_slice_def by (subst range_alias_foreach) (auto simp: view_distinct)

end

end
