(* ===== verification/Power_Base.thy ===== *)
theory Power_Base
  imports IntStr Go_Slices
begin

text \<open>
  The base of the power optimization library (\<open>power-optimization-library/pkg/power\<close>): the
  operating system it reads and writes, the package variables it fills at start, the data of
  profiles, and the reading helpers of \<open>power.go\<close> and \<open>cpu.go\<close>.

  \<open>env\<close> is what the run does not determine: which system calls fail (by the number of the
  call, so that a call may fail once and succeed later), what a directory lists, the order in
  which \<open>range\<close> enumerates a map, the number of CPUs the Go runtime reports, the conversion of an
  out-of-range \<open>float64\<close>. \<open>sys\<close> is the file system as far as the library sees it. A failed
  write leaves the file as it was.
\<close>

section \<open>Operating system\<close>

record sys =
  files :: "string \<rightharpoonup> string"
  clock :: nat

record env =
  write_fault :: "nat \<Rightarrow> string \<Rightarrow> string \<Rightarrow> err option"
  read_fault :: "nat \<Rightarrow> string \<Rightarrow> err option"
  dir_list :: "nat \<Rightarrow> string \<Rightarrow> (string \<times> bool) list res"
  map_order :: "nat \<Rightarrow> (string \<times> bool) list \<Rightarrow> (string \<times> bool) list"
  numCPU :: nat
  float_oor :: "float64 \<Rightarrow> int"

text \<open>\<open>range\<close> over a map visits every entry once.\<close>

definition env_ok :: "env \<Rightarrow> bool" where
  "env_ok env = (\<forall>n xs. mset (map_order env n xs) = mset xs)"

definition WriteFile :: "env \<Rightarrow> string \<Rightarrow> string \<Rightarrow> sys \<Rightarrow> sys \<times> unit res" where
  "WriteFile env p c sy =
     (let sy' = sy\<lparr>clock := Suc (clock sy)\<rparr>
      in case write_fault env (clock sy) p c of
           Some e \<Rightarrow> (sy', Error e)
         | None \<Rightarrow> (sy'\<lparr>files := (files sy')(p \<mapsto> c)\<rparr>, Ok ()))"

definition not_exist :: "string \<Rightarrow> err" where
  "not_exist p = NotExist (''open '' @ p @ '': no such file or directory'')"

fun IsNotExist :: "err \<Rightarrow> bool" where
  "IsNotExist (NotExist m) = True" | "IsNotExist _ = False"

definition readStringFromFile :: "env \<Rightarrow> string \<Rightarrow> sys \<Rightarrow> sys \<times> string res" where
  "readStringFromFile env p sy =
     (sy\<lparr>clock := Suc (clock sy)\<rparr>,
      case read_fault env (clock sy) p of
        Some e \<Rightarrow> Error e
      | None \<Rightarrow> (case files sy p of None \<Rightarrow> Error (not_exist p) | Some c \<Rightarrow> Ok c))"

definition parse_uint_value :: "string \<Rightarrow> nat res" where
  "parse_uint_value c =
     (case Atoi (TrimSuffix c [CHR 0x0A]) of
        None \<Rightarrow> Error (atoi_err (TrimSuffix c [CHR 0x0A]))
      | Some v \<Rightarrow>
          if v < 0 then Error (Errorf ''unexpected negative value when expecting uint'')
          else Ok (nat v))"

definition readUintFromFile :: "env \<Rightarrow> string \<Rightarrow> sys \<Rightarrow> sys \<times> nat res" where
  "readUintFromFile env p sy =
     then_do (readStringFromFile env p sy) (\<lambda>c sy. (sy, parse_uint_value c))"

section \<open>Profiles, features and package variables\<close>

record pstates =
  minFreq :: IntOrString
  maxFreq :: IntOrString
  epp :: string
  governor :: string

record cstates =
  states :: "(string \<times> bool) list"
  maxLatencyUs :: "int option"

record profile =
  prof_name :: string
  prof_pstates :: pstates
  prof_cstates :: cstates

record cstateInfo =
  StateNumber :: int
  Latency :: int
  DefaultStatus :: bool

datatype featureID = FrequencyScalingFeature | EPPFeature | CStatesFeature | UncoreFeature

record featureStatus =
  fs_name :: string
  fs_driver :: string
  fs_err :: "err option"

text \<open>
  The package variables. \<open>allCPUCStatesInfo\<close> is a map of maps, as association lists.
  \<open>confCores\<close> stands for the function variable \<open>getNumberOfCpus\<close>: \<open>Some n\<close> once
  \<open>CreateInstanceWithConf\<close> has replaced it by the function that returns \<open>conf.Cores\<close>.
\<close>

record pkgvars =
  basePath :: string
  kernelModulesFilePath :: string
  featureList :: "featureID \<rightharpoonup> featureStatus"
  coreTypes :: "(nat \<times> nat) list"
  allCPUDefaultPStatesInfo :: "pstates list"
  availableGovs :: "string list"
  allCPUCStatesInfo :: "(nat \<times> (string \<times> cstateInfo) list) list"
  defaultUncore :: "nat \<times> nat"
  confCores :: "nat option"

definition uninitialisedErr :: err where
  "uninitialisedErr = Errorf ''feature uninitialized''"

definition undefinederr :: err where
  "undefinederr = Errorf ''feature undefined''"

definition isSupported :: "featureStatus \<Rightarrow> bool" where
  "isSupported f = (fs_err f = None)"

definition isFeatureIdSupported :: "pkgvars \<Rightarrow> featureID \<Rightarrow> bool" where
  "isFeatureIdSupported g i =
     (case featureList g i of None \<Rightarrow> False | Some f \<Rightarrow> isSupported f)"

definition getFeatureIdError :: "pkgvars \<Rightarrow> featureID \<Rightarrow> err option" where
  "getFeatureIdError g i =
     (case featureList g i of None \<Rightarrow> Some undefinederr | Some f \<Rightarrow> fs_err f)"

fun IsFeatureSupported :: "pkgvars \<Rightarrow> featureID list \<Rightarrow> bool" where
  "IsFeatureSupported g [] = True"
| "IsFeatureSupported g (f # fs) =
     (if \<not> isFeatureIdSupported g f then False else IsFeatureSupported g fs)"

section \<open>Paths and numbers of CPUs\<close>

definition cpu_path :: "pkgvars \<Rightarrow> nat \<Rightarrow> string \<Rightarrow> string" where
  "cpu_path g c file = basePath g @ ''/cpu'' @ nat_str c @ ''/'' @ file"

definition readCpuUintProperty :: "env \<Rightarrow> pkgvars \<Rightarrow> nat \<Rightarrow> string \<Rightarrow> sys \<Rightarrow> sys \<times> nat res" where
  "readCpuUintProperty env g c file sy = readUintFromFile env (cpu_path g c file) sy"

definition readCpuStringProperty :: "env \<Rightarrow> pkgvars \<Rightarrow> nat \<Rightarrow> string \<Rightarrow> sys \<Rightarrow> sys \<times> string res" where
  "readCpuStringProperty env g c file sy =
     then_do (readStringFromFile env (cpu_path g c file) sy)
       (\<lambda>v sy. (sy, Ok (TrimSuffix v [CHR 0x0A])))"

definition parse_online :: "nat \<Rightarrow> string \<Rightarrow> nat" where
  "parse_online dflt content =
     (case split_on CHR ''-'' (filter (\<lambda>c. c \<noteq> CHR 0x0A) content) of
        a # b # _ \<Rightarrow>
          (case Atoi a of
             None \<Rightarrow> dflt
           | Some first \<Rightarrow>
               (case Atoi b of
                  None \<Rightarrow> dflt
                | Some second \<Rightarrow> to_uint64 (to_int64 (to_int64 (second - first) + 1))))
      | _ \<Rightarrow> dflt)"

definition getNumberOfCpus :: "env \<Rightarrow> pkgvars \<Rightarrow> sys \<Rightarrow> sys \<times> nat" where
  "getNumberOfCpus env g sy =
     (case confCores g of
        Some n \<Rightarrow> (sy, n)
      | None \<Rightarrow>
          (case readStringFromFile env (basePath g @ ''/online'') sy of
             (sy', Ok content) \<Rightarrow> (sy', parse_online (numCPU env) content)
           | (sy', _) \<Rightarrow> (sy', numCPU env)))"

section \<open>A concrete environment\<close>

text \<open>An environment without faults and a file system without files, for concrete runs.\<close>

definition env0 :: env where
  "env0 = \<lparr>write_fault = \<lambda>n p c. None, read_fault = \<lambda>n p. None, dir_list = \<lambda>n p. Ok [],
           map_order = \<lambda>n xs. xs, numCPU = 2, float_oor = \<lambda>f. - (2 ^ 63)\<rparr>"

definition sys0 :: sys where
  "sys0 = \<lparr>files = \<lambda>p. None, clock = 0\<rparr>"

definition no_faults :: "env \<Rightarrow> bool" where
  "no_faults env = (\<forall>n p c. write_fault env n p c = None)"

lemma env0_ok [simp]: "env_ok env0" "no_faults env0"
  by (simp_all add: env_ok_def no_faults_def env0_def)

section \<open>Facts\<close>

lemma WriteFile_no_faults:
  "no_faults env \<Longrightarrow>
   WriteFile env p c sy = (sy\<lparr>clock := Suc (clock sy), files := (files sy)(p \<mapsto> c)\<rparr>, Ok ())"
  by (simp add: WriteFile_def no_faults_def)

lemma WriteFile_cases:
  obtains (fault) e where "write_fault env (clock sy) p c = Some e"
      and "WriteFile env p c sy = (sy\<lparr>clock := Suc (clock sy)\<rparr>, Error e)"
  | (written) "write_fault env (clock sy) p c = None"
      and "WriteFile env p c sy =
        (sy\<lparr>clock := Suc (clock sy), files := (files sy)(p \<mapsto> c)\<rparr>, Ok ())"
  by (cases "write_fault env (clock sy) p c") (auto simp: WriteFile_def Let_def)

lemma WriteFile_Ok:
  "WriteFile env p c sy = (sy', Ok ()) \<Longrightarrow> files sy' = (files sy)(p \<mapsto> c)"
  by (cases rule: WriteFile_cases[of env sy p c]) auto

lemma WriteFile_no_panic [simp]: "snd (WriteFile env p c sy) \<noteq> Panic m"
  by (cases rule: WriteFile_cases[of env sy p c]) auto

lemma WriteFile_other: "q \<noteq> p \<Longrightarrow> files (fst (WriteFile env p c sy)) q = files sy q"
  by (cases rule: WriteFile_cases[of env sy p c]) auto

lemma cpu_path_inj:
  assumes "CHR ''/'' \<notin> set d" and "cpu_path g c (d @ CHR ''/'' # f) = cpu_path g c' (d @ CHR ''/'' # f')"
  shows "c = c' \<and> f = f'"
proof -
  have "nat_str c @ CHR ''/'' # d @ CHR ''/'' # f = nat_str c' @ CHR ''/'' # d @ CHR ''/'' # f'"
    using assms(2) by (simp add: cpu_path_def)
  then have "split_on CHR ''/'' (nat_str c @ CHR ''/'' # (d @ CHR ''/'' # f)) =
             split_on CHR ''/'' (nat_str c' @ CHR ''/'' # (d @ CHR ''/'' # f'))" by simp
  then have "c = c'" by (simp add: nat_str_no_sep)
  with assms(2) show ?thesis by (simp add: cpu_path_def)
qed

lemma parse_online_range:
  assumes "int b < max_int64" and "a \<le> b"
  shows "parse_online d (nat_str a @ CHR ''-'' # nat_str b @ [CHR 0x0A]) = Suc (b - a)"
proof -
  have nl: "filter (\<lambda>c. c \<noteq> CHR 0x0A) (nat_str n) = nat_str n" for n
  proof (rule filter_True, rule ballI)
    fix c assume "c \<in> set (nat_str n)"
    then obtain k where "k < 10" "c = digit_char k" using nat_str_digits by blast
    then show "c \<noteq> CHR 0x0A" using digit_of_digit_char[of k] by (auto simp: digit_of_def)
  qed
  have "int a \<le> max_int64" using assms by linarith
  moreover have "to_uint64 (int (Suc (b - a))) = Suc (b - a)"
    using assms(1) by (intro to_uint64_of_nat) (simp add: max_int64_def)
  moreover have "to_int64 (to_int64 (int b - int a) + 1) = int (Suc (b - a))"
    using assms by (simp add: max_int64_def of_nat_diff)
  ultimately show ?thesis using assms(1)
    by (simp add: parse_online_def nl)
qed

end
