(* ===== verification/PStates.thy ===== *)
theory PStates
  imports Power_Base
begin

text \<open>
  P-states, from \<open>p_states.go\<close>: the core types, the discovery of the frequency scaling driver
  and of the default frequencies of every CPU, and the writing of a profile's governor, EPP and
  frequencies into the \<open>cpufreq\<close> files of a CPU. The operations that change the package
  variables act on a pair of \<open>pkgvars\<close> and \<open>sys\<close>; the others only on \<open>sys\<close>.
  \<open>GetScaledValueFromIntOrPercent\<close> gives exact percentages (theory \<open>IntStr\<close>), so a percentage
  between 0 and 100 is a frequency between the hardware limits of the CPU.
\<close>

section \<open>Files and constants\<close>

definition "pStatesDrvFile = ''cpufreq/scaling_driver''"
definition "cpuMaxFreqFile = ''cpufreq/cpuinfo_max_freq''"
definition "cpuMinFreqFile = ''cpufreq/cpuinfo_min_freq''"
definition "scalingMaxFile = ''cpufreq/scaling_max_freq''"
definition "scalingMinFile = ''cpufreq/scaling_min_freq''"
definition "scalingSetSpeedFile = ''cpufreq/scaling_setspeed''"
definition "scalingCurFreqFile = ''cpufreq/scaling_cur_freq''"
definition "scalingGovFile = ''cpufreq/scaling_governor''"
definition "availGovFile = ''cpufreq/scaling_available_governors''"
definition "eppFile = ''cpufreq/energy_performance_preference''"

definition "cpuPolicyPerformance = ''performance''"
definition "cpuPolicyPowersave = ''powersave''"
definition "defaultEpp = ''power''"
definition "defaultGovernor = cpuPolicyPowersave"

lemmas pstate_files [simp] =
  pStatesDrvFile_def cpuMaxFreqFile_def cpuMinFreqFile_def scalingMaxFile_def scalingMinFile_def
  scalingSetSpeedFile_def scalingCurFreqFile_def scalingGovFile_def availGovFile_def eppFile_def

section \<open>Core types\<close>

fun index_of_type :: "(nat \<times> nat) list \<Rightarrow> nat \<Rightarrow> nat \<Rightarrow> nat \<Rightarrow> nat option" where
  "index_of_type [] mn mx i = None"
| "index_of_type (t # ts) mn mx i =
     (if fst t = mn \<and> snd t = mx then Some i else index_of_type ts mn mx (Suc i))"

definition appendIfUnique :: "(nat \<times> nat) list \<Rightarrow> nat \<Rightarrow> nat \<Rightarrow> (nat \<times> nat) list \<times> nat" where
  "appendIfUnique l mn mx =
     (case index_of_type l mn mx 0 of
        Some i \<Rightarrow> (l, i)
      | None \<Rightarrow> (l @ [(mn, mx)], length (l @ [(mn, mx)]) - 1))"

fun absMinMax_loop :: "(nat \<times> nat) list \<Rightarrow> nat \<Rightarrow> nat \<Rightarrow> nat \<times> nat" where
  "absMinMax_loop [] mn mx = (mn, mx)"
| "absMinMax_loop (t # ts) mn mx =
     absMinMax_loop ts (if fst t < mn then fst t else mn) (if mx < snd t then snd t else mx)"

definition getAbsMinMaxFreq :: "(nat \<times> nat) list \<Rightarrow> (nat \<times> nat) res" where
  "getAbsMinMaxFreq l =
     (case l of
        [] \<Rightarrow> Panic ''index out of range [0] with length 0''
      | t # ts \<Rightarrow> Ok (absMinMax_loop ts (fst t) (snd t)))"

section \<open>Discovery\<close>

definition isScalingDriverSupported :: "string \<Rightarrow> bool" where
  "isScalingDriverSupported driver =
     (driver \<in> set [''intel_pstate'', ''intel_cpufreq'', ''acpi-cpufreq'', ''amd-pstate'',
                    ''amd-pstate-epp'', ''cppc_cpufreq''])"

definition initAvailableGovernors :: "env \<Rightarrow> pkgvars \<Rightarrow> sys \<Rightarrow> sys \<times> string list res" where
  "initAvailableGovernors env g sy =
     then_do (readCpuStringProperty env g 0 availGovFile sy)
       (\<lambda>govs sy. (sy, Ok (split_on CHR '' '' govs)))"

definition GetAvailableGovernors :: "pkgvars \<Rightarrow> string list" where
  "GetAvailableGovernors g = availableGovs g"

text \<open>\<open>int(cpuInfoMaxFreq)\<close> converts a \<open>uint\<close>, \<open>FromInt\<close> truncates it to 32 bits.\<close>

definition default_pstates :: "env \<Rightarrow> nat \<Rightarrow> pkgvars \<times> sys \<Rightarrow> (pkgvars \<times> sys) \<times> unit res" where
  "default_pstates env cpuID = (\<lambda>(g, sy).
     (case readCpuUintProperty env g cpuID cpuMaxFreqFile sy of
        (sy, Error e) \<Rightarrow> ((g, sy), Error e)
      | (sy, Panic m) \<Rightarrow> ((g, sy), Panic m)
      | (sy, Ok cpuInfoMaxFreq) \<Rightarrow>
          (case readCpuUintProperty env g cpuID cpuMinFreqFile sy of
             (sy, Error e) \<Rightarrow> ((g, sy), Error e)
           | (sy, Panic m) \<Rightarrow> ((g, sy), Panic m)
           | (sy, Ok cpuInfoMinFreq) \<Rightarrow>
               (case readCpuStringProperty env g cpuID eppFile sy of
                  (sy, r) \<Rightarrow>
                    let e = (case r of Error x \<Rightarrow> if IsNotExist x then [] else defaultEpp
                             | _ \<Rightarrow> defaultEpp)
                    in ((g\<lparr>allCPUDefaultPStatesInfo := (allCPUDefaultPStatesInfo g)[cpuID :=
                            \<lparr>minFreq = FromInt (to_int64 (int cpuInfoMinFreq)),
                             maxFreq = FromInt (to_int64 (int cpuInfoMaxFreq)),
                             epp = e, governor = defaultGovernor\<rparr>]\<rparr>, sy), Ok ())))))"

definition zero_pstates :: pstates where
  "zero_pstates = \<lparr>minFreq = IntV 0, maxFreq = IntV 0, epp = [], governor = []\<rparr>"

text \<open>
  \<open>make\<close> panics when the requested memory (96 bytes an element) is over the runtime's limit of
  2 ^ 48 bytes; \<open>getNumberOfCpus\<close> can return such a number for an \<open>online\<close> file like \<open>5-3\<close>.
\<close>

definition generateDefaultPStates :: "env \<Rightarrow> pkgvars \<times> sys \<Rightarrow> (pkgvars \<times> sys) \<times> unit res" where
  "generateDefaultPStates env = (\<lambda>(g, sy).
     (case getNumberOfCpus env g sy of
        (sy, n) \<Rightarrow>
          if (2::int) ^ 48 < 96 * int n then ((g, sy), Panic ''makeslice: len out of range'')
          else foreach (default_pstates env) [0..<n]
                 (g\<lparr>allCPUDefaultPStatesInfo := replicate n zero_pstates\<rparr>, sy)))"

definition initScalingDriver :: "env \<Rightarrow> pkgvars \<times> sys \<Rightarrow> (pkgvars \<times> sys) \<times> featureStatus res" where
  "initScalingDriver env = (\<lambda>(g, sy).
     (let nm = ''Frequency-Scaling'';
          (sy, govs) = initAvailableGovernors env g sy;
          g = g\<lparr>availableGovs := (case govs of Ok x \<Rightarrow> x | _ \<Rightarrow> [])\<rparr>;
          err = (case govs of Error e \<Rightarrow> Some (Wrapf ''failed to read available governors'' e)
                 | _ \<Rightarrow> None);
          (sy, drv) = readCpuStringProperty env g 0 pStatesDrvFile sy;
          driver = (case drv of Ok d \<Rightarrow> d | _ \<Rightarrow> []);
          err = (case drv of Error e \<Rightarrow> Some (Wrapf (nm @ '' - failed to read driver name'') e)
                 | _ \<Rightarrow> err);
          err = (if \<not> isScalingDriverSupported driver
                 then Some (Errorf (nm @ '' - unsupported driver: '' @ driver)) else err);
          err = (case drv of Error e \<Rightarrow> Some (Wrapf (nm @ '' - failed to determine driver'') e)
                 | _ \<Rightarrow> err)
      in if err = None then
           (case generateDefaultPStates env (g, sy) of
              (s, Ok _) \<Rightarrow> (s, Ok \<lparr>fs_name = nm, fs_driver = driver, fs_err = None\<rparr>)
            | (s, Error e) \<Rightarrow>
                (s, Ok \<lparr>fs_name = nm, fs_driver = driver,
                        fs_err = Some (Wrapf ''failed to read default frequenices'' e)\<rparr>)
            | (s, Panic m) \<Rightarrow> (s, Panic m))
         else ((g, sy), Ok \<lparr>fs_name = nm, fs_driver = driver, fs_err = err\<rparr>)))"

definition initEpp :: "env \<Rightarrow> pkgvars \<times> sys \<Rightarrow> (pkgvars \<times> sys) \<times> featureStatus res" where
  "initEpp env = (\<lambda>(g, sy).
     (case readCpuStringProperty env g 0 eppFile sy of
        (sy, r) \<Rightarrow>
          ((g, sy), Ok \<lparr>fs_name = ''Energy-Performance-Preference'', fs_driver = [],
                        fs_err = (case r of
                            Error e \<Rightarrow>
                              if IsNotExist e
                              then Some (Errorf (''EPP file '' @ eppFile @ '' does not exist''))
                              else None
                          | _ \<Rightarrow> None)\<rparr>)))"

section \<open>Frequencies of a request\<close>

definition getFreqFromIntOrString ::
  "(float64 \<Rightarrow> int) \<Rightarrow> IntOrString \<Rightarrow> nat \<Rightarrow> nat \<Rightarrow> nat res" where
  "getFreqFromIntOrString oor requestedFreq mn mx =
     (case requestedFreq of
        IntV i \<Rightarrow> Ok (to_uint64 i)
      | StrV s \<Rightarrow>
          (case GetScaledValueFromIntOrPercent oor requestedFreq
                  (to_int64 (int (to_uint64 (int mx - int mn)))) True of
             Error e \<Rightarrow> Error e
           | Panic m \<Rightarrow> Panic m
           | Ok scaled \<Rightarrow> Ok (to_uint64 (int mn + int (to_uint64 scaled)))))"

definition getFreqsToScale :: "env \<Rightarrow> pkgvars \<Rightarrow> nat \<Rightarrow> pstates \<Rightarrow> (nat \<times> nat) res" where
  "getFreqsToScale env g cid ps =
     (if is_IntV (minFreq ps) \<noteq> is_IntV (maxFreq ps)
      then Error (Errorf ''min and max frequencies are not of the same type'')
      else if length (allCPUDefaultPStatesInfo g) \<le> cid then Panic ''index out of range''
      else
        (let d = allCPUDefaultPStatesInfo g ! cid;
             lo = to_uint64 (IntVal (minFreq d)); hi = to_uint64 (IntVal (maxFreq d))
         in case getFreqFromIntOrString (float_oor env) (minFreq ps) lo hi of
              Error e \<Rightarrow> Error e
            | Panic m \<Rightarrow> Panic m
            | Ok mn \<Rightarrow>
                (case getFreqFromIntOrString (float_oor env) (maxFreq ps) lo hi of
                   Error e \<Rightarrow> Error e
                 | Panic m \<Rightarrow> Panic m
                 | Ok mx \<Rightarrow> Ok (mn, mx))))"

definition GetAbsMinMax :: "pkgvars \<Rightarrow> nat \<Rightarrow> (nat \<times> nat) res" where
  "GetAbsMinMax g cid =
     (if \<not> isFeatureIdSupported g FrequencyScalingFeature then Ok (0, 0)
      else if length (allCPUDefaultPStatesInfo g) \<le> cid then Panic ''index out of range''
      else Ok (to_uint64 (IntVal (minFreq (allCPUDefaultPStatesInfo g ! cid))),
               to_uint64 (IntVal (maxFreq (allCPUDefaultPStatesInfo g ! cid)))))"

section \<open>Writing\<close>

definition writeGovernorValue :: "env \<Rightarrow> pkgvars \<Rightarrow> nat \<Rightarrow> string \<Rightarrow> sys \<Rightarrow> sys \<times> unit res" where
  "writeGovernorValue env g cid gov = WriteFile env (cpu_path g cid scalingGovFile) gov"

definition writeEppValue :: "env \<Rightarrow> pkgvars \<Rightarrow> nat \<Rightarrow> string \<Rightarrow> sys \<Rightarrow> sys \<times> unit res" where
  "writeEppValue env g cid v = WriteFile env (cpu_path g cid eppFile) v"

definition writeScalingMaxFreq :: "env \<Rightarrow> pkgvars \<Rightarrow> nat \<Rightarrow> nat \<Rightarrow> sys \<Rightarrow> sys \<times> unit res" where
  "writeScalingMaxFreq env g cid freq = WriteFile env (cpu_path g cid scalingMaxFile) (nat_str freq)"

definition writeScalingMinFreq :: "env \<Rightarrow> pkgvars \<Rightarrow> nat \<Rightarrow> nat \<Rightarrow> sys \<Rightarrow> sys \<times> unit res" where
  "writeScalingMinFreq env g cid freq = WriteFile env (cpu_path g cid scalingMinFile) (nat_str freq)"

text \<open>The range a CPU is given: the request, cut to the CPU's own limits when it is within the system's.\<close>

definition clamp_request :: "nat \<times> nat \<Rightarrow> nat \<times> nat \<Rightarrow> nat \<times> nat \<Rightarrow> nat \<times> nat" where
  "clamp_request cpuAbs sysAbs req =
     (if fst req < fst cpuAbs \<and> fst sysAbs \<le> fst req then fst cpuAbs else fst req,
      if snd cpuAbs < snd req \<and> snd req \<le> snd sysAbs then snd cpuAbs else snd req)"

definition freq_ranges ::
  "env \<Rightarrow> pkgvars \<Rightarrow> nat \<Rightarrow> pstates \<Rightarrow> ((nat \<times> nat) \<times> (nat \<times> nat)) res" where
  "freq_ranges env g cid ps =
     (case GetAbsMinMax g cid of
        Error e \<Rightarrow> Error e
      | Panic m \<Rightarrow> Panic m
      | Ok cpuAbs \<Rightarrow>
          (case getAbsMinMaxFreq (coreTypes g) of
             Error e \<Rightarrow> Error e
           | Panic m \<Rightarrow> Panic m
           | Ok sysAbs \<Rightarrow>
               (case getFreqsToScale env g cid ps of
                  Error e \<Rightarrow> Error (Wrapf ''failed to get frequencies to scale'' e)
                | Panic m \<Rightarrow> Panic m
                | Ok req \<Rightarrow> Ok (cpuAbs, clamp_request cpuAbs sysAbs req))))"

definition setDriverValues :: "env \<Rightarrow> pkgvars \<Rightarrow> nat \<Rightarrow> pstates \<Rightarrow> sys \<Rightarrow> sys \<times> unit res" where
  "setDriverValues env g cid ps sy =
     then_do (wrap_err (''failed to set governor for cpu '' @ nat_str cid)
                (writeGovernorValue env g cid (governor ps) sy)) (\<lambda>_ sy.
     then_do (if epp ps = [] then (sy, Ok ())
              else wrap_err (''failed to set EPP value for cpu '' @ nat_str cid)
                     (writeEppValue env g cid (epp ps) sy)) (\<lambda>_ sy.
     then_do (sy, freq_ranges env g cid ps) (\<lambda>(cpuAbs, req) sy.
       if snd cpuAbs < snd req \<or> fst req < fst cpuAbs then
         (sy, Error (Errorf (''setting frequency '' @ Itoa (IntVal (minFreq ps)) @ ''-'' @
            Itoa (IntVal (maxFreq ps)) @ '' aborted as frequency range is min: '' @
            nat_str (fst cpuAbs) @ '' max: '' @ nat_str (snd cpuAbs) @ ''. resetting to default'')))
       else
         then_do (wrap_err (''failed to set MaxFreq value for cpu '' @ nat_str cid)
                    (writeScalingMaxFreq env g cid (snd req) sy)) (\<lambda>_ sy.
         wrap_err (''failed to set MinFreq value for cpu '' @ nat_str cid)
           (writeScalingMinFreq env g cid (fst req) sy)))))"

definition updateFrequencies :: "env \<Rightarrow> pkgvars \<Rightarrow> nat \<Rightarrow> profile option \<Rightarrow> sys \<Rightarrow> sys \<times> unit res" where
  "updateFrequencies env g cid prof sy =
     (if \<not> IsFeatureSupported g [FrequencyScalingFeature] then (sy, Ok ())
      else case prof of
        Some p \<Rightarrow> setDriverValues env g cid (prof_pstates p) sy
      | None \<Rightarrow>
          if length (allCPUDefaultPStatesInfo g) \<le> cid then (sy, Panic ''index out of range'')
          else setDriverValues env g cid (allCPUDefaultPStatesInfo g ! cid) sy)"

definition SetCPUFrequency :: "env \<Rightarrow> pkgvars \<Rightarrow> nat \<Rightarrow> nat \<Rightarrow> sys \<Rightarrow> sys \<times> unit res" where
  "SetCPUFrequency env g cid frequency sy =
     wrap_err (''failed to set frequency for CPU '' @ nat_str cid)
       (WriteFile env (cpu_path g cid scalingSetSpeedFile) (nat_str frequency) sy)"

definition GetCurrentCPUFrequency :: "env \<Rightarrow> pkgvars \<Rightarrow> nat \<Rightarrow> sys \<Rightarrow> sys \<times> nat res" where
  "GetCurrentCPUFrequency env g cid sy =
     wrap_err (''failed to read current frequency for CPU '' @ nat_str cid)
       (readCpuUintProperty env g cid scalingCurFreqFile sy)"


section \<open>Core types: facts\<close>

lemma absMinMax_loop_eq:
  "absMinMax_loop ts mn mx = (Min (insert mn (fst ` set ts)), Max (insert mx (snd ` set ts)))"
proof (induction ts arbitrary: mn mx)
  case (Cons t ts)
  have "(if fst t < mn then fst t else mn) = min mn (fst t)"
    and "(if mx < snd t then snd t else mx) = max mx (snd t)" by (auto simp: min_def max_def)
  then show ?case using Cons
    by (cases "ts = []") (simp_all add: Min_insert Max_insert min.assoc max.assoc)
qed simp

lemma getAbsMinMaxFreq_Ok:
  "l \<noteq> [] \<Longrightarrow> getAbsMinMaxFreq l = Ok (Min (fst ` set l), Max (snd ` set l))"
  by (cases l) (simp_all add: getAbsMinMaxFreq_def absMinMax_loop_eq)

lemma getAbsMinMaxFreq_bounds:
  assumes "getAbsMinMaxFreq l = Ok (a, b)" and "(x, y) \<in> set l"
  shows "a \<le> x" and "y \<le> b"
proof -
  have "l \<noteq> []" using assms(2) by auto
  with assms have "a = Min (fst ` set l)" "b = Max (snd ` set l)"
    by (simp_all add: getAbsMinMaxFreq_Ok)
  then show "a \<le> x" "y \<le> b" using assms(2)
    by (metis (no_types) Min_le finite_imageI finite_set fst_conv imageI)
       (metis (no_types) Max_ge finite_imageI finite_set snd_conv imageI \<open>b = _\<close> assms(2))
qed

lemma index_of_type_None: "index_of_type l mn mx i = None \<longleftrightarrow> (mn, mx) \<notin> set l"
  by (induction l arbitrary: i) (auto simp: prod_eq_iff)

lemma index_of_type_Some:
  "index_of_type l mn mx i = Some k \<Longrightarrow> i \<le> k \<and> k < i + length l \<and> l ! (k - i) = (mn, mx)"
proof (induction l arbitrary: i)
  case (Cons t l)
  show ?case
  proof (cases "fst t = mn \<and> snd t = mx")
    case True with Cons.prems show ?thesis by (auto simp: prod_eq_iff)
  next
    case False
    then have "index_of_type l mn mx (Suc i) = Some k" using Cons.prems by auto
    from Cons.IH[OF this] have "Suc i \<le> k \<and> k < Suc i + length l \<and> l ! (k - Suc i) = (mn, mx)" .
    then show ?thesis by (auto simp: nth_Cons' Suc_diff_le simp flip: diff_Suc_eq_diff_pred)
  qed
qed simp

lemma appendIfUnique_spec:
  assumes "appendIfUnique l mn mx = (l', i)"
  shows "i < length l' \<and> l' ! i = (mn, mx) \<and> set l' = insert (mn, mx) (set l) \<and>
         (distinct l \<longrightarrow> distinct l') \<and> take (length l) l' = l"
proof (cases "index_of_type l mn mx 0")
  case None
  then have "(mn, mx) \<notin> set l" by (simp add: index_of_type_None)
  with None assms show ?thesis by (auto simp: appendIfUnique_def)
next
  case (Some k)
  from index_of_type_Some[OF Some] have k: "k < length l" "l ! k = (mn, mx)" by auto
  then have "(mn, mx) \<in> set l" using nth_mem by force
  with Some k assms show ?thesis by (auto simp: appendIfUnique_def)
qed

section \<open>Requests: facts\<close>

text \<open>What \<open>generateDefaultPStates\<close> stored for a CPU whose limits fit 31 bits.\<close>

definition hw_limits :: "pkgvars \<Rightarrow> nat \<Rightarrow> nat \<Rightarrow> nat \<Rightarrow> bool" where
  "hw_limits g cid lo hi =
     (isFeatureIdSupported g FrequencyScalingFeature \<and> cid < length (allCPUDefaultPStatesInfo g) \<and>
      minFreq (allCPUDefaultPStatesInfo g ! cid) = IntV (int lo) \<and>
      maxFreq (allCPUDefaultPStatesInfo g ! cid) = IntV (int hi) \<and> lo \<le> hi \<and> hi < 2 ^ 31 \<and>
      (\<exists>t \<in> set (coreTypes g). t = (lo, hi)))"

definition percent_of :: "nat \<Rightarrow> nat \<Rightarrow> nat \<Rightarrow> nat" where
  "percent_of lo hi p = lo + (p * (hi - lo) + 99) div 100"

lemma ceil_percent: "\<lceil>of_int (int n) / 100 :: rat\<rceil> = int ((n + 99) div 100)"
proof -
  have "\<lceil>of_int (int n) / of_int 100 :: rat\<rceil> = - (- int n div 100)"
    by (rule ceiling_divide_eq_div)
  also have "\<dots> = (int n + 99) div 100" by linarith
  finally show ?thesis by (simp add: zdiv_int)
qed

lemma percent_of_mono: "p \<le> q \<Longrightarrow> percent_of lo hi p \<le> percent_of lo hi q"
  by (simp add: percent_of_def div_le_mono)

lemma percent_of_bounds:
  assumes "p \<le> 100" "lo \<le> hi"
  shows "lo \<le> percent_of lo hi p" and "percent_of lo hi p \<le> hi"
proof -
  have "p * (hi - lo) + 99 \<le> 100 * (hi - lo) + 99" using assms(1) by simp
  then have "(p * (hi - lo) + 99) div 100 \<le> (100 * (hi - lo) + 99) div 100" by (rule div_le_mono)
  then show "percent_of lo hi p \<le> hi" using assms(2) by (simp add: percent_of_def)
qed (simp add: percent_of_def)

lemma percent_of_ends [simp]:
  "percent_of lo hi 0 = lo" "lo \<le> hi \<Longrightarrow> percent_of lo hi 100 = hi"
  by (simp_all add: percent_of_def)

lemma getFreq_percent:
  assumes "p \<le> 100" and "lo \<le> hi" and "hi < 2 ^ 31"
  shows "getFreqFromIntOrString oor (StrV (nat_str p @ ''%'')) lo hi = Ok (percent_of lo hi p)"
proof -
  have d: "to_int64 (int (to_uint64 (int hi - int lo))) = int (hi - lo)"
    using assms by (simp add: to_uint64_id of_nat_diff)
  have pd: "p * (hi - lo) < 2 ^ 46"
  proof -
    have "p * (hi - lo) \<le> 100 * 2 ^ 31" using assms by (intro mult_le_mono) simp_all
    then show ?thesis by simp
  qed
  have "int (p * (hi - lo)) < 2 ^ 46" using pd by (simp del: of_nat_mult)
  then have b: "\<bar>int p\<bar> < 2 ^ 46" "\<bar>int (hi - lo)\<bar> < 2 ^ 46" "\<bar>int p * int (hi - lo)\<bar> < 2 ^ 46"
    using assms by simp_all
  have "Atoi (nat_str p) = Some (int p)" using assms(1) by (intro Atoi_nat_str) (simp add: max_int64_def)
  note * = GetScaled_percent(1)[OF this b, of oor]
  have "\<lceil>of_int (int p * int (hi - lo)) / 100 :: rat\<rceil> = int ((p * (hi - lo) + 99) div 100)"
    using ceil_percent[of "p * (hi - lo)"] by simp
  moreover have "percent_of lo hi p < 2 ^ 64" using percent_of_bounds[OF assms(1,2)] assms(3) by simp
  moreover have "(p * (hi - lo) + 99) div 100 < 2 ^ 64" using pd by simp
  ultimately show ?thesis using *
    by (simp add: getFreqFromIntOrString_def d percent_of_def del: of_nat_add flip: of_nat_add)
qed


text \<open>A request in absolute frequencies (in kHz, as a profile stores them) or in percent.\<close>

lemma GetAbsMinMax_hw:
  assumes "hw_limits g cid lo hi" shows "GetAbsMinMax g cid = Ok (lo, hi)"
  using assms by (auto simp: hw_limits_def GetAbsMinMax_def)

lemma hw_limits_system:
  assumes "hw_limits g cid lo hi"
  obtains slo shi where "getAbsMinMaxFreq (coreTypes g) = Ok (slo, shi)" and "slo \<le> lo" and "hi \<le> shi"
proof -
  have t: "(lo, hi) \<in> set (coreTypes g)" using assms by (auto simp: hw_limits_def)
  then have "coreTypes g \<noteq> []" by auto
  then obtain slo shi where r: "getAbsMinMaxFreq (coreTypes g) = Ok (slo, shi)"
    by (simp add: getAbsMinMaxFreq_Ok)
  with getAbsMinMaxFreq_bounds[OF r t] that show ?thesis by simp
qed

lemma freq_ranges_hw:
  assumes hw: "hw_limits g cid lo hi" and "getAbsMinMaxFreq (coreTypes g) = Ok sysAbs"
    and "is_IntV (minFreq ps) = is_IntV (maxFreq ps)"
    and "getFreqFromIntOrString (float_oor env) (minFreq ps) lo hi = Ok a"
    and "getFreqFromIntOrString (float_oor env) (maxFreq ps) lo hi = Ok b"
  shows "freq_ranges env g cid ps = Ok ((lo, hi), clamp_request (lo, hi) sysAbs (a, b))"
proof -
  have "lo < 2 ^ 64" "hi < 2 ^ 64" using hw by (simp_all add: hw_limits_def)
  then have u: "to_uint64 (int lo) = lo" "to_uint64 (int hi) = hi" by simp_all
  have "getFreqsToScale env g cid ps = Ok (a, b)"
    using assms(3-5) hw u by (simp add: getFreqsToScale_def hw_limits_def)
  with GetAbsMinMax_hw[OF hw] assms(2) show ?thesis by (simp add: freq_ranges_def)
qed

section \<open>Effect of a successful and of a rejected request\<close>

definition driver_files ::
  "pkgvars \<Rightarrow> nat \<Rightarrow> pstates \<Rightarrow> nat \<times> nat \<Rightarrow> (string \<rightharpoonup> string) \<Rightarrow> (string \<rightharpoonup> string)" where
  "driver_files g cid ps req fs =
     ((if epp ps = [] then fs(cpu_path g cid scalingGovFile \<mapsto> governor ps)
       else fs(cpu_path g cid scalingGovFile \<mapsto> governor ps, cpu_path g cid eppFile \<mapsto> epp ps))
      (cpu_path g cid scalingMaxFile \<mapsto> nat_str (snd req),
       cpu_path g cid scalingMinFile \<mapsto> nat_str (fst req)))"

lemma setDriverValues_Ok:
  assumes "setDriverValues env g cid ps sy = (sy', Ok ())"
  obtains cpuAbs req where "freq_ranges env g cid ps = Ok (cpuAbs, req)"
    and "fst cpuAbs \<le> fst req" and "snd req \<le> snd cpuAbs"
    and "files sy' = driver_files g cid ps req (files sy)"
  using assms unfolding setDriverValues_def
  by (auto simp: then_do_Ok_iff writeGovernorValue_def writeEppValue_def writeScalingMaxFreq_def
        writeScalingMinFreq_def driver_files_def not_less split: if_splits prod.splits
        dest!: WriteFile_Ok)

lemma setDriverValues_success:
  assumes "no_faults env" and "freq_ranges env g cid ps = Ok (cpuAbs, req)"
    and "fst cpuAbs \<le> fst req" and "snd req \<le> snd cpuAbs"
  shows "\<exists>sy'. setDriverValues env g cid ps sy = (sy', Ok ()) \<and>
           files sy' = driver_files g cid ps req (files sy)"
  using assms
  by (auto simp: setDriverValues_def writeGovernorValue_def writeEppValue_def
      writeScalingMaxFreq_def writeScalingMinFreq_def WriteFile_no_faults driver_files_def)

lemma setDriverValues_other:
  assumes "\<forall>f \<in> {scalingGovFile, eppFile, scalingMaxFile, scalingMinFile}. q \<noteq> cpu_path g cid f"
  shows "files (fst (setDriverValues env g cid ps sy)) q = files sy q"
proof -
  let ?I = "\<lambda>s. files s q = files sy q"
  have w: "?I s \<Longrightarrow> ?I (fst (WriteFile env (cpu_path g cid f) c s))"
    if "f \<in> {scalingGovFile, eppFile, scalingMaxFile, scalingMinFile}" for f c s
    using assms that WriteFile_other[of q "cpu_path g cid f"] by auto
  show ?thesis unfolding setDriverValues_def writeGovernorValue_def writeEppValue_def
      writeScalingMaxFreq_def writeScalingMinFreq_def
    by (rule then_do_inv[where I = ?I], use w in simp,
        rule then_do_inv[where I = ?I], use w in simp,
        rule then_do_inv[where I = ?I], simp)
       (auto split: prod.splits intro!: then_do_inv[where I = ?I] w)
qed


lemma setDriverValues_percent:
  assumes "hw_limits g cid lo hi" and "p \<le> q" and "q \<le> 100" and "no_faults env"
    and "minFreq ps = StrV (nat_str p @ ''%'')" and "maxFreq ps = StrV (nat_str q @ ''%'')"
  shows "snd (setDriverValues env g cid ps sy) = Ok () \<and>
     files (fst (setDriverValues env g cid ps sy)) =
       driver_files g cid ps (lo + (p * (hi - lo) + 99) div 100, lo + (q * (hi - lo) + 99) div 100)
         (files sy) \<and>
     lo \<le> lo + (p * (hi - lo) + 99) div 100 \<and>
     lo + (p * (hi - lo) + 99) div 100 \<le> lo + (q * (hi - lo) + 99) div 100 \<and>
     lo + (q * (hi - lo) + 99) div 100 \<le> hi"
proof -
  have l: "lo \<le> hi" "hi < 2 ^ 31" using assms(1) by (simp_all add: hw_limits_def)
  obtain s where s: "getAbsMinMaxFreq (coreTypes g) = Ok s" using hw_limits_system[OF assms(1)] by blast
  let ?r = "(percent_of lo hi p, percent_of lo hi q)"
  have b: "lo \<le> percent_of lo hi p" "percent_of lo hi p \<le> percent_of lo hi q"
      "percent_of lo hi q \<le> hi"
    using percent_of_bounds[OF _ l(1)] percent_of_mono[OF assms(2)] assms(2,3) by (simp_all add: order_trans)
  have "freq_ranges env g cid ps = Ok ((lo, hi), clamp_request (lo, hi) s ?r)"
    using assms(2,3,5,6) l by (intro freq_ranges_hw[OF assms(1) s]) (simp_all add: getFreq_percent)
  moreover have "clamp_request (lo, hi) s ?r = ?r" using b by (simp add: clamp_request_def)
  ultimately have "freq_ranges env g cid ps = Ok ((lo, hi), ?r)" by simp
  from setDriverValues_success[OF assms(4) this, of sy] b show ?thesis
    by (auto simp: percent_of_def)
qed

lemma setDriverValues_absolute:
  assumes "hw_limits g cid lo hi" and "no_faults env"
    and "getAbsMinMaxFreq (coreTypes g) = Ok (slo, shi)" and "slo \<le> a" and "b \<le> shi"
    and "a < 2 ^ 31" and "b < 2 ^ 31"
    and "minFreq ps = IntV (int a)" and "maxFreq ps = IntV (int b)"
  shows "snd (setDriverValues env g cid ps sy) = Ok () \<and>
     files (fst (setDriverValues env g cid ps sy)) =
       driver_files g cid ps (max a lo, min b hi) (files sy)"
proof -
  have "freq_ranges env g cid ps = Ok ((lo, hi), clamp_request (lo, hi) (slo, shi) (a, b))"
    using assms(6-9) by (intro freq_ranges_hw[OF assms(1,3)]) (simp_all add: getFreqFromIntOrString_def)
  moreover have "clamp_request (lo, hi) (slo, shi) (a, b) = (max a lo, min b hi)"
    using assms(4,5) by (simp add: clamp_request_def)
  ultimately have "freq_ranges env g cid ps = Ok ((lo, hi), max a lo, min b hi)" by simp
  from setDriverValues_success[OF assms(2) this, of sy] show ?thesis by auto
qed

section \<open>Properties\<close>

lemma cpu_path_eq_iff [simp]: "cpu_path g c f = cpu_path g c f' \<longleftrightarrow> f = f'"
  by (simp add: cpu_path_def)

lemma driver_files_simps [simp]:
  "driver_files g cid ps req fs (cpu_path g cid scalingGovFile) = Some (governor ps)"
  "driver_files g cid ps req fs (cpu_path g cid scalingMinFile) = Some (nat_str (fst req))"
  "driver_files g cid ps req fs (cpu_path g cid scalingMaxFile) = Some (nat_str (snd req))"
  "driver_files g cid ps req fs (cpu_path g cid eppFile) =
     (if epp ps = [] then fs (cpu_path g cid eppFile) else Some (epp ps))"
  by (simp_all add: driver_files_def)


text \<open>A machine with a big CPU 0 (0.8 to 3.2 GHz) and a little CPU 1 (0.4 to 1.6 GHz).\<close>

definition hetero :: pkgvars where
  "hetero = \<lparr>basePath = ''/sys'', kernelModulesFilePath = ''/proc/modules'',
     featureList = (\<lambda>f. Some \<lparr>fs_name = [], fs_driver = [], fs_err = None\<rparr>),
     coreTypes = [(800000, 3200000), (400000, 1600000)],
     allCPUDefaultPStatesInfo =
       [\<lparr>minFreq = IntV 800000, maxFreq = IntV 3200000, epp = ''power'', governor = ''powersave''\<rparr>,
        \<lparr>minFreq = IntV 400000, maxFreq = IntV 1600000, epp = ''power'', governor = ''powersave''\<rparr>],
     availableGovs = [''performance'', ''powersave''], allCPUCStatesInfo = [],
     defaultUncore = (0, 0), confCores = None\<rparr>"

lemma hetero_limits [simp]:
  "hw_limits hetero 0 800000 3200000" "hw_limits hetero 1 400000 1600000"
  by (simp_all add: hw_limits_def hetero_def isFeatureIdSupported_def isSupported_def)

lemma hetero_basic [simp]:
  "isFeatureIdSupported hetero f" "coreTypes hetero = [(800000, 3200000), (400000, 1600000)]"
  by (simp_all add: hetero_def isFeatureIdSupported_def isSupported_def)


text \<open>
  C34. A request in percent is never rejected: for percentages \<open>p \<le> q \<le> 100\<close> every CPU is given
  exactly \<open>min + \<lceil>p * (max - min) / 100\<rceil>\<close> and \<open>min + \<lceil>q * (max - min) / 100\<rceil>\<close> of its own
  limits, in order and within them, although the code computes with \<open>float64\<close>. The call only
  fails when a write does.
\<close>
theorem percent_request_exact:
  assumes "hw_limits g cid lo hi" and "p \<le> q" and "q \<le> 100" and "no_faults env"
    and "minFreq ps = StrV (nat_str p @ ''%'')" and "maxFreq ps = StrV (nat_str q @ ''%'')"
  shows "snd (setDriverValues env g cid ps sy) = Ok () \<and>
     files (fst (setDriverValues env g cid ps sy)) =
       driver_files g cid ps (lo + (p * (hi - lo) + 99) div 100, lo + (q * (hi - lo) + 99) div 100)
         (files sy) \<and>
     lo \<le> lo + (p * (hi - lo) + 99) div 100 \<and>
     lo + (p * (hi - lo) + 99) div 100 \<le> lo + (q * (hi - lo) + 99) div 100 \<and>
     lo + (q * (hi - lo) + 99) div 100 \<le> hi"
  using assms by (rule setDriverValues_percent)

theorem percent_request_exact_witness:
  "snd (setDriverValues env0 hetero 1
      \<lparr>minFreq = StrV (nat_str 10 @ ''%''), maxFreq = StrV (nat_str 55 @ ''%''), epp = [],
       governor = ''powersave''\<rparr> sys0) = Ok () \<and>
   400000 + (55 * (1600000 - 400000) + 99) div 100 = (1060000::nat)"
  using percent_request_exact[OF hetero_limits(2), of 10 55 env0
    "\<lparr>minFreq = StrV (nat_str 10 @ ''%''), maxFreq = StrV (nat_str 55 @ ''%''), epp = [],
      governor = ''powersave''\<rparr>" sys0] by simp

text \<open>
  A request in absolute frequencies that is within the limits of the system (which is what
  \<open>ValidatePStates\<close> checks) is not rejected on any CPU: the minimum is raised to the CPU's own
  minimum and the maximum is lowered to the CPU's own maximum.
\<close>
theorem absolute_request_clamped:
  assumes "hw_limits g cid lo hi" and "no_faults env"
    and "getAbsMinMaxFreq (coreTypes g) = Ok (slo, shi)" and "slo \<le> a" and "b \<le> shi"
    and "a < 2 ^ 31" and "b < 2 ^ 31"
    and "minFreq ps = IntV (int a)" and "maxFreq ps = IntV (int b)"
  shows "snd (setDriverValues env g cid ps sy) = Ok () \<and>
     files (fst (setDriverValues env g cid ps sy)) =
       driver_files g cid ps (max a lo, min b hi) (files sy)"
  using assms by (rule setDriverValues_absolute)

text \<open>
  The witness is a machine where the outcome is not a range: a profile of 2 to 3 GHz is within the
  system's limits, and the little CPU is given a minimum of 2 GHz and a maximum of 1.6 GHz.
\<close>
theorem absolute_request_clamped_witness:
  "let ps = \<lparr>minFreq = IntV 2000000, maxFreq = IntV 3000000, epp = [], governor = ''powersave''\<rparr>;
       fs = files (fst (setDriverValues env0 hetero 1 ps sys0)) in
     fs (cpu_path hetero 1 scalingMinFile) = Some (nat_str 2000000) \<and>
     fs (cpu_path hetero 1 scalingMaxFile) = Some (nat_str 1600000)"
proof -
  let ?ps = "\<lparr>minFreq = IntV 2000000, maxFreq = IntV 3000000, epp = [], governor = ''powersave''\<rparr>"
  have "getAbsMinMaxFreq (coreTypes hetero) = Ok (400000, 3200000)"
    by (simp add: getAbsMinMaxFreq_def)
  from absolute_request_clamped[OF hetero_limits(2) env0_ok(2) this, of 2000000 3000000 ?ps sys0]
  show ?thesis by (simp add: Let_def del: pstate_files)
qed

end
