(* ===== verification/CStates.thy ===== *)
theory CStates
  imports PStates "HOL-Library.AList"
begin

text \<open>
  C-states, from \<open>c_states.go\<close>: the discovery of every CPU's idle states, the choice of the
  states a profile enables (by latency, by name, or the defaults of the driver), and the writing
  of the \<open>disable\<close> files. \<open>desired\<close> is the specification of the choice; \<open>updateCStates\<close> is shown
  to bring the files of every idle state of the CPU in line with it and to touch nothing else.
\<close>

section \<open>Discovery\<close>

definition "cStatesDir = ''cpuidle''"

definition cState_file :: "int \<Rightarrow> string \<Rightarrow> string" where
  "cState_file n f = cStatesDir @ ''/state'' @ Itoa n @ ''/'' @ f"

definition isSupportedCStatesDriver :: "string \<Rightarrow> bool" where
  "isSupportedCStatesDriver driver = (driver \<in> set [''intel_idle'', ''acpi_idle''])"

text \<open>\<open>FindStringSubmatch\<close> of the regular expression \<open>state(\d+)\<close>: the leftmost match.\<close>

definition is_digit :: "char \<Rightarrow> bool" where
  "is_digit c = (digit_of c \<noteq> None)"

fun state_digits :: "string \<Rightarrow> string option" where
  "state_digits [] = None"
| "state_digits (c # cs) =
     (if HasPrefix (c # cs) ''state'' \<and> takeWhile is_digit (drop 5 (c # cs)) \<noteq> []
      then Some (takeWhile is_digit (drop 5 (c # cs)))
      else state_digits cs)"

definition ReadDir :: "env \<Rightarrow> string \<Rightarrow> sys \<Rightarrow> sys \<times> (string \<times> bool) list res" where
  "ReadDir env p sy = (sy\<lparr>clock := Suc (clock sy)\<rparr>, dir_list env (clock sy) p)"

text \<open>The information on one state: its name, latency and default status.\<close>

definition read_cstate ::
  "env \<Rightarrow> pkgvars \<Rightarrow> nat \<Rightarrow> int \<Rightarrow> sys \<Rightarrow> sys \<times> (string \<times> cstateInfo) res" where
  "read_cstate env g cpuID n sy =
     (let lbl = ''could not read cpu'' @ nat_str cpuID @ '' C-State '' @ Itoa n in
      then_do (wrap_err (lbl @ '' name'') (readCpuStringProperty env g cpuID (cState_file n ''name'') sy))
        (\<lambda>stateName sy.
      then_do (wrap_err (lbl @ '' latency'') (readCpuUintProperty env g cpuID (cState_file n ''latency'') sy))
        (\<lambda>latency sy.
      (case readCpuStringProperty env g cpuID (cState_file n ''default_status'') sy of
         (sy, Panic m) \<Rightarrow> (sy, Panic m)
       | (sy, Error e) \<Rightarrow>
           if \<not> IsNotExist e then (sy, Error (Wrapf (lbl @ '' default status file'') e))
           else (sy, Ok (stateName, \<lparr>StateNumber = n, Latency = to_int64 (int latency), DefaultStatus = True\<rparr>))
       | (sy, Ok s) \<Rightarrow>
           (sy, Ok (stateName, \<lparr>StateNumber = n, Latency = to_int64 (int latency),
                                DefaultStatus = (s = ''enabled'')\<rparr>))))))"

definition map_cstate_dir ::
  "env \<Rightarrow> nat \<Rightarrow> string \<times> bool \<Rightarrow> pkgvars \<times> sys \<Rightarrow> (pkgvars \<times> sys) \<times> unit res" where
  "map_cstate_dir env cpuID d = (\<lambda>(g, sy).
     (case state_digits (fst d) of
        None \<Rightarrow> ((g, sy), Ok ())
      | Some ds \<Rightarrow>
          if \<not> snd d then ((g, sy), Ok ())
          else
            (case Atoi ds of
               None \<Rightarrow> ((g, sy), Error (Wrapf (''failed to extract cpu'' @ nat_str cpuID @
                         '' C-State number '' @ fst d) (atoi_err ds)))
             | Some n \<Rightarrow>
                 (case read_cstate env g cpuID n sy of
                    (sy, Error e) \<Rightarrow> ((g, sy), Error e)
                  | (sy, Panic m) \<Rightarrow> ((g, sy), Panic m)
                  | (sy, Ok (stateName, info)) \<Rightarrow>
                      ((g\<lparr>allCPUCStatesInfo :=
                            AList.update cpuID
                              (AList.update stateName info
                                 (the_default [] (map_of (allCPUCStatesInfo g) cpuID)))
                              (allCPUCStatesInfo g)\<rparr>, sy), Ok ())))))"

definition map_cstates_cpu :: "env \<Rightarrow> nat \<Rightarrow> pkgvars \<times> sys \<Rightarrow> (pkgvars \<times> sys) \<times> unit res" where
  "map_cstates_cpu env cpuID = (\<lambda>(g, sy).
     (let g = g\<lparr>allCPUCStatesInfo := AList.update cpuID [] (allCPUCStatesInfo g)\<rparr> in
      case ReadDir env (basePath g @ ''/cpu'' @ nat_str cpuID @ ''/'' @ cStatesDir) sy of
        (sy, Error e) \<Rightarrow>
          ((g, sy), Error (Wrapf (''could not open cpu'' @ nat_str cpuID @ '' C-States directory'') e))
      | (sy, Panic m) \<Rightarrow> ((g, sy), Panic m)
      | (sy, Ok cpuDirs) \<Rightarrow> foreach (map_cstate_dir env cpuID) cpuDirs (g, sy)))"

definition mapAvailableCStates :: "env \<Rightarrow> pkgvars \<times> sys \<Rightarrow> (pkgvars \<times> sys) \<times> unit res" where
  "mapAvailableCStates env = (\<lambda>(g, sy).
     (case getNumberOfCpus env g sy of
        (sy, n) \<Rightarrow> foreach (map_cstates_cpu env) [0..<n] (g, sy)))"

definition initCStates :: "env \<Rightarrow> pkgvars \<times> sys \<Rightarrow> (pkgvars \<times> sys) \<times> featureStatus res" where
  "initCStates env = (\<lambda>(g, sy).
     (case readStringFromFile env (basePath g @ ''/'' @ cStatesDir @ ''/current_driver'') sy of
        (sy, Panic m) \<Rightarrow> ((g, sy), Panic m)
      | (sy, Error e) \<Rightarrow>
          ((g, sy), Ok \<lparr>fs_name = ''C-States'', fs_driver = [],
                        fs_err = Some (Wrapf ''failed to determine driver'' e)\<rparr>)
      | (sy, Ok c) \<Rightarrow>
          (let driver = TrimSuffix c [CHR 0x0A] in
           if \<not> isSupportedCStatesDriver driver then
             ((g, sy), Ok \<lparr>fs_name = ''C-States'', fs_driver = driver,
                           fs_err = Some (Errorf (''unsupported driver: '' @ driver))\<rparr>)
           else
             (case mapAvailableCStates env (g, sy) of
                (s, Panic m) \<Rightarrow> (s, Panic m)
              | (s, Error e) \<Rightarrow> (s, Ok \<lparr>fs_name = ''C-States'', fs_driver = driver, fs_err = Some e\<rparr>)
              | (s, Ok _) \<Rightarrow> (s, Ok \<lparr>fs_name = ''C-States'', fs_driver = driver, fs_err = None\<rparr>)))))"

section \<open>Choice of the states\<close>

definition cpuCStatesInfo :: "pkgvars \<Rightarrow> nat \<Rightarrow> (string \<times> cstateInfo) list" where
  "cpuCStatesInfo g cid = the_default [] (map_of (allCPUCStatesInfo g) cid)"

definition getDefaultCStatesStatus :: "pkgvars \<Rightarrow> nat \<Rightarrow> (string \<times> bool) list" where
  "getDefaultCStatesStatus g cid = map (\<lambda>(n, i). (n, DefaultStatus i)) (cpuCStatesInfo g cid)"

definition GetAvailableCStates :: "pkgvars \<Rightarrow> string list" where
  "GetAvailableCStates g = remdups (concat (map (\<lambda>(c, m). map fst m) (allCPUCStatesInfo g)))"

definition configCStatesByLatency :: "pkgvars \<Rightarrow> nat \<Rightarrow> int \<Rightarrow> cstates" where
  "configCStatesByLatency g cid maxLat =
     \<lparr>states = map (\<lambda>(n, i). (n, if Latency i \<le> maxLat then True else False)) (cpuCStatesInfo g cid),
      maxLatencyUs = None\<rparr>"

definition configCStatesByNames :: "pkgvars \<Rightarrow> nat \<Rightarrow> (string \<times> bool) list \<Rightarrow> cstates" where
  "configCStatesByNames g cid names =
     \<lparr>states = map (\<lambda>(n, i). (n, case map_of names n of Some b \<Rightarrow> b | None \<Rightarrow> DefaultStatus i))
        (cpuCStatesInfo g cid),
      maxLatencyUs = None\<rparr>"

section \<open>Application\<close>

definition disable_path :: "pkgvars \<Rightarrow> nat \<Rightarrow> int \<Rightarrow> string" where
  "disable_path g cid n = cpu_path g cid (cState_file n ''disable'')"

definition apply_cstate ::
  "env \<Rightarrow> pkgvars \<Rightarrow> nat \<Rightarrow> string \<times> bool \<Rightarrow> sys \<Rightarrow> sys \<times> unit res" where
  "apply_cstate env g cid st sy =
     (case map_of (cpuCStatesInfo g cid) (fst st) of
        None \<Rightarrow> (sy, Ok ())
      | Some info \<Rightarrow>
          wrap_err (''could not apply cstate '' @ fst st @ '' on cpu '' @ nat_str cid)
            (WriteFile env (disable_path g cid (StateNumber info)) (if snd st then ''0'' else ''1'') sy))"

definition applyCStates :: "env \<Rightarrow> pkgvars \<Rightarrow> nat \<Rightarrow> cstates \<Rightarrow> sys \<Rightarrow> sys \<times> unit res" where
  "applyCStates env g cid cs sy =
     foreach (apply_cstate env g cid) (map_order env (clock sy) (states cs)) sy"

definition updateCStates :: "env \<Rightarrow> pkgvars \<Rightarrow> nat \<Rightarrow> profile option \<Rightarrow> sys \<Rightarrow> sys \<times> unit res" where
  "updateCStates env g cid prof sy =
     (if \<not> IsFeatureSupported g [CStatesFeature] then (sy, Ok ())
      else
        let dflt = applyCStates env g cid
                     \<lparr>states = getDefaultCStatesStatus g cid, maxLatencyUs = None\<rparr> sy
        in case prof of
             None \<Rightarrow> dflt
           | Some p \<Rightarrow>
               (case maxLatencyUs (prof_cstates p) of
                  Some l \<Rightarrow> applyCStates env g cid (configCStatesByLatency g cid l) sy
                | None \<Rightarrow>
                    if 0 < length (states (prof_cstates p))
                    then applyCStates env g cid (configCStatesByNames g cid (states (prof_cstates p))) sy
                    else dflt))"


section \<open>Well-formed C-state tables\<close>

text \<open>
  Names are the keys of a Go map. Distinct states have distinct directories, hence numbers.
\<close>

definition cstates_ok :: "pkgvars \<Rightarrow> nat \<Rightarrow> bool" where
  "cstates_ok g cid =
     (distinct (map fst (cpuCStatesInfo g cid)) \<and>
      distinct (map (\<lambda>x. StateNumber (snd x)) (cpuCStatesInfo g cid)))"

lemma map_cstate_dir_names:
  assumes "\<forall>c. distinct (map fst (cpuCStatesInfo (fst s) c))"
  shows "\<forall>c. distinct (map fst (cpuCStatesInfo (fst (fst (map_cstate_dir env cpuID d s))) c))"
  using assms
  by (auto simp: map_cstate_dir_def cpuCStatesInfo_def update_conv' distinct_update
      split: prod.splits option.splits res.splits)

lemma map_cstates_cpu_names:
  assumes "\<forall>c. distinct (map fst (cpuCStatesInfo (fst s) c))"
  shows "\<forall>c. distinct (map fst (cpuCStatesInfo (fst (fst (map_cstates_cpu env cpuID s))) c))"
proof -
  let ?I = "\<lambda>s. \<forall>c. distinct (map fst (cpuCStatesInfo (fst s) c))"
  obtain g sy where s: "s = (g, sy)" by (cases s)
  let ?g = "g\<lparr>allCPUCStatesInfo := AList.update cpuID [] (allCPUCStatesInfo g)\<rparr>"
  have i: "?I (?g, sy')" for sy' :: sys
    using assms s by (auto simp: cpuCStatesInfo_def update_conv')
  have "?I (fst (foreach (map_cstate_dir env cpuID) ds (?g, sy')))" for ds sy'
    by (rule foreach_inv[where I = ?I, OF i map_cstate_dir_names])
  then show ?thesis using i
    by (auto simp: map_cstates_cpu_def Let_def s ReadDir_def split: res.splits)
qed

lemma mapAvailableCStates_names:
  assumes "\<forall>c. distinct (map fst (cpuCStatesInfo (fst s) c))"
  shows "distinct (map fst (cpuCStatesInfo (fst (fst (mapAvailableCStates env s))) cid))"
proof -
  let ?I = "\<lambda>s. \<forall>c. distinct (map fst (cpuCStatesInfo (fst s) c))"
  have "?I (fst (foreach (map_cstates_cpu env) ns s'))" if "?I s'" for ns s'
    by (rule foreach_inv[where I = ?I, OF that map_cstates_cpu_names])
  then show ?thesis using assms
    by (fastforce simp: mapAvailableCStates_def split: prod.splits)
qed

lemma Itoa_inj: "Itoa a = Itoa b \<Longrightarrow> a = b"
proof -
  have d: "nat_str n \<noteq> CHR ''-'' # xs" for n xs
  proof
    assume "nat_str n = CHR ''-'' # xs"
    then have "CHR ''-'' \<in> set (nat_str n)" by simp
    then show False by simp
  qed
  assume "Itoa a = Itoa b"
  then show "a = b" using d d[symmetric] by (auto simp: Itoa_def split: if_splits)
qed

lemma disable_path_inj [simp]: "disable_path g c m = disable_path g c n \<longleftrightarrow> m = n"
  by (auto simp: disable_path_def cpu_path_def cState_file_def dest: Itoa_inj)

section \<open>What the files hold\<close>

definition cstate_update ::
  "pkgvars \<Rightarrow> nat \<Rightarrow> string \<times> bool \<Rightarrow> (string \<rightharpoonup> string) \<Rightarrow> (string \<rightharpoonup> string)" where
  "cstate_update g cid st fs =
     (case map_of (cpuCStatesInfo g cid) (fst st) of
        None \<Rightarrow> fs
      | Some info \<Rightarrow> fs(disable_path g cid (StateNumber info) \<mapsto> (if snd st then ''0'' else ''1'')))"

lemma apply_cstate_Ok:
  "apply_cstate env g cid st sy = (sy', Ok ()) \<Longrightarrow> files sy' = cstate_update g cid st (files sy)"
  by (auto simp: apply_cstate_def cstate_update_def split: option.splits dest!: WriteFile_Ok)

lemma foreach_files:
  assumes "foreach f xs sy = (sy', Ok ())"
    and "\<And>x sy sy'. f x sy = (sy', Ok ()) \<Longrightarrow> files sy' = u x (files sy)"
  shows "files sy' = fold u xs (files sy)"
  using assms(1)
proof (induction xs arbitrary: sy)
  case (Cons x xs)
  then obtain s where "f x sy = (s, Ok ())" "foreach f xs s = (sy', Ok ())"
    by (auto split: prod.splits res.splits)
  with Cons.IH assms(2) show ?case by simp
qed simp

lemma fold_cstate_frame:
  assumes "\<forall>st \<in> set xs. \<forall>info. map_of (cpuCStatesInfo g cid) (fst st) = Some info \<longrightarrow>
             q \<noteq> disable_path g cid (StateNumber info)"
  shows "fold (cstate_update g cid) xs fs q = fs q"
  using assms by (induction xs arbitrary: fs) (auto simp: cstate_update_def split: option.splits)

lemma same_number:
  assumes "cstates_ok g cid" and "map_of (cpuCStatesInfo g cid) n = Some i"
    and "map_of (cpuCStatesInfo g cid) m = Some j" and "StateNumber i = StateNumber j"
  shows "m = n"
proof -
  have "(n, i) \<in> set (cpuCStatesInfo g cid)" "(m, j) \<in> set (cpuCStatesInfo g cid)"
    using assms(2,3) by (simp_all add: map_of_SomeD)
  moreover have "inj_on (\<lambda>x. StateNumber (snd x)) (set (cpuCStatesInfo g cid))"
    using assms(1) by (simp add: cstates_ok_def distinct_map)
  ultimately have "(n, i) = (m, j)" using assms(4) by (elim inj_onD) simp_all
  then show ?thesis by simp
qed

lemma fold_cstate_write:
  assumes ok: "cstates_ok g cid" and "map_of (cpuCStatesInfo g cid) n = Some info"
    and "distinct (map fst xs)" and "(n, b) \<in> set xs"
  shows "fold (cstate_update g cid) xs fs (disable_path g cid (StateNumber info)) =
         Some (if b then ''0'' else ''1'')"
  using assms(3,4)
proof (induction xs arbitrary: fs)
  case (Cons st xs)
  show ?case
  proof (cases "st = (n, b)")
    case True
    then have "fold (cstate_update g cid) xs fs' (disable_path g cid (StateNumber info)) =
               fs' (disable_path g cid (StateNumber info))" for fs'
      using Cons.prems(1) same_number[OF ok assms(2)] by (intro fold_cstate_frame) force
    then have "?thesis \<longleftrightarrow> cstate_update g cid st fs (disable_path g cid (StateNumber info)) =
                 Some (if b then ''0'' else ''1'')" by simp
    then show ?thesis using True assms(2) by (simp add: cstate_update_def)
  qed (use Cons in auto)
qed simp

text \<open>The specification: what a profile asks of a C-state.\<close>

definition desired :: "profile option \<Rightarrow> string \<Rightarrow> cstateInfo \<Rightarrow> bool" where
  "desired prof n info =
     (case prof of
        None \<Rightarrow> DefaultStatus info
      | Some p \<Rightarrow>
          (case maxLatencyUs (prof_cstates p) of
             Some l \<Rightarrow> Latency info \<le> l
           | None \<Rightarrow> the_default (DefaultStatus info) (map_of (states (prof_cstates p)) n)))"

lemma updateCStates_desired:
  assumes "isFeatureIdSupported g CStatesFeature"
  shows "updateCStates env g cid prof sy =
     applyCStates env g cid
       \<lparr>states = map (\<lambda>(n, i). (n, desired prof n i)) (cpuCStatesInfo g cid), maxLatencyUs = None\<rparr> sy"
proof -
  have nm: "(case map_of s n of Some b \<Rightarrow> b | None \<Rightarrow> d) = the_default d (map_of s n)"
    for s n and d :: bool by (cases "map_of s n") simp_all
  have lat: "(if b then True else False) = b" for b by simp
  show ?thesis using assms
    by (cases prof) (auto simp: updateCStates_def Let_def desired_def getDefaultCStatesStatus_def
        configCStatesByLatency_def configCStatesByNames_def nm lat split: option.splits)
qed

lemma applyCStates_Ok:
  assumes "env_ok env" and "applyCStates env g cid cs sy = (sy', Ok ())"
  obtains xs where "mset xs = mset (states cs)"
    and "files sy' = fold (cstate_update g cid) xs (files sy)"
proof (rule that)
  show "mset (map_order env (clock sy) (states cs)) = mset (states cs)"
    using assms(1) by (simp add: env_ok_def)
  show "files sy' = fold (cstate_update g cid) (map_order env (clock sy) (states cs)) (files sy)"
    using assms(2) unfolding applyCStates_def
    by (rule foreach_files[where u = "cstate_update g cid"]) (rule apply_cstate_Ok)
qed

lemma updateCStates_files:
  assumes "env_ok env" and "isFeatureIdSupported g CStatesFeature" and "cstates_ok g cid"
    and "snd (updateCStates env g cid prof sy) = Ok ()"
  shows "(\<forall>(n, info) \<in> set (cpuCStatesInfo g cid).
            files (fst (updateCStates env g cid prof sy)) (disable_path g cid (StateNumber info)) =
              Some (if desired prof n info then ''0'' else ''1'')) \<and>
         (\<forall>q. (\<forall>(n, info) \<in> set (cpuCStatesInfo g cid). q \<noteq> disable_path g cid (StateNumber info)) \<longrightarrow>
            files (fst (updateCStates env g cid prof sy)) q = files sy q)"
proof -
  let ?r = "fst (updateCStates env g cid prof sy)"
  let ?want = "map (\<lambda>(n, i). (n, desired prof n i)) (cpuCStatesInfo g cid)"
  have "applyCStates env g cid \<lparr>states = ?want, maxLatencyUs = None\<rparr> sy = (?r, Ok ())"
    using assms(4) unfolding updateCStates_desired[OF assms(2)] by (simp add: prod_eq_iff)
  from applyCStates_Ok[OF assms(1) this] obtain xs where xs: "mset xs = mset ?want"
    and f: "files ?r = fold (cstate_update g cid) xs (files sy)" by auto
  have keys: "distinct (map fst (cpuCStatesInfo g cid))" using assms(3) by (simp add: cstates_ok_def)
  have "map fst ?want = map fst (cpuCStatesInfo g cid)" by (induction "cpuCStatesInfo g cid") auto
  with keys have "distinct (map fst xs)"
    by (metis (no_types) mset_map mset_eq_imp_distinct_iff xs)
  then have hit: "files ?r (disable_path g cid (StateNumber info)) =
      Some (if desired prof n info then ''0'' else ''1'')"
    if "(n, info) \<in> set (cpuCStatesInfo g cid)" for n info
    unfolding f using that keys mset_eq_setD[OF xs]
    by (intro fold_cstate_write[OF assms(3)]) auto
  have "files ?r q = files sy q"
    if "\<forall>(n, info) \<in> set (cpuCStatesInfo g cid). q \<noteq> disable_path g cid (StateNumber info)" for q
    unfolding f using that by (intro fold_cstate_frame) (auto dest!: map_of_SomeD)
  with hit show ?thesis by blast
qed

text \<open>Whatever the outcome, only the \<open>disable\<close> files of the CPU's own states are written.\<close>

lemma updateCStates_frame:
  assumes "\<forall>n. q \<noteq> disable_path g cid n"
  shows "files (fst (updateCStates env g cid prof sy)) q = files sy q"
proof -
  let ?I = "\<lambda>s. files s q = files sy q"
  have "?I s \<Longrightarrow> ?I (fst (apply_cstate env g cid x s))" for x s
    using assms WriteFile_other[of q] by (auto simp: apply_cstate_def split: option.split)
  then have "?I (fst (applyCStates env g cid cs sy))" for cs
    unfolding applyCStates_def by (intro foreach_inv[where I = ?I]) auto
  then show ?thesis by (simp add: updateCStates_def Let_def split: option.split)
qed

section \<open>Properties\<close>

text \<open>
  C36. When \<open>updateCStates\<close> returns without error, in whatever order Go enumerates the maps, the
  \<open>disable\<close> file of every idle state of the CPU holds 0 exactly when the pool's profile asks for
  the state: its latency is within the profile's limit, or the profile names it as enabled, or
  neither is given and the driver enables it by default. No other file is written.
\<close>
theorem updateCStates_correct:
  assumes "env_ok env" and "isFeatureIdSupported g CStatesFeature" and "cstates_ok g cid"
    and "snd (updateCStates env g cid prof sy) = Ok ()"
  shows "(\<forall>(n, info) \<in> set (cpuCStatesInfo g cid).
            files (fst (updateCStates env g cid prof sy)) (disable_path g cid (StateNumber info)) =
              Some (if desired prof n info then ''0'' else ''1'')) \<and>
         (\<forall>q. (\<forall>(n, info) \<in> set (cpuCStatesInfo g cid). q \<noteq> disable_path g cid (StateNumber info)) \<longrightarrow>
            files (fst (updateCStates env g cid prof sy)) q = files sy q)"
  using assms by (rule updateCStates_files)

definition idle :: pkgvars where
  "idle = hetero\<lparr>allCPUCStatesInfo :=
     [(0, [(''C1'', \<lparr>StateNumber = 1, Latency = 2, DefaultStatus = True\<rparr>),
           (''C6'', \<lparr>StateNumber = 3, Latency = 90, DefaultStatus = True\<rparr>)])]\<rparr>"

theorem updateCStates_correct_witness:
  "let p = \<lparr>prof_name = ''low'', prof_pstates = zero_pstates,
            prof_cstates = \<lparr>states = [], maxLatencyUs = Some 10\<rparr>\<rparr>;
       fs = files (fst (updateCStates env0 idle 0 (Some p) sys0)) in
     fs (disable_path idle 0 1) = Some ''0'' \<and> fs (disable_path idle 0 3) = Some ''1''"
proof -
  let ?p = "\<lparr>prof_name = ''low'', prof_pstates = zero_pstates,
             prof_cstates = \<lparr>states = [], maxLatencyUs = Some 10\<rparr>\<rparr>"
  have s: "isFeatureIdSupported idle CStatesFeature"
    by (simp add: idle_def hetero_def isFeatureIdSupported_def isSupported_def)
  have i: "cpuCStatesInfo idle 0 =
     [(''C1'', \<lparr>StateNumber = 1, Latency = 2, DefaultStatus = True\<rparr>),
      (''C6'', \<lparr>StateNumber = 3, Latency = 90, DefaultStatus = True\<rparr>)]"
    by (simp add: idle_def cpuCStatesInfo_def)
  then have ok: "cstates_ok idle 0" by (simp add: cstates_ok_def)
  have "snd (updateCStates env0 idle 0 (Some ?p) sys0) = Ok ()"
    by (simp add: updateCStates_desired[OF s] applyCStates_def i apply_cstate_def env0_def
        WriteFile_def Let_def)
  from updateCStates_correct[OF env0_ok(1) s ok this] show ?thesis
    by (simp add: i desired_def Let_def)
qed

end
