(* ===== verification/Profile.thy ===== *)
theory Profile
  imports CStates
begin

text \<open>
  Power profiles, from \<open>power_profile.go\<close>: \<open>NewPowerProfile\<close> completes the requested frequencies
  (in MHz or in percent), validates P-states and C-states and stores frequencies in kHz. The
  properties say what an accepted profile guarantees (ordered, within the system's limits, no
  \<open>int32\<close> wrap-around in the conversion to kHz) and when it can be applied to a CPU.
\<close>

section \<open>Validation\<close>

definition checkGov :: "pkgvars \<Rightarrow> string \<Rightarrow> bool" where
  "checkGov g gov = list_ex (\<lambda>element. element = gov) (availableGovs g)"

text \<open>\<open>int(absoluteMinimumFrequency / 1000)\<close>, truncated by \<open>FromInt\<close>.\<close>

definition mhz :: "nat \<Rightarrow> int" where
  "mhz khz = to_int32 (int (khz div 1000))"

definition bothTypesErr :: err where
  "bothTypesErr = ServiceUnavailable ''max and min frequency must be either numeric or percentage''"

definition AdjustMinMaxFreq ::
  "pkgvars \<Rightarrow> IntOrString option \<Rightarrow> IntOrString option \<Rightarrow> (IntOrString \<times> IntOrString) res" where
  "AdjustMinMaxFreq g mn mx =
     (case getAbsMinMaxFreq (coreTypes g) of
        Error e \<Rightarrow> Error e
      | Panic m \<Rightarrow> Panic m
      | Ok (absMin, absMax) \<Rightarrow>
          (let (finalMin, finalMax) =
             (case (mn, mx) of
                (None, Some (IntV b)) \<Rightarrow> (FromInt (int (absMin div 1000)), IntV b)
              | (None, Some (StrV b)) \<Rightarrow> (FromString ''0%'', StrV b)
              | (Some (IntV a), None) \<Rightarrow> (IntV a, FromInt (int (absMax div 1000)))
              | (Some (StrV a), None) \<Rightarrow> (StrV a, FromString ''100%'')
              | (None, None) \<Rightarrow> (FromString ''0%'', FromString ''100%'')
              | (Some a, Some b) \<Rightarrow> (a, b))
           in if is_IntV finalMin \<noteq> is_IntV finalMax then Error bothTypesErr
              else Ok (finalMin, finalMax)))"

fun check_freqs :: "nat \<Rightarrow> nat \<Rightarrow> IntOrString \<Rightarrow> IntOrString \<Rightarrow> unit res" where
  "check_freqs absMin absMax (IntV a) (IntV b) =
     (if a < 0 then Error (Errorf (''min frequency must be a non-negative integer, got '' @ Itoa a))
      else if b < a then
        Error (Errorf (''max frequency ('' @ Itoa b @ '') cannot be lower than the min frequency ('' @ Itoa a @ '')''))
      else if a < mhz absMin \<or> mhz absMax < b then
        Error (Errorf (''max and min frequency must be within the range '' @ nat_str absMin @ ''-'' @ nat_str absMax))
      else Ok ())"
| "check_freqs absMin absMax (StrV a) (StrV b) =
     (case Atoi (TrimSuffix a ''%'') of
        None \<Rightarrow> Error (Wrapf ''invalid min frequency'' (atoi_err (TrimSuffix a ''%'')))
      | Some x \<Rightarrow>
          (case Atoi (TrimSuffix b ''%'') of
             None \<Rightarrow> Error (Wrapf ''invalid max frequency'' (atoi_err (TrimSuffix b ''%'')))
           | Some y \<Rightarrow>
               if y < x then
                 Error (Errorf (''max frequency ('' @ b @ '') cannot be lower than the min frequency ('' @ a @ '')''))
               else Ok ()))"
| "check_freqs absMin absMax _ _ = Error bothTypesErr"

definition ValidatePStates ::
  "pkgvars \<Rightarrow> IntOrString \<Rightarrow> IntOrString \<Rightarrow> string \<Rightarrow> string \<Rightarrow> unit res" where
  "ValidatePStates g mn mx gov ep =
     (if is_IntV mn \<noteq> is_IntV mx then Error bothTypesErr
      else
        (case getAbsMinMaxFreq (coreTypes g) of
           Error e \<Rightarrow> Error e
         | Panic m \<Rightarrow> Panic m
         | Ok (absMin, absMax) \<Rightarrow>
             (case check_freqs absMin absMax mn mx of
                Error e \<Rightarrow> Error e
              | Panic m \<Rightarrow> Panic m
              | Ok _ \<Rightarrow>
                  (let gov = (if gov = [] then defaultGovernor else gov) in
                   if \<not> checkGov g gov then
                     Error (Errorf (''governor '' @ gov @ '' is not supported, please use one of the following: ['' @
                              intercalate '' '' (availableGovs g) @ '']''))
                   else if ep \<noteq> [] \<and> gov = cpuPolicyPerformance \<and> ep \<noteq> cpuPolicyPerformance then
                     Error (Errorf (CHR 0x27 # cpuPolicyPerformance @ [CHR 0x27] @ '' epp can be used with '' @
                              [CHR 0x27] @ cpuPolicyPerformance @ [CHR 0x27] @ '' governor''))
                   else Ok ()))))"

text \<open>The order of \<open>sts\<close> is the order in which \<open>range\<close> enumerates the map.\<close>

definition ValidateCStates :: "pkgvars \<Rightarrow> (string \<times> bool) list \<Rightarrow> int option \<Rightarrow> unit res" where
  "ValidateCStates g sts maxLat =
     (if 0 < length sts \<and> maxLat \<noteq> None then
        Error (Errorf ''cannot specify both explicit C-state names and latency-based configuration'')
      else case maxLat of
        Some l \<Rightarrow>
          if l < 0 then Error (Errorf (''maxLatencyUs must be a non-negative integer, got '' @ Itoa l))
          else Ok ()
      | None \<Rightarrow>
          (case find (\<lambda>st. fst st \<notin> set (GetAvailableCStates g)) sts of
             Some st \<Rightarrow> Error (Errorf (''c-state '' @ fst st @ '' does not exist on this system''))
           | None \<Rightarrow> Ok ()))"

fun to_khz :: "IntOrString \<Rightarrow> IntOrString" where
  "to_khz (IntV i) = FromInt (to_int32 (i * 1000))"
| "to_khz (StrV s) = StrV s"

text \<open>
  A nil profile with a nil error would be returned if the feature's error were nil; that is not
  possible, because the feature is not supported exactly when its error is not nil.
\<close>

definition feature_error :: "pkgvars \<Rightarrow> featureID \<Rightarrow> err" where
  "feature_error g f = the_default undefinederr (getFeatureIdError g f)"

definition NewPowerProfile ::
  "pkgvars \<Rightarrow> string \<Rightarrow> IntOrString option \<Rightarrow> IntOrString option \<Rightarrow> string \<Rightarrow> string \<Rightarrow>
   (string \<times> bool) list \<Rightarrow> int option \<Rightarrow> profile res" where
  "NewPowerProfile g name mn mx gov ep sts maxLat =
     (if \<not> isFeatureIdSupported g FrequencyScalingFeature
      then Error (feature_error g FrequencyScalingFeature)
      else case AdjustMinMaxFreq g mn mx of
        Panic m \<Rightarrow> Panic m
      | Error e \<Rightarrow> Error (Wrapf ''invalid P-states configuration'' e)
      | Ok (finalMin, finalMax) \<Rightarrow>
          (case ValidatePStates g finalMin finalMax gov ep of
             Panic m \<Rightarrow> Panic m
           | Error e \<Rightarrow> Error (Wrapf ''invalid P-states configuration'' e)
           | Ok _ \<Rightarrow>
               if \<not> isFeatureIdSupported g CStatesFeature then Error (feature_error g CStatesFeature)
               else
                 (case ValidateCStates g sts maxLat of
                    Panic m \<Rightarrow> Panic m
                  | Error e \<Rightarrow> Error (Wrapf ''invalid C-states configuration'' e)
                  | Ok _ \<Rightarrow>
                      Ok \<lparr>prof_name = name,
                          prof_pstates = \<lparr>minFreq = to_khz finalMin, maxFreq = to_khz finalMax,
                                          epp = ep, governor = gov\<rparr>,
                          prof_cstates = \<lparr>states = sts, maxLatencyUs = maxLat\<rparr>\<rparr>)))"

section \<open>Facts\<close>

lemma feature_error_some:
  "\<not> isFeatureIdSupported g f \<Longrightarrow> getFeatureIdError g f = Some (feature_error g f)"
  by (auto simp: isFeatureIdSupported_def getFeatureIdError_def feature_error_def isSupported_def
      split: option.splits)

lemma mhz_id [simp]: "khz < 2 ^ 31 \<Longrightarrow> mhz khz = int (khz div 1000)"
  by (simp add: mhz_def)

lemma NewPowerProfile_Ok:
  assumes "NewPowerProfile g name mn mx gov ep sts maxLat = Ok p"
  obtains slo shi a b where "getAbsMinMaxFreq (coreTypes g) = Ok (slo, shi)"
    and "AdjustMinMaxFreq g mn mx = Ok (a, b)" and "is_IntV a = is_IntV b"
    and "check_freqs slo shi a b = Ok ()" and "ValidateCStates g sts maxLat = Ok ()"
    and "p = \<lparr>prof_name = name,
              prof_pstates = \<lparr>minFreq = to_khz a, maxFreq = to_khz b, epp = ep, governor = gov\<rparr>,
              prof_cstates = \<lparr>states = sts, maxLatencyUs = maxLat\<rparr>\<rparr>"
    and "checkGov g (if gov = [] then defaultGovernor else gov)"
  using assms
  by (auto simp: NewPowerProfile_def ValidatePStates_def Let_def split: if_splits res.splits prod.splits)

lemma check_freqs_Int:
  assumes "check_freqs slo shi (IntV a) (IntV b) = Ok ()" and "shi < 2 ^ 31" and "slo \<le> shi"
  shows "0 \<le> a" and "a \<le> b" and "int (slo div 1000) \<le> a" and "b \<le> int (shi div 1000)"
  using assms by (auto split: if_splits)

lemma to_khz_range:
  assumes "0 \<le> i" and "i \<le> int (khz div 1000)" and "khz < 2 ^ 31"
  shows "to_khz (IntV i) = IntV (1000 * i)" and "1000 * i \<le> int khz"
proof -
  have "1000 * (khz div 1000) \<le> khz" by simp
  then have "1000 * int (khz div 1000) \<le> int khz" by linarith
  then show b: "1000 * i \<le> int khz" using assms(2) by linarith
  have "int khz < 2 ^ 31" using assms(3) by simp
  with b have "1000 * i < 2 ^ 31" by linarith
  then show "to_khz (IntV i) = IntV (1000 * i)"
    using assms(1) by (simp add: FromInt_def mult.commute)
qed

lemma ValidateCStates_Ok:
  "ValidateCStates g sts maxLat = Ok () \<longleftrightarrow>
     (case maxLat of Some l \<Rightarrow> sts = [] \<and> 0 \<le> l
      | None \<Rightarrow> fst ` set sts \<subseteq> set (GetAvailableCStates g))"
  by (auto simp: ValidateCStates_def find_None split: option.splits dest!: find_SomeD)

text \<open>What the CRD admits in percent: \<open>0%\<close> to \<open>100%\<close>, without leading zeros.\<close>

definition percent_str :: "nat \<Rightarrow> string" where
  "percent_str p = nat_str p @ ''%''"

definition crd_percent :: "IntOrString option \<Rightarrow> bool" where
  "crd_percent x = (case x of Some (StrV s) \<Rightarrow> s \<in> percent_str ` {0..100} | _ \<Rightarrow> True)"

lemma percent_str_ends: "''0%'' = percent_str 0" "''100%'' = percent_str 100"
  by (simp_all add: percent_str_def nat_str.simps digit_char_def char_of_def bit_iff_odd)

lemma TrimSuffix_percent [simp]: "TrimSuffix (percent_str p) ''%'' = nat_str p"
  using TrimSuffix_append[of "nat_str p" "''%''"] by (simp add: percent_str_def)

lemma AdjustMinMaxFreq_percent:
  assumes "AdjustMinMaxFreq g mn mx = Ok (StrV x, StrV y)" and "crd_percent mn" and "crd_percent mx"
  obtains p q where "x = percent_str p" and "y = percent_str q" and "p \<le> 100" and "q \<le> 100"
proof -
  define pct where "pct s = (\<exists>p \<le> 100. s = percent_str p)" for s
  have e: "pct ''0%''" "pct ''100%''" unfolding pct_def
    by (rule exI[of _ 0], simp add: percent_str_ends) (rule exI[of _ 100], simp only: percent_str_ends(2), simp)
  have c: "crd_percent (Some (StrV s)) \<longleftrightarrow> pct s" for s
    unfolding crd_percent_def pct_def by auto
  have "pct x" "pct y" using assms e
    by (auto simp: AdjustMinMaxFreq_def c FromInt_def FromString_def
        Let_def split: res.splits option.splits IntOrString.splits if_splits)
  then have "\<exists>p \<le> 100. x = percent_str p" "\<exists>p \<le> 100. y = percent_str p"
    by (simp_all only: pct_def)
  then show ?thesis using that by blast
qed

lemma check_freqs_percent:
  assumes "check_freqs slo shi (StrV (percent_str p)) (StrV (percent_str q)) = Ok ()"
    and "p \<le> 100" and "q \<le> 100"
  shows "p \<le> q"
proof -
  have "Atoi (nat_str p) = Some (int p)" "Atoi (nat_str q) = Some (int q)"
    using assms(2,3) by (simp_all add: max_int64_def)
  with assms(1) show ?thesis by (simp split: if_splits)
qed

lemma system_order:
  assumes "getAbsMinMaxFreq (coreTypes g) = Ok (slo, shi)" and "hw_limits g cid lo hi"
  shows "slo \<le> lo" and "lo \<le> hi" and "hi \<le> shi"
  using assms by (auto simp: hw_limits_def dest: getAbsMinMaxFreq_bounds)

section \<open>Properties\<close>


definition gold :: profile where
  "gold = \<lparr>prof_name = ''gold'',
     prof_pstates = \<lparr>minFreq = IntV 400000, maxFreq = IntV 2000000, epp = [], governor = ''powersave''\<rparr>,
     prof_cstates = \<lparr>states = [], maxLatencyUs = Some 10\<rparr>\<rparr>"

lemma hetero_system: "getAbsMinMaxFreq (coreTypes hetero) = Ok (400000, 3200000)"
  by (simp add: getAbsMinMaxFreq_def)

lemmas new_profile_simps =
  NewPowerProfile_def AdjustMinMaxFreq_def ValidatePStates_def ValidateCStates_def checkGov_def
  FromInt_def FromString_def cpuPolicyPerformance_def Let_def

lemma hetero_govs [simp]: "availableGovs hetero = [''performance'', ''powersave'']"
  by (simp add: hetero_def)

lemma new_gold:
  "NewPowerProfile hetero ''gold'' None (Some (IntV 2000)) ''powersave'' [] [] (Some 10) = Ok gold"
  by (simp add: new_profile_simps hetero_system gold_def del: hetero_basic(2))




text \<open>
  On a machine whose lowest frequency is not a whole number of MHz, a profile that leaves the
  minimum to the default and gives a maximum in MHz is accepted by \<open>NewPowerProfile\<close>, but its
  minimum is the hardware minimum rounded down to MHz, and \<open>setDriverValues\<close> rejects it on every
  CPU with that minimum before it writes a frequency.
\<close>
theorem default_minimum_rejected:
  assumes "NewPowerProfile g name None (Some (IntV mx)) gov ep sts maxLat = Ok p"
    and "getAbsMinMaxFreq (coreTypes g) = Ok (slo, shi)" and "shi < 2 ^ 31" and "slo mod 1000 \<noteq> 0"
    and "hw_limits g cid slo hi" and "no_faults env"
  shows "\<exists>m. snd (setDriverValues env g cid (prof_pstates p) sy) = Error (Errorf m)"
proof -
  have s: "slo \<le> hi" "hi \<le> shi" using system_order[OF assms(2,5)] by simp_all
  then have "slo < 2 ^ 31" using assms(3) by simp
  then have adj: "AdjustMinMaxFreq g None (Some (IntV mx)) = Ok (IntV (int (slo div 1000)), IntV mx)"
    using assms(2) by (simp add: AdjustMinMaxFreq_def FromInt_def)
  have p: "minFreq (prof_pstates p) = to_khz (IntV (int (slo div 1000)))"
      "maxFreq (prof_pstates p) = to_khz (IntV mx)"
    using assms(1) adj by (auto elim!: NewPowerProfile_Ok)
  have k: "to_khz (IntV (int (slo div 1000))) = IntV (int (1000 * (slo div 1000)))"
    using to_khz_range(1)[of "int (slo div 1000)" slo] \<open>slo < 2 ^ 31\<close> by simp
  have lt: "1000 * (slo div 1000) < slo"
    using assms(4) by (metis mod_mult_self1_is_0 mult_div_mod_eq le_add1 nat_less_le)
  have u: "to_uint64 (int (1000 * (slo div 1000))) = 1000 * (slo div 1000)"
    using lt \<open>slo < 2 ^ 31\<close> by (intro to_uint64_of_nat) simp
  obtain y where y: "to_khz (IntV mx) = IntV y" by (simp add: FromInt_def)
  have "freq_ranges env g cid (prof_pstates p) =
      Ok ((slo, hi), clamp_request (slo, hi) (slo, shi) (1000 * (slo div 1000), to_uint64 y))"
    using p k y u by (intro freq_ranges_hw[OF assms(5,2)]) (simp_all add: getFreqFromIntOrString_def)
  moreover have "fst (clamp_request (slo, hi) (slo, shi) (1000 * (slo div 1000), to_uint64 y)) < slo"
    using lt by (simp add: clamp_request_def)
  ultimately show ?thesis using assms(6)
    by (auto simp: setDriverValues_def writeGovernorValue_def writeEppValue_def WriteFile_no_faults)
qed

definition amd :: pkgvars where
  "amd = hetero\<lparr>coreTypes := [(422334, 3200000)],
     allCPUDefaultPStatesInfo :=
       [\<lparr>minFreq = IntV 422334, maxFreq = IntV 3200000, epp = [], governor = ''powersave''\<rparr>]\<rparr>"

theorem default_minimum_rejected_witness:
  "\<exists>p m. NewPowerProfile amd ''gold'' None (Some (IntV 2000)) ''powersave'' [] [] (Some 10) = Ok p \<and>
         snd (setDriverValues env0 amd 0 (prof_pstates p) sys0) = Error (Errorf m)"
proof -
  have "NewPowerProfile amd ''gold'' None (Some (IntV 2000)) ''powersave'' [] [] (Some 10) =
     Ok \<lparr>prof_name = ''gold'',
         prof_pstates = \<lparr>minFreq = IntV 422000, maxFreq = IntV 2000000, epp = [], governor = ''powersave''\<rparr>,
         prof_cstates = \<lparr>states = [], maxLatencyUs = Some 10\<rparr>\<rparr>"
    by (simp add: new_profile_simps amd_def hetero_def getAbsMinMaxFreq_def isFeatureIdSupported_def
        isSupported_def)
  moreover have "getAbsMinMaxFreq (coreTypes amd) = Ok (422334, 3200000)"
    by (simp add: amd_def getAbsMinMaxFreq_def)
  moreover have "hw_limits amd 0 422334 3200000"
    by (simp add: hw_limits_def amd_def hetero_def isFeatureIdSupported_def isSupported_def)
  ultimately show ?thesis using default_minimum_rejected env0_ok(2) by fastforce
qed

text \<open>
  A frequency given as a string without a percent sign, which the CRD's pattern admits, passes
  the validation of \<open>NewPowerProfile\<close> but cannot be applied to any CPU.
\<close>
theorem bare_number_string_rejected:
  assumes "minFreq ps = StrV a" and "maxFreq ps = StrV b" and "\<not> HasSuffix a ''%''"
    and "hw_limits g cid lo hi"
  shows "\<exists>e. snd (setDriverValues env g cid ps sy) = Error e"
proof -
  obtain slo shi where "getAbsMinMaxFreq (coreTypes g) = Ok (slo, shi)"
    using hw_limits_system[OF assms(4)] .
  moreover have "getFreqFromIntOrString (float_oor env) (minFreq ps) l h =
      Error (Errorf ''invalid value for IntOrString: invalid type: string is not a percentage'')" for l h
    using assms(1,3) by (simp add: getFreqFromIntOrString_def GetScaledValueFromIntOrPercent_def)
  ultimately have "\<exists>e. freq_ranges env g cid ps = Error e"
    using assms GetAbsMinMax_hw[OF assms(4)]
    by (simp add: freq_ranges_def getFreqsToScale_def hw_limits_def)
  then obtain e where "freq_ranges env g cid ps = Error e" ..
  then show ?thesis
    by (cases rule: WriteFile_cases[of env sy "cpu_path g cid scalingGovFile" "governor ps"])
       (auto simp: setDriverValues_def writeGovernorValue_def writeEppValue_def WriteFile_def Let_def
         split: option.splits)
qed

theorem bare_number_string_rejected_witness:
  "\<exists>p e. NewPowerProfile hetero ''x'' (Some (StrV ''20'')) (Some (StrV ''30'')) ''powersave'' [] [] None = Ok p \<and>
         snd (setDriverValues env0 hetero 0 (prof_pstates p) sys0) = Error e"
proof -
  have "NewPowerProfile hetero ''x'' (Some (StrV ''20'')) (Some (StrV ''30'')) ''powersave'' [] [] None =
     Ok \<lparr>prof_name = ''x'',
         prof_pstates = \<lparr>minFreq = StrV ''20'', maxFreq = StrV ''30'', epp = [], governor = ''powersave''\<rparr>,
         prof_cstates = \<lparr>states = [], maxLatencyUs = None\<rparr>\<rparr>"
  proof -
    have "Atoi (TrimSuffix ''20'' ''%'') = Some 20" "Atoi (TrimSuffix ''30'' ''%'') = Some 30"
      by code_simp+
    then show ?thesis by (simp add: new_profile_simps hetero_system del: hetero_basic(2))
  qed
  moreover have "\<not> HasSuffix ''20'' ''%''" by code_simp
  ultimately show ?thesis using bare_number_string_rejected[OF _ _ _ hetero_limits(1)] by fastforce
qed

end
