(* ===== verification/Topology.thy ===== *)
theory Topology
  imports Profile
begin

text \<open>
  CPU topology and uncore frequencies, from \<open>topology.go\<close>, \<open>uncore.go\<close> and the part of \<open>cpu.go\<close>
  that creates CPUs. Packages hold dies (x86) or clusters (ARM), which hold cores; Go maps are
  association lists, whose order stands for the order of \<open>range\<close>. A nil \<open>Cpu\<close>, which the code puts
  in its lists for an architecture it does not know, is \<open>None\<close>. Objects created in a call that then
  fails are not observable, because \<open>discoverTopology\<close> drops the topology on any error.
\<close>

section \<open>State\<close>

type_synonym uncoreFreq = "nat \<times> nat"

record core =
  core_id :: nat
  core_cpus :: "nat list"
  coreType :: nat

record die =
  d_id :: nat
  d_uncore :: "uncoreFreq option"
  d_cores :: "(nat \<times> core) list"
  d_cpus :: "nat list"

record cluster =
  cl_id :: nat
  cl_cores :: "(nat \<times> core) list"
  cl_cpus :: "nat list"

record package =
  pk_id :: nat
  pk_uncore :: "uncoreFreq option"
  pk_cpus :: "nat option list"
  pk_dies :: "(nat \<times> die) list"
  pk_clusters :: "(nat \<times> cluster) list"

record topology =
  packages :: "(nat \<times> package) list"
  t_allCpus :: "nat option list"
  t_uncore :: "uncoreFreq option"
  architecture :: string

section \<open>Discovery\<close>

definition packageIdFile :: string where "packageIdFile = ''topology/physical_package_id''"
definition dieIdFile :: string where "dieIdFile = ''topology/die_id''"
definition coreIdFile :: string where "coreIdFile = ''topology/core_id''"
definition clusterIdFile :: string where "clusterIdFile = ''topology/cluster_id''"

definition readCpuFreqLimits :: "env \<Rightarrow> pkgvars \<Rightarrow> nat \<Rightarrow> sys \<Rightarrow> sys \<times> (nat \<times> nat) res" where
  "readCpuFreqLimits env g i sy =
     then_do (readCpuUintProperty env g i cpuMaxFreqFile sy) (\<lambda>mx sy.
     then_do (readCpuUintProperty env g i cpuMinFreqFile sy) (\<lambda>mn sy. (sy, Ok (mn, mx))))"

text \<open>A call that only reads files, as a call on package variables and files.\<close>

definition reading :: "(pkgvars \<Rightarrow> sys \<Rightarrow> sys \<times> 'a res) \<Rightarrow> pkgvars \<times> sys \<Rightarrow> (pkgvars \<times> sys) \<times> 'a res" where
  "reading f = (\<lambda>(g, sy). (case f g sy of (sy', r) \<Rightarrow> ((g, sy'), r)))"

definition newCpu :: "env \<Rightarrow> nat \<Rightarrow> core \<Rightarrow> pkgvars \<times> sys \<Rightarrow> (pkgvars \<times> sys) \<times> core res" where
  "newCpu env coreID co s =
     (if isFeatureIdSupported (fst s) FrequencyScalingFeature then
        then_do (reading (\<lambda>g. readCpuFreqLimits env g coreID) s) (\<lambda>(mn, mx) (g, sy).
          (case appendIfUnique (coreTypes g) mn mx of
             (l, cType) \<Rightarrow> ((g\<lparr>coreTypes := l\<rparr>, sy), Ok (co\<lparr>coreType := cType\<rparr>))))
      else (s, Ok co))"

definition core_addCpu :: "env \<Rightarrow> nat \<Rightarrow> core \<Rightarrow> pkgvars \<times> sys \<Rightarrow> (pkgvars \<times> sys) \<times> core res" where
  "core_addCpu env cpuId co s =
     then_do (newCpu env cpuId co s) (\<lambda>co s. (s, Ok (co\<lparr>core_cpus := core_cpus co @ [cpuId]\<rparr>)))"

definition new_core :: "nat \<Rightarrow> core" where
  "new_core i = \<lparr>core_id = i, core_cpus = [], coreType = 0\<rparr>"

definition die_addCpu :: "env \<Rightarrow> nat \<Rightarrow> die \<Rightarrow> pkgvars \<times> sys \<Rightarrow> (pkgvars \<times> sys) \<times> die res" where
  "die_addCpu env cpuId d s =
     then_do (reading (\<lambda>g. readCpuUintProperty env g cpuId coreIdFile) s) (\<lambda>coreId s.
     then_do (core_addCpu env cpuId (the_default (new_core coreId) (map_of (d_cores d) coreId)) s) (\<lambda>co s.
       (s, Ok (d\<lparr>d_cores := AList.update coreId co (d_cores d), d_cpus := d_cpus d @ [cpuId]\<rparr>))))"

definition cluster_addCpu ::
  "env \<Rightarrow> nat \<Rightarrow> cluster \<Rightarrow> pkgvars \<times> sys \<Rightarrow> (pkgvars \<times> sys) \<times> cluster res" where
  "cluster_addCpu env cpuId c s =
     then_do (reading (\<lambda>g. readCpuUintProperty env g cpuId coreIdFile) s) (\<lambda>coreId s.
     then_do (core_addCpu env cpuId (the_default (new_core coreId) (map_of (cl_cores c) coreId)) s) (\<lambda>co s.
       (s, Ok (c\<lparr>cl_cores := AList.update coreId co (cl_cores c), cl_cpus := cl_cpus c @ [cpuId]\<rparr>))))"

definition new_die :: "nat \<Rightarrow> die" where
  "new_die i = \<lparr>d_id = i, d_uncore = None, d_cores = [], d_cpus = []\<rparr>"

definition new_cluster :: "nat \<Rightarrow> cluster" where
  "new_cluster i = \<lparr>cl_id = i, cl_cores = [], cl_cpus = []\<rparr>"

definition new_package :: "nat \<Rightarrow> package" where
  "new_package i = \<lparr>pk_id = i, pk_uncore = None, pk_cpus = [], pk_dies = [], pk_clusters = []\<rparr>"

text \<open>The result is the CPU as \<open>addCpu\<close> returns it: nil when the architecture is not known.\<close>

definition package_addCpu ::
  "env \<Rightarrow> string \<Rightarrow> nat \<Rightarrow> package \<Rightarrow> pkgvars \<times> sys \<Rightarrow> (pkgvars \<times> sys) \<times> (package \<times> nat option) res" where
  "package_addCpu env arch cpuId pk s =
     (if arch = [] then (s, Error (Errorf ''empty CPU architecture in topology''))
      else if arch = ''x86_64'' then
        then_do (reading (\<lambda>g. readCpuUintProperty env g cpuId dieIdFile) s) (\<lambda>dieId s.
        then_do (die_addCpu env cpuId (the_default (new_die dieId) (map_of (pk_dies pk) dieId)) s) (\<lambda>d s.
          (s, Ok (pk\<lparr>pk_dies := AList.update dieId d (pk_dies pk), pk_cpus := pk_cpus pk @ [Some cpuId]\<rparr>,
                  Some cpuId))))
      else if arch = ''aarch64'' then
        then_do (reading (\<lambda>g. readCpuUintProperty env g cpuId clusterIdFile) s) (\<lambda>clusterId s.
        then_do (cluster_addCpu env cpuId
                   (the_default (new_cluster clusterId) (map_of (pk_clusters pk) clusterId)) s) (\<lambda>c s.
          (s, Ok (pk\<lparr>pk_clusters := AList.update clusterId c (pk_clusters pk),
                     pk_cpus := pk_cpus pk @ [Some cpuId]\<rparr>, Some cpuId))))
      else (s, Ok (pk\<lparr>pk_cpus := pk_cpus pk @ [None]\<rparr>, None)))"

definition topology_addCpu ::
  "env \<Rightarrow> nat \<Rightarrow> topology \<times> pkgvars \<times> sys \<Rightarrow> (topology \<times> pkgvars \<times> sys) \<times> unit res" where
  "topology_addCpu env cpuId = (\<lambda>(t, s).
     (case reading (\<lambda>g. readCpuUintProperty env g cpuId packageIdFile) s of
        (s, Error e) \<Rightarrow> ((t, s), Error e)
      | (s, Panic m) \<Rightarrow> ((t, s), Panic m)
      | (s, Ok socketId) \<Rightarrow>
          (case package_addCpu env (architecture t) cpuId
                  (the_default (new_package socketId) (map_of (packages t) socketId)) s of
             (s, Error e) \<Rightarrow> ((t, s), Error e)
           | (s, Panic m) \<Rightarrow> ((t, s), Panic m)
           | (s, Ok (pk, cpu)) \<Rightarrow>
               ((t\<lparr>packages := AList.update socketId pk (packages t),
                   t_allCpus := (t_allCpus t)[cpuId := cpu]\<rparr>, s), Ok ()))))"

text \<open>\<open>make(CpuList, n)\<close> panics over 2 ^ 48 bytes, at 16 bytes an element.\<close>

definition discoverTopology ::
  "env \<Rightarrow> string \<Rightarrow> pkgvars \<times> sys \<Rightarrow> (topology \<times> pkgvars \<times> sys) \<times> unit res" where
  "discoverTopology env arch = (\<lambda>(g, sy).
     (case getNumberOfCpus env g sy of
        (sy, n) \<Rightarrow>
          (let t = \<lparr>packages = [], t_allCpus = replicate n None, t_uncore = Some (defaultUncore g),
                    architecture = arch\<rparr>
           in if (2::int) ^ 48 < 16 * int n then ((t, g, sy), Panic ''makeslice: len out of range'')
              else foreach (topology_addCpu env) [0..<n] (t, g, sy))))"

section \<open>Uncore frequencies\<close>

definition pad2 :: "nat \<Rightarrow> string" where
  "pad2 n = (if n < 10 then CHR ''0'' # nat_str n else nat_str n)"

definition uncore_path :: "pkgvars \<Rightarrow> nat \<Rightarrow> nat \<Rightarrow> string \<Rightarrow> string" where
  "uncore_path g pkgId dieId f =
     basePath g @ ''/intel_uncore_frequency/package_'' @ pad2 pkgId @ ''_die_'' @ pad2 dieId @ ''/'' @ f"

definition uncoreMaxFreqFile :: string where "uncoreMaxFreqFile = ''max_freq_khz''"
definition uncoreMinFreqFile :: string where "uncoreMinFreqFile = ''min_freq_khz''"

definition normalizeUncoreFreq :: "nat \<Rightarrow> nat" where
  "normalizeUncoreFreq freq = freq - freq mod 100000"

definition NewUncore :: "pkgvars \<Rightarrow> nat \<Rightarrow> nat \<Rightarrow> uncoreFreq res" where
  "NewUncore g mn mx =
     (if \<not> isFeatureIdSupported g UncoreFeature then Error (feature_error g UncoreFeature)
      else if mn < fst (defaultUncore g) then
        Error (Errorf (''specified Min frequency is lower than '' @ nat_str (fst (defaultUncore g)) @ '' kHZ allowed by the hardware''))
      else if snd (defaultUncore g) < mx then
        Error (Errorf (''specified Max frequency is higher than '' @ nat_str (snd (defaultUncore g)) @ '' kHz allowed by the hardware''))
      else if mx < mn then Error (Errorf ''max freq cannot be lower than min'')
      else Ok (normalizeUncoreFreq mn, normalizeUncoreFreq mx))"

definition uncore_write :: "env \<Rightarrow> pkgvars \<Rightarrow> uncoreFreq \<Rightarrow> nat \<Rightarrow> nat \<Rightarrow> sys \<Rightarrow> sys \<times> unit res" where
  "uncore_write env g u pkgId dieId sy =
     then_do (WriteFile env (uncore_path g pkgId dieId uncoreMaxFreqFile) (nat_str (snd u)) sy)
       (\<lambda>_. WriteFile env (uncore_path g pkgId dieId uncoreMinFreqFile) (nat_str (fst u)))"

definition readUncoreProperty :: "env \<Rightarrow> pkgvars \<Rightarrow> nat \<Rightarrow> nat \<Rightarrow> string \<Rightarrow> sys \<Rightarrow> sys \<times> nat res" where
  "readUncoreProperty env g pkgId dieId property = readUintFromFile env (uncore_path g pkgId dieId property)"

text \<open>The scanner's limit of 64 KiB a line is far above the lines of \<open>/proc/modules\<close>.\<close>

definition checkKernelModuleLoaded :: "env \<Rightarrow> pkgvars \<Rightarrow> string \<Rightarrow> sys \<Rightarrow> sys \<times> bool" where
  "checkKernelModuleLoaded env g m sy =
     (case readStringFromFile env (kernelModulesFilePath g) sy of
        (sy, Ok c) \<Rightarrow> (sy, list_ex (\<lambda>l. str_contains l m) (split_on CHR 0x0A c))
      | (sy, _) \<Rightarrow> (sy, False))"

definition uncore_feature :: "err option \<Rightarrow> featureStatus" where
  "uncore_feature e = \<lparr>fs_name = ''Uncore frequency'', fs_driver = ''N/A'', fs_err = e\<rparr>"

definition init_freq_err :: "err \<Rightarrow> err" where
  "init_freq_err e = Errorf (''uncore feature error '' @ err_msg (Wrapf ''failed to determine init freq'' e))"

definition initUncore :: "env \<Rightarrow> pkgvars \<times> sys \<Rightarrow> (pkgvars \<times> sys) \<times> featureStatus res" where
  "initUncore env = (\<lambda>(g, sy).
     (case checkKernelModuleLoaded env g ''intel_uncore_frequency'' sy of
        (sy, False) \<Rightarrow>
          ((g, sy), Ok (uncore_feature (Some (Wrapf ''uncore feature error''
             (Errorf ''kernel module intel_uncore_frequency not loaded'')))))
      | (sy, True) \<Rightarrow>
          (case ReadDir env (basePath g @ ''/intel_uncore_frequency'') sy of
             (sy, Panic m) \<Rightarrow> ((g, sy), Panic m)
           | (sy, Error e) \<Rightarrow> ((g, sy), Ok (uncore_feature (Some (Wrapf ''uncore feature error'' e))))
           | (sy, Ok []) \<Rightarrow>
               ((g, sy), Ok (uncore_feature (Some (Wrapf ''uncore feature error''
                  (Wrapf ''uncore interace dir empty or invalid'' (Errorf ''EOF''))))))
           | (sy, Ok _) \<Rightarrow>
               (case readUncoreProperty env g 0 0 ''initial_max_freq_khz'' sy of
                  (sy, Panic m) \<Rightarrow> ((g, sy), Panic m)
                | (sy, Error e) \<Rightarrow> ((g, sy), Ok (uncore_feature (Some (init_freq_err e))))
                | (sy, Ok mx) \<Rightarrow>
                    (let g = g\<lparr>defaultUncore := (fst (defaultUncore g), mx)\<rparr> in
                     case readUncoreProperty env g 0 0 ''initial_min_freq_khz'' sy of
                       (sy, Panic m) \<Rightarrow> ((g, sy), Panic m)
                     | (sy, Error e) \<Rightarrow> ((g, sy), Ok (uncore_feature (Some (init_freq_err e))))
                     | (sy, Ok mn) \<Rightarrow>
                         ((g\<lparr>defaultUncore := (mn, snd (defaultUncore g))\<rparr>, sy), Ok (uncore_feature None)))))))"

section \<open>Uncore at the levels of the topology\<close>

definition topology_getEffectiveUncore :: "pkgvars \<Rightarrow> topology \<Rightarrow> uncoreFreq" where
  "topology_getEffectiveUncore g t = (case t_uncore t of None \<Rightarrow> defaultUncore g | Some u \<Rightarrow> u)"

definition package_getEffectiveUncore :: "pkgvars \<Rightarrow> topology \<Rightarrow> package \<Rightarrow> uncoreFreq" where
  "package_getEffectiveUncore g t pk =
     (case pk_uncore pk of Some u \<Rightarrow> u | None \<Rightarrow> topology_getEffectiveUncore g t)"

definition die_getEffectiveUncore :: "pkgvars \<Rightarrow> topology \<Rightarrow> package \<Rightarrow> die \<Rightarrow> uncoreFreq" where
  "die_getEffectiveUncore g t pk d =
     (case d_uncore d of Some u \<Rightarrow> u | None \<Rightarrow> package_getEffectiveUncore g t pk)"

definition die_applyUncore ::
  "env \<Rightarrow> pkgvars \<Rightarrow> topology \<Rightarrow> package \<Rightarrow> die \<Rightarrow> sys \<Rightarrow> sys \<times> unit res" where
  "die_applyUncore env g t pk d =
     uncore_write env g (die_getEffectiveUncore g t pk d) (pk_id pk) (d_id d)"

definition package_applyUncore ::
  "env \<Rightarrow> pkgvars \<Rightarrow> topology \<Rightarrow> package \<Rightarrow> sys \<Rightarrow> sys \<times> unit res" where
  "package_applyUncore env g t pk = foreach (\<lambda>x. die_applyUncore env g t pk (snd x)) (pk_dies pk)"

definition topology_applyUncore :: "env \<Rightarrow> pkgvars \<Rightarrow> topology \<Rightarrow> sys \<Rightarrow> sys \<times> unit res" where
  "topology_applyUncore env g t = foreach (\<lambda>x. package_applyUncore env g t (snd x)) (packages t)"

definition topology_SetUncore ::
  "env \<Rightarrow> pkgvars \<Rightarrow> uncoreFreq option \<Rightarrow> topology \<times> sys \<Rightarrow> (topology \<times> sys) \<times> unit res" where
  "topology_SetUncore env g u = (\<lambda>(t, sy).
     (let t = t\<lparr>t_uncore := u\<rparr> in
      case topology_applyUncore env g t sy of (sy, r) \<Rightarrow> ((t, sy), r)))"

text \<open>\<open>s.packages[id]\<close> and \<open>c.dies[id]\<close> are nil for an unknown id, and a call on nil panics.\<close>

definition package_SetUncore ::
  "env \<Rightarrow> pkgvars \<Rightarrow> nat \<Rightarrow> uncoreFreq option \<Rightarrow> topology \<times> sys \<Rightarrow> (topology \<times> sys) \<times> unit res" where
  "package_SetUncore env g pkgId u = (\<lambda>(t, sy).
     (case map_of (packages t) pkgId of
        None \<Rightarrow> ((t, sy), Panic ''nil pointer dereference'')
      | Some pk \<Rightarrow>
          (let pk = pk\<lparr>pk_uncore := u\<rparr>; t = t\<lparr>packages := AList.update pkgId pk (packages t)\<rparr> in
           case package_applyUncore env g t pk sy of (sy, r) \<Rightarrow> ((t, sy), r))))"

definition die_SetUncore ::
  "env \<Rightarrow> pkgvars \<Rightarrow> nat \<Rightarrow> nat \<Rightarrow> uncoreFreq option \<Rightarrow> topology \<times> sys \<Rightarrow> (topology \<times> sys) \<times> unit res" where
  "die_SetUncore env g pkgId dieId u = (\<lambda>(t, sy).
     (case map_of (packages t) pkgId of
        None \<Rightarrow> ((t, sy), Panic ''nil pointer dereference'')
      | Some pk \<Rightarrow>
          (case map_of (pk_dies pk) dieId of
             None \<Rightarrow> ((t, sy), Panic ''nil pointer dereference'')
           | Some d \<Rightarrow>
               (let d = d\<lparr>d_uncore := u\<rparr>;
                    pk = pk\<lparr>pk_dies := AList.update dieId d (pk_dies pk)\<rparr>;
                    t = t\<lparr>packages := AList.update pkgId pk (packages t)\<rparr> in
                case die_applyUncore env g t pk d sy of (sy, r) \<Rightarrow> ((t, sy), r)))))"


section \<open>Uncore: facts\<close>

lemma pad2_inj: "pad2 m = pad2 n \<Longrightarrow> m = n"
proof -
  have "parse_dec (pad2 k) = Some k" for k
  proof (cases "k < 10")
    case True
    have "digit_of CHR ''0'' = Some 0" by code_simp
    then show ?thesis using True parse_dec_nat_str[of k] by (simp add: pad2_def parse_dec_def)
  qed (simp add: pad2_def)
  moreover assume "pad2 m = pad2 n"
  ultimately show ?thesis by (metis option.inject)
qed

lemma pad2_digits: "c \<in> set (pad2 n) \<Longrightarrow> digit_of c \<noteq> None"
proof -
  have "digit_of CHR ''0'' = Some 0" by code_simp
  moreover have "c \<in> set (nat_str n) \<Longrightarrow> digit_of c \<noteq> None"
    using nat_str_digits[of c n] digit_of_digit_char by auto
  moreover assume "c \<in> set (pad2 n)"
  ultimately show ?thesis by (auto simp: pad2_def split: if_splits)
qed

lemma pad2_no_sep [simp]: "CHR ''_'' \<notin> set (pad2 n)" "CHR ''/'' \<notin> set (pad2 n)"
proof -
  have "digit_of CHR ''_'' = None" "digit_of CHR ''/'' = None" by code_simp+
  then show "CHR ''_'' \<notin> set (pad2 n)" "CHR ''/'' \<notin> set (pad2 n)" using pad2_digits by blast+
qed

lemma uncore_path_inj [simp]:
  "uncore_path g p d f = uncore_path g p' d' f' \<longleftrightarrow> p = p' \<and> d = d' \<and> f = f'"
proof
  assume "uncore_path g p d f = uncore_path g p' d' f'"
  then have e: "pad2 p @ CHR ''_'' # ''die_'' @ pad2 d @ CHR ''/'' # f =
                pad2 p' @ CHR ''_'' # ''die_'' @ pad2 d' @ CHR ''/'' # f'"
    by (simp add: uncore_path_def)
  then have "hd (split_on CHR ''_'' (pad2 p @ CHR ''_'' # ''die_'' @ pad2 d @ CHR ''/'' # f)) =
             hd (split_on CHR ''_'' (pad2 p' @ CHR ''_'' # ''die_'' @ pad2 d' @ CHR ''/'' # f'))" by simp
  then have p: "pad2 p = pad2 p'" by (simp add: split_on_append)
  with e have e2: "pad2 d @ CHR ''/'' # f = pad2 d' @ CHR ''/'' # f'" by simp
  then have "hd (split_on CHR ''/'' (pad2 d @ CHR ''/'' # f)) =
             hd (split_on CHR ''/'' (pad2 d' @ CHR ''/'' # f'))" by simp
  then have "pad2 d = pad2 d'" by (simp add: split_on_append)
  with e2 p show "p = p' \<and> d = d' \<and> f = f'" by (auto dest: pad2_inj)
qed simp

definition topo_ok :: "topology \<Rightarrow> bool" where
  "topo_ok t =
     (distinct (map fst (packages t)) \<and>
      (\<forall>(i, pk) \<in> set (packages t). pk_id pk = i \<and> distinct (map fst (pk_dies pk)) \<and>
         (\<forall>(j, d) \<in> set (pk_dies pk). d_id d = j)))"

text \<open>The files of a die hold a pair of frequencies.\<close>

definition die_has :: "pkgvars \<Rightarrow> nat \<Rightarrow> nat \<Rightarrow> uncoreFreq \<Rightarrow> (string \<rightharpoonup> string) \<Rightarrow> bool" where
  "die_has g i j u fs \<longleftrightarrow>
     fs (uncore_path g i j uncoreMaxFreqFile) = Some (nat_str (snd u)) \<and>
     fs (uncore_path g i j uncoreMinFreqFile) = Some (nat_str (fst u))"

definition package_applied :: "pkgvars \<Rightarrow> topology \<Rightarrow> package \<Rightarrow> (string \<rightharpoonup> string) \<Rightarrow> bool" where
  "package_applied g t pk fs \<longleftrightarrow>
     (\<forall>(j, d) \<in> set (pk_dies pk). die_has g (pk_id pk) j (die_getEffectiveUncore g t pk d) fs)"

definition uncore_applied :: "pkgvars \<Rightarrow> topology \<Rightarrow> (string \<rightharpoonup> string) \<Rightarrow> bool" where
  "uncore_applied g t fs \<longleftrightarrow> (\<forall>(i, pk) \<in> set (packages t). package_applied g t pk fs)"

lemma uncore_write_Ok:
  assumes "uncore_write env g u i j sy = (sy', Ok ())"
  shows "die_has g i j u (files sy')"
    and "(i', j') \<noteq> (i, j) \<Longrightarrow> die_has g i' j' u' (files sy') = die_has g i' j' u' (files sy)"
proof -
  have "files sy' = (files sy)(uncore_path g i j uncoreMaxFreqFile \<mapsto> nat_str (snd u),
                               uncore_path g i j uncoreMinFreqFile \<mapsto> nat_str (fst u))"
    using assms by (auto simp: uncore_write_def then_do_Ok_iff dest!: WriteFile_Ok)
  then show "die_has g i j u (files sy')"
    "(i', j') \<noteq> (i, j) \<Longrightarrow> die_has g i' j' u' (files sy') = die_has g i' j' u' (files sy)"
    by (auto simp: die_has_def uncoreMaxFreqFile_def uncoreMinFreqFile_def)
qed

lemma package_applyUncore_Ok:
  assumes "package_applyUncore env g t pk sy = (sy', Ok ())"
    and "distinct (map fst (pk_dies pk))" and "\<forall>(j, d) \<in> set (pk_dies pk). d_id d = j"
  shows "package_applied g t pk (files sy')"
    and "i' \<noteq> pk_id pk \<Longrightarrow> die_has g i' j' u' (files sy') = die_has g i' j' u' (files sy)"
proof -
  note f = assms(1)[unfolded package_applyUncore_def]
  have id: "d_id (snd x) = fst x" if "x \<in> set (pk_dies pk)" for x
    using that assms(3) by (cases x) auto
  have "\<forall>x \<in> set (pk_dies pk). die_has g (pk_id pk) (fst x) (die_getEffectiveUncore g t pk (snd x)) (files sy')"
    by (rule foreach_establishes[OF f assms(2)])
       (auto simp: die_applyUncore_def id dest: uncore_write_Ok)
  then show "package_applied g t pk (files sy')" by (auto simp: package_applied_def)
  show "die_has g i' j' u' (files sy') = die_has g i' j' u' (files sy)" if "i' \<noteq> pk_id pk"
    by (rule foreach_keeps[OF f]) (use that in \<open>auto simp: die_applyUncore_def dest: uncore_write_Ok(2)[where i' = i' and j' = j' and u' = u']\<close>)
qed

lemma topology_applyUncore_Ok:
  assumes "topology_applyUncore env g t sy = (sy', Ok ())" and "topo_ok t"
  shows "uncore_applied g t (files sy')"
proof -
  note f = assms(1)[unfolded topology_applyUncore_def]
  have wf: "pk_id (snd x) = fst x \<and> distinct (map fst (pk_dies (snd x))) \<and>
      (\<forall>(j, d) \<in> set (pk_dies (snd x)). d_id d = j)" if "x \<in> set (packages t)" for x
    using that assms(2) by (simp add: topo_ok_def split_beta)
  have "\<forall>x \<in> set (packages t). package_applied g t (snd x) (files sy')"
  proof (rule foreach_establishes[OF f])
    show "distinct (map fst (packages t))" using assms(2) by (simp add: topo_ok_def)
    show "package_applied g t (snd x) (files s')"
      if "x \<in> set (packages t)" "package_applyUncore env g t (snd x) s = (s', Ok ())" for x s s'
      using package_applyUncore_Ok(1)[OF that(2)] wf[OF that(1)] by blast
    show "package_applied g t (snd x) (files s')"
      if "x \<in> set (packages t)" "y \<in> set (packages t)" "fst x \<noteq> fst y"
        "package_applied g t (snd x) (files s)" "package_applyUncore env g t (snd y) s = (s', Ok ())" for x y s s'
      using package_applyUncore_Ok(2)[OF that(5)] wf[OF that(1)] wf[OF that(2)] that(3,4)
      by (auto simp: package_applied_def)
  qed
  then show ?thesis by (auto simp: uncore_applied_def)
qed


lemma set_update:
  "distinct (map fst ps) \<Longrightarrow> set (AList.update k v ps) = insert (k, v) {x \<in> set ps. fst x \<noteq> k}"
proof (induction ps)
  case (Cons x ps)
  then show ?case by (cases x) (auto simp: rev_image_eqI)
qed simp

lemma effective_cong:
  "t_uncore t' = t_uncore t \<Longrightarrow> die_getEffectiveUncore g t' = die_getEffectiveUncore g t"
  by (intro ext) (simp add: die_getEffectiveUncore_def package_getEffectiveUncore_def
      topology_getEffectiveUncore_def split: option.split)

lemma topo_ok_package:
  assumes "topo_ok t" and "map_of (packages t) p = Some pk"
  shows "pk_id pk = p" and "distinct (map fst (pk_dies pk))" and "\<forall>(j, d) \<in> set (pk_dies pk). d_id d = j"
  using assms map_of_SomeD[OF assms(2)] unfolding topo_ok_def by fastforce+

text \<open>Replacing one package and bringing its files up to date keeps the other packages right.\<close>

lemma replace_package:
  assumes "topo_ok t" and "uncore_applied g t fs" and "t' = t\<lparr>packages := AList.update p pk (packages t)\<rparr>"
    and "pk_id pk = p" and "distinct (map fst (pk_dies pk))" and "\<forall>(j, d) \<in> set (pk_dies pk). d_id d = j"
    and "package_applied g t' pk fs'"
    and "\<And>i j u. i \<noteq> p \<Longrightarrow> die_has g i j u fs' = die_has g i j u fs"
  shows "topo_ok t' \<and> uncore_applied g t' fs'"
proof -
  have d: "distinct (map fst (packages t))" using assms(1) by (simp add: topo_ok_def)
  have s: "set (packages t') = insert (p, pk) {x \<in> set (packages t). fst x \<noteq> p}"
    using set_update[OF d] assms(3) by simp
  have "distinct (map fst (packages t'))" using d assms(3) by (simp add: distinct_update)
  then have "topo_ok t'" using s assms(1,4-6) by (auto simp: topo_ok_def)
  moreover have "package_applied g t' x fs'" if "(i, x) \<in> set (packages t)" "i \<noteq> p" for i x
  proof -
    have "package_applied g t x fs" "pk_id x = i"
      using that assms(1,2) by (auto simp: uncore_applied_def topo_ok_def)
    moreover have "die_getEffectiveUncore g t' = die_getEffectiveUncore g t"
      using assms(3) by (intro effective_cong) simp
    ultimately show ?thesis using that(2) assms(8) by (auto simp: package_applied_def)
  qed
  ultimately show ?thesis using s assms(7) by (auto simp: uncore_applied_def)
qed

lemma package_SetUncore_Ok:
  assumes "topo_ok t" and "uncore_applied g t (files sy)"
    and "package_SetUncore env g p u (t, sy) = ((t', sy'), Ok ())"
  shows "topo_ok t' \<and> uncore_applied g t' (files sy')"
proof -
  obtain pk where pk: "map_of (packages t) p = Some pk"
    using assms(3) by (auto simp: package_SetUncore_def split: option.splits)
  let ?pk = "pk\<lparr>pk_uncore := u\<rparr>"
  have t': "t' = t\<lparr>packages := AList.update p ?pk (packages t)\<rparr>"
    and f: "package_applyUncore env g t' ?pk sy = (sy', Ok ())"
    using assms(3) pk by (auto simp: package_SetUncore_def Let_def split: prod.splits)
  note wf = topo_ok_package[OF assms(1) pk]
  note ok = package_applyUncore_Ok[OF f]
  show ?thesis
    by (rule replace_package[OF assms(1,2) t']) (use wf ok in auto)
qed

lemma die_SetUncore_Ok:
  assumes "topo_ok t" and "uncore_applied g t (files sy)"
    and "die_SetUncore env g p i u (t, sy) = ((t', sy'), Ok ())"
  shows "topo_ok t' \<and> uncore_applied g t' (files sy')"
proof -
  obtain pk d where pk: "map_of (packages t) p = Some pk" and d: "map_of (pk_dies pk) i = Some d"
    using assms(3) by (auto simp: die_SetUncore_def split: option.splits)
  let ?d = "d\<lparr>d_uncore := u\<rparr>"
  let ?pk = "pk\<lparr>pk_dies := AList.update i ?d (pk_dies pk)\<rparr>"
  have t': "t' = t\<lparr>packages := AList.update p ?pk (packages t)\<rparr>"
    and f: "die_applyUncore env g t' ?pk ?d sy = (sy', Ok ())"
    using assms(3) pk d by (auto simp: die_SetUncore_def Let_def split: prod.splits)
  note wf = topo_ok_package[OF assms(1) pk]
  have di: "d_id d = i" using wf(3) map_of_SomeD[OF d] by auto
  note w = uncore_write_Ok[OF f[unfolded die_applyUncore_def]]
  have s: "set (pk_dies ?pk) = insert (i, ?d) {x \<in> set (pk_dies pk). fst x \<noteq> i}"
    using set_update[OF wf(2)] by simp
  have "package_applied g t pk (files sy)"
    using assms(2) map_of_SomeD[OF pk] by (auto simp: uncore_applied_def)
  moreover have "die_getEffectiveUncore g t' ?pk x = die_getEffectiveUncore g t pk x" for x
    using t' by (simp add: die_getEffectiveUncore_def package_getEffectiveUncore_def
        topology_getEffectiveUncore_def split: option.split)
  ultimately have "package_applied g t' ?pk (files sy')"
    using w s di by (auto simp: package_applied_def)
  moreover have "die_has g i' j u' (files sy') = die_has g i' j u' (files sy)" if "i' \<noteq> p" for i' j u'
    using w(2)[of i' j u'] that wf(1) by simp
  ultimately show ?thesis
    using wf di s by (intro replace_package[OF assms(1,2) t']) (auto simp: distinct_update)
qed

lemma topology_SetUncore_Ok:
  assumes "topo_ok t" and "topology_SetUncore env g u (t, sy) = ((t', sy'), Ok ())"
  shows "topo_ok t' \<and> uncore_applied g t' (files sy')"
proof -
  have t': "t' = t\<lparr>t_uncore := u\<rparr>" "topology_applyUncore env g t' sy = (sy', Ok ())"
    using assms(2) by (auto simp: topology_SetUncore_def Let_def split: prod.splits)
  have "topo_ok t'" using assms(1) t'(1) by (simp add: topo_ok_def)
  with topology_applyUncore_Ok[OF t'(2)] show ?thesis by simp
qed

section \<open>Properties\<close>

text \<open>
  Uncore settings at the system, a package or a die: when \<open>SetUncore\<close> returns without error,
  the uncore files of every die hold the frequencies of the nearest level that has a setting (the
  die, its package, the system, the hardware default). At the level of a package or a die this
  presumes that it held before the call.
\<close>
theorem SetUncore_keeps_files_effective:
  assumes "topo_ok t"
  shows "(topology_SetUncore env g u (t, sy) = ((t', sy'), Ok ()) \<longrightarrow>
       topo_ok t' \<and> uncore_applied g t' (files sy')) \<and>
    (uncore_applied g t (files sy) \<and> package_SetUncore env g p u (t, sy) = ((t', sy'), Ok ()) \<longrightarrow>
       topo_ok t' \<and> uncore_applied g t' (files sy')) \<and>
    (uncore_applied g t (files sy) \<and> die_SetUncore env g p d u (t, sy) = ((t', sy'), Ok ()) \<longrightarrow>
       topo_ok t' \<and> uncore_applied g t' (files sy'))"
proof (intro conjI[of "_ \<longrightarrow> _"] impI; (elim conjE)?)
  show "topo_ok t' \<and> uncore_applied g t' (files sy')"
    if "topology_SetUncore env g u (t, sy) = ((t', sy'), Ok ())"
    by (rule topology_SetUncore_Ok[OF assms that])
  show "topo_ok t' \<and> uncore_applied g t' (files sy')"
    if "uncore_applied g t (files sy)" "package_SetUncore env g p u (t, sy) = ((t', sy'), Ok ())"
    by (rule package_SetUncore_Ok[OF assms that])
  show "topo_ok t' \<and> uncore_applied g t' (files sy')"
    if "uncore_applied g t (files sy)" "die_SetUncore env g p d u (t, sy) = ((t', sy'), Ok ())"
    by (rule die_SetUncore_Ok[OF assms that])
qed

definition one_die :: topology where
  "one_die = \<lparr>packages = [(0, (new_package 0)\<lparr>pk_dies := [(0, new_die 0)]\<rparr>)], t_allCpus = [],
     t_uncore = None, architecture = ''x86_64''\<rparr>"

theorem SetUncore_keeps_files_effective_witness:
  "uncore_applied hetero (one_die\<lparr>t_uncore := Some (800000, 2400000)\<rparr>)
     (files (snd (fst (topology_SetUncore env0 hetero (Some (800000, 2400000)) (one_die, sys0)))))"
proof -
  have ok: "topo_ok one_die" by (simp add: topo_ok_def one_die_def new_package_def new_die_def)
  have "\<exists>sy'. topology_SetUncore env0 hetero (Some (800000, 2400000)) (one_die, sys0) =
      ((one_die\<lparr>t_uncore := Some (800000, 2400000)\<rparr>, sy'), Ok ())"
    by (simp add: topology_SetUncore_def topology_applyUncore_def package_applyUncore_def one_die_def
        die_applyUncore_def uncore_write_def WriteFile_no_faults Let_def new_package_def)
  then obtain sy' where "topology_SetUncore env0 hetero (Some (800000, 2400000)) (one_die, sys0) =
      ((one_die\<lparr>t_uncore := Some (800000, 2400000)\<rparr>, sy'), Ok ())" by blast
  with SetUncore_keeps_files_effective[OF ok, of env0 hetero "Some (800000, 2400000)" sys0
      "one_die\<lparr>t_uncore := Some (800000, 2400000)\<rparr>" sy' 0 0]
  show ?thesis by simp
qed

text \<open>
  An accepted uncore setting is in order, in steps of 100 MHz and not above the hardware's
  maximum; both ends are the requested ones rounded down by less than 100 MHz. The minimum stays at or
  above the hardware's minimum when that is a multiple of 100 MHz, and can fall below it otherwise.
\<close>
theorem NewUncore_bounds:
  assumes "NewUncore g mn mx = Ok u"
  shows "fst u \<le> snd u \<and> snd u \<le> snd (defaultUncore g) \<and> fst u mod 100000 = 0 \<and> snd u mod 100000 = 0 \<and>
    fst u \<le> mn \<and> mn < fst u + 100000 \<and> snd u \<le> mx \<and> mx < snd u + 100000 \<and>
    (fst (defaultUncore g) mod 100000 = 0 \<longrightarrow> fst (defaultUncore g) \<le> fst u)"
proof -
  have u: "u = (normalizeUncoreFreq mn, normalizeUncoreFreq mx)" "fst (defaultUncore g) \<le> mn"
    "mx \<le> snd (defaultUncore g)" "mn \<le> mx"
    using assms by (auto simp: NewUncore_def split: if_splits)
  have n: "normalizeUncoreFreq x = x div 100000 * 100000" for x
    by (simp add: normalizeUncoreFreq_def minus_mod_eq_div_mult)
  have b: "x div 100000 * 100000 \<le> x" "x < x div 100000 * 100000 + 100000" for x :: nat
    by (simp_all add: dividend_less_div_times add.commute)
  have mono: "x \<le> y \<Longrightarrow> x div 100000 * 100000 \<le> y div 100000 * 100000" for x y :: nat
    by (simp add: div_le_mono)
  have "fst (defaultUncore g) mod 100000 = 0 \<Longrightarrow> fst (defaultUncore g) div 100000 * 100000 = fst (defaultUncore g)"
    by (metis add.right_neutral div_mult_mod_eq)
  then show ?thesis using u b[of mn] b[of mx] mono[OF u(2)] mono[OF u(4)] by (auto simp: n)
qed

text \<open>The witness is a hardware minimum of 850 MHz: the accepted minimum is written as 800 MHz.\<close>

theorem NewUncore_bounds_witness:
  "NewUncore (hetero\<lparr>defaultUncore := (850000, 2400000)\<rparr>) 850000 2000000 = Ok (800000, 2000000) \<and>
   (800000::nat) mod 100000 = 0"
proof -
  have "NewUncore (hetero\<lparr>defaultUncore := (850000, 2400000)\<rparr>) 850000 2000000 = Ok (800000, 2000000)"
    by (simp add: NewUncore_def normalizeUncoreFreq_def isFeatureIdSupported_def isSupported_def hetero_def)
  from this NewUncore_bounds[OF this] show ?thesis by simp
qed

end
