(* ===== verification/Pools.thy ===== *)
theory Pools
  imports Topology
begin

text \<open>
  CPUs and pools, from \<open>cpu.go\<close> and \<open>pool.go\<close>. A CPU object is named by its id (one object per id
  is created at discovery, and every list of the library holds those objects), a pool object by a
  \<open>pool_ref\<close>. The host state keeps, as the code does, both directions of the relation between
  them: the list of CPUs of a pool and the pool of a CPU; \<open>pool_inv\<close> says that they agree.
  \<open>allCpus\<close> is the list \<open>host.topology.CPUs()\<close> once none of its entries is nil.

  A call returns the state it leaves and a result, so that what a failing call leaves behind is
  part of the model. Locks are left out here, where calls run one after the other; theory
  \<open>Locks\<close> is about their order.
\<close>

section \<open>State\<close>

datatype pool_ref = ReservedPool | SharedPool | ExclusivePool nat

record pool =
  p_name :: string
  p_cpus :: "nat list"
  p_profile :: "profile option"

record host =
  h_name :: string
  h_arch :: string
  h_vendor :: string
  exclusivePools :: "pool_ref list"
  pools :: "pool_ref \<Rightarrow> pool"
  cpu_pool :: "nat \<Rightarrow> pool_ref"
  allCpus :: "nat list"
  h_topo :: topology
  nextPool :: nat
  hsys :: sys

fun isExclusive :: "pool_ref \<Rightarrow> bool" where
  "isExclusive (ExclusivePool n) = True" | "isExclusive _ = False"

definition set_cpus :: "pool_ref \<Rightarrow> nat list \<Rightarrow> host \<Rightarrow> host" where
  "set_cpus p cs h = h\<lparr>pools := (pools h)(p := (pools h p)\<lparr>p_cpus := cs\<rparr>)\<rparr>"

definition set_pool :: "nat \<Rightarrow> pool_ref \<Rightarrow> host \<Rightarrow> host" where
  "set_pool c p h = h\<lparr>cpu_pool := (cpu_pool h)(c := p)\<rparr>"

text \<open>A call that only touches files, as a call on the host.\<close>

definition on_sys :: "(sys \<Rightarrow> sys \<times> 'a res) \<Rightarrow> host \<Rightarrow> host \<times> 'a res" where
  "on_sys f h = (case f (hsys h) of (sy, r) \<Rightarrow> (h\<lparr>hsys := sy\<rparr>, r))"

section \<open>Lists of CPUs\<close>

definition CpuList_Contains :: "nat list \<Rightarrow> nat \<Rightarrow> bool" where
  "CpuList_Contains cpus c = (if IndexOf cpus c < 0 then False else True)"

definition CpuList_add :: "nat list \<Rightarrow> nat \<Rightarrow> nat list" where
  "CpuList_add cpus c = cpus @ [c]"

definition CpuList_remove :: "nat list \<Rightarrow> nat \<Rightarrow> nat list res" where
  "CpuList_remove cpus c =
     (case swap_remove cpus c of
        None \<Rightarrow> Error (Errorf (''cpu '' @ nat_str c @ '' is not in pool''))
      | Some cs \<Rightarrow> Ok cs)"

text \<open>\<open>int(id)\<close> is negative for an id of 2 ^ 63 or more, and then indexing panics.\<close>

definition ByID :: "nat list \<Rightarrow> nat \<Rightarrow> nat option res" where
  "ByID cpus i =
     (let index = to_int64 (int i) in
      if index < 0 then Panic ''index out of range''
      else if index < int (length cpus) \<and> cpus ! nat index = i then Ok (Some (cpus ! nat index))
      else Ok (find (\<lambda>c. c = i) cpus))"

fun ManyByIDs :: "nat list \<Rightarrow> nat list \<Rightarrow> nat list res" where
  "ManyByIDs cpus [] = Ok []"
| "ManyByIDs cpus (i # is) =
     (case ByID cpus i of
        Panic m \<Rightarrow> Panic m
      | Error e \<Rightarrow> Error e
      | Ok None \<Rightarrow> Error (Errorf (''cpu with id '' @ nat_str i @ '', not in list''))
      | Ok (Some c) \<Rightarrow>
          (case ManyByIDs cpus is of Ok cs \<Rightarrow> Ok (c # cs) | Error e \<Rightarrow> Error e | Panic m \<Rightarrow> Panic m))"

section \<open>Moving a CPU\<close>

definition consolidate_unsafe ::
  "env \<Rightarrow> pkgvars \<Rightarrow> nat \<Rightarrow> profile option \<Rightarrow> sys \<Rightarrow> sys \<times> unit res" where
  "consolidate_unsafe env g c prof sy =
     then_do (updateFrequencies env g c prof sy) (\<lambda>_. updateCStates env g c prof)"

definition consolidate :: "env \<Rightarrow> pkgvars \<Rightarrow> nat \<Rightarrow> host \<Rightarrow> host \<times> unit res" where
  "consolidate env g c h = on_sys (consolidate_unsafe env g c (p_profile (pools h (cpu_pool h c)))) h"

definition doSetPool :: "env \<Rightarrow> pkgvars \<Rightarrow> nat \<Rightarrow> pool_ref \<Rightarrow> host \<Rightarrow> host \<times> unit res" where
  "doSetPool env g c p h =
     (let origPool = cpu_pool h c; h1 = set_pool c p h in
      case CpuList_remove (p_cpus (pools h1 origPool)) c of
        Panic m \<Rightarrow> (h1, Panic m)
      | Error e \<Rightarrow> (set_pool c origPool h1, Error e)
      | Ok cs \<Rightarrow>
          (case consolidate env g c (set_cpus origPool cs h1) of
             (h2, Panic m) \<Rightarrow> (h2, Panic m)
           | (h2, Error e) \<Rightarrow>
               (set_cpus origPool (CpuList_add (p_cpus (pools h2 origPool)) c)
                  (set_pool c origPool h2), Error e)
           | (h2, Ok _) \<Rightarrow> (set_cpus p (CpuList_add (p_cpus (pools h2 p)) c) h2, Ok ())))"

definition SetPool :: "env \<Rightarrow> pkgvars \<Rightarrow> nat \<Rightarrow> pool_ref option \<Rightarrow> host \<Rightarrow> host \<times> unit res" where
  "SetPool env g c targetPool h =
     (case targetPool of
        None \<Rightarrow> (h, Error (Errorf ''target pool cannot be nil''))
      | Some p \<Rightarrow>
          if cpu_pool h c = p then (h, Ok ())
          else if cpu_pool h c = ReservedPool \<and> isExclusive p then
            (h, Error (Errorf ''cannot move from reserved to exclusive pool''))
          else if isExclusive (cpu_pool h c) \<and> isExclusive p then
            (h, Error (Errorf ''cannot move exclusive to different exclusive pool''))
          else if isExclusive (cpu_pool h c) \<and> p = ReservedPool then
            (h, Error (Errorf ''cannot move from exclusive to reserved''))
          else if p = SharedPool \<or> cpu_pool h c = SharedPool then doSetPool env g c p h
          else (h, Panic ''we should never get here''))"

section \<open>Pools\<close>

definition SetPowerProfile ::
  "env \<Rightarrow> pkgvars \<Rightarrow> pool_ref \<Rightarrow> profile option \<Rightarrow> host \<Rightarrow> host \<times> unit res" where
  "SetPowerProfile env g p prof h =
     (if p = ReservedPool then (h, Error (Errorf ''cannot set power profile for reserved pool''))
      else
        (let h1 = h\<lparr>pools := (pools h)(p := (pools h p)\<lparr>p_profile := prof\<rparr>)\<rparr> in
         foreach (consolidate env g) (p_cpus (pools h1 p)) h1))"

definition MoveCpus :: "env \<Rightarrow> pkgvars \<Rightarrow> pool_ref \<Rightarrow> nat list \<Rightarrow> host \<Rightarrow> host \<times> unit res" where
  "MoveCpus env g p cs = foreach (\<lambda>c. SetPool env g c (Some p)) cs"

definition MoveCpuIDs :: "env \<Rightarrow> pkgvars \<Rightarrow> pool_ref \<Rightarrow> nat list \<Rightarrow> host \<Rightarrow> host \<times> unit res" where
  "MoveCpuIDs env g p ids h =
     then_do (h, ManyByIDs (allCpus h) ids) (\<lambda>cs. MoveCpus env g p cs)"

definition sharedPool_SetCpus :: "env \<Rightarrow> pkgvars \<Rightarrow> nat list \<Rightarrow> host \<Rightarrow> host \<times> unit res" where
  "sharedPool_SetCpus env g requestedCores h =
     foreach (\<lambda>c h.
       if CpuList_Contains requestedCores c then SetPool env g c (Some SharedPool) h
       else if cpu_pool h c = SharedPool then SetPool env g c (Some ReservedPool) h
       else (h, Ok ())) (allCpus h) h"

definition reservedPool_SetCpus :: "env \<Rightarrow> pkgvars \<Rightarrow> nat list \<Rightarrow> host \<Rightarrow> host \<times> unit res" where
  "reservedPool_SetCpus env g cores h =
     foreach (\<lambda>c h.
       if CpuList_Contains cores c then
         (if isExclusive (cpu_pool h c)
          then (h, Error (Errorf ''cpus cannot be moved directly from exclusive to reserved pool''))
          else SetPool env g c (Some ReservedPool) h)
       else if cpu_pool h c = ReservedPool then SetPool env g c (Some SharedPool) h
       else (h, Ok ())) (allCpus h) h"

definition exclusivePool_SetCpus ::
  "env \<Rightarrow> pkgvars \<Rightarrow> pool_ref \<Rightarrow> nat list \<Rightarrow> host \<Rightarrow> host \<times> unit res" where
  "exclusivePool_SetCpus env g p requestedCores h =
     foreach (\<lambda>c h.
       if CpuList_Contains requestedCores c then SetPool env g c (Some p) h
       else if cpu_pool h c \<noteq> p then (h, Ok ())
       else SetPool env g c (Some SharedPool) h) (allCpus h) h"

text \<open>The call through the \<open>Pool\<close> interface.\<close>

definition SetCpus :: "env \<Rightarrow> pkgvars \<Rightarrow> pool_ref \<Rightarrow> nat list \<Rightarrow> host \<Rightarrow> host \<times> unit res" where
  "SetCpus env g p req h =
     (case p of
        SharedPool \<Rightarrow> sharedPool_SetCpus env g req h
      | ReservedPool \<Rightarrow> reservedPool_SetCpus env g req h
      | ExclusivePool n \<Rightarrow> exclusivePool_SetCpus env g p req h)"

definition SetCpuIDs :: "env \<Rightarrow> pkgvars \<Rightarrow> pool_ref \<Rightarrow> nat list \<Rightarrow> host \<Rightarrow> host \<times> unit res" where
  "SetCpuIDs env g p ids h =
     then_do (wrap_err ''cpuCore out of range'' (h, ManyByIDs (allCpus h) ids))
       (\<lambda>cs. SetCpus env g p cs)"

definition Clear :: "env \<Rightarrow> pkgvars \<Rightarrow> pool_ref \<Rightarrow> host \<Rightarrow> host \<times> unit res" where
  "Clear env g p = SetCpus env g p []"

section \<open>Lists of pools\<close>

fun IndexOfName :: "(pool_ref \<Rightarrow> pool) \<Rightarrow> pool_ref list \<Rightarrow> string \<Rightarrow> int \<Rightarrow> int" where
  "IndexOfName ps [] name i = - 1"
| "IndexOfName ps (p # rest) name i =
     (if p_name (ps p) = name then i else IndexOfName ps rest name (i + 1))"

definition PoolList_remove :: "pool_ref \<Rightarrow> host \<Rightarrow> host \<times> unit res" where
  "PoolList_remove p h =
     (case swap_remove (exclusivePools h) p of
        None \<Rightarrow> (h, Error (Errorf (''pool '' @ p_name (pools h p) @ '' not in on host'')))
      | Some ps \<Rightarrow> (h\<lparr>exclusivePools := ps\<rparr>, Ok ()))"

definition PoolList_ByName :: "host \<Rightarrow> string \<Rightarrow> pool_ref option" where
  "PoolList_ByName h name =
     (let index = IndexOfName (pools h) (exclusivePools h) name 0 in
      if index < 0 then None else Some (exclusivePools h ! nat index))"

definition Pool_Remove :: "env \<Rightarrow> pkgvars \<Rightarrow> pool_ref \<Rightarrow> host \<Rightarrow> host \<times> unit res" where
  "Pool_Remove env g p h =
     (case p of
        SharedPool \<Rightarrow> (h, Error (Errorf ''shared pool canot be removed''))
      | ReservedPool \<Rightarrow> (h, Error (Errorf ''reserved Pool cannot be removed''))
      | ExclusivePool n \<Rightarrow> then_do (Clear env g p h) (\<lambda>_. PoolList_remove p))"

definition AddExclusivePool :: "string \<Rightarrow> host \<Rightarrow> host \<times> pool_ref \<times> err option" where
  "AddExclusivePool poolName h =
     (let i = IndexOfName (pools h) (exclusivePools h) poolName 0 in
      if 0 \<le> i then
        (h, exclusivePools h ! nat i, Some (Errorf (''pool with name '' @ poolName @ '' already exists'')))
      else
        (let p = ExclusivePool (nextPool h) in
         (h\<lparr>pools := (pools h)(p := \<lparr>p_name = poolName, p_cpus = [], p_profile = None\<rparr>),
            exclusivePools := exclusivePools h @ [p], nextPool := Suc (nextPool h)\<rparr>, p, None)))"

definition GetExclusivePool :: "host \<Rightarrow> string \<Rightarrow> pool_ref option" where
  "GetExclusivePool h name = PoolList_ByName h name"


section \<open>Consolidation: facts\<close>

text \<open>What discovery leaves for a CPU when frequency scaling is supported.\<close>

definition lib_ok :: "pkgvars \<Rightarrow> nat \<Rightarrow> bool" where
  "lib_ok g c = (isFeatureIdSupported g FrequencyScalingFeature \<longrightarrow>
     c < length (allCPUDefaultPStatesInfo g) \<and> coreTypes g \<noteq> [])"

lemma getFreq_no_panic: "\<not> is_panic (getFreqFromIntOrString oor x a b)"
proof -
  have "\<not> is_panic (GetScaledValueFromIntOrPercent oor x t u)" for t u
    by (cases x) (auto simp: GetScaledValueFromIntOrPercent_def split: option.splits)
  then show ?thesis
    by (auto simp: getFreqFromIntOrString_def split: IntOrString.splits res.splits)
       (metis is_panic.simps(1))
qed

lemma freq_ranges_no_panic: "lib_ok g c \<Longrightarrow> isFeatureIdSupported g FrequencyScalingFeature \<Longrightarrow>
    \<not> is_panic (freq_ranges env g c ps)"
  using getFreq_no_panic
  by (auto simp: freq_ranges_def lib_ok_def GetAbsMinMax_def getAbsMinMaxFreq_Ok getFreqsToScale_def
      Let_def split: res.splits) (metis is_panic.simps(1))+

lemma WriteFile_panic [simp]: "\<not> is_panic (snd (WriteFile env p c sy))"
  by (simp add: is_panic_iff)

lemma setDriverValues_no_panic:
  assumes "lib_ok g c" and "isFeatureIdSupported g FrequencyScalingFeature"
  shows "\<not> is_panic (snd (setDriverValues env g c ps sy))"
  unfolding setDriverValues_def
  by (auto simp: then_do_panic_iff writeGovernorValue_def writeEppValue_def writeScalingMaxFreq_def
      writeScalingMinFreq_def freq_ranges_no_panic[OF assms])

lemma consolidate_unsafe_no_panic:
  assumes "lib_ok g c"
  shows "\<not> is_panic (snd (consolidate_unsafe env g c prof sy))"
proof -
  have "\<not> is_panic (snd (updateFrequencies env g c prof sy))"
    using assms setDriverValues_no_panic[OF assms]
    by (auto simp: updateFrequencies_def lib_ok_def split: option.splits)
  moreover have "\<not> is_panic (snd (updateCStates env g c prof s))" for s
  proof -
    have "\<not> is_panic (snd (apply_cstate env g c x s))" for x s
      by (simp add: apply_cstate_def split: option.split)
    then have "\<not> is_panic (snd (applyCStates env g c cs s))" for cs
      unfolding applyCStates_def by (rule foreach_panic[where I = "\<lambda>_. True", OF TrueI TrueI])
    then show ?thesis by (simp add: updateCStates_def Let_def split: option.split)
  qed
  ultimately show ?thesis unfolding consolidate_unsafe_def by (intro then_do_panic)
qed

lemma consolidate_cases:
  obtains sy where "fst (consolidate env g c h) = h\<lparr>hsys := sy\<rparr>"
    and "consolidate_unsafe env g c (p_profile (pools h (cpu_pool h c))) (hsys h) =
           (sy, snd (consolidate env g c h))"
proof (rule that)
  let ?r = "consolidate_unsafe env g c (p_profile (pools h (cpu_pool h c))) (hsys h)"
  show "fst (consolidate env g c h) = h\<lparr>hsys := fst ?r\<rparr>"
    by (simp add: consolidate_def on_sys_def split: prod.split)
  show "?r = (fst ?r, snd (consolidate env g c h))"
    by (simp add: consolidate_def on_sys_def split: prod.split)
qed

section \<open>The invariant\<close>

definition pool_inv :: "host \<Rightarrow> bool" where
  "pool_inv h =
     (distinct (allCpus h) \<and>
      (\<forall>p. distinct (p_cpus (pools h p)) \<and>
           set (p_cpus (pools h p)) = {c \<in> set (allCpus h). cpu_pool h c = p}))"

lemma set_cpus_simps [simp]:
  "allCpus (set_cpus p cs h) = allCpus h" "cpu_pool (set_cpus p cs h) = cpu_pool h"
  "p_cpus (pools (set_cpus p cs h) q) = (if q = p then cs else p_cpus (pools h q))"
  "p_profile (pools (set_cpus p cs h) q) = p_profile (pools h q)"
  "p_name (pools (set_cpus p cs h) q) = p_name (pools h q)"
  "exclusivePools (set_cpus p cs h) = exclusivePools h" "nextPool (set_cpus p cs h) = nextPool h"
  "hsys (set_cpus p cs h) = hsys h"
  by (simp_all add: set_cpus_def)

lemma set_pool_simps [simp]:
  "allCpus (set_pool c p h) = allCpus h" "cpu_pool (set_pool c p h) = (cpu_pool h)(c := p)"
  "pools (set_pool c p h) = pools h" "exclusivePools (set_pool c p h) = exclusivePools h"
  "nextPool (set_pool c p h) = nextPool h" "hsys (set_pool c p h) = hsys h"
  by (simp_all add: set_pool_def)

text \<open>
  What a move leaves: on success the CPU is in the target pool and its files were consolidated
  with the target's profile; on an error everything is as before, up to the order of a list and
  the files.
\<close>

lemma doSetPool_cases:
  assumes inv: "pool_inv h" and c: "c \<in> set (allCpus h)" and ne: "cpu_pool h c \<noteq> p"
    and lib: "lib_ok g c"
  obtains (moved) sy cs where
      "consolidate_unsafe env g c (p_profile (pools h p)) (hsys h) = (sy, Ok ())"
      and "swap_remove (p_cpus (pools h (cpu_pool h c))) c = Some cs"
      and "doSetPool env g c p h =
        (set_cpus p (p_cpus (pools h p) @ [c])
           ((set_cpus (cpu_pool h c) cs (set_pool c p h))\<lparr>hsys := sy\<rparr>), Ok ())"
  | (kept) sy cs e where
      "consolidate_unsafe env g c (p_profile (pools h p)) (hsys h) = (sy, Error e)"
      and "swap_remove (p_cpus (pools h (cpu_pool h c))) c = Some cs"
      and "doSetPool env g c p h =
        (set_cpus (cpu_pool h c) (cs @ [c]) (h\<lparr>hsys := sy\<rparr>), Error e)"
proof -
  have "c \<in> set (p_cpus (pools h (cpu_pool h c)))" using inv c by (auto simp: pool_inv_def)
  then obtain cs where cs: "swap_remove (p_cpus (pools h (cpu_pool h c))) c = Some cs"
    using swap_remove_Some by fast
  let ?h = "set_cpus (cpu_pool h c) cs (set_pool c p h)"
  obtain sy where h2: "fst (consolidate env g c ?h) = ?h\<lparr>hsys := sy\<rparr>"
    and r: "consolidate_unsafe env g c (p_profile (pools h p)) (hsys h) =
              (sy, snd (consolidate env g c ?h))"
    using consolidate_cases[of env g c ?h] ne by auto
  note [simp] = doSetPool_def Let_def CpuList_remove_def cs CpuList_add_def
  show ?thesis
  proof (cases "snd (consolidate env g c ?h)")
    case (Ok u)
    then have "consolidate env g c ?h = (?h\<lparr>hsys := sy\<rparr>, Ok u)" using h2 by (simp add: prod_eq_iff)
    then show ?thesis using r Ok ne cs by (intro moved[of sy cs]) auto
  next
    case (Error e)
    then have k: "consolidate env g c ?h = (?h\<lparr>hsys := sy\<rparr>, Error e)" using h2 by (simp add: prod_eq_iff)
    have "set_cpus (cpu_pool h c) (cs @ [c]) (set_pool c (cpu_pool h c) (?h\<lparr>hsys := sy\<rparr>)) =
          set_cpus (cpu_pool h c) (cs @ [c]) (h\<lparr>hsys := sy\<rparr>)"
      by (simp add: set_cpus_def set_pool_def)
    then show ?thesis using r Error ne cs k by (intro kept[of sy e cs]) auto
  next
    case (Panic m)
    then show ?thesis using r consolidate_unsafe_no_panic[OF lib] by (metis is_panic.simps(1) snd_conv)
  qed
qed

end
