(* ===== verification/Mover.thy ===== *)
theory Mover
  imports Go_Prelude
begin

text \<open>
  The contract between a CPU and the pools that move it, as a locale: an operation \<open>move\<close> that
  either puts one CPU where it is asked to, or fails and leaves every CPU where it was. The
  lemmas are about the loops the pools run over it: every CPU of a list is moved, kept or refused
  by a plan that looks at the CPU's current place. They are proved once here, and hold of
  \<open>SetPool\<close> by the interpretation in theory \<open>Pool_Props\<close>.
\<close>

datatype 'p plan = Move 'p | Stay | Refuse err

fun after_plan :: "'p plan \<Rightarrow> 'p \<Rightarrow> 'p" where
  "after_plan (Move p) q = p" | "after_plan _ q = q"

fun is_refused :: "'p plan \<Rightarrow> bool" where
  "is_refused (Refuse e) = True" | "is_refused _ = False"

definition run_plan ::
  "('c \<Rightarrow> 'p \<Rightarrow> 's \<Rightarrow> 's \<times> unit res) \<Rightarrow> ('s \<Rightarrow> 'c \<Rightarrow> 'p) \<Rightarrow> ('c \<Rightarrow> 'p \<Rightarrow> 'p plan) \<Rightarrow>
   'c \<Rightarrow> 's \<Rightarrow> 's \<times> unit res" where
  "run_plan move where_is plan c s =
     (case plan c (where_is s c) of
        Move p \<Rightarrow> move c p s
      | Stay \<Rightarrow> (s, Ok ())
      | Refuse e \<Rightarrow> (s, Error e))"

text \<open>The places after the plan has been carried out for the CPUs of a list.\<close>

definition planned :: "('c \<Rightarrow> 'p \<Rightarrow> 'p plan) \<Rightarrow> 'c list \<Rightarrow> ('c \<Rightarrow> 'p) \<Rightarrow> 'c \<Rightarrow> 'p" where
  "planned plan cs w c = (if c \<in> set cs then after_plan (plan c (w c)) (w c) else w c)"

locale cpu_mover =
  fixes move :: "'c \<Rightarrow> 'p \<Rightarrow> 's \<Rightarrow> 's \<times> unit res"
    and where_is :: "'s \<Rightarrow> 'c \<Rightarrow> 'p"
    and inv :: "'s \<Rightarrow> bool"
    and cpus :: "'s \<Rightarrow> 'c list"
    and rest :: "'s \<Rightarrow> 'f"
  assumes move_inv: "inv s \<Longrightarrow> c \<in> set (cpus s) \<Longrightarrow> inv (fst (move c p s))"
    and move_cpus: "inv s \<Longrightarrow> c \<in> set (cpus s) \<Longrightarrow> cpus (fst (move c p s)) = cpus s"
    and move_rest: "inv s \<Longrightarrow> c \<in> set (cpus s) \<Longrightarrow> rest (fst (move c p s)) = rest s"
    and move_no_panic: "inv s \<Longrightarrow> c \<in> set (cpus s) \<Longrightarrow> \<not> is_panic (snd (move c p s))"
    and move_Ok: "inv s \<Longrightarrow> c \<in> set (cpus s) \<Longrightarrow> move c p s = (s', Ok ()) \<Longrightarrow>
      where_is s' = (where_is s)(c := p)"
    and move_Error: "inv s \<Longrightarrow> c \<in> set (cpus s) \<Longrightarrow> move c p s = (s', Error e) \<Longrightarrow>
      where_is s' = where_is s"
begin

lemma step_inv:
  assumes "inv s" and "c \<in> set (cpus s)"
  shows "inv (fst (run_plan move where_is plan c s))"
    and "cpus (fst (run_plan move where_is plan c s)) = cpus s"
    and "rest (fst (run_plan move where_is plan c s)) = rest s"
    and "\<not> is_panic (snd (run_plan move where_is plan c s))"
  using assms by (auto simp: run_plan_def move_inv move_cpus move_rest move_no_panic split: plan.splits)

lemma step_Ok:
  assumes "inv s" and "c \<in> set (cpus s)" and "run_plan move where_is plan c s = (s', Ok ())"
  shows "where_is s' = (where_is s)(c := after_plan (plan c (where_is s c)) (where_is s c))"
    and "\<not> is_refused (plan c (where_is s c))"
  using assms by (auto simp: run_plan_def move_Ok split: plan.splits)

lemma step_Error:
  assumes "inv s" and "c \<in> set (cpus s)" and "run_plan move where_is plan c s = (s', Error e)"
  shows "where_is s' = where_is s"
  using assms by (auto simp: run_plan_def dest: move_Error split: plan.splits)

lemma loop_inv:
  assumes "inv s" and "set cs \<subseteq> set (cpus s)"
  shows "inv (fst (foreach (run_plan move where_is plan) cs s))"
    and "cpus (fst (foreach (run_plan move where_is plan) cs s)) = cpus s"
    and "rest (fst (foreach (run_plan move where_is plan) cs s)) = rest s"
    and "\<not> is_panic (snd (foreach (run_plan move where_is plan) cs s))"
proof -
  let ?I = "\<lambda>t. inv t \<and> cpus t = cpus s \<and> rest t = rest s"
  have I: "?I (fst (run_plan move where_is plan c t))" "\<not> is_panic (snd (run_plan move where_is plan c t))"
    if "c \<in> set cs" "?I t" for c t
    using that assms(2) step_inv[of t c plan] by auto
  have "?I (fst (foreach (run_plan move where_is plan) cs s))"
    by (rule foreach_inv[where I = ?I]) (use assms(1) I(1) in auto)
  then show "inv (fst (foreach (run_plan move where_is plan) cs s))"
    "cpus (fst (foreach (run_plan move where_is plan) cs s)) = cpus s"
    "rest (fst (foreach (run_plan move where_is plan) cs s)) = rest s" by simp_all
  show "\<not> is_panic (snd (foreach (run_plan move where_is plan) cs s))"
    by (rule foreach_panic[where I = ?I]) (use assms(1) I in auto)
qed

text \<open>A loop that ends without error has carried out the plan for every CPU of its list.\<close>

lemma loop_Ok:
  assumes "inv s" and "set cs \<subseteq> set (cpus s)" and "distinct cs"
    and "foreach (run_plan move where_is plan) cs s = (s', Ok ())"
  shows "where_is s' = planned plan cs (where_is s)"
    and "\<forall>c \<in> set cs. \<not> is_refused (plan c (where_is s c))"
  using assms
proof (induction cs arbitrary: s)
  case Nil
  { case 1 then show ?case by (auto simp: planned_def) next case 2 then show ?case by simp }
next
  case (Cons c cs)
  have main: "where_is s' = planned plan (c # cs) (where_is s) \<and>
      (\<forall>d \<in> set (c # cs). \<not> is_refused (plan d (where_is s d)))"
    if a: "inv s" "set (c # cs) \<subseteq> set (cpus s)" "distinct (c # cs)"
      "foreach (run_plan move where_is plan) (c # cs) s = (s', Ok ())" for s
  proof -
    obtain t where t: "run_plan move where_is plan c s = (t, Ok ())"
      "foreach (run_plan move where_is plan) cs t = (s', Ok ())"
      using a(4) by (auto split: prod.splits res.splits)
    have c: "c \<in> set (cpus s)" using a(2) by simp
    have w: "where_is t = (where_is s)(c := after_plan (plan c (where_is s c)) (where_is s c))"
      "\<not> is_refused (plan c (where_is s c))" using step_Ok[OF a(1) c t(1)] by auto
    have "inv t" "set cs \<subseteq> set (cpus t)" using step_inv[OF a(1) c, of plan] t(1) a(2) by auto
    from Cons.IH[OF this _ t(2)] a(3)
    have "where_is s' = planned plan cs (where_is t)"
      "\<forall>d \<in> set cs. \<not> is_refused (plan d (where_is t d))" by auto
    moreover have "where_is t d = where_is s d" if "d \<in> set cs" for d
      using that w a(3) by auto
    ultimately show ?thesis using w a(3) by (auto simp: planned_def)
  qed
  { case 1 then show ?case using main by blast next case 2 then show ?case using main by blast }
qed

text \<open>A loop that ends with an error has carried it out for the CPUs before the failing one.\<close>

lemma loop_Error:
  assumes "inv s" and "set cs \<subseteq> set (cpus s)" and "distinct cs"
    and "foreach (run_plan move where_is plan) cs s = (s', Error e)"
  shows "\<exists>before c rest. cs = before @ c # rest \<and> where_is s' = planned plan before (where_is s)"
  using assms
proof (induction cs arbitrary: s)
  case (Cons c cs)
  have c: "c \<in> set (cpus s)" using Cons.prems(2) by simp
  show ?case
  proof (cases "run_plan move where_is plan c s")
    case (Pair t r)
    show ?thesis
    proof (cases r)
      case (Error x)
      then have "where_is s' = where_is s"
        using Pair Cons.prems step_Error[OF Cons.prems(1) c] by auto
      then show ?thesis by (intro exI[of _ "[]"]) (auto simp: planned_def)
    next
      case (Ok u)
      then have t: "run_plan move where_is plan c s = (t, Ok ())"
        "foreach (run_plan move where_is plan) cs t = (s', Error e)" using Pair Cons.prems by auto
      have w: "where_is t = (where_is s)(c := after_plan (plan c (where_is s c)) (where_is s c))"
        using step_Ok[OF Cons.prems(1) c t(1)] by auto
      have "inv t" "set cs \<subseteq> set (cpus t)"
        using step_inv[OF Cons.prems(1) c, of plan] t(1) Cons.prems(2) by auto
      then obtain d x r where d: "cs = d @ x # r" "where_is s' = planned plan d (where_is t)"
        using Cons.IH[OF _ _ _ t(2)] Cons.prems(3) by auto
      then have "where_is s' = planned plan (c # d) (where_is s)"
        using w Cons.prems(3) by (auto simp: planned_def fun_eq_iff)
      then show ?thesis using d(1) by (metis append_Cons)
    qed (use Pair Cons.prems in auto)
  qed
qed simp

text \<open>A loop whose moves all succeed, and whose plan refuses none, ends without error.\<close>

lemma loop_success:
  assumes "inv s" and "set cs \<subseteq> set (cpus s)" and "distinct cs"
    and "\<And>c p t. c \<in> set cs \<Longrightarrow> plan c (where_is s c) = Move p \<Longrightarrow> inv t \<Longrightarrow> rest t = rest s \<Longrightarrow>
           cpus t = cpus s \<Longrightarrow> where_is t c = where_is s c \<Longrightarrow> snd (move c p t) = Ok ()"
    and "\<And>c. c \<in> set cs \<Longrightarrow> \<not> is_refused (plan c (where_is s c))"
  shows "snd (foreach (run_plan move where_is plan) cs s) = Ok ()"
  using assms
proof (induction cs arbitrary: s)
  case (Cons c cs)
  have c: "c \<in> set (cpus s)" using Cons.prems(2) by simp
  have "snd (run_plan move where_is plan c s) = Ok ()"
    using Cons.prems(4)[of c _ s] Cons.prems(5)[of c] Cons.prems(1)
    by (cases "plan c (where_is s c)") (simp_all add: run_plan_def)
  then obtain t where t: "run_plan move where_is plan c s = (t, Ok ())" by (metis prod.collapse)
  have w: "where_is t d = where_is s d" if "d \<in> set cs" for d
    using step_Ok(1)[OF Cons.prems(1) c t] that Cons.prems(3) by auto
  have i: "inv t" "cpus t = cpus s" "rest t = rest s" using step_inv[OF Cons.prems(1) c, of plan] t by auto
  have "snd (foreach (run_plan move where_is plan) cs t) = Ok ()"
  proof (rule Cons.IH[OF i(1)])
    show "set cs \<subseteq> set (cpus t)" "distinct cs" using i(2) Cons.prems(2,3) by auto
    show "snd (move d p u) = Ok ()"
      if "d \<in> set cs" "plan d (where_is t d) = Move p" "inv u" "rest u = rest t" "cpus u = cpus t"
        "where_is u d = where_is t d" for d p u
      using Cons.prems(4)[of d p u] that w i by simp
    show "\<not> is_refused (plan d (where_is t d))" if "d \<in> set cs" for d
      using Cons.prems(5)[of d] that w by simp
  qed
  then show ?case using t by simp
qed simp

text \<open>Moving a list of CPUs, in which a CPU may occur more than once, to one place.\<close>

lemma move_loop:
  assumes "inv s" and "set cs \<subseteq> set (cpus s)" and "foreach (\<lambda>c. move c p) cs s = (s', Ok ())"
  shows "inv s' \<and> cpus s' = cpus s \<and> rest s' = rest s \<and> where_is s' = (\<lambda>c. if c \<in> set cs then p else where_is s c)"
  using assms
proof (induction cs arbitrary: s)
  case (Cons c cs)
  then obtain t where t: "move c p s = (t, Ok ())" "foreach (\<lambda>c. move c p) cs t = (s', Ok ())"
    by (auto split: prod.splits res.splits)
  have c: "c \<in> set (cpus s)" using Cons.prems(2) by simp
  then have "inv t" "cpus t = cpus s" "rest t = rest s" "where_is t = (where_is s)(c := p)"
    using move_inv[OF Cons.prems(1) c, of p] move_cpus[OF Cons.prems(1) c, of p]
      move_rest[OF Cons.prems(1) c, of p]
      move_Ok[OF Cons.prems(1) c t(1)] t(1) by auto
  with Cons.IH[OF _ _ t(2)] Cons.prems(2) show ?case by auto
qed simp

lemma move_loop_inv:
  assumes "inv s" and "set cs \<subseteq> set (cpus s)"
  shows "inv (fst (foreach (\<lambda>c. move c p) cs s))"
    and "cpus (fst (foreach (\<lambda>c. move c p) cs s)) = cpus s"
    and "rest (fst (foreach (\<lambda>c. move c p) cs s)) = rest s"
    and "\<not> is_panic (snd (foreach (\<lambda>c. move c p) cs s))"
proof -
  have e: "run_plan move where_is (\<lambda>_ _. Move p) = (\<lambda>c. move c p)"
    by (simp add: run_plan_def fun_eq_iff)
  note l = loop_inv[OF assms, of "\<lambda>_ _. Move p", unfolded e]
  show "inv (fst (foreach (\<lambda>c. move c p) cs s))"
    and "cpus (fst (foreach (\<lambda>c. move c p) cs s)) = cpus s"
    and "rest (fst (foreach (\<lambda>c. move c p) cs s)) = rest s"
    and "\<not> is_panic (snd (foreach (\<lambda>c. move c p) cs s))" by (rule l)+
qed

end

end
