(* ===== verification/Pool_Props.thy ===== *)
theory Pool_Props
  imports Pools Mover
begin

text \<open>
  The properties of the pool operations: \<open>SetPool\<close> implements the contract of \<open>cpu_mover\<close>, so
  every loop of \<open>pool.go\<close> keeps the two directions of the CPU/pool relation in agreement, never
  reaches the \<open>panic\<close> at the end of \<open>SetPool\<close>, and, when it returns without error, leaves every
  CPU where the comment above it says. The last part is about the files: the CPUs of a pool
  carry its profile.
\<close>

section \<open>SetPool implements the contract\<close>

definition host_inv :: "pkgvars \<Rightarrow> host \<Rightarrow> bool" where
  "host_inv g h = (pool_inv h \<and> (\<forall>c \<in> set (allCpus h). lib_ok g c))"

lemma pool_inv_remove_add:
  assumes "pool_inv h" and "c \<in> set (allCpus h)" and "swap_remove (p_cpus (pools h (cpu_pool h c))) c = Some cs"
  shows "distinct (cs @ [c])" and "set (cs @ [c]) = set (p_cpus (pools h (cpu_pool h c)))"
    and "distinct cs" and "set cs = {d \<in> set (allCpus h). cpu_pool h d = cpu_pool h c} - {c}"
proof -
  have d: "distinct (p_cpus (pools h (cpu_pool h c)))" "c \<in> set (p_cpus (pools h (cpu_pool h c)))"
    using assms by (auto simp: pool_inv_def)
  with swap_remove_distinct[OF assms(3)] show "distinct (cs @ [c])" "distinct cs"
    "set (cs @ [c]) = set (p_cpus (pools h (cpu_pool h c)))" by auto
  show "set cs = {d \<in> set (allCpus h). cpu_pool h d = cpu_pool h c} - {c}"
    using swap_remove_distinct[OF assms(3) d(1)] assms(1) by (auto simp: pool_inv_def)
qed

lemma doSetPool_inv:
  assumes "pool_inv h" and "c \<in> set (allCpus h)" and "cpu_pool h c \<noteq> p" and "lib_ok g c"
  shows "pool_inv (fst (doSetPool env g c p h))"
  using assms
proof (cases rule: doSetPool_cases[where env = env, consumes 4, case_names moved kept])
  case (moved sy cs)
  note cs = pool_inv_remove_add[OF assms(1,2) moved(2)]
  have p: "distinct (p_cpus (pools h p))" "set (p_cpus (pools h p)) = {d \<in> set (allCpus h). cpu_pool h d = p}"
    "\<And>q. distinct (p_cpus (pools h q)) \<and> set (p_cpus (pools h q)) = {d \<in> set (allCpus h). cpu_pool h d = q}"
    using assms(1) by (auto simp: pool_inv_def)
  show ?thesis unfolding moved(3) using assms(1-3) p cs(3,4) by (auto simp: pool_inv_def)
next
  case (kept sy cs e)
  note cs = pool_inv_remove_add[OF assms(1,2) kept(2)]
  show ?thesis unfolding kept(3) using assms(1) cs(1,2) by (auto simp: pool_inv_def)
qed

lemma doSetPool_frame:
  assumes "pool_inv h" and "c \<in> set (allCpus h)" and "cpu_pool h c \<noteq> p" and "lib_ok g c"
  shows "allCpus (fst (doSetPool env g c p h)) = allCpus h"
    and "\<not> is_panic (snd (doSetPool env g c p h))"
    and "cpu_pool (fst (doSetPool env g c p h)) =
      (if snd (doSetPool env g c p h) = Ok () then (cpu_pool h)(c := p) else cpu_pool h)"
    and "exclusivePools (fst (doSetPool env g c p h)) = exclusivePools h"
    and "p_profile (pools (fst (doSetPool env g c p h)) q) = p_profile (pools h q)"
    and "p_name (pools (fst (doSetPool env g c p h)) q) = p_name (pools h q)"
    and "nextPool (fst (doSetPool env g c p h)) = nextPool h"
  by (cases rule: doSetPool_cases[where env = env, OF assms]; simp)+

text \<open>\<open>legal p q\<close>: the moves that the comment of \<open>SetPool\<close> allows.\<close>

definition legal :: "pool_ref \<Rightarrow> pool_ref \<Rightarrow> bool" where
  "legal p q = (p = q \<or> p = SharedPool \<or> q = SharedPool)"

lemma SetPool_legal:
  "SetPool env g c (Some p) h =
     (if cpu_pool h c = p then (h, Ok ())
      else if legal (cpu_pool h c) p then doSetPool env g c p h
      else (h, Error (Errorf (if isExclusive p
         then (if cpu_pool h c = ReservedPool then ''cannot move from reserved to exclusive pool''
               else ''cannot move exclusive to different exclusive pool'')
         else ''cannot move from exclusive to reserved''))))"
  by (cases p; cases "cpu_pool h c") (auto simp: SetPool_def legal_def)

lemma SetPool_inv:
  assumes "host_inv g h" and "c \<in> set (allCpus h)"
  shows "host_inv g (fst (SetPool env g c (Some p) h))"
    and "allCpus (fst (SetPool env g c (Some p) h)) = allCpus h"
    and "\<not> is_panic (snd (SetPool env g c (Some p) h))"
    and "exclusivePools (fst (SetPool env g c (Some p) h)) = exclusivePools h"
    and "p_profile (pools (fst (SetPool env g c (Some p) h)) q) = p_profile (pools h q)"
    and "p_name (pools (fst (SetPool env g c (Some p) h)) q) = p_name (pools h q)"
    and "nextPool (fst (SetPool env g c (Some p) h)) = nextPool h"
proof -
  have a: "pool_inv h" "lib_ok g c" using assms by (auto simp: host_inv_def)
  note d = doSetPool_frame[OF a(1) assms(2) _ a(2), of p env] and
    di = doSetPool_inv[OF a(1) assms(2) _ a(2), of p env]
  show "host_inv g (fst (SetPool env g c (Some p) h))"
    "allCpus (fst (SetPool env g c (Some p) h)) = allCpus h"
    "\<not> is_panic (snd (SetPool env g c (Some p) h))"
    "exclusivePools (fst (SetPool env g c (Some p) h)) = exclusivePools h"
    "p_profile (pools (fst (SetPool env g c (Some p) h)) q) = p_profile (pools h q)"
    "p_name (pools (fst (SetPool env g c (Some p) h)) q) = p_name (pools h q)"
    "nextPool (fst (SetPool env g c (Some p) h)) = nextPool h"
    unfolding SetPool_legal using assms(1) d di by (simp_all add: host_inv_def)
qed

lemma SetPool_where:
  assumes "host_inv g h" and "c \<in> set (allCpus h)"
  shows "cpu_pool (fst (SetPool env g c (Some p) h)) =
      (if snd (SetPool env g c (Some p) h) = Ok () then (cpu_pool h)(c := p) else cpu_pool h)"
proof -
  have a: "pool_inv h" "lib_ok g c" using assms by (auto simp: host_inv_def)
  show ?thesis unfolding SetPool_legal
    using doSetPool_frame(3)[OF a(1) assms(2) _ a(2), of p env] by auto
qed

text \<open>What no move changes: the exclusive pools, and the names and profiles of all pools.\<close>

definition host_rest :: "host \<Rightarrow> pool_ref list \<times> nat \<times> (pool_ref \<Rightarrow> profile option \<times> string)" where
  "host_rest h =
     (exclusivePools h, nextPool h, \<lambda>q. (p_profile (pools h q), p_name (pools h q)))"

interpretation pool_mover: cpu_mover "\<lambda>c p. SetPool env g c (Some p)" cpu_pool "host_inv g"
  allCpus host_rest for env g
proof (standard, goal_cases)
  case (1 s c p) then show ?case by (rule SetPool_inv)
next
  case (2 s c p) then show ?case by (simp add: SetPool_inv)
next
  case (3 s c p) then show ?case by (simp add: SetPool_inv host_rest_def)
next
  case (4 s c p) then show ?case by (rule SetPool_inv)
next
  case (5 s c p s') then show ?case using SetPool_where[of g s c env p] by simp
next
  case (6 s c p s' e) then show ?case using SetPool_where[of g s c env p] by simp
qed

section \<open>The loops\<close>

fun overflow :: "pool_ref \<Rightarrow> pool_ref" where
  "overflow SharedPool = ReservedPool" | "overflow _ = SharedPool"

text \<open>The plan behind \<open>SetCpus\<close>; \<open>overflow p\<close> is where the CPUs that leave \<open>p\<close> go.\<close>

fun pool_plan :: "pool_ref \<Rightarrow> nat list \<Rightarrow> nat \<Rightarrow> pool_ref \<Rightarrow> pool_ref plan" where
  "pool_plan p req c cur =
     (if c \<in> set req then
        (if p = ReservedPool \<and> isExclusive cur
         then Refuse (Errorf ''cpus cannot be moved directly from exclusive to reserved pool'')
         else Move p)
      else if cur = p then Move (overflow p) else Stay)"

lemma Contains_iff [simp]: "CpuList_Contains xs c \<longleftrightarrow> c \<in> set xs"
  by (simp add: CpuList_Contains_def IndexOf_neg)

lemma SetCpus_plan:
  "SetCpus env g p req h =
     foreach (run_plan (\<lambda>c p. SetPool env g c (Some p)) cpu_pool (pool_plan p req)) (allCpus h) h"
  by (cases p) (auto simp: SetCpus_def sharedPool_SetCpus_def reservedPool_SetCpus_def
      exclusivePool_SetCpus_def run_plan_def intro!: foreach_cong)

lemma planned_pool:
  assumes "\<forall>c \<in> set cs. \<not> is_refused (pool_plan p req c (w c))" and "c \<in> set cs"
  shows "planned (pool_plan p req) cs w c =
    (if c \<in> set req then p else if w c = p then overflow p else w c)"
  using assms by (auto simp: planned_def)

lemma ByID_Ok: "ByID cpus i = Ok r \<Longrightarrow> r = (if i \<in> set cpus then Some i else None)"
proof -
  have "find (\<lambda>c. c = i) cpus = (if i \<in> set cpus then Some i else None)"
    by (induction cpus) auto
  moreover have "cpus ! nat k = i \<Longrightarrow> 0 \<le> k \<Longrightarrow> k < int (length cpus) \<Longrightarrow> i \<in> set cpus" for k
    using nth_mem[of "nat k" cpus] by auto
  moreover assume "ByID cpus i = Ok r"
  ultimately show ?thesis by (fastforce simp: ByID_def Let_def split: if_splits)
qed

lemma ByID_small: "i < 2 ^ 63 \<Longrightarrow> ByID cpus i = Ok (if i \<in> set cpus then Some i else None)"
proof -
  assume "i < 2 ^ 63"
  then have "int i < 2 ^ 63" by simp
  then have "\<exists>r. ByID cpus i = Ok r" by (simp add: ByID_def Let_def)
  then show ?thesis using ByID_Ok by blast
qed

lemma ManyByIDs_Ok: "ManyByIDs cpus ids = Ok cs \<Longrightarrow> cs = ids \<and> set ids \<subseteq> set cpus"
  by (induction ids arbitrary: cs)
     (fastforce dest: ByID_Ok split: res.splits option.splits if_splits)+

lemma ManyByIDs_small:
  assumes "\<forall>i \<in> set ids. i < 2 ^ 63"
  shows "ManyByIDs cpus ids =
    (case find (\<lambda>i. i \<notin> set cpus) ids of
       None \<Rightarrow> Ok ids | Some i \<Rightarrow> Error (Errorf (''cpu with id '' @ nat_str i @ '', not in list'')))"
  using assms by (induction ids) (auto simp: ByID_small split: option.split)


section \<open>The files of a CPU\<close>

text \<open>The files of a CPU say what the profile of its pool (or, without one, the default) asks for.\<close>

definition effective_pstates :: "pkgvars \<Rightarrow> nat \<Rightarrow> profile option \<Rightarrow> pstates" where
  "effective_pstates g c prof =
     (case prof of Some p \<Rightarrow> prof_pstates p | None \<Rightarrow> allCPUDefaultPStatesInfo g ! c)"

definition freq_configured ::
  "env \<Rightarrow> pkgvars \<Rightarrow> profile option \<Rightarrow> nat \<Rightarrow> (string \<rightharpoonup> string) \<Rightarrow> bool" where
  "freq_configured env g prof c fs =
     (let ps = effective_pstates g c prof in
      \<exists>cpuAbs req. freq_ranges env g c ps = Ok (cpuAbs, req) \<and>
        fst cpuAbs \<le> fst req \<and> snd req \<le> snd cpuAbs \<and>
        fs (cpu_path g c scalingGovFile) = Some (governor ps) \<and>
        (epp ps \<noteq> [] \<longrightarrow> fs (cpu_path g c eppFile) = Some (epp ps)) \<and>
        fs (cpu_path g c scalingMinFile) = Some (nat_str (fst req)) \<and>
        fs (cpu_path g c scalingMaxFile) = Some (nat_str (snd req)))"

definition idle_configured ::
  "pkgvars \<Rightarrow> profile option \<Rightarrow> nat \<Rightarrow> (string \<rightharpoonup> string) \<Rightarrow> bool" where
  "idle_configured g prof c fs =
     (\<forall>(n, info) \<in> set (cpuCStatesInfo g c).
        fs (disable_path g c (StateNumber info)) = Some (if desired prof n info then ''0'' else ''1''))"

definition cpu_configured ::
  "env \<Rightarrow> pkgvars \<Rightarrow> profile option \<Rightarrow> nat \<Rightarrow> (string \<rightharpoonup> string) \<Rightarrow> bool" where
  "cpu_configured env g prof c fs =
     ((isFeatureIdSupported g FrequencyScalingFeature \<longrightarrow> freq_configured env g prof c fs) \<and>
      (isFeatureIdSupported g CStatesFeature \<longrightarrow> idle_configured g prof c fs))"

lemma cpu_path_neq_disable [simp]:
  "cpu_path g c scalingGovFile \<noteq> disable_path g c n" "cpu_path g c eppFile \<noteq> disable_path g c n"
  "cpu_path g c scalingMinFile \<noteq> disable_path g c n" "cpu_path g c scalingMaxFile \<noteq> disable_path g c n"
  by (simp_all add: disable_path_def cState_file_def cStatesDir_def)

lemma updateFrequencies_Ok:
  assumes "updateFrequencies env g c prof sy = (sy', Ok ())"
    and "isFeatureIdSupported g FrequencyScalingFeature"
  shows "freq_configured env g prof c (files sy')"
proof -
  have "setDriverValues env g c (effective_pstates g c prof) sy = (sy', Ok ())"
    using assms by (auto simp: updateFrequencies_def effective_pstates_def split: option.splits if_splits)
  then show ?thesis
    by (rule setDriverValues_Ok)
       (auto simp: freq_configured_def Let_def simp del: pstate_files)
qed

lemma freq_configured_frame:
  assumes "freq_configured env g prof c fs" and "\<And>f. f \<in> {scalingGovFile, eppFile, scalingMinFile, scalingMaxFile}
      \<Longrightarrow> fs' (cpu_path g c f) = fs (cpu_path g c f)"
  shows "freq_configured env g prof c fs'"
  using assms by (auto simp: freq_configured_def Let_def simp del: pstate_files)

lemma consolidate_unsafe_Ok:
  assumes "env_ok env" and "cstates_ok g c" and "consolidate_unsafe env g c prof sy = (sy', Ok ())"
  shows "cpu_configured env g prof c (files sy')"
proof -
  obtain s where s: "updateFrequencies env g c prof sy = (s, Ok ())"
    "updateCStates env g c prof s = (sy', Ok ())"
    using assms(3) by (auto simp: consolidate_unsafe_def then_do_Ok_iff)
  have "freq_configured env g prof c (files sy')" if "isFeatureIdSupported g FrequencyScalingFeature"
    using updateFrequencies_Ok[OF s(1) that]
    by (rule freq_configured_frame)
       (use updateCStates_frame[of _ g c env prof s] s(2) in \<open>auto simp del: pstate_files\<close>)
  moreover have "idle_configured g prof c (files sy')" if "isFeatureIdSupported g CStatesFeature"
    using updateCStates_files[OF assms(1) that assms(2), of prof s] s(2)
    by (simp add: idle_configured_def)
  ultimately show ?thesis by (simp add: cpu_configured_def)
qed

lemma cpu_path_other: "c \<noteq> d \<Longrightarrow> cpu_path g c f \<noteq> cpu_path g d f'"
proof
  assume "c \<noteq> d" and "cpu_path g c f = cpu_path g d f'"
  then have "split_on CHR ''/'' (nat_str c @ CHR ''/'' # f) = split_on CHR ''/'' (nat_str d @ CHR ''/'' # f')"
    by (simp add: cpu_path_def)
  with \<open>c \<noteq> d\<close> show False by simp
qed

lemma consolidate_unsafe_other:
  assumes "c \<noteq> d"
  shows "files (fst (consolidate_unsafe env g c prof sy)) (cpu_path g d f) = files sy (cpu_path g d f)"
proof -
  let ?I = "\<lambda>s. files s (cpu_path g d f) = files sy (cpu_path g d f)"
  have "cpu_path g d f \<noteq> cpu_path g c f'" for f'
    using cpu_path_other[OF assms, of g f' f] by simp
  then have "?I (fst (setDriverValues env g c ps sy))" for ps
    by (intro setDriverValues_other) blast
  then have "?I (fst (updateFrequencies env g c prof sy))"
    by (auto simp: updateFrequencies_def simp del: pstate_files split: option.split)
  moreover have "?I s \<Longrightarrow> ?I (fst (updateCStates env g c prof s))" for s
    using updateCStates_frame[of "cpu_path g d f" g c env prof s] cpu_path_other[OF assms, of g]
    by (metis disable_path_def)
  ultimately show ?thesis unfolding consolidate_unsafe_def by (intro then_do_inv[where I = ?I])
qed

lemma cpu_configured_other:
  assumes "c \<noteq> d" and "cpu_configured env' g prof d (files sy)"
  shows "cpu_configured env' g prof d (files (fst (consolidate_unsafe env g c prof' sy)))"
proof -
  have f: "files (fst (consolidate_unsafe env g c prof' sy)) (cpu_path g d x) = files sy (cpu_path g d x)" for x
    by (rule consolidate_unsafe_other[OF assms(1)])
  show ?thesis using assms(2)
    by (auto simp: cpu_configured_def idle_configured_def f disable_path_def elim!: freq_configured_frame)
qed

lemma consolidate_loop:
  assumes "env_ok env" and "\<forall>c \<in> set cs. cstates_ok g c \<and> p_profile (pools h (cpu_pool h c)) = prof"
    and "foreach (consolidate env g) cs h = (h', Ok ())"
  shows "\<exists>sy. h' = h\<lparr>hsys := sy\<rparr> \<and> (\<forall>c \<in> set cs. cpu_configured env g prof c (files sy)) \<and>
     (\<forall>d. d \<notin> set cs \<longrightarrow> (\<forall>f. files sy (cpu_path g d f) = files (hsys h) (cpu_path g d f)))"
  using assms(2,3)
proof (induction cs arbitrary: h)
  case Nil
  then show ?case by (auto intro!: exI[of _ "hsys h"])
next
  case (Cons c cs)
  obtain s where s: "consolidate env g c h = (h\<lparr>hsys := s\<rparr>, Ok ())"
      "consolidate_unsafe env g c prof (hsys h) = (s, Ok ())"
      "foreach (consolidate env g) cs (h\<lparr>hsys := s\<rparr>) = (h', Ok ())"
    using Cons.prems by (cases rule: consolidate_cases[of env g c h]; cases "consolidate env g c h")
      (auto split: res.splits)
  have ok: "cpu_configured env g prof c (files s)"
    using consolidate_unsafe_Ok[OF assms(1) _ s(2)] Cons.prems(1) by simp
  obtain sy where sy: "h' = h\<lparr>hsys := sy\<rparr>" "\<forall>d \<in> set cs. cpu_configured env g prof d (files sy)"
      "\<forall>d. d \<notin> set cs \<longrightarrow> (\<forall>f. files sy (cpu_path g d f) = files s (cpu_path g d f))"
    using Cons.IH[OF _ s(3)] Cons.prems(1) by auto
  have "cpu_configured env g prof c (files sy)"
  proof (cases "c \<in> set cs")
    case False
    then have "files sy (cpu_path g c f) = files s (cpu_path g c f)" for f using sy(3) by blast
    then show ?thesis using ok
      by (auto simp: cpu_configured_def idle_configured_def disable_path_def elim!: freq_configured_frame)
  qed (use sy(2) in blast)
  moreover have "files s (cpu_path g d f) = files (hsys h) (cpu_path g d f)" if "d \<noteq> c" for d f
    using consolidate_unsafe_other[of c d env g prof "hsys h" f] that s(2) by simp
  ultimately show ?case using sy by (intro exI[of _ sy]) auto
qed


lemma SetCpus_Ok:
  assumes "host_inv g h" and "SetCpus env g p req h = (h', Ok ())"
  shows "host_inv g h' \<and> allCpus h' = allCpus h \<and> host_rest h' = host_rest h \<and>
    (\<forall>c \<in> set (allCpus h). cpu_pool h' c =
       (if c \<in> set req then p
        else if cpu_pool h c = p then (if p = SharedPool then ReservedPool else SharedPool)
        else cpu_pool h c)) \<and>
    set (p_cpus (pools h' p)) = set req \<inter> set (allCpus h)"
proof -
  have d: "distinct (allCpus h)" using assms(1) by (simp add: host_inv_def pool_inv_def)
  note f = assms(2)[unfolded SetCpus_plan]
  have i: "host_inv g h'" and a: "allCpus h' = allCpus h"
    using pool_mover.loop_inv(1,2)[OF assms(1) subset_refl, of env "pool_plan p req"] f by simp_all
  have w: "cpu_pool h' = planned (pool_plan p req) (allCpus h) (cpu_pool h)"
    and r: "\<forall>c \<in> set (allCpus h). \<not> is_refused (pool_plan p req c (cpu_pool h c))"
    using pool_mover.loop_Ok[OF assms(1) subset_refl d f] by simp_all
  have "overflow p = (if p = SharedPool then ReservedPool else SharedPool)" by (cases p) simp_all
  then have c: "\<forall>c \<in> set (allCpus h). cpu_pool h' c =
       (if c \<in> set req then p
        else if cpu_pool h c = p then (if p = SharedPool then ReservedPool else SharedPool)
        else cpu_pool h c)" unfolding w by (simp add: planned_pool[OF r] del: pool_plan.simps)
  have "set (p_cpus (pools h' p)) = {c \<in> set (allCpus h). cpu_pool h' c = p}"
    using i a by (simp add: host_inv_def pool_inv_def)
  also have "\<dots> = {c \<in> set (allCpus h). c \<in> set req}"
  proof -
    have "cpu_pool h' x = p \<longleftrightarrow> x \<in> set req" if "x \<in> set (allCpus h)" for x
      using bspec[OF c that] by (auto split: if_splits)
    then show ?thesis by blast
  qed
  also have "\<dots> = set req \<inter> set (allCpus h)" by blast
  finally show ?thesis using i a c pool_mover.loop_inv(3)[OF assms(1) subset_refl, of env "pool_plan p req"] f by simp
qed

lemma SetPool_success:
  assumes "host_inv g h" and "c \<in> set (allCpus h)" and "legal (cpu_pool h c) p"
    and "\<exists>sy. consolidate_unsafe env g c (p_profile (pools h p)) (hsys h) = (sy, Ok ())"
  shows "snd (SetPool env g c (Some p) h) = Ok ()"
proof (cases "cpu_pool h c = p")
  case False
  have "pool_inv h" "lib_ok g c" using assms(1,2) by (auto simp: host_inv_def)
  then show ?thesis
    using assms(3,4) False
    by (cases rule: doSetPool_cases[where env = env, OF _ assms(2) False]) (auto simp: SetPool_legal)
qed (simp add: SetPool_legal)

text \<open>Consolidation succeeds for every CPU with the profile of every pool.\<close>

definition consolidates :: "env \<Rightarrow> pkgvars \<Rightarrow> host \<Rightarrow> bool" where
  "consolidates env g h =
     (\<forall>c \<in> set (allCpus h). \<forall>q sy. \<exists>sy'. consolidate_unsafe env g c (p_profile (pools h q)) sy = (sy', Ok ()))"

lemma host_rest_profile: "host_rest t = host_rest h \<Longrightarrow> p_profile (pools t q) = p_profile (pools h q)"
  by (simp add: host_rest_def fun_eq_iff)

lemma SetCpus_success:
  assumes "host_inv g h" and "consolidates env g h"
    and "\<forall>c \<in> set req \<inter> set (allCpus h). legal (cpu_pool h c) p"
  shows "snd (SetCpus env g p req h) = Ok ()"
  unfolding SetCpus_plan
proof (rule pool_mover.loop_success[OF assms(1) subset_refl])
  show "distinct (allCpus h)" using assms(1) by (simp add: host_inv_def pool_inv_def)
  fix c assume c: "c \<in> set (allCpus h)"
  show "\<not> is_refused (pool_plan p req c (cpu_pool h c))"
    using assms(3) c by (auto simp: legal_def)
  fix q t assume "pool_plan p req c (cpu_pool h c) = Move q" and t: "host_inv g t"
    "host_rest t = host_rest h" "allCpus t = allCpus h" "cpu_pool t c = cpu_pool h c"
  then have "legal (cpu_pool t c) q"
    using assms(3) c by (cases p) (auto simp: legal_def split: if_splits)
  moreover have "\<exists>sy. consolidate_unsafe env g c (p_profile (pools t q)) (hsys t) = (sy, Ok ())"
    using assms(2) c host_rest_profile[OF t(2)] by (auto simp: consolidates_def)
  ultimately show "snd (SetPool env g c (Some q) t) = Ok ()"
    using SetPool_success t c by metis
qed

section \<open>Properties\<close>

text \<open>
  C2. \<open>SetPool\<close> of a CPU of the host never panics (its final \<open>panic\<close> is unreachable), keeps the
  lists of the pools and the pools of the CPUs in agreement, and moves the CPU exactly when it
  returns without error, which it can only do for the moves its comment allows; after an error
  every CPU is where it was and every pool holds the same CPUs.
\<close>
theorem SetPool_contract:
  assumes "host_inv g h" and "c \<in> set (allCpus h)" and "SetPool env g c (Some p) h = (h', r)"
  shows "\<not> is_panic r \<and> host_inv g h' \<and> allCpus h' = allCpus h \<and>
    (r = Ok () \<longrightarrow> legal (cpu_pool h c) p \<and> cpu_pool h' = (cpu_pool h)(c := p)) \<and>
    (r \<noteq> Ok () \<longrightarrow> cpu_pool h' = cpu_pool h \<and>
       (\<forall>q. set (p_cpus (pools h' q)) = set (p_cpus (pools h q)))) \<and>
    (\<not> legal (cpu_pool h c) p \<longrightarrow> h' = h \<and> r \<noteq> Ok ())"
proof -
  have h': "h' = fst (SetPool env g c (Some p) h)" "r = snd (SetPool env g c (Some p) h)"
    using assms(3) by simp_all
  have i: "host_inv g h'" "allCpus h' = allCpus h" "\<not> is_panic r"
    using SetPool_inv[OF assms(1,2), of env p] h' by simp_all
  have w: "cpu_pool h' = (if r = Ok () then (cpu_pool h)(c := p) else cpu_pool h)"
    using SetPool_where[OF assms(1,2), of env p] h' by simp
  moreover have "r \<noteq> Ok () \<longrightarrow> (\<forall>q. set (p_cpus (pools h' q)) = set (p_cpus (pools h q)))"
    using i assms(1) w by (auto simp: host_inv_def pool_inv_def)
  moreover have "\<not> legal (cpu_pool h c) p \<longrightarrow> h' = h \<and> r \<noteq> Ok ()"
    using h' by (auto simp: SetPool_legal legal_def)
  ultimately show ?thesis using i by auto
qed

text \<open>A host of two CPUs, one in the shared pool, one in an exclusive pool.\<close>

definition small_host :: host where
  "small_host = \<lparr>h_name = ''node'', h_arch = ''x86_64'', h_vendor = ''GenuineIntel'',
     exclusivePools = [ExclusivePool 0],
     pools = (\<lambda>p. case p of
        SharedPool \<Rightarrow> \<lparr>p_name = ''sharedPool'', p_cpus = [0], p_profile = None\<rparr>
      | ExclusivePool n \<Rightarrow> \<lparr>p_name = ''perf'', p_cpus = (if n = 0 then [1] else []), p_profile = None\<rparr>
      | ReservedPool \<Rightarrow> \<lparr>p_name = ''reservedPool'', p_cpus = [], p_profile = None\<rparr>),
     cpu_pool = (\<lambda>c. if c = 0 then SharedPool else ExclusivePool 0),
     allCpus = [0, 1], h_topo = one_die, nextPool = 1, hsys = sys0\<rparr>"

lemma small_host_inv: "host_inv idle small_host"
  by (auto simp: host_inv_def pool_inv_def small_host_def lib_ok_def idle_def hetero_def
      split: pool_ref.splits)

lemma small_host_simps [simp]:
  "allCpus small_host = [0, 1]"
  "cpu_pool small_host c = (if c = 0 then SharedPool else ExclusivePool 0)"
  by (simp_all add: small_host_def)

theorem SetPool_contract_witness:
  "\<not> legal (cpu_pool small_host 1) ReservedPool \<and>
   fst (SetPool env0 idle 1 (Some ReservedPool) small_host) = small_host"
  using SetPool_contract[OF small_host_inv, of 1 env0 ReservedPool
      "fst (SetPool env0 idle 1 (Some ReservedPool) small_host)"
      "snd (SetPool env0 idle 1 (Some ReservedPool) small_host)"]
  by (simp add: legal_def)

text \<open>
  C3. \<open>SetCpus\<close> of any pool, when it returns without error, puts the requested CPUs of the host
  in the pool, moves the CPUs it did not request out of it (from the shared pool to the reserved
  pool, from any other pool to the shared pool) and leaves all others where they were; the pool's
  own list then holds exactly the requested CPUs.
\<close>
theorem SetCpus_correct:
  assumes "host_inv g h" and "SetCpus env g p req h = (h', Ok ())"
  shows "host_inv g h' \<and> allCpus h' = allCpus h \<and>
    (\<forall>c \<in> set (allCpus h). cpu_pool h' c =
       (if c \<in> set req then p
        else if cpu_pool h c = p then (if p = SharedPool then ReservedPool else SharedPool)
        else cpu_pool h c)) \<and>
    set (p_cpus (pools h' p)) = set req \<inter> set (allCpus h)"
  using SetCpus_Ok[OF assms] by blast

lemma idle_freq: "isFeatureIdSupported idle f"
  by (simp add: idle_def hetero_def isFeatureIdSupported_def isSupported_def)

text \<open>On \<open>idle\<close> without faults every CPU can be consolidated with the defaults.\<close>

lemma idle_default_Ok:
  assumes "c < 2"
  shows "\<exists>sy'. consolidate_unsafe env0 idle c None sy = (sy', Ok ())"
proof -
  have l: "hw_limits idle 0 800000 3200000" "hw_limits idle 1 400000 1600000"
    by (simp_all add: hw_limits_def idle_freq) (simp_all add: idle_def hetero_def)
  have sys: "getAbsMinMaxFreq (coreTypes idle) = Ok (400000, 3200000)"
    by (simp add: idle_def getAbsMinMaxFreq_def)
  have "snd (updateFrequencies env0 idle c None sy) = Ok ()"
  proof (cases "c = 0")
    case True
    have "snd (setDriverValues env0 idle 0 (allCPUDefaultPStatesInfo idle ! 0) sy) = Ok ()"
      using setDriverValues_absolute[OF l(1) env0_ok(2) sys, of 800000 3200000 _ sy]
      by (simp add: idle_def hetero_def)
    then show ?thesis using True by (simp add: updateFrequencies_def idle_freq) (simp add: idle_def hetero_def)
  next
    case False
    then have c: "c = 1" using assms by simp
    have "snd (setDriverValues env0 idle 1 (allCPUDefaultPStatesInfo idle ! 1) sy) = Ok ()"
      using setDriverValues_absolute[OF l(2) env0_ok(2) sys, of 400000 1600000 _ sy]
      by (simp add: idle_def hetero_def)
    then show ?thesis using c by (simp add: updateFrequencies_def idle_freq) (simp add: idle_def hetero_def)
  qed
  then obtain s where "updateFrequencies env0 idle c None sy = (s, Ok ())"
    by (metis prod.collapse)
  moreover have "\<exists>s'. updateCStates env0 idle c None s = (s', Ok ())"
  proof -
    have "apply_cstate env0 idle c x t = (fst (apply_cstate env0 idle c x t), Ok ())" for x t
      by (auto simp: apply_cstate_def WriteFile_no_faults split: option.split)
    then show ?thesis
      by (simp add: updateCStates_desired[OF idle_freq] applyCStates_def
          foreach_ok_fold[where g = "\<lambda>x t. fst (apply_cstate env0 idle c x t)"])
  qed
  ultimately show ?thesis by (simp add: consolidate_unsafe_def)
qed


lemma small_host_consolidates: "consolidates env0 idle small_host"
proof -
  have "p_profile (pools small_host q) = None" for q
    by (simp add: small_host_def split: pool_ref.split)
  then show ?thesis using idle_default_Ok by (auto simp: consolidates_def)
qed

theorem SetCpus_correct_witness:
  "cpu_pool (fst (SetCpus env0 idle SharedPool [1] small_host)) 0 = ReservedPool \<and>
   cpu_pool (fst (SetCpus env0 idle SharedPool [1] small_host)) 1 = SharedPool"
proof -
  have "snd (SetCpus env0 idle SharedPool [1] small_host) = Ok ()"
    using SetCpus_success[OF small_host_inv small_host_consolidates] by (simp add: legal_def)
  then have "SetCpus env0 idle SharedPool [1] small_host =
      (fst (SetCpus env0 idle SharedPool [1] small_host), Ok ())" by (simp add: prod_eq_iff)
  from SetCpus_correct[OF small_host_inv this] show ?thesis by simp
qed

text \<open>
  \<open>SetCpus\<close> and \<open>Clear\<close> do not fail on their own: when the files of every CPU can be written
  for the profile of every pool, and no requested CPU would have to go between the reserved pool
  and an exclusive pool, or between two exclusive pools, the call returns without error.
\<close>
theorem SetCpus_total:
  assumes "host_inv g h" and "consolidates env g h"
    and "\<forall>c \<in> set req \<inter> set (allCpus h). legal (cpu_pool h c) p"
  shows "snd (SetCpus env g p req h) = Ok () \<and> snd (Clear env g p h) = Ok ()"
  using SetCpus_success[OF assms] SetCpus_success[OF assms(1,2), of "[]" p] by (simp add: Clear_def)

theorem SetCpus_total_witness:
  "snd (SetCpus env0 idle SharedPool [1] small_host) = Ok () \<and>
   snd (Clear env0 idle SharedPool small_host) = Ok ()"
  using SetCpus_total[OF small_host_inv small_host_consolidates, of "[1]" SharedPool]
  by (simp add: legal_def)

text \<open>
  When \<open>SetCpus\<close> fails, the work is done for a prefix of the CPUs of the host and undone for
  the others, and the lists of the pools still agree with the pools of the CPUs: no CPU is lost
  and none is in two pools.
\<close>
theorem SetCpus_failure:
  assumes "host_inv g h" and "SetCpus env g p req h = (h', Error e)"
  shows "host_inv g h' \<and> (\<exists>before c rest. allCpus h = before @ c # rest \<and>
    (\<forall>d. d \<notin> set before \<longrightarrow> cpu_pool h' d = cpu_pool h d) \<and>
    (\<forall>d \<in> set before. cpu_pool h' d =
       (if d \<in> set req \<and> \<not> (p = ReservedPool \<and> isExclusive (cpu_pool h d)) then p
        else if d \<notin> set req \<and> cpu_pool h d = p then (if p = SharedPool then ReservedPool else SharedPool)
        else cpu_pool h d)))"
proof -
  have d: "distinct (allCpus h)" using assms(1) by (simp add: host_inv_def pool_inv_def)
  note f = assms(2)[unfolded SetCpus_plan]
  have "host_inv g h'"
    using pool_mover.loop_inv(1)[OF assms(1) subset_refl, of env "pool_plan p req"] f by simp
  moreover obtain b c r where b: "allCpus h = b @ c # r"
      "cpu_pool h' = planned (pool_plan p req) b (cpu_pool h)"
    using pool_mover.loop_Error[OF assms(1) subset_refl d f] by blast
  moreover have "overflow p = (if p = SharedPool then ReservedPool else SharedPool)" by (cases p) simp_all
  ultimately show ?thesis
    by (intro conjI exI[of _ b] exI[of _ c] exI[of _ r]) (auto simp: planned_def)
qed

theorem SetCpus_failure_witness:
  "host_inv idle (fst (SetCpus env0 idle ReservedPool [1] small_host)) \<and>
   snd (SetCpus env0 idle ReservedPool [1] small_host) =
     Error (Errorf ''cpus cannot be moved directly from exclusive to reserved pool'')"
proof -
  have "SetCpus env0 idle ReservedPool [1] small_host =
      (small_host, Error (Errorf ''cpus cannot be moved directly from exclusive to reserved pool''))"
    by (simp add: SetCpus_def reservedPool_SetCpus_def)
  from SetCpus_failure[OF small_host_inv this] this show ?thesis by simp
qed


text \<open>
  \<open>MoveCpuIDs\<close>, when it returns without error, was given ids of CPUs of the host only and has
  put exactly those CPUs in the pool; with an id that is not on the host it fails before it moves
  anything.
\<close>
theorem MoveCpuIDs_correct:
  assumes "host_inv g h" and "\<forall>i \<in> set ids. i < 2 ^ 63"
  shows "(snd (MoveCpuIDs env g p ids h) = Ok () \<longrightarrow>
      host_inv g (fst (MoveCpuIDs env g p ids h)) \<and> set ids \<subseteq> set (allCpus h) \<and>
      cpu_pool (fst (MoveCpuIDs env g p ids h)) = (\<lambda>c. if c \<in> set ids then p else cpu_pool h c)) \<and>
    (\<not> set ids \<subseteq> set (allCpus h) \<longrightarrow>
      fst (MoveCpuIDs env g p ids h) = h \<and> (\<exists>e. snd (MoveCpuIDs env g p ids h) = Error e))"
proof (cases "set ids \<subseteq> set (allCpus h)")
  case True
  then have "find (\<lambda>i. i \<notin> set (allCpus h)) ids = None" by (auto simp: find_None)
  then have m: "MoveCpuIDs env g p ids h = MoveCpus env g p ids h"
    using ManyByIDs_small[OF assms(2)] by (simp add: MoveCpuIDs_def)
  show ?thesis
  proof (intro conjI impI)
    assume "snd (MoveCpuIDs env g p ids h) = Ok ()"
    then have "foreach (\<lambda>c. SetPool env g c (Some p)) ids h = (fst (MoveCpuIDs env g p ids h), Ok ())"
      by (simp add: m MoveCpus_def prod_eq_iff)
    from pool_mover.move_loop[OF assms(1) True this]
    show "host_inv g (fst (MoveCpuIDs env g p ids h))"
      "cpu_pool (fst (MoveCpuIDs env g p ids h)) = (\<lambda>c. if c \<in> set ids then p else cpu_pool h c)"
      by simp_all
  qed (use True in simp_all)
next
  case False
  then obtain i where "find (\<lambda>i. i \<notin> set (allCpus h)) ids = Some i"
    by (metis find_None not_None_eq subsetI)
  then have "\<exists>e. MoveCpuIDs env g p ids h = (h, Error e)"
    using ManyByIDs_small[OF assms(2)] by (simp add: MoveCpuIDs_def)
  then show ?thesis using False by auto
qed

theorem MoveCpuIDs_correct_witness:
  "fst (MoveCpuIDs env0 idle SharedPool [1, 7] small_host) = small_host"
  using MoveCpuIDs_correct[OF small_host_inv, of "[1, 7]" env0 SharedPool] by simp

text \<open>
  Removing an exclusive pool, when it succeeds, returns its CPUs to the shared pool and takes
  the pool, and only it, off the host's list; the shared and the reserved pool cannot be removed.
\<close>
theorem Pool_Remove_correct:
  assumes "host_inv g h" and "distinct (exclusivePools h)" and "Pool_Remove env g p h = (h', Ok ())"
  shows "isExclusive p \<and> host_inv g h' \<and> p_cpus (pools h' p) = [] \<and>
    set (exclusivePools h') = set (exclusivePools h) - {p} \<and> distinct (exclusivePools h') \<and>
    (\<forall>c \<in> set (allCpus h). cpu_pool h' c = (if cpu_pool h c = p then SharedPool else cpu_pool h c))"
proof -
  obtain n where p: "p = ExclusivePool n"
    using assms(3) by (cases p) (auto simp: Pool_Remove_def)
  obtain h1 where h1: "SetCpus env g p [] h = (h1, Ok ())" "PoolList_remove p h1 = (h', Ok ())"
    using assms(3) p by (auto simp: Pool_Remove_def Clear_def then_do_Ok_iff)
  note c = SetCpus_Ok[OF assms(1) h1(1)]
  obtain ps where ps: "swap_remove (exclusivePools h1) p = Some ps" "h' = h1\<lparr>exclusivePools := ps\<rparr>"
    using h1(2) by (auto simp: PoolList_remove_def split: option.splits)
  have "exclusivePools h1 = exclusivePools h" using c by (simp add: host_rest_def)
  with swap_remove_distinct[OF ps(1)] assms(2)
  have "distinct ps \<and> set ps = set (exclusivePools h) - {p}" by simp
  moreover have "host_inv g h'" using c ps(2) by (auto simp: host_inv_def pool_inv_def)
  ultimately show ?thesis using c ps(2) p by auto
qed

theorem Pool_Remove_correct_witness:
  "cpu_pool (fst (Pool_Remove env0 idle (ExclusivePool 0) small_host)) 1 = SharedPool"
proof -
  have "snd (SetCpus env0 idle (ExclusivePool 0) [] small_host) = Ok ()"
    using SetCpus_success[OF small_host_inv small_host_consolidates, of "[]"] by simp
  then obtain h1 where h1: "SetCpus env0 idle (ExclusivePool 0) [] small_host = (h1, Ok ())"
    by (metis prod.collapse)
  then have "exclusivePools h1 = [ExclusivePool 0]"
    using SetCpus_Ok[OF small_host_inv h1] by (simp add: host_rest_def small_host_def)
  then have "Pool_Remove env0 idle (ExclusivePool 0) small_host =
      (fst (Pool_Remove env0 idle (ExclusivePool 0) small_host), Ok ())"
    by (simp add: Pool_Remove_def Clear_def h1 PoolList_remove_def swap_remove_def IndexOf_def)
  from Pool_Remove_correct[OF small_host_inv _ this] show ?thesis by (simp add: small_host_def)
qed

text \<open>
  C4. When \<open>SetPowerProfile\<close> of a pool returns without error, the files of every CPU of the pool
  carry the profile: governor, EPP, frequencies (within the limits of the CPU) and idle states;
  the files of all other CPUs are untouched and no CPU changes its pool. The reserved pool
  refuses a profile.
\<close>
theorem SetPowerProfile_applied:
  assumes "host_inv g h" and "env_ok env" and "\<forall>c \<in> set (allCpus h). cstates_ok g c"
    and "SetPowerProfile env g p prof h = (h', Ok ())"
  shows "p \<noteq> ReservedPool \<and> p_profile (pools h' p) = prof \<and> cpu_pool h' = cpu_pool h \<and> host_inv g h' \<and>
    (\<forall>c \<in> set (p_cpus (pools h p)). cpu_configured env g prof c (files (hsys h'))) \<and>
    (\<forall>c. c \<notin> set (p_cpus (pools h p)) \<longrightarrow>
      (\<forall>f. files (hsys h') (cpu_path g c f) = files (hsys h) (cpu_path g c f)))"
proof -
  let ?h = "h\<lparr>pools := (pools h)(p := (pools h p)\<lparr>p_profile := prof\<rparr>)\<rparr>"
  have p: "p \<noteq> ReservedPool" and f: "foreach (consolidate env g) (p_cpus (pools h p)) ?h = (h', Ok ())"
    using assms(4) by (auto simp: SetPowerProfile_def split: if_splits)
  have "\<forall>c \<in> set (p_cpus (pools h p)). c \<in> set (allCpus h) \<and> cpu_pool h c = p"
    using assms(1) by (auto simp: host_inv_def pool_inv_def)
  then have "\<forall>c \<in> set (p_cpus (pools h p)). cstates_ok g c \<and> p_profile (pools ?h (cpu_pool ?h c)) = prof"
    using assms(3) by auto
  from consolidate_loop[OF assms(2) this f] obtain sy where sy: "h' = ?h\<lparr>hsys := sy\<rparr>"
    "\<forall>c \<in> set (p_cpus (pools h p)). cpu_configured env g prof c (files sy)"
    "\<forall>d. d \<notin> set (p_cpus (pools h p)) \<longrightarrow>
       (\<forall>f. files sy (cpu_path g d f) = files (hsys h) (cpu_path g d f))" by auto
  have "host_inv g h'" using assms(1) sy(1) by (auto simp: host_inv_def pool_inv_def)
  then show ?thesis using p sy by simp
qed

theorem SetPowerProfile_applied_witness:
  "cpu_configured env0 idle None 1 (files (hsys (fst (SetPowerProfile env0 idle (ExclusivePool 0) None small_host))))"
proof -
  let ?r = "SetPowerProfile env0 idle (ExclusivePool 0) None small_host"
  let ?h = "small_host\<lparr>pools := (pools small_host)(ExclusivePool 0 :=
              (pools small_host (ExclusivePool 0))\<lparr>p_profile := None\<rparr>)\<rparr>"
  have c: "p_cpus (pools small_host (ExclusivePool 0)) = [1]" by (simp add: small_host_def)
  obtain s where "consolidate_unsafe env0 idle 1 None (hsys small_host) = (s, Ok ())"
    using idle_default_Ok[of 1] by auto
  then have "snd ?r = Ok ()"
    by (simp add: SetPowerProfile_def c consolidate_def on_sys_def)
  then have r: "?r = (fst ?r, Ok ())" by (simp add: prod_eq_iff)
  have "\<forall>c \<in> set (allCpus small_host). cstates_ok idle c"
    by (simp add: cstates_ok_def cpuCStatesInfo_def idle_def)
  from SetPowerProfile_applied[OF small_host_inv env0_ok(1) this r] c show ?thesis by simp
qed

end
