(* ===== verification/Pool_Library.thy ===== *)
theory Pool_Library
  imports Pool_Props Go_Slices
begin

text \<open>
  The library as the controllers use it: the invariant of a host together with its list of
  exclusive pools (\<open>lib_inv\<close>), what every operation of the \<open>Host\<close> and \<open>Pool\<close> interfaces keeps of it
  on success and on failure, and what it does on success. The controllers' theories rest on
  these facts only.
\<close>

section \<open>The invariant\<close>

text \<open>
  Exclusive pools are listed once, with different names, under references already handed out, and
  no CPU is in an exclusive pool that is not listed.
\<close>

definition pool_name :: "host \<Rightarrow> pool_ref \<Rightarrow> string" where
  "pool_name h p = p_name (pools h p)"

definition pool_profile :: "host \<Rightarrow> pool_ref \<Rightarrow> profile option" where
  "pool_profile h p = p_profile (pools h p)"

definition listed :: "host \<Rightarrow> bool" where
  "listed h =
     (distinct (exclusivePools h) \<and> distinct (map (pool_name h) (exclusivePools h)) \<and>
      (\<forall>p \<in> set (exclusivePools h). \<exists>n < nextPool h. p = ExclusivePool n) \<and>
      (\<forall>c \<in> set (allCpus h). isExclusive (cpu_pool h c) \<longrightarrow> cpu_pool h c \<in> set (exclusivePools h)))"

definition lib_inv :: "pkgvars \<Rightarrow> host \<Rightarrow> bool" where
  "lib_inv g h = (host_inv g h \<and> listed h)"

text \<open>\<open>host_rest\<close>, in terms of names and profiles.\<close>

lemma host_rest_iff:
  "host_rest t = host_rest h \<longleftrightarrow> exclusivePools t = exclusivePools h \<and> nextPool t = nextPool h \<and>
     pool_name t = pool_name h \<and> pool_profile t = pool_profile h"
  by (auto simp: host_rest_def pool_name_def pool_profile_def fun_eq_iff)

lemma lib_invD:
  assumes "lib_inv g h"
  shows "host_inv g h" and "distinct (exclusivePools h)" and "distinct (allCpus h)"
    and "\<And>p. p \<in> set (exclusivePools h) \<Longrightarrow> isExclusive p"
    and "\<And>c p. c \<in> set (p_cpus (pools h p)) \<longleftrightarrow> c \<in> set (allCpus h) \<and> cpu_pool h c = p"
    and "\<And>p. distinct (p_cpus (pools h p))"
    and "\<And>p. p \<in> set (exclusivePools h) \<Longrightarrow> p \<noteq> ExclusivePool (nextPool h)"
    and "\<And>c. c \<in> set (allCpus h) \<Longrightarrow> isExclusive (cpu_pool h c) \<Longrightarrow> cpu_pool h c \<in> set (exclusivePools h)"
  using assms by (auto simp: lib_inv_def listed_def host_inv_def pool_inv_def)

text \<open>A move is possible between the shared pool and listed pools only.\<close>

lemma SetPool_keeps:
  assumes "lib_inv g h" and "c \<in> set (allCpus h)" and "isExclusive p \<longrightarrow> p \<in> set (exclusivePools h)"
  shows "lib_inv g (fst (SetPool env g c (Some p) h))"
    and "host_rest (fst (SetPool env g c (Some p) h)) = host_rest h"
proof -
  have i: "host_inv g h" using assms(1) by (rule lib_invD)
  note s = SetPool_inv[OF i assms(2), of env p]
  show r: "host_rest (fst (SetPool env g c (Some p) h)) = host_rest h" by (simp add: host_rest_def s)
  show "lib_inv g (fst (SetPool env g c (Some p) h))"
    using assms r s(1,2) unfolding lib_inv_def listed_def host_rest_iff
    by (auto simp: SetPool_where[OF i assms(2)])
qed

text \<open>
  An operation is \<open>safe\<close> on a set of hosts when it keeps the invariant and the CPUs, whatever it
  returns, and does not panic.
\<close>

definition safe_on :: "pkgvars \<Rightarrow> (host \<Rightarrow> bool) \<Rightarrow> (host \<Rightarrow> host \<times> 'a res) \<Rightarrow> bool" where
  "safe_on g P f =
     (\<forall>h. lib_inv g h \<and> P h \<longrightarrow>
        lib_inv g (fst (f h)) \<and> allCpus (fst (f h)) = allCpus h \<and> \<not> is_panic (snd (f h)))"

abbreviation safe :: "pkgvars \<Rightarrow> (host \<Rightarrow> host \<times> 'a res) \<Rightarrow> bool" where
  "safe g f \<equiv> safe_on g (\<lambda>_. True) f"

named_theorems safe_ops \<open>operations of the library keep its invariant\<close>

lemma safe_onD:
  assumes "safe_on g P f" and "lib_inv g h" and "P h"
  shows "lib_inv g (fst (f h))" and "allCpus (fst (f h)) = allCpus h" and "\<not> is_panic (snd (f h))"
  using assms by (auto simp: safe_on_def)

lemma safe_onI:
  assumes "\<And>h. lib_inv g h \<Longrightarrow> P h \<Longrightarrow>
    lib_inv g (fst (f h)) \<and> allCpus (fst (f h)) = allCpus h \<and> \<not> is_panic (snd (f h))"
  shows "safe_on g P f"
  using assms by (auto simp: safe_on_def)

lemma safe_then_do [safe_ops]:
  assumes "safe_on g P f" and "\<And>a. safe g (k a)"
  shows "safe_on g P (\<lambda>h. then_do (f h) k)"
proof (rule safe_onI)
  fix h assume h: "lib_inv g h" "P h"
  note f = safe_onD[OF assms(1) h]
  obtain h1 r where r: "f h = (h1, r)" by (cases "f h")
  then show "lib_inv g (fst (then_do (f h) k)) \<and> allCpus (fst (then_do (f h) k)) = allCpus h \<and>
      \<not> is_panic (snd (then_do (f h) k))"
    using f safe_onD[OF assms(2), of h1] by (cases r) simp_all
qed

lemma safe_catch_err [safe_ops]:
  assumes "safe_on g P f" and "\<And>e. safe g (handle e)" and "\<And>a. safe g (k a)"
  shows "safe_on g P (\<lambda>h. catch_err (f h) handle k)"
proof (rule safe_onI)
  fix h assume h: "lib_inv g h" "P h"
  obtain h1 r where r: "f h = (h1, r)" by (cases "f h")
  show "lib_inv g (fst (catch_err (f h) handle k)) \<and> allCpus (fst (catch_err (f h) handle k)) = allCpus h \<and>
      \<not> is_panic (snd (catch_err (f h) handle k))"
    using safe_onD[OF assms(1) h] safe_onD[OF assms(2), of h1] safe_onD[OF assms(3), of h1] r
    by (cases r) simp_all
qed

lemma safe_if [safe_ops]:
  "(b \<Longrightarrow> safe_on g P f) \<Longrightarrow> (\<not> b \<Longrightarrow> safe_on g P k) \<Longrightarrow> safe_on g P (\<lambda>h. if b then f h else k h)"
  by (cases b) simp_all

lemma safe_option [safe_ops]:
  "(x = None \<Longrightarrow> safe_on g P f) \<Longrightarrow> (\<And>a. x = Some a \<Longrightarrow> safe_on g P (k a)) \<Longrightarrow>
   safe_on g P (\<lambda>h. case x of None \<Rightarrow> f h | Some a \<Rightarrow> k a h)"
  by (cases x) simp_all

lemma safe_wrap_err [safe_ops]: "safe_on g P f \<Longrightarrow> safe_on g P (\<lambda>h. wrap_err m (f h))"
  by (simp add: safe_on_def)

lemma safe_return [safe_ops]: "\<not> is_panic r \<Longrightarrow> safe_on g P (\<lambda>h. (h, r))"
  by (simp add: safe_on_def)

lemma safe_foreach [safe_ops]:
  assumes "\<And>x. x \<in> set xs \<Longrightarrow> safe g (f x)"
  shows "safe g (foreach f xs)"
proof (rule safe_onI)
  fix h assume h: "lib_inv g h"
  let ?I = "\<lambda>t. lib_inv g t \<and> allCpus t = allCpus h"
  have "?I (fst (foreach f xs h))"
    by (rule foreach_inv[where I = ?I]) (use h safe_onD[OF assms] in auto)
  moreover have "\<not> is_panic (snd (foreach f xs h))"
    by (rule foreach_panic[where I = ?I]) (use h safe_onD[OF assms] in auto)
  ultimately show "lib_inv g (fst (foreach f xs h)) \<and> allCpus (fst (foreach f xs h)) = allCpus h \<and>
      \<not> is_panic (snd (foreach f xs h))" by simp
qed

section \<open>Moving CPUs\<close>

abbreviation usable :: "pool_ref \<Rightarrow> host \<Rightarrow> bool" where
  "usable p h \<equiv> isExclusive p \<longrightarrow> p \<in> set (exclusivePools h)"

lemma foreach_SetPool_keeps:
  assumes "lib_inv g h" and "set cs \<subseteq> set (allCpus h)" and "usable p h"
  shows "lib_inv g (fst (foreach (\<lambda>c. SetPool env g c (Some p)) cs h)) \<and>
    host_rest (fst (foreach (\<lambda>c. SetPool env g c (Some p)) cs h)) = host_rest h"
proof -
  let ?I = "\<lambda>t. lib_inv g t \<and> allCpus t = allCpus h \<and> host_rest t = host_rest h"
  have "?I (fst (foreach (\<lambda>c. SetPool env g c (Some p)) cs h))"
  proof (rule foreach_inv[where I = ?I])
    fix c t assume c: "c \<in> set cs" and t: "?I t"
    have "c \<in> set (allCpus t)" "usable p t" using assms(2,3) c t by (auto simp: host_rest_iff)
    with SetPool_keeps[of g t c p env] SetPool_inv(2)[of g t c env p] t
    show "?I (fst (SetPool env g c (Some p) t))" by (auto dest: lib_invD(1))
  qed (use assms(1) in simp)
  then show ?thesis by simp
qed

lemma MoveCpus_safe:
  assumes "lib_inv g h" and "set cs \<subseteq> set (allCpus h)" and "usable p h"
  shows "lib_inv g (fst (MoveCpus env g p cs h))" and "allCpus (fst (MoveCpus env g p cs h)) = allCpus h"
    and "host_rest (fst (MoveCpus env g p cs h)) = host_rest h"
    and "\<not> is_panic (snd (MoveCpus env g p cs h))"
  using foreach_SetPool_keeps[OF assms] pool_mover.move_loop_inv[OF lib_invD(1)[OF assms(1)] assms(2), of env p]
  by (simp_all add: MoveCpus_def)

lemma MoveCpus_Ok:
  assumes "lib_inv g h" and "set cs \<subseteq> set (allCpus h)" and "MoveCpus env g p cs h = (h', Ok ())"
  shows "cpu_pool h' = (\<lambda>c. if c \<in> set cs then p else cpu_pool h c)"
  using pool_mover.move_loop[OF lib_invD(1)[OF assms(1)] assms(2)] assms(3) by (simp add: MoveCpus_def)

lemma MoveCpuIDs_cases:
  assumes "\<forall>i \<in> set ids. i < 2 ^ 63"
  obtains "set ids \<subseteq> set (allCpus h)" and "MoveCpuIDs env g p ids h = MoveCpus env g p ids h"
  | e where "MoveCpuIDs env g p ids h = (h, Error e)"
  using ManyByIDs_small[OF assms, of "allCpus h"]
  by (cases "find (\<lambda>i. i \<notin> set (allCpus h)) ids")
     (auto simp: MoveCpuIDs_def find_None subset_eq)

lemma MoveCpuIDs_safe [safe_ops]:
  assumes "\<forall>i \<in> set ids. i < 2 ^ 63"
  shows "safe_on g (usable p) (MoveCpuIDs env g p ids)"
proof (rule safe_onI)
  fix h assume "lib_inv g h" "usable p h"
  then show "lib_inv g (fst (MoveCpuIDs env g p ids h)) \<and>
      allCpus (fst (MoveCpuIDs env g p ids h)) = allCpus h \<and>
      \<not> is_panic (snd (MoveCpuIDs env g p ids h))"
    by (cases rule: MoveCpuIDs_cases[OF assms, of h env g p]) (use MoveCpus_safe in auto)
qed

lemma MoveCpuIDs_Ok:
  assumes "lib_inv g h" and "usable p h" and "MoveCpuIDs env g p ids h = (h', Ok ())"
  shows "lib_inv g h'" and "allCpus h' = allCpus h" and "host_rest h' = host_rest h"
    and "set ids \<subseteq> set (allCpus h)" and "cpu_pool h' = (\<lambda>c. if c \<in> set ids then p else cpu_pool h c)"
proof -
  have "ManyByIDs (allCpus h) ids = Ok ids \<and> set ids \<subseteq> set (allCpus h) \<and> MoveCpus env g p ids h = (h', Ok ())"
    using assms(3) by (auto simp: MoveCpuIDs_def then_do_Ok_iff dest: ManyByIDs_Ok)
  then have ids: "set ids \<subseteq> set (allCpus h)" and m: "MoveCpus env g p ids h = (h', Ok ())" by simp_all
  show "set ids \<subseteq> set (allCpus h)" by (rule ids)
  show "lib_inv g h'" "allCpus h' = allCpus h" "host_rest h' = host_rest h"
    using MoveCpus_safe[OF assms(1) ids assms(2), of env] m by simp_all
  show "cpu_pool h' = (\<lambda>c. if c \<in> set ids then p else cpu_pool h c)"
    by (rule MoveCpus_Ok[OF assms(1) ids m])
qed

section \<open>Setting the CPUs of a pool\<close>

lemma overflow_usable [simp]: "\<not> isExclusive (overflow p)"
  by (cases p) simp_all

lemma run_plan_keeps:
  assumes "lib_inv g h" and "c \<in> set (allCpus h)" and "usable p h"
  shows "lib_inv g (fst (run_plan (\<lambda>c p. SetPool env g c (Some p)) cpu_pool (pool_plan p req) c h)) \<and>
    host_rest (fst (run_plan (\<lambda>c p. SetPool env g c (Some p)) cpu_pool (pool_plan p req) c h)) = host_rest h"
  using assms SetPool_keeps[OF assms(1,2), of p env] SetPool_keeps[OF assms(1,2), of "overflow p" env]
  by (auto simp: run_plan_def)

lemma SetCpus_safe:
  assumes "lib_inv g h" and "usable p h"
  shows "lib_inv g (fst (SetCpus env g p req h))" and "allCpus (fst (SetCpus env g p req h)) = allCpus h"
    and "host_rest (fst (SetCpus env g p req h)) = host_rest h"
    and "\<not> is_panic (snd (SetCpus env g p req h))"
proof -
  note l = pool_mover.loop_inv[OF lib_invD(1)[OF assms(1)] subset_refl, of env "pool_plan p req"]
  let ?I = "\<lambda>t. lib_inv g t \<and> allCpus t = allCpus h \<and> host_rest t = host_rest h"
  have "?I (fst (SetCpus env g p req h))" unfolding SetCpus_plan
  proof (rule foreach_inv[where I = ?I])
    fix c t assume c: "c \<in> set (allCpus h)" and t: "?I t"
    have "c \<in> set (allCpus t)" "usable p t" using assms(2) c t by (auto simp: host_rest_iff)
    with run_plan_keeps[of g t c p env req]
      pool_mover.step_inv(2)[of g t c env "pool_plan p req"] t
    show "?I (fst (run_plan (\<lambda>c p. SetPool env g c (Some p)) cpu_pool (pool_plan p req) c t))"
      by (auto dest: lib_invD(1))
  qed (use assms(1) in simp)
  then show "lib_inv g (fst (SetCpus env g p req h))" "allCpus (fst (SetCpus env g p req h)) = allCpus h"
    "host_rest (fst (SetCpus env g p req h)) = host_rest h" by simp_all
  show "\<not> is_panic (snd (SetCpus env g p req h))" unfolding SetCpus_plan by (rule l)
qed

lemma SetCpuIDs_cases:
  assumes "\<forall>i \<in> set ids. i < 2 ^ 63"
  obtains "set ids \<subseteq> set (allCpus h)" and "SetCpuIDs env g p ids h = SetCpus env g p ids h"
  | e where "SetCpuIDs env g p ids h = (h, Error e)"
  using ManyByIDs_small[OF assms, of "allCpus h"]
  by (cases "find (\<lambda>i. i \<notin> set (allCpus h)) ids")
     (auto simp: SetCpuIDs_def find_None subset_eq)

lemma SetCpuIDs_safe [safe_ops]:
  assumes "\<forall>i \<in> set ids. i < 2 ^ 63"
  shows "safe_on g (usable p) (SetCpuIDs env g p ids)"
proof (rule safe_onI)
  fix h assume "lib_inv g h" "usable p h"
  then show "lib_inv g (fst (SetCpuIDs env g p ids h)) \<and>
      allCpus (fst (SetCpuIDs env g p ids h)) = allCpus h \<and>
      \<not> is_panic (snd (SetCpuIDs env g p ids h))"
    by (cases rule: SetCpuIDs_cases[OF assms, of h env g p]) (use SetCpus_safe in auto)
qed

lemma SetCpuIDs_Ok:
  assumes "lib_inv g h" and "usable p h" and "SetCpuIDs env g p ids h = (h', Ok ())"
  shows "lib_inv g h'" and "allCpus h' = allCpus h" and "host_rest h' = host_rest h"
    and "set ids \<subseteq> set (allCpus h)"
    and "\<forall>c \<in> set (allCpus h). cpu_pool h' c =
       (if c \<in> set ids then p
        else if cpu_pool h c = p then (if p = SharedPool then ReservedPool else SharedPool)
        else cpu_pool h c)"
proof -
  have "set ids \<subseteq> set (allCpus h) \<and> SetCpus env g p ids h = (h', Ok ())"
    using assms(3) by (auto simp: SetCpuIDs_def then_do_Ok_iff dest: ManyByIDs_Ok)
  then have ids: "set ids \<subseteq> set (allCpus h)" and m: "SetCpus env g p ids h = (h', Ok ())" by simp_all
  show "set ids \<subseteq> set (allCpus h)" by (rule ids)
  show "lib_inv g h'" "allCpus h' = allCpus h" "host_rest h' = host_rest h"
    using SetCpus_safe[OF assms(1,2), of env ids] m by simp_all
  show "\<forall>c \<in> set (allCpus h). cpu_pool h' c =
       (if c \<in> set ids then p
        else if cpu_pool h c = p then (if p = SharedPool then ReservedPool else SharedPool)
        else cpu_pool h c)"
    using SetCpus_Ok[OF lib_invD(1)[OF assms(1)] m] by blast
qed

section \<open>Profiles\<close>

lemma consolidate_host: "\<exists>sy. fst (consolidate env g c h) = h\<lparr>hsys := sy\<rparr>"
  by (rule consolidate_cases[of env g c h]) blast

lemma consolidate_foreach_host: "\<exists>sy. fst (foreach (consolidate env g) cs h) = h\<lparr>hsys := sy\<rparr>"
proof -
  let ?I = "\<lambda>t. \<exists>sy. t = h\<lparr>hsys := sy\<rparr>"
  show ?thesis
  proof (rule foreach_inv[where I = ?I])
    show "?I h" by (rule exI[of _ "hsys h"]) simp
    fix c t assume "?I t"
    then show "?I (fst (consolidate env g c t))" using consolidate_host[of env g c t] by auto
  qed
qed

text \<open>Whatever it returns, \<open>SetPowerProfile\<close> changes the profile of the pool and files only.\<close>

lemma SetPowerProfile_host:
  assumes "p \<noteq> ReservedPool"
  shows "\<exists>sy. fst (SetPowerProfile env g p prof h) =
    h\<lparr>pools := (pools h)(p := (pools h p)\<lparr>p_profile := prof\<rparr>), hsys := sy\<rparr>"
  using assms consolidate_foreach_host[of env g "p_cpus (pools h p)"
      "h\<lparr>pools := (pools h)(p := (pools h p)\<lparr>p_profile := prof\<rparr>)\<rparr>"]
  by (simp add: SetPowerProfile_def)

lemma lib_inv_profile:
  assumes "lib_inv g h"
  shows "lib_inv g (h\<lparr>pools := (pools h)(p := (pools h p)\<lparr>p_profile := prof\<rparr>), hsys := sy\<rparr>)"
proof -
  let ?h = "h\<lparr>pools := (pools h)(p := (pools h p)\<lparr>p_profile := prof\<rparr>), hsys := sy\<rparr>"
  have "pool_name ?h = pool_name h" by (simp add: pool_name_def fun_eq_iff)
  then show ?thesis using assms
    by (auto simp: lib_inv_def listed_def host_inv_def pool_inv_def)
qed

lemma SetPowerProfile_cases:
  obtains "p = ReservedPool" and "fst (SetPowerProfile env g p prof h) = h"
  | sy where "p \<noteq> ReservedPool" and "fst (SetPowerProfile env g p prof h) =
      h\<lparr>pools := (pools h)(p := (pools h p)\<lparr>p_profile := prof\<rparr>), hsys := sy\<rparr>"
  using SetPowerProfile_host[of p env g prof h]
  by (cases "p = ReservedPool") (auto simp: SetPowerProfile_def)

lemma SetPowerProfile_frame:
  "cpu_pool (fst (SetPowerProfile env g p prof h)) = cpu_pool h"
  "exclusivePools (fst (SetPowerProfile env g p prof h)) = exclusivePools h"
  "pool_name (fst (SetPowerProfile env g p prof h)) = pool_name h"
  "nextPool (fst (SetPowerProfile env g p prof h)) = nextPool h"
  "allCpus (fst (SetPowerProfile env g p prof h)) = allCpus h"
  "pool_profile (fst (SetPowerProfile env g p prof h)) =
     (if p = ReservedPool then pool_profile h else (pool_profile h)(p := prof))"
  "p_cpus (pools (fst (SetPowerProfile env g p prof h)) q) = p_cpus (pools h q)"
  by (cases rule: SetPowerProfile_cases[of p env g prof h];
      simp add: pool_name_def[abs_def] pool_profile_def[abs_def] fun_eq_iff)+

lemma consolidate_no_panic: "lib_ok g c \<Longrightarrow> \<not> is_panic (snd (consolidate env g c h))"
  using consolidate_unsafe_no_panic by (simp add: consolidate_def on_sys_def split: prod.split) (metis snd_conv)

lemma SetPowerProfile_safe [safe_ops]: "safe g (SetPowerProfile env g p prof)"
proof (rule safe_onI)
  fix h assume h: "lib_inv g h"
  have "lib_inv g (fst (SetPowerProfile env g p prof h))"
  proof (cases "p = ReservedPool")
    case False
    then show ?thesis using SetPowerProfile_host[OF False, of env g prof h] lib_inv_profile[OF h] by auto
  qed (use h in \<open>simp add: SetPowerProfile_def\<close>)
  moreover have "\<not> is_panic (snd (SetPowerProfile env g p prof h))"
  proof (cases "p = ReservedPool")
    case False
    have "lib_ok g c" if "c \<in> set (p_cpus (pools h p))" for c
      using that lib_invD(1)[OF h] lib_invD(5)[OF h] by (auto simp: host_inv_def)
    then have "\<not> is_panic (snd (foreach (consolidate env g) (p_cpus (pools h p)) t))" for t
      by (intro foreach_panic[where I = "\<lambda>_. True"]) (auto simp: consolidate_no_panic)
    then show ?thesis using False by (simp add: SetPowerProfile_def)
  qed (simp add: SetPowerProfile_def)
  ultimately show "lib_inv g (fst (SetPowerProfile env g p prof h)) \<and>
      allCpus (fst (SetPowerProfile env g p prof h)) = allCpus h \<and>
      \<not> is_panic (snd (SetPowerProfile env g p prof h))" by (simp add: SetPowerProfile_frame)
qed

section \<open>The list of exclusive pools\<close>

lemma IndexOfName_neg: "0 \<le> i \<Longrightarrow> IndexOfName ps xs name i < 0 \<longleftrightarrow> (\<forall>p \<in> set xs. p_name (ps p) \<noteq> name)"
  by (induction ps xs name i rule: IndexOfName.induct) auto

lemma IndexOfName_pos:
  assumes "0 \<le> IndexOfName ps xs name i" and "0 \<le> i"
  shows "\<exists>k < length xs. IndexOfName ps xs name i = i + int k \<and> p_name (ps (xs ! k)) = name"
  using assms
proof (induction ps xs name i rule: IndexOfName.induct)
  case (2 ps p rest name i)
  show ?case
  proof (cases "p_name (ps p) = name")
    case False
    with 2 obtain k where "k < length rest" "IndexOfName ps rest name (i + 1) = i + 1 + int k"
      "p_name (ps (rest ! k)) = name" by auto
    with False show ?thesis by (intro exI[of _ "Suc k"]) simp
  qed auto
qed simp

lemma GetExclusivePool_Some:
  assumes "GetExclusivePool h name = Some p"
  shows "p \<in> set (exclusivePools h)" and "pool_name h p = name"
proof -
  have "0 \<le> IndexOfName (pools h) (exclusivePools h) name 0"
    and p: "p = exclusivePools h ! nat (IndexOfName (pools h) (exclusivePools h) name 0)"
    using assms by (auto simp: GetExclusivePool_def PoolList_ByName_def Let_def split: if_splits)
  then obtain k where "k < length (exclusivePools h)" "IndexOfName (pools h) (exclusivePools h) name 0 = int k"
    "p_name (pools h (exclusivePools h ! k)) = name"
    using IndexOfName_pos[of "pools h" "exclusivePools h" name 0] by auto
  with p show "p \<in> set (exclusivePools h)" "pool_name h p = name" by (simp_all add: pool_name_def)
qed

lemma GetExclusivePool_None:
  "GetExclusivePool h name = None \<longleftrightarrow> name \<notin> pool_name h ` set (exclusivePools h)"
  using IndexOfName_neg[of 0 "pools h" "exclusivePools h" name]
  by (auto simp: GetExclusivePool_def PoolList_ByName_def Let_def pool_name_def)

lemma GetExclusivePool_eq:
  assumes "lib_inv g h" and "p \<in> set (exclusivePools h)"
  shows "GetExclusivePool h (pool_name h p) = Some p"
proof -
  obtain q where q: "GetExclusivePool h (pool_name h p) = Some q"
    using assms(2) GetExclusivePool_None[of h "pool_name h p"] by auto
  have "inj_on (pool_name h) (set (exclusivePools h))"
    using assms(1) by (simp add: lib_inv_def listed_def distinct_map)
  then have "q = p" using GetExclusivePool_Some[OF q] assms(2) by (auto dest: inj_onD)
  then show ?thesis using q by simp
qed

lemma usable_GetExclusivePool: "GetExclusivePool h name = Some p \<Longrightarrow> usable p h"
  by (blast dest: GetExclusivePool_Some)

text \<open>A new pool is empty and its name was free.\<close>

lemma AddExclusivePool_new:
  assumes "lib_inv g h" and "AddExclusivePool name h = (h', p, None)"
  shows "lib_inv g h'" and "allCpus h' = allCpus h" and "cpu_pool h' = cpu_pool h"
    and "exclusivePools h' = exclusivePools h @ [p]" and "p \<notin> set (exclusivePools h)" and "isExclusive p"
    and "pool_name h' = (pool_name h)(p := name)" and "pool_profile h' = (pool_profile h)(p := None)"
    and "name \<notin> pool_name h ` set (exclusivePools h)"
    and "\<And>c. c \<in> set (allCpus h) \<Longrightarrow> cpu_pool h c \<noteq> p"
proof -
  have neg: "IndexOfName (pools h) (exclusivePools h) name 0 < 0" and p: "p = ExclusivePool (nextPool h)"
    and h': "h' = h\<lparr>pools := (pools h)(p := \<lparr>p_name = name, p_cpus = [], p_profile = None\<rparr>),
        exclusivePools := exclusivePools h @ [p], nextPool := Suc (nextPool h)\<rparr>"
    using assms(2) by (auto simp: AddExclusivePool_def Let_def split: if_splits)
  show "allCpus h' = allCpus h" "cpu_pool h' = cpu_pool h" "isExclusive p" by (simp_all add: h' p)
  show ex: "exclusivePools h' = exclusivePools h @ [p]" by (simp add: h')
  show names: "pool_name h' = (pool_name h)(p := name)" "pool_profile h' = (pool_profile h)(p := None)"
    by (simp_all add: h' fun_eq_iff pool_name_def pool_profile_def)
  show fresh: "p \<notin> set (exclusivePools h)" using lib_invD(7)[OF assms(1)] p by blast
  show free: "name \<notin> pool_name h ` set (exclusivePools h)"
    using neg IndexOfName_neg[of 0 "pools h" "exclusivePools h" name] by (auto simp: pool_name_def)
  show none: "cpu_pool h c \<noteq> p" if "c \<in> set (allCpus h)" for c
    using lib_invD(8)[OF assms(1) that] fresh p by auto
  have "p_cpus (pools h' q) = (if q = p then [] else p_cpus (pools h q))" for q by (simp add: h')
  then have "pool_inv h'" using assms(1) none by (auto simp: lib_inv_def host_inv_def pool_inv_def h')
  then have "host_inv g h'" using assms(1) by (auto simp: lib_inv_def host_inv_def h')
  moreover have "listed h'"
  proof -
    have "map (pool_name h') (exclusivePools h') = map (pool_name h) (exclusivePools h) @ [name]"
      using fresh by (simp add: names(1) ex)
    then have "distinct (map (pool_name h') (exclusivePools h'))"
      using assms(1) free by (simp add: lib_inv_def listed_def)
    moreover have "\<exists>n < nextPool h'. q = ExclusivePool n" if "q \<in> set (exclusivePools h')" for q
      using that assms(1) by (fastforce simp: lib_inv_def listed_def h' p less_Suc_eq)
    ultimately show ?thesis using assms(1) fresh by (auto simp: lib_inv_def listed_def h')
  qed
  ultimately show "lib_inv g h'" by (simp add: lib_inv_def)
qed

lemma AddExclusivePool_old:
  assumes "AddExclusivePool name h = (h', p, Some e)"
  shows "h' = h"
  using assms by (auto simp: AddExclusivePool_def Let_def split: if_splits)

lemma lib_inv_remove:
  assumes "lib_inv g h" and "swap_remove (exclusivePools h) p = Some ps"
    and "\<And>c. c \<in> set (allCpus h) \<Longrightarrow> cpu_pool h c \<noteq> p"
  shows "lib_inv g (h\<lparr>exclusivePools := ps\<rparr>)"
proof -
  let ?h = "h\<lparr>exclusivePools := ps\<rparr>"
  have n: "pool_name ?h = pool_name h" by (simp add: pool_name_def fun_eq_iff)
  have ps: "distinct ps" "set ps = set (exclusivePools h) - {p}"
    using swap_remove_distinct[OF assms(2) lib_invD(2)[OF assms(1)]] by simp_all
  have "inj_on (pool_name h) (set (exclusivePools h))"
    using assms(1) by (simp add: lib_inv_def listed_def distinct_map)
  then have "distinct (map (pool_name h) ps)" using ps by (auto simp: distinct_map inj_on_def)
  then have "listed ?h" using assms(1,3) ps unfolding lib_inv_def listed_def n by auto
  moreover have "host_inv g ?h" using assms(1) by (auto simp: lib_inv_def host_inv_def pool_inv_def)
  ultimately show ?thesis by (simp add: lib_inv_def)
qed

lemma Pool_Remove_cases:
  assumes "lib_inv g h" and "p \<in> set (exclusivePools h)"
  obtains h1 e where "Pool_Remove env g p h = (h1, Error e)" and "lib_inv g h1" and "allCpus h1 = allCpus h"
      and "host_rest h1 = host_rest h"
  | h1 ps where "Pool_Remove env g p h = (h1\<lparr>exclusivePools := ps\<rparr>, Ok ())"
      and "lib_inv g (h1\<lparr>exclusivePools := ps\<rparr>)" and "allCpus h1 = allCpus h" and "host_rest h1 = host_rest h"
      and "swap_remove (exclusivePools h) p = Some ps"
      and "\<forall>c \<in> set (allCpus h). cpu_pool h1 c = (if cpu_pool h c = p then SharedPool else cpu_pool h c)"
proof -
  obtain n where n: "p = ExclusivePool n" using lib_invD(4)[OF assms] by (cases p) simp_all
  have u: "usable p h" using assms(2) by simp
  note s = SetCpus_safe[OF assms(1) u, of env "[]"]
  obtain h1 r where r: "SetCpus env g p [] h = (h1, r)" by (cases "SetCpus env g p [] h")
  have rm: "Pool_Remove env g p h = then_do (h1, r) (\<lambda>_. PoolList_remove p)"
    by (simp add: Pool_Remove_def n Clear_def r[unfolded n])
  show ?thesis
  proof (cases r)
    case (Error e)
    then show ?thesis using that(1)[of h1 e] rm s r by simp
  next
    case (Ok x)
    then have ok: "SetCpus env g p [] h = (h1, Ok ())" using r by simp
    have w: "\<forall>c \<in> set (allCpus h). cpu_pool h1 c = (if cpu_pool h c = p then SharedPool else cpu_pool h c)"
      using SetCpus_Ok[OF lib_invD(1)[OF assms(1)] ok] n by simp
    have ex: "exclusivePools h1 = exclusivePools h" using s(3) r by (simp add: host_rest_iff)
    obtain ps where ps: "swap_remove (exclusivePools h) p = Some ps" using swap_remove_Some[OF assms(2)] by blast
    have "cpu_pool h1 c \<noteq> p" if "c \<in> set (allCpus h1)" for c
      using that w s(2) r n by auto
    then have "lib_inv g (h1\<lparr>exclusivePools := ps\<rparr>)" using lib_inv_remove[of g h1 p ps] s(1) r ex ps by simp
    then show ?thesis using that(2)[of ps h1] rm Ok s r ex ps w by (simp add: PoolList_remove_def)
  next
    case (Panic m)
    then show ?thesis using s(4) r by simp
  qed
qed

lemma Pool_Remove_unlisted:
  assumes "lib_inv g h" and "p \<notin> set (exclusivePools h)"
  shows "\<exists>e. Pool_Remove env g p h = (h, Error e)"
proof (cases p)
  case (ExclusivePool n)
  have "cpu_pool h c \<noteq> p" if "c \<in> set (allCpus h)" for c
    using lib_invD(8)[OF assms(1) that] assms(2) ExclusivePool by auto
  then have "SetCpus env g p [] h = (h, Ok ())"
    unfolding SetCpus_plan by (intro foreach_skip) (simp add: run_plan_def)
  then show ?thesis using assms(2) ExclusivePool
    by (simp add: Pool_Remove_def Clear_def PoolList_remove_def swap_remove_None[THEN iffD2])
qed (simp_all add: Pool_Remove_def)

lemma Pool_Remove_safe [safe_ops]: "safe g (Pool_Remove env g p)"
proof (rule safe_onI)
  fix h assume h: "lib_inv g h"
  show "lib_inv g (fst (Pool_Remove env g p h)) \<and> allCpus (fst (Pool_Remove env g p h)) = allCpus h \<and>
      \<not> is_panic (snd (Pool_Remove env g p h))"
  proof (cases "p \<in> set (exclusivePools h)")
    case True
    show ?thesis by (cases rule: Pool_Remove_cases[OF h True, of env]) auto
  next
    case False
    then show ?thesis using Pool_Remove_unlisted[OF h False, of env] h by auto
  qed
qed

lemma Pool_Remove_Ok:
  assumes "lib_inv g h" and "p \<in> set (exclusivePools h)" and "Pool_Remove env g p h = (h', Ok ())"
  shows "lib_inv g h'" and "allCpus h' = allCpus h" and "swap_remove (exclusivePools h) p = Some (exclusivePools h')"
    and "set (exclusivePools h') = set (exclusivePools h) - {p}"
    and "pool_name h' = pool_name h" and "pool_profile h' = pool_profile h"
    and "\<forall>c \<in> set (allCpus h). cpu_pool h' c = (if cpu_pool h c = p then SharedPool else cpu_pool h c)"
proof -
  obtain h1 ps where h': "h' = h1\<lparr>exclusivePools := ps\<rparr>" "lib_inv g (h1\<lparr>exclusivePools := ps\<rparr>)"
      "allCpus h1 = allCpus h" "host_rest h1 = host_rest h" "swap_remove (exclusivePools h) p = Some ps"
      "\<forall>c \<in> set (allCpus h). cpu_pool h1 c = (if cpu_pool h c = p then SharedPool else cpu_pool h c)"
    using assms(3) by (cases rule: Pool_Remove_cases[OF assms(1,2), of env]) auto
  have "pool_name h' = pool_name h1" "pool_profile h' = pool_profile h1"
    by (simp_all add: h' pool_name_def[abs_def] pool_profile_def[abs_def])
  then show "pool_name h' = pool_name h" "pool_profile h' = pool_profile h"
    using h'(4) by (simp_all add: host_rest_iff)
  show "lib_inv g h'" "allCpus h' = allCpus h" "swap_remove (exclusivePools h) p = Some (exclusivePools h')"
    "\<forall>c \<in> set (allCpus h). cpu_pool h' c = (if cpu_pool h c = p then SharedPool else cpu_pool h c)"
    using h' by simp_all
  show "set (exclusivePools h') = set (exclusivePools h) - {p}"
    using swap_remove_distinct[OF h'(5) lib_invD(2)[OF assms(1)]] h'(1) by simp
qed

end
