(* ===== verification/Locks.thy ===== *)
theory Locks
  imports Pool_Library
begin

text \<open>
  The locks of \<open>cpu.go\<close> and \<open>pool.go\<close>. The controllers of a node agent call the library from several
  goroutines. A goroutine inside \<open>SetPool\<close> or \<open>SetPowerProfile\<close> is at one of the control points of
  \<open>thread\<close>; its next action (\<open>next_action\<close>) takes or gives back a mutex or does the work between two
  of them on the host of theory \<open>Pools\<close>. \<open>conc_step\<close> interleaves any number of them.

  In every interleaving the mutexes protect the lists of CPUs (\<open>conc_inv\<close>). They are not always
  taken in the same order: \<open>lock_order\<close> is the contract under which no deadlock is possible, with
  two groups of calls that satisfy it, and a deadlock of calls that do not is reached below.
\<close>

section \<open>Threads\<close>

datatype mutex = CpuMutex nat | PoolMutex pool_ref

text \<open>
  The control points of \<open>SetPool\<close> (with \<open>doSetPool\<close>: CPU, source and target pool) and of
  \<open>SetPowerProfile\<close> (with \<open>consolidate\<close>: the pool, the CPU and those left in the loop).
\<close>

datatype thread =
    Idle
  | SetPool1 nat pool_ref
  | SetPool2 nat pool_ref
  | Move1 nat pool_ref
  | Move2 nat pool_ref pool_ref
  | Move3 nat pool_ref pool_ref
  | Move4 nat pool_ref pool_ref
  | Move5 nat pool_ref pool_ref "unit res"
  | Move6 nat pool_ref pool_ref "unit res"
  | Move7 nat pool_ref "unit res"
  | SetPool3 nat "unit res"
  | Profile1 pool_ref "profile option"
  | Profile2 pool_ref "profile option"
  | Profile3 pool_ref "nat list"
  | Profile4 pool_ref nat "nat list"
  | Profile5 pool_ref nat "nat list" "unit res"
  | Profile6 pool_ref "unit res"
  | Finished "unit res"

datatype action = Acquire mutex thread | Release mutex thread | Work host thread | Stop

text \<open>
  A move that \<open>SetPool\<close> refuses, or that has nothing to do, is decided while the mutex of the CPU is
  held. A panic runs the deferred calls, which give back the mutexes.
\<close>

fun next_action :: "env \<Rightarrow> pkgvars \<Rightarrow> host \<Rightarrow> thread \<Rightarrow> action" where
  "next_action env g h (SetPool1 c p) = Acquire (CpuMutex c) (SetPool2 c p)"
| "next_action env g h (SetPool2 c p) =
     (if cpu_pool h c \<noteq> p \<and> (p = SharedPool \<or> cpu_pool h c = SharedPool) then Work h (Move1 c p)
      else Work h (SetPool3 c (snd (SetPool env g c (Some p) h))))"
| "next_action env g h (Move1 c p) = Acquire (PoolMutex (cpu_pool h c)) (Move2 c (cpu_pool h c) p)"
| "next_action env g h (Move2 c s p) = Acquire (PoolMutex p) (Move3 c s p)"
| "next_action env g h (Move3 c s p) =
     (case CpuList_remove (p_cpus (pools h s)) c of
        Ok cs \<Rightarrow> Work (set_cpus s cs (set_pool c p h)) (Move4 c s p)
      | Error e \<Rightarrow> Work h (Move6 c s p (Error e))
      | Panic m \<Rightarrow> Work (set_pool c p h) (Move6 c s p (Panic m)))"
| "next_action env g h (Move4 c s p) = (case consolidate env g c h of (h', r) \<Rightarrow> Work h' (Move5 c s p r))"
| "next_action env g h (Move5 c s p r) =
     (case r of
        Ok _ \<Rightarrow> Work (set_cpus p (CpuList_add (p_cpus (pools h p)) c) h) (Move6 c s p (Ok ()))
      | Error e \<Rightarrow> Work (set_cpus s (CpuList_add (p_cpus (pools h s)) c) (set_pool c s h)) (Move6 c s p (Error e))
      | Panic m \<Rightarrow> Work h (Move6 c s p (Panic m)))"
| "next_action env g h (Move6 c s p r) = Release (PoolMutex s) (Move7 c p r)"
| "next_action env g h (Move7 c p r) = Release (PoolMutex p) (SetPool3 c r)"
| "next_action env g h (SetPool3 c r) = Release (CpuMutex c) (Finished r)"
| "next_action env g h (Profile1 p prof) =
     (if p = ReservedPool then Work h (Finished (Error (Errorf ''cannot set power profile for reserved pool'')))
      else Acquire (PoolMutex p) (Profile2 p prof))"
| "next_action env g h (Profile2 p prof) =
     Work (h\<lparr>pools := (pools h)(p := (pools h p)\<lparr>p_profile := prof\<rparr>)\<rparr>) (Profile3 p (p_cpus (pools h p)))"
| "next_action env g h (Profile3 p []) = Work h (Profile6 p (Ok ()))"
| "next_action env g h (Profile3 p (c # cs)) = Acquire (CpuMutex c) (Profile4 p c cs)"
| "next_action env g h (Profile4 p c cs) = (case consolidate env g c h of (h', r) \<Rightarrow> Work h' (Profile5 p c cs r))"
| "next_action env g h (Profile5 p c cs r) = Release (CpuMutex c) (if r = Ok () then Profile3 p cs else Profile6 p r)"
| "next_action env g h (Profile6 p r) = Release (PoolMutex p) (Finished r)"
| "next_action env g h Idle = Stop"
| "next_action env g h (Finished r) = Stop"

record conc =
  c_host :: host
  owner :: "mutex \<Rightarrow> nat option"
  thr :: "nat \<Rightarrow> thread"

fun at_rest :: "thread \<Rightarrow> bool" where
  "at_rest Idle = True" | "at_rest (Finished r) = True" | "at_rest _ = False"

text \<open>\<open>calls\<close> are the calls that the goroutines may start.\<close>

inductive conc_step :: "env \<Rightarrow> pkgvars \<Rightarrow> thread set \<Rightarrow> conc \<Rightarrow> conc \<Rightarrow> bool" for env g calls where
  call: "at_rest (thr s t) \<Longrightarrow> k \<in> calls \<Longrightarrow> conc_step env g calls s (s\<lparr>thr := (thr s)(t := k)\<rparr>)"
| acquire: "next_action env g (c_host s) (thr s t) = Acquire l k \<Longrightarrow> owner s l = None \<Longrightarrow>
     conc_step env g calls s (s\<lparr>owner := (owner s)(l \<mapsto> t), thr := (thr s)(t := k)\<rparr>)"
| release: "next_action env g (c_host s) (thr s t) = Release l k \<Longrightarrow>
     conc_step env g calls s (s\<lparr>owner := (owner s)(l := None), thr := (thr s)(t := k)\<rparr>)"
| work: "next_action env g (c_host s) (thr s t) = Work h k \<Longrightarrow>
     conc_step env g calls s (s\<lparr>c_host := h, thr := (thr s)(t := k)\<rparr>)"

definition initial :: "host \<Rightarrow> conc" where
  "initial h = \<lparr>c_host = h, owner = \<lambda>_. None, thr = \<lambda>_. Idle\<rparr>"

abbreviation conc_reach :: "env \<Rightarrow> pkgvars \<Rightarrow> thread set \<Rightarrow> host \<Rightarrow> conc \<Rightarrow> bool" where
  "conc_reach env g calls h \<equiv> (conc_step env g calls)\<^sup>*\<^sup>* (initial h)"

section \<open>The invariant\<close>

fun held :: "thread \<Rightarrow> mutex set" where
  "held (SetPool2 c p) = {CpuMutex c}"
| "held (Move1 c p) = {CpuMutex c}"
| "held (Move2 c s p) = {CpuMutex c, PoolMutex s}"
| "held (Move3 c s p) = {CpuMutex c, PoolMutex s, PoolMutex p}"
| "held (Move4 c s p) = {CpuMutex c, PoolMutex s, PoolMutex p}"
| "held (Move5 c s p r) = {CpuMutex c, PoolMutex s, PoolMutex p}"
| "held (Move6 c s p r) = {CpuMutex c, PoolMutex s, PoolMutex p}"
| "held (Move7 c p r) = {CpuMutex c, PoolMutex p}"
| "held (SetPool3 c r) = {CpuMutex c}"
| "held (Profile2 p prof) = {PoolMutex p}"
| "held (Profile3 p cs) = {PoolMutex p}"
| "held (Profile4 p c cs) = {PoolMutex p, CpuMutex c}"
| "held (Profile5 p c cs r) = {PoolMutex p, CpuMutex c}"
| "held (Profile6 p r) = {PoolMutex p}"
| "held _ = {}"

text \<open>The CPU that is in no list while it is on its way.\<close>

fun in_flight :: "thread \<Rightarrow> nat set" where
  "in_flight (Move4 c s p) = {c}"
| "in_flight (Move5 c s p r) = {c}"
| "in_flight _ = {}"

fun local_ok :: "host \<Rightarrow> thread \<Rightarrow> bool" where
  "local_ok h (SetPool1 c p) = (c \<in> set (allCpus h))"
| "local_ok h (SetPool2 c p) = (c \<in> set (allCpus h))"
| "local_ok h (Move1 c p) = (c \<in> set (allCpus h) \<and> cpu_pool h c \<noteq> p \<and> (p = SharedPool \<or> cpu_pool h c = SharedPool))"
| "local_ok h (Move2 c s p) = (c \<in> set (allCpus h) \<and> cpu_pool h c = s \<and> s \<noteq> p \<and> (p = SharedPool \<or> s = SharedPool))"
| "local_ok h (Move3 c s p) = (c \<in> set (allCpus h) \<and> cpu_pool h c = s \<and> s \<noteq> p)"
| "local_ok h (Move4 c s p) = (c \<in> set (allCpus h) \<and> cpu_pool h c = p \<and> s \<noteq> p)"
| "local_ok h (Move5 c s p r) = (c \<in> set (allCpus h) \<and> cpu_pool h c = p \<and> s \<noteq> p \<and> \<not> is_panic r)"
| "local_ok h (Move6 c s p r) = (s \<noteq> p \<and> \<not> is_panic r)"
| "local_ok h (Move7 c p r) = (\<not> is_panic r)"
| "local_ok h (SetPool3 c r) = (\<not> is_panic r)"
| "local_ok h (Profile3 p cs) = (set cs \<subseteq> set (p_cpus (pools h p)))"
| "local_ok h (Profile4 p c cs) = (set (c # cs) \<subseteq> set (p_cpus (pools h p)))"
| "local_ok h (Profile5 p c cs r) = (set (c # cs) \<subseteq> set (p_cpus (pools h p)) \<and> \<not> is_panic r)"
| "local_ok h (Profile6 p r) = (\<not> is_panic r)"
| "local_ok h (Finished r) = (\<not> is_panic r)"
| "local_ok h _ = True"

text \<open>The lists of the pools have every CPU but those in \<open>F\<close>, in the pool it names.\<close>

definition lists_ok :: "pkgvars \<Rightarrow> nat set \<Rightarrow> host \<Rightarrow> bool" where
  "lists_ok g F h =
     (distinct (allCpus h) \<and> (\<forall>c \<in> set (allCpus h). lib_ok g c) \<and>
      (\<forall>q. distinct (p_cpus (pools h q)) \<and> set (p_cpus (pools h q)) = {c \<in> set (allCpus h). cpu_pool h c = q} - F))"

lemma lists_ok_host_inv: "lists_ok g {} h \<longleftrightarrow> host_inv g h"
  by (auto simp: lists_ok_def host_inv_def pool_inv_def)

definition conc_inv :: "pkgvars \<Rightarrow> conc \<Rightarrow> bool" where
  "conc_inv g s =
     ((\<forall>l t. owner s l = Some t \<longleftrightarrow> l \<in> held (thr s t)) \<and>
      (\<forall>t. local_ok (c_host s) (thr s t)) \<and>
      lists_ok g (\<Union>t. in_flight (thr s t)) (c_host s))"

text \<open>What a thread relies on is protected by the mutexes it holds.\<close>

lemma local_ok_frame:
  assumes "local_ok h k" and "allCpus h' = allCpus h"
    and "\<And>c. CpuMutex c \<in> held k \<Longrightarrow> cpu_pool h' c = cpu_pool h c"
    and "\<And>q. PoolMutex q \<in> held k \<Longrightarrow> p_cpus (pools h' q) = p_cpus (pools h q)"
  shows "local_ok h' k"
  using assms by (cases k) auto

lemma in_flight_held: "c \<in> in_flight k \<Longrightarrow> CpuMutex c \<in> held k"
  by (cases k) auto

lemma acquire_ok:
  assumes "next_action env g h k = Acquire l k'" and "local_ok h k"
  shows "held k' = insert l (held k)" and "in_flight k' = in_flight k" and "local_ok h k'"
  using assms by (cases k rule: next_action.cases[of "(env, g, h, k)" for k]; auto split: res.splits prod.splits if_splits)+

lemma release_ok:
  assumes "next_action env g h k = Release l k'" and "local_ok h k"
  shows "l \<in> held k" and "held k' = held k - {l}" and "in_flight k' = in_flight k" and "local_ok h k'"
  using assms by (cases k rule: next_action.cases[of "(env, g, h, k)" for k]; auto split: res.splits prod.splits if_splits)+

text \<open>Work changes only what the mutexes of the thread protect.\<close>

definition protected_change :: "mutex set \<Rightarrow> host \<Rightarrow> host \<Rightarrow> bool" where
  "protected_change H h h' =
     (allCpus h' = allCpus h \<and> (\<forall>c. CpuMutex c \<notin> H \<longrightarrow> cpu_pool h' c = cpu_pool h c) \<and>
      (\<forall>q. PoolMutex q \<notin> H \<longrightarrow> pools h' q = pools h q))"

definition worked :: "pkgvars \<Rightarrow> nat set \<Rightarrow> host \<Rightarrow> thread \<Rightarrow> host \<Rightarrow> thread \<Rightarrow> bool" where
  "worked g F h k h' k' =
     (held k' = held k \<and> protected_change (held k) h h' \<and> local_ok h' k' \<and> lists_ok g (in_flight k' \<union> F) h')"

lemma consolidate_work:
  assumes "consolidate env g c h = (h', r)" and "lib_ok g c"
  obtains sy where "h' = h\<lparr>hsys := sy\<rparr>" and "\<not> is_panic r"
  using consolidate_host[of env g c h] consolidate_no_panic[OF assms(2), of env h] assms(1) that by auto

lemma lists_ok_hsys [simp]: "lists_ok g F (h\<lparr>hsys := sy\<rparr>) = lists_ok g F h"
  by (simp add: lists_ok_def)

lemma lists_ok_profile [simp]:
  "lists_ok g F (h\<lparr>pools := (pools h)(p := (pools h p)\<lparr>p_profile := prof\<rparr>)\<rparr>) = lists_ok g F h"
proof -
  have "p_cpus (((pools h)(p := (pools h p)\<lparr>p_profile := prof\<rparr>)) q) = p_cpus (pools h q)" for q by simp
  then show ?thesis unfolding lists_ok_def by (simp del: fun_upd_apply)
qed

lemma local_ok_hsys [simp]: "local_ok (h\<lparr>hsys := sy\<rparr>) k = local_ok h k"
  by (cases k) auto

lemma protected_simps [simp]: "protected_change H h h" "protected_change H h (h\<lparr>hsys := sy\<rparr>)"
  by (simp_all add: protected_change_def)

lemma work_ok_take_out:
  assumes "next_action env g h (Move3 c s p) = Work h' k'" and "local_ok h (Move3 c s p)" and "lists_ok g F h" and "c \<notin> F"
  shows "worked g F h (Move3 c s p) h' k'"
proof -
  have in_list: "c \<in> set (p_cpus (pools h s))" "distinct (p_cpus (pools h s))" using assms by (auto simp: lists_ok_def)
  then obtain cs where cs: "swap_remove (p_cpus (pools h s)) c = Some cs"
    using swap_remove_None[of "p_cpus (pools h s)" c] by (cases "swap_remove (p_cpus (pools h s)) c") auto
  then have k: "k' = Move4 c s p" "h' = set_cpus s cs (set_pool c p h)" using assms(1) by (simp_all add: CpuList_remove_def)
  have d: "distinct cs" "set cs = set (p_cpus (pools h s)) - {c}" using swap_remove_distinct[OF cs in_list(2)] by auto
  have "lists_ok g ({c} \<union> F) h'" using assms(2-4) d unfolding k by (auto simp: lists_ok_def)
  then show ?thesis using assms(2) unfolding worked_def k
    by (simp add: protected_change_def set_cpus_def)
qed

lemma work_ok_put_in:
  assumes "next_action env g h (Move5 c s p r) = Work h' k'" and "local_ok h (Move5 c s p r)"
    and "lists_ok g (insert c F) h" and "c \<notin> F"
  shows "worked g F h (Move5 c s p r) h' k'"
proof -
  have l: "c \<notin> set (p_cpus (pools h q))" for q using assms(3) by (auto simp: lists_ok_def)
  show ?thesis
  proof (cases r)
    case (Ok x)
    then have k: "k' = Move6 c s p (Ok ())" "h' = set_cpus p (CpuList_add (p_cpus (pools h p)) c) h" using assms(1) by simp_all
    have "lists_ok g F h'" using assms(2-4) l unfolding k by (auto simp: lists_ok_def CpuList_add_def)
    then show ?thesis using assms(2) unfolding worked_def k by (simp add: protected_change_def set_cpus_def)
  next
    case (Error e)
    then have k: "k' = Move6 c s p (Error e)" "h' = set_cpus s (CpuList_add (p_cpus (pools h s)) c) (set_pool c s h)"
      using assms(1) by simp_all
    have "lists_ok g F h'" using assms(2-4) l unfolding k by (auto simp: lists_ok_def CpuList_add_def)
    then show ?thesis using assms(2) unfolding worked_def k by (simp add: protected_change_def set_cpus_def)
  qed (use assms(2) in simp)
qed

lemma SetPool_refuses:
  assumes "\<not> (cpu_pool h c \<noteq> p \<and> (p = SharedPool \<or> cpu_pool h c = SharedPool))"
  shows "\<not> is_panic (snd (SetPool env g c (Some p) h))" and "fst (SetPool env g c (Some p) h) = h"
  using assms by (auto simp: SetPool_legal legal_def)

lemma work_ok:
  assumes "next_action env g h k = Work h' k'" and "local_ok h k" and "lists_ok g (in_flight k \<union> F) h"
    and "\<And>c. CpuMutex c \<in> held k \<Longrightarrow> c \<notin> F"
  shows "worked g F h k h' k'"
proof (cases k)
  case (SetPool2 c p)
  then show ?thesis using assms SetPool_refuses(1)[of h c p env g] by (auto simp: worked_def split: if_splits)
next
  case (Move3 c s p)
  then have "lists_ok g F h" "c \<notin> F" using assms(3,4) by simp_all
  with work_ok_take_out assms(1,2) show ?thesis unfolding Move3 by blast
next
  case (Move4 c s p)
  obtain h1 r where r: "consolidate env g c h = (h1, r)" by (cases "consolidate env g c h")
  have "lib_ok g c" using assms(2,3) Move4 by (auto simp: lists_ok_def)
  then obtain sy where sy: "h1 = h\<lparr>hsys := sy\<rparr>" "\<not> is_panic r" using consolidate_work[OF r] by blast
  have "h' = h1" "k' = Move5 c s p r" using assms(1) r Move4 by simp_all
  then show ?thesis using assms(2,3) Move4 sy by (simp add: worked_def)
next
  case (Move5 c s p r)
  then have "lists_ok g (insert c F) h" "c \<notin> F" using assms(3,4) by simp_all
  with work_ok_put_in assms(1,2) show ?thesis unfolding Move5 by blast
next
  case (Profile2 p prof)
  then show ?thesis using assms by (auto simp: worked_def protected_change_def)
next
  case (Profile3 p cs)
  then show ?thesis using assms by (cases cs) (auto simp: worked_def)
next
  case (Profile4 p c cs)
  obtain h1 r where r: "consolidate env g c h = (h1, r)" by (cases "consolidate env g c h")
  have "lib_ok g c" using assms(2,3) Profile4 by (auto simp: lists_ok_def)
  then obtain sy where sy: "h1 = h\<lparr>hsys := sy\<rparr>" "\<not> is_panic r" using consolidate_work[OF r] by blast
  have "h' = h1" "k' = Profile5 p c cs r" using assms(1) r Profile4 by simp_all
  then show ?thesis using assms(2,3) Profile4 sy by (simp add: worked_def)
qed (use assms in \<open>auto simp: worked_def split: if_splits\<close>)

section \<open>Every interleaving keeps the invariant\<close>

text \<open>The calls of the library on CPUs and pools that exist.\<close>

definition library_calls :: "host \<Rightarrow> thread set" where
  "library_calls h = {SetPool1 c p | c p. c \<in> set (allCpus h)} \<union> {Profile1 p prof | p prof. True}"

lemma library_calls_ok: "k \<in> library_calls h \<Longrightarrow> held k = {} \<and> in_flight k = {} \<and> local_ok h k"
  by (auto simp: library_calls_def)

lemma at_rest_empty: "at_rest k \<Longrightarrow> held k = {} \<and> in_flight k = {}"
  by (cases k) simp_all

lemma conc_invD:
  assumes "conc_inv g s"
  shows "\<And>l t. owner s l = Some t \<longleftrightarrow> l \<in> held (thr s t)" and "\<And>t. local_ok (c_host s) (thr s t)"
    and "lists_ok g (\<Union>t. in_flight (thr s t)) (c_host s)"
  using assms by (auto simp: conc_inv_def)

lemma conc_inv_exclusive: "conc_inv g s \<Longrightarrow> l \<in> held (thr s t) \<Longrightarrow> l \<in> held (thr s t') \<Longrightarrow> t = t'"
  using conc_invD(1) by (metis option.inject)

lemma flight_upd: "(\<Union>u. in_flight ((f(t := k)) u)) = in_flight k \<union> (\<Union>u \<in> - {t}. in_flight (f u))"
  by (auto split: if_splits)

lemma flight_split: "(\<Union>u. in_flight (f u)) = in_flight (f t) \<union> (\<Union>u \<in> - {t}. in_flight (f u))"
  by auto

lemma conc_worked:
  assumes i: "conc_inv g s" and n: "next_action env g (c_host s) (thr s t) = Work h k"
  shows "worked g (\<Union>u \<in> - {t}. in_flight (thr s u)) (c_host s) (thr s t) h k"
proof -
  let ?F = "\<Union>u \<in> - {t}. in_flight (thr s u)"
  have "c \<notin> ?F" if "CpuMutex c \<in> held (thr s t)" for c
    using that conc_inv_exclusive[OF i] in_flight_held by blast
  then show ?thesis
    using work_ok[OF n conc_invD(2)[OF i]] conc_invD(3)[OF i] flight_split[of "thr s" t] by simp
qed

lemma conc_step_work:
  assumes i: "conc_inv g s" and n: "next_action env g (c_host s) (thr s t) = Work h k"
  shows "conc_inv g (s\<lparr>c_host := h, thr := (thr s)(t := k)\<rparr>)" and "allCpus h = allCpus (c_host s)"
proof -
  note w = conc_worked[OF i n]
  then show a: "allCpus h = allCpus (c_host s)" by (simp add: worked_def protected_change_def)
  have "local_ok h (thr s u)" if "u \<noteq> t" for u
  proof (rule local_ok_frame[OF conc_invD(2)[OF i] a])
    have "l \<notin> held (thr s t)" if "l \<in> held (thr s u)" for l
      using conc_inv_exclusive[OF i that] \<open>u \<noteq> t\<close> by blast
    then show "CpuMutex c \<in> held (thr s u) \<Longrightarrow> cpu_pool h c = cpu_pool (c_host s) c"
      "PoolMutex q \<in> held (thr s u) \<Longrightarrow> p_cpus (pools h q) = p_cpus (pools (c_host s) q)" for c q
      using w by (simp_all add: worked_def protected_change_def)
  qed
  then show "conc_inv g (s\<lparr>c_host := h, thr := (thr s)(t := k)\<rparr>)"
    using w conc_invD(1)[OF i] unfolding conc_inv_def by (simp add: worked_def flight_upd del: fun_upd_apply) simp
qed

lemma conc_step_inv:
  assumes "conc_step env g calls s s'" and i: "conc_inv g s" and calls: "calls \<subseteq> library_calls (c_host s)"
  shows "conc_inv g s' \<and> allCpus (c_host s') = allCpus (c_host s)"
  using assms(1)
proof cases
  case (call t k)
  then have k: "held k = {} \<and> in_flight k = {} \<and> local_ok (c_host s) k" using calls library_calls_ok by blast
  moreover have "(\<Union>u. in_flight (((thr s)(t := k)) u)) = (\<Union>u. in_flight (thr s u))"
    using k at_rest_empty[OF call(2)] flight_split[of "thr s" t] unfolding flight_upd by simp
  ultimately show ?thesis using conc_invD[OF i] at_rest_empty[OF call(2)] call(1) unfolding conc_inv_def by auto
next
  case (acquire t l k)
  note a = acquire_ok[OF acquire(2) conc_invD(2)[OF i]]
  have "(\<Union>u. in_flight (((thr s)(t := k)) u)) = (\<Union>u. in_flight (thr s u))"
    using a(2) flight_split[of "thr s" t] unfolding flight_upd by simp
  moreover have "l \<notin> held (thr s u)" for u using conc_invD(1)[OF i, of l u] acquire(3) by simp
  ultimately show ?thesis using conc_invD[OF i] a(1,3) acquire(1) unfolding conc_inv_def by auto
next
  case (release t l k)
  note a = release_ok[OF release(2) conc_invD(2)[OF i]]
  have "(\<Union>u. in_flight (((thr s)(t := k)) u)) = (\<Union>u. in_flight (thr s u))"
    using a(3) flight_split[of "thr s" t] unfolding flight_upd by simp
  moreover have "l \<notin> held (thr s u)" if "u \<noteq> t" for u using conc_inv_exclusive[OF i a(1)] that by blast
  ultimately show ?thesis using conc_invD[OF i] a(2,4) release(1) unfolding conc_inv_def by auto
next
  case (work t h k)
  then show ?thesis using conc_step_work[OF i work(2)] by simp
qed

lemma conc_reach_inv:
  assumes "conc_reach env g calls h s" and "host_inv g h" and "calls \<subseteq> library_calls h"
  shows "conc_inv g s \<and> allCpus (c_host s) = allCpus h"
  using assms(1)
proof (induction rule: rtranclp_induct)
  case base
  then show ?case using assms(2) by (simp add: conc_inv_def initial_def lists_ok_host_inv)
next
  case (step s s')
  then have "calls \<subseteq> library_calls (c_host s)" using assms(3) by (simp add: library_calls_def)
  then show ?case using conc_step_inv[OF step.hyps(2)] step.IH by simp
qed

section \<open>Deadlocks\<close>

definition blocked_by :: "env \<Rightarrow> pkgvars \<Rightarrow> conc \<Rightarrow> nat \<Rightarrow> nat \<Rightarrow> bool" where
  "blocked_by env g s t u = (\<exists>l k. next_action env g (c_host s) (thr s t) = Acquire l k \<and> owner s l = Some u)"

text \<open>Every thread of the group waits for a mutex that a thread of the group holds.\<close>

definition deadlocked :: "env \<Rightarrow> pkgvars \<Rightarrow> conc \<Rightarrow> nat set \<Rightarrow> bool" where
  "deadlocked env g s T = (T \<noteq> {} \<and> (\<forall>t \<in> T. \<exists>u \<in> T. blocked_by env g s t u))"

fun can_move :: "env \<Rightarrow> pkgvars \<Rightarrow> conc \<Rightarrow> nat \<Rightarrow> bool" where
  "can_move env g s t =
     (case next_action env g (c_host s) (thr s t) of
        Acquire l k \<Rightarrow> owner s l = None | Release l k \<Rightarrow> True | Work h k \<Rightarrow> True | Stop \<Rightarrow> False)"

lemma at_rest_Stop: "next_action env g h k = Stop \<longleftrightarrow> at_rest k"
  by (cases k rule: next_action.cases[of "(env, g, h, k)" for k]) (auto split: res.splits prod.splits)

lemma held_active: "l \<in> held k \<Longrightarrow> \<not> at_rest k"
  using at_rest_empty by blast

text \<open>Without a deadlock of the threads inside a call one of them can go on.\<close>

lemma not_deadlocked_moves:
  assumes "conc_inv g s" and "\<not> at_rest (thr s t)" and "\<not> deadlocked env g s {t. \<not> at_rest (thr s t)}"
  shows "\<exists>t. can_move env g s t"
proof -
  obtain u where u: "\<not> at_rest (thr s u)" "\<And>v. \<not> at_rest (thr s v) \<Longrightarrow> \<not> blocked_by env g s u v"
    using assms(2,3) by (auto simp: deadlocked_def)
  have "can_move env g s u"
  proof (cases "next_action env g (c_host s) (thr s u)")
    case (Acquire l k)
    have "owner s l \<noteq> Some v" for v
    proof
      assume "owner s l = Some v"
      moreover from this have "\<not> at_rest (thr s v)" using conc_invD(1)[OF assms(1)] held_active by blast
      ultimately show False using u(2)[of v] Acquire by (auto simp: blocked_by_def)
    qed
    then have "owner s l = None" by (metis not_Some_eq)
    then show ?thesis using Acquire by simp
  qed (use u(1) at_rest_Stop[of env g "c_host s" "thr s u"] in auto)
  then show ?thesis by blast
qed

text \<open>The contract: a thread waits only for mutexes above all those it holds.\<close>

locale lock_order =
  fixes env :: env and g :: pkgvars and h :: host and calls :: "thread set" and rank :: "mutex \<Rightarrow> nat"
  assumes calls: "calls \<subseteq> library_calls h"
    and ordered: "host_inv g h \<Longrightarrow> conc_reach env g calls h s \<Longrightarrow> next_action env g (c_host s) (thr s t) = Acquire l k \<Longrightarrow>
      m \<in> held (thr s t) \<Longrightarrow> rank m < rank l"
begin

lemma inv: "host_inv g h \<Longrightarrow> conc_reach env g calls h s \<Longrightarrow> conc_inv g s"
  using conc_reach_inv calls by blast

definition wanted_rank :: "conc \<Rightarrow> nat \<Rightarrow> nat" where
  "wanted_rank s t = (case next_action env g (c_host s) (thr s t) of Acquire l k \<Rightarrow> rank l | _ \<Rightarrow> 0)"

lemma blocked_rank:
  assumes "host_inv g h" and "conc_reach env g calls h s" and "blocked_by env g s t u" and "blocked_by env g s u v"
  shows "wanted_rank s t < wanted_rank s u"
proof -
  obtain l k where l: "next_action env g (c_host s) (thr s t) = Acquire l k" "owner s l = Some u"
    using assms(3) by (auto simp: blocked_by_def)
  obtain m k' where m: "next_action env g (c_host s) (thr s u) = Acquire m k'" using assms(4) by (auto simp: blocked_by_def)
  have "l \<in> held (thr s u)" using l(2) conc_invD(1)[OF inv[OF assms(1,2)]] by blast
  from ordered[OF assms(1,2) m this] show ?thesis using l m by (simp add: wanted_rank_def)
qed

lemma no_deadlock:
  assumes "host_inv g h" and "conc_reach env g calls h s" and "finite T"
  shows "\<not> deadlocked env g s T"
proof
  assume d: "deadlocked env g s T"
  then have "T \<noteq> {}" by (simp add: deadlocked_def)
  then have "Max (wanted_rank s ` T) \<in> wanted_rank s ` T" using assms(3) by (intro Max_in) simp_all
  then obtain t where t: "t \<in> T" "wanted_rank s t = Max (wanted_rank s ` T)" by auto
  obtain u where u: "u \<in> T" "blocked_by env g s t u" using d t(1) by (auto simp: deadlocked_def)
  obtain v where "blocked_by env g s u v" using d u(1) by (auto simp: deadlocked_def)
  then have "wanted_rank s t < wanted_rank s u" by (rule blocked_rank[OF assms(1,2) u(2)])
  moreover have "wanted_rank s u \<le> wanted_rank s t" unfolding t(2) using assms(3) u(1) by simp
  ultimately show False by simp
qed

lemma progress:
  assumes "host_inv g h" and "conc_reach env g calls h s" and "finite {t. \<not> at_rest (thr s t)}" and "\<not> at_rest (thr s t)"
  shows "\<exists>t. can_move env g s t"
  by (rule not_deadlocked_moves[OF inv[OF assms(1,2)] assms(4) no_deadlock[OF assms(1-3)]])

end

text \<open>A property of control points that every action keeps.\<close>

primrec continuation :: "action \<Rightarrow> thread option" where
  "continuation (Acquire l k) = Some k" | "continuation (Release l k) = Some k"
| "continuation (Work h k) = Some k" | "continuation Stop = None"

lemma conc_reach_threads:
  assumes "conc_reach env g calls h s" and "Q Idle" and "\<And>k. k \<in> calls \<Longrightarrow> Q k"
    and n: "\<And>h k k'. Q k \<Longrightarrow> continuation (next_action env g h k) = Some k' \<Longrightarrow> Q k'"
  shows "Q (thr s t)"
  using assms(1)
proof (induction arbitrary: t rule: rtranclp_induct)
  case base
  then show ?case using assms(2) by (simp add: initial_def)
next
  case (step s s')
  from step.hyps(2) step.IH show ?case
  proof cases
    case (call u k) then show ?thesis using assms(3) step.IH by simp
  next
    case (acquire u l k) then show ?thesis using n[OF step.IH[of u], of "c_host s" k] step.IH by simp
  next
    case (release u l k) then show ?thesis using n[OF step.IH[of u], of "c_host s" k] step.IH by simp
  next
    case (work u h k) then show ?thesis using n[OF step.IH[of u], of "c_host s" k] step.IH by simp
  qed
qed

fun only_moves :: "(pool_ref \<Rightarrow> bool) \<Rightarrow> thread \<Rightarrow> bool" where
  "only_moves P (SetPool1 c p) = P p"
| "only_moves P (SetPool2 c p) = P p"
| "only_moves P (Move1 c p) = P p"
| "only_moves P (Move2 c s p) = P p"
| "only_moves P (Profile1 p prof) = False"
| "only_moves P (Profile2 p prof) = False"
| "only_moves P (Profile3 p cs) = False"
| "only_moves P (Profile4 p c cs) = False"
| "only_moves P (Profile5 p c cs r) = False"
| "only_moves P (Profile6 p r) = False"
| "only_moves P _ = True"

fun only_profiles :: "thread \<Rightarrow> bool" where
  "only_profiles (Profile1 p prof) = True"
| "only_profiles (Profile2 p prof) = True"
| "only_profiles (Profile3 p cs) = True"
| "only_profiles (Profile4 p c cs) = True"
| "only_profiles (Profile5 p c cs r) = True"
| "only_profiles (Profile6 p r) = True"
| "only_profiles Idle = True"
| "only_profiles (Finished r) = True"
| "only_profiles _ = False"

definition moves_to :: "(pool_ref \<Rightarrow> bool) \<Rightarrow> host \<Rightarrow> thread set" where
  "moves_to P h = {SetPool1 c p | c p. c \<in> set (allCpus h) \<and> P p}"

definition profile_updates :: "thread set" where
  "profile_updates = {Profile1 p prof | p prof. True}"

lemma moves_to_threads: "conc_reach env g (moves_to P h) h s \<Longrightarrow> only_moves P (thr s t)"
proof (rule conc_reach_threads[where Q = "only_moves P"])
  fix h k k' assume "only_moves P k" "continuation (next_action env g h k) = Some k'"
  then show "only_moves P k'"
    by (cases k rule: next_action.cases[of "(env, g, h, k)" for k]) (auto split: res.splits prod.splits if_splits)
qed (auto simp: moves_to_def)

lemma profile_updates_threads: "conc_reach env g profile_updates h s \<Longrightarrow> only_profiles (thr s t)"
proof (rule conc_reach_threads[where Q = only_profiles])
  fix h k k' assume "only_profiles k" "continuation (next_action env g h k) = Some k'"
  then show "only_profiles k'"
    by (cases k rule: next_action.cases[of "(env, g, h, k)" for k]) (auto split: res.splits prod.splits if_splits)
qed (auto simp: profile_updates_def)

lemma calls_of_library: "moves_to P h \<subseteq> library_calls h" "profile_updates \<subseteq> library_calls h"
  by (auto simp: moves_to_def profile_updates_def library_calls_def)

text \<open>
  Moves into the shared pool lock the CPU, then its pool, then the shared pool; moves out of it the
  CPU, then the shared pool, then the target; profile updates a pool, then its CPUs one by one.
\<close>

fun inward_rank :: "mutex \<Rightarrow> nat" where
  "inward_rank (CpuMutex c) = 0" | "inward_rank (PoolMutex p) = (if p = SharedPool then 2 else 1)"

fun outward_rank :: "mutex \<Rightarrow> nat" where
  "outward_rank (CpuMutex c) = 0" | "outward_rank (PoolMutex p) = (if p = SharedPool then 1 else 2)"

fun profile_rank :: "mutex \<Rightarrow> nat" where
  "profile_rank (PoolMutex p) = 0" | "profile_rank (CpuMutex c) = 1"

lemma waiting_cases:
  assumes "next_action env g h k = Acquire l k'"
  obtains c p where "k = SetPool1 c p" | c p where "k = Move1 c p" "l = PoolMutex (cpu_pool h c)"
  | c s p where "k = Move2 c s p" "l = PoolMutex p" | p prof where "k = Profile1 p prof"
  | p c cs where "k = Profile3 p (c # cs)" "l = CpuMutex c"
  using assms by (cases k rule: next_action.cases[of "(env, g, h, k)" for k]) (auto split: res.splits prod.splits if_splits)

interpretation inward: lock_order env g h "moves_to (\<lambda>p. p = SharedPool) h" inward_rank for env g h
proof (unfold_locales, goal_cases)
  case (2 s t l k m)
  have o: "only_moves (\<lambda>p. p = SharedPool) (thr s t)" by (rule moves_to_threads[OF 2(2)])
  have "local_ok (c_host s) (thr s t)" using conc_reach_inv[OF 2(2,1) calls_of_library(1)] conc_invD(2) by blast
  with o 2(4) show ?case by (cases rule: waiting_cases[OF 2(3)]) auto
qed (auto simp: calls_of_library)

interpretation outward: lock_order env g h "moves_to (\<lambda>p. p \<noteq> SharedPool) h" outward_rank for env g h
proof (unfold_locales, goal_cases)
  case (2 s t l k m)
  have o: "only_moves (\<lambda>p. p \<noteq> SharedPool) (thr s t)" by (rule moves_to_threads[OF 2(2)])
  have "local_ok (c_host s) (thr s t)" using conc_reach_inv[OF 2(2,1) calls_of_library(1)] conc_invD(2) by blast
  with o 2(4) show ?case by (cases rule: waiting_cases[OF 2(3)]) auto
qed (auto simp: calls_of_library)

interpretation updates: lock_order env g h profile_updates profile_rank for env g h
proof (unfold_locales, goal_cases)
  case (2 s t l k m)
  have "only_profiles (thr s t)" by (rule profile_updates_threads[OF 2(2)])
  with 2(4) show ?case by (cases rule: waiting_cases[OF 2(3)]) auto
qed (auto simp: calls_of_library)

text \<open>A deadlock lasts: whatever the other threads do, its threads keep waiting.\<close>

lemma waiting_stable:
  assumes "next_action env g h k = Acquire l k'" and "\<And>c. CpuMutex c \<in> held k \<Longrightarrow> cpu_pool h' c = cpu_pool h c"
  shows "\<exists>k''. next_action env g h' k = Acquire l k''"
  using assms by (cases rule: waiting_cases[OF assms(1)]) (auto split: if_splits)

lemma deadlock_stays:
  assumes i: "conc_inv g s" and st: "conc_step env g calls s s'" and d: "deadlocked env g s T"
  shows "deadlocked env g s' T"
proof -
  have "\<exists>u \<in> T. blocked_by env g s' t u" if t: "t \<in> T" for t
  proof -
    obtain u where u: "u \<in> T" "blocked_by env g s t u" using d t by (auto simp: deadlocked_def)
    then obtain l k where l: "next_action env g (c_host s) (thr s t) = Acquire l k" "owner s l = Some u"
      by (auto simp: blocked_by_def)
    have w: "\<exists>l k v. next_action env g (c_host s) (thr s x) = Acquire l k \<and> owner s l = Some v" if "x \<in> T" for x
      using d that by (auto simp: deadlocked_def blocked_by_def)
    from st have "blocked_by env g s' t u"
    proof cases
      case (call x k)
      then have "x \<noteq> t" using l(1) at_rest_Stop[of env g "c_host s" "thr s x"] by auto
      then show ?thesis using call(1) l by (auto simp: blocked_by_def)
    next
      case (acquire x m k)
      then have "x \<noteq> t" "m \<noteq> l" using l by auto
      then show ?thesis using acquire(1) l by (auto simp: blocked_by_def)
    next
      case (release x m k)
      have "x \<noteq> t" "x \<noteq> u" using l(1) release(2) w[OF u(1)] by auto
      moreover have "owner s m = Some x" using release_ok(1)[OF release(2) conc_invD(2)[OF i]] conc_invD(1)[OF i] by blast
      ultimately show ?thesis using release(1) l by (auto simp: blocked_by_def)
    next
      case (work x h k)
      have x: "x \<noteq> t" using l(1) work(2) by auto
      have "protected_change (held (thr s x)) (c_host s) h" using conc_worked[OF i work(2)] by (simp add: worked_def)
      moreover have "m \<notin> held (thr s x)" if "m \<in> held (thr s t)" for m using conc_inv_exclusive[OF i that] x by blast
      ultimately obtain k' where "next_action env g h (thr s t) = Acquire l k'"
        using waiting_stable[OF l(1), of h] by (auto simp: protected_change_def)
      then show ?thesis using work(1) l(2) x by (simp add: blocked_by_def)
    qed
    then show ?thesis using u(1) by blast
  qed
  then show ?thesis using d by (simp add: deadlocked_def)
qed

lemma deadlock_for_ever:
  assumes "host_inv g h" and "conc_reach env g (library_calls h) h s" and "deadlocked env g s T"
    and "(conc_step env g (library_calls h))\<^sup>*\<^sup>* s s'"
  shows "deadlocked env g s' T"
  using assms(4)
proof (induction rule: rtranclp_induct)
  case base
  then show ?case by (rule assms(3))
next
  case (step s1 s2)
  have "conc_reach env g (library_calls h) h s1" using assms(2) step.hyps(1) by (rule rtranclp_trans)
  then have "conc_inv g s1" using conc_reach_inv[OF _ assms(1)] by blast
  from deadlock_stays[OF this step.hyps(2) step.IH] show ?case .
qed

text \<open>Running a schedule.\<close>

definition start_call :: "nat \<Rightarrow> thread \<Rightarrow> conc \<Rightarrow> conc" where
  "start_call t k s = s\<lparr>thr := (thr s)(t := k)\<rparr>"

definition advance :: "env \<Rightarrow> pkgvars \<Rightarrow> nat \<Rightarrow> conc \<Rightarrow> conc" where
  "advance env g t s =
     (case next_action env g (c_host s) (thr s t) of
        Acquire l k \<Rightarrow> s\<lparr>owner := (owner s)(l \<mapsto> t), thr := (thr s)(t := k)\<rparr>
      | Release l k \<Rightarrow> s\<lparr>owner := (owner s)(l := None), thr := (thr s)(t := k)\<rparr>
      | Work h k \<Rightarrow> s\<lparr>c_host := h, thr := (thr s)(t := k)\<rparr>
      | Stop \<Rightarrow> s)"

lemma reach_start: "conc_reach env g calls h s \<Longrightarrow> at_rest (thr s t) \<Longrightarrow> k \<in> calls \<Longrightarrow> conc_reach env g calls h (start_call t k s)"
  unfolding start_call_def by (rule rtranclp.rtrancl_into_rtrancl, assumption, rule conc_step.call)

lemma reach_advance: "conc_reach env g calls h s \<Longrightarrow> can_move env g s t \<Longrightarrow> conc_reach env g calls h (advance env g t s)"
  by (erule rtranclp.rtrancl_into_rtrancl)
     (auto simp: advance_def split: action.splits intro: conc_step.intros)

lemma opposite_moves:
  assumes "cpu_pool h c = SharedPool" and "cpu_pool h d = p" and "p \<noteq> SharedPool"
  shows "\<exists>s. conc_reach env g {SetPool1 c p, SetPool1 d SharedPool} h s \<and> deadlocked env g s {0, 1}"
proof -
  have n: "c \<noteq> d" using assms by auto
  define s0 where "s0 = start_call 0 (SetPool1 c p) (initial h)"
  define s1 where "s1 = advance env g 0 (advance env g 0 (advance env g 0 s0))"
  have s1: "s1 = \<lparr>c_host = h, owner = (\<lambda>_. None)(CpuMutex c \<mapsto> 0, PoolMutex SharedPool \<mapsto> 0), thr = (\<lambda>_. Idle)(0 := Move2 c SharedPool p)\<rparr>"
    using assms by (simp add: s1_def s0_def start_call_def advance_def initial_def)
  define s2 where "s2 = advance env g 1 (advance env g 1 (advance env g 1 (start_call 1 (SetPool1 d SharedPool) s1)))"
  have s2: "s2 = \<lparr>c_host = h, owner = (\<lambda>_. None)(CpuMutex c \<mapsto> 0, PoolMutex SharedPool \<mapsto> 0, CpuMutex d \<mapsto> 1, PoolMutex p \<mapsto> 1),
      thr = (\<lambda>_. Idle)(0 := Move2 c SharedPool p, 1 := Move2 d p SharedPool)\<rparr>"
    using assms n by (simp add: s2_def s1 start_call_def advance_def)
  have "conc_reach env g {SetPool1 c p, SetPool1 d SharedPool} h s1"
    unfolding s1_def s0_def using assms
    by (intro reach_advance reach_start) (simp_all add: start_call_def advance_def initial_def)
  then have "conc_reach env g {SetPool1 c p, SetPool1 d SharedPool} h s2"
    unfolding s2_def using assms n
    by (intro reach_advance reach_start) (simp_all add: s1 start_call_def advance_def)
  moreover have "deadlocked env g s2 {0, 1}" using assms(3) by (simp add: deadlocked_def blocked_by_def s2)
  ultimately show ?thesis by blast
qed

lemma profile_and_move:
  assumes "p_cpus (pools h SharedPool) = c # cs" and "cpu_pool h c = SharedPool" and "p \<noteq> SharedPool"
  shows "\<exists>s. conc_reach env g {Profile1 SharedPool prof, SetPool1 c p} h s \<and> deadlocked env g s {0, 1}"
proof -
  define s1 where "s1 = advance env g 0 (advance env g 0 (start_call 0 (Profile1 SharedPool prof) (initial h)))"
  define h1 where "h1 = h\<lparr>pools := (pools h)(SharedPool := (pools h SharedPool)\<lparr>p_profile := prof\<rparr>)\<rparr>"
  have s1: "s1 = \<lparr>c_host = h1, owner = (\<lambda>_. None)(PoolMutex SharedPool \<mapsto> 0), thr = (\<lambda>_. Idle)(0 := Profile3 SharedPool (c # cs))\<rparr>"
    using assms by (simp add: s1_def start_call_def advance_def initial_def h1_def)
  define s2 where "s2 = advance env g 1 (advance env g 1 (start_call 1 (SetPool1 c p) s1))"
  have s2: "s2 = \<lparr>c_host = h1, owner = (\<lambda>_. None)(PoolMutex SharedPool \<mapsto> 0, CpuMutex c \<mapsto> 1),
      thr = (\<lambda>_. Idle)(0 := Profile3 SharedPool (c # cs), 1 := Move1 c p)\<rparr>"
    using assms by (simp add: s2_def s1 start_call_def advance_def h1_def)
  have "conc_reach env g {Profile1 SharedPool prof, SetPool1 c p} h s1"
    unfolding s1_def by (intro reach_advance reach_start) (simp_all add: start_call_def advance_def initial_def)
  then have "conc_reach env g {Profile1 SharedPool prof, SetPool1 c p} h s2"
    unfolding s2_def using assms by (intro reach_advance reach_start) (simp_all add: s1 start_call_def advance_def h1_def)
  moreover have "deadlocked env g s2 {0, 1}" using assms by (simp add: deadlocked_def blocked_by_def s2 h1_def)
  ultimately show ?thesis by blast
qed

lemma conc_reach_mono: "conc_reach env g calls h s \<Longrightarrow> calls \<subseteq> calls' \<Longrightarrow> conc_reach env g calls' h s"
proof (induction rule: rtranclp_induct)
  case (step s s')
  then have "conc_step env g calls' s s'" by (auto elim!: conc_step.cases intro: conc_step.intros)
  then show ?case using step by (auto intro: rtranclp.rtrancl_into_rtrancl)
qed simp

text \<open>A call that runs without interference.\<close>

definition solo :: "host \<Rightarrow> mutex set \<Rightarrow> thread \<Rightarrow> conc" where
  "solo h H k = \<lparr>c_host = h, owner = (\<lambda>l. if l \<in> H then Some 0 else None), thr = (\<lambda>_. Idle)(0 := k)\<rparr>"

lemma advance_solo:
  "advance env g 0 (solo h H k) =
     (case next_action env g h k of
        Acquire l k' \<Rightarrow> solo h (insert l H) k' | Release l k' \<Rightarrow> solo h (H - {l}) k'
      | Work h' k' \<Rightarrow> solo h' H k' | Stop \<Rightarrow> solo h H k)"
  by (auto simp: advance_def solo_def fun_eq_iff split: action.split)

lemma start_solo: "start_call 0 k (initial h) = solo h {} k"
  by (simp add: start_call_def initial_def solo_def)

lemma solo_SetPool_refused:
  assumes "\<not> (cpu_pool h c \<noteq> p \<and> (p = SharedPool \<or> cpu_pool h c = SharedPool))"
  shows "(advance env g 0 ^^ 3) (solo h {} (SetPool1 c p)) = solo h {} (Finished (snd (SetPool env g c (Some p) h)))"
  using assms by (auto simp: eval_nat_numeral advance_solo)

lemma solo_SetPool_moved:
  assumes "cpu_pool h c \<noteq> p" and "p = SharedPool \<or> cpu_pool h c = SharedPool" and "host_inv g h" and "c \<in> set (allCpus h)"
  shows "(advance env g 0 ^^ 10) (solo h {} (SetPool1 c p)) =
    solo (fst (doSetPool env g c p h)) {} (Finished (snd (doSetPool env g c p h)))"
proof -
  let ?s = "cpu_pool h c"
  have "c \<in> set (p_cpus (pools h ?s))" using assms(3,4) by (auto simp: host_inv_def pool_inv_def)
  then obtain cs where cs: "CpuList_remove (p_cpus (pools h ?s)) c = Ok cs"
    using swap_remove_None[of "p_cpus (pools h ?s)" c] by (cases "swap_remove (p_cpus (pools h ?s)) c") (auto simp: CpuList_remove_def)
  obtain h2 r where r: "consolidate env g c (set_cpus ?s cs (set_pool c p h)) = (h2, r)"
    by (cases "consolidate env g c (set_cpus ?s cs (set_pool c p h))")
  have "lib_ok g c" using assms(3,4) by (simp add: host_inv_def)
  then have "\<not> is_panic r" using consolidate_no_panic[of g c env] r by (metis snd_conv)
  then show ?thesis using assms(1,2) cs r
    by (cases r) (auto simp: eval_nat_numeral advance_solo doSetPool_def Let_def insert_Diff_if)
qed

lemma solo_SetPool:
  assumes "host_inv g h" and "c \<in> set (allCpus h)"
  shows "\<exists>n. (advance env g 0 ^^ n) (start_call 0 (SetPool1 c p) (initial h)) =
    solo (fst (SetPool env g c (Some p) h)) {} (Finished (snd (SetPool env g c (Some p) h)))"
proof (cases "cpu_pool h c \<noteq> p \<and> (p = SharedPool \<or> cpu_pool h c = SharedPool)")
  case True
  then have "SetPool env g c (Some p) h = doSetPool env g c p h" by (auto simp: SetPool_legal legal_def)
  then show ?thesis using solo_SetPool_moved[of h c p g env] True assms by (auto simp: start_solo)
next
  case False
  then show ?thesis using solo_SetPool_refused[OF False, of env g] SetPool_refuses(2)[OF False, of env g] by (auto simp: start_solo)
qed

lemma funpow_then: "(f ^^ m) x = y \<Longrightarrow> (f ^^ n) y = z \<Longrightarrow> (f ^^ (n + m)) x = z"
  by (simp add: funpow_add)

lemma solo_profile_loop:
  "\<exists>n. (advance env g 0 ^^ n) (solo h {PoolMutex p} (Profile3 p cs)) =
     solo (fst (foreach (consolidate env g) cs h)) {PoolMutex p} (Profile6 p (snd (foreach (consolidate env g) cs h)))"
proof (induction cs arbitrary: h)
  case Nil
  have "(advance env g 0 ^^ 1) (solo h {PoolMutex p} (Profile3 p [])) = solo h {PoolMutex p} (Profile6 p (Ok ()))"
    by (simp add: advance_solo)
  then show ?case by (intro exI[of _ 1]) simp
next
  case (Cons c cs)
  obtain h1 r where r: "consolidate env g c h = (h1, r)" by (cases "consolidate env g c h")
  have st: "(advance env g 0 ^^ 3) (solo h {PoolMutex p} (Profile3 p (c # cs))) =
      solo h1 {PoolMutex p} (if r = Ok () then Profile3 p cs else Profile6 p r)"
    using r by (simp add: eval_nat_numeral advance_solo insert_Diff_if)
  show ?case
  proof (cases r)
    case (Ok x)
    obtain n where "(advance env g 0 ^^ n) (solo h1 {PoolMutex p} (Profile3 p cs)) =
       solo (fst (foreach (consolidate env g) cs h1)) {PoolMutex p} (Profile6 p (snd (foreach (consolidate env g) cs h1)))"
      using Cons.IH by blast
    moreover have "(advance env g 0 ^^ 3) (solo h {PoolMutex p} (Profile3 p (c # cs))) = solo h1 {PoolMutex p} (Profile3 p cs)"
      using st Ok by simp
    ultimately have "(advance env g 0 ^^ (n + 3)) (solo h {PoolMutex p} (Profile3 p (c # cs))) =
       solo (fst (foreach (consolidate env g) cs h1)) {PoolMutex p} (Profile6 p (snd (foreach (consolidate env g) cs h1)))"
      by (rule funpow_then[rotated])
    then show ?thesis using r Ok by (intro exI[of _ "n + 3"]) simp
  next
    case (Error e)
    then show ?thesis using st r by (intro exI[of _ 3]) simp
  next
    case (Panic m)
    then show ?thesis using st r by (intro exI[of _ 3]) simp
  qed
qed

lemma solo_SetPowerProfile:
  "\<exists>n. (advance env g 0 ^^ n) (start_call 0 (Profile1 p prof) (initial h)) =
    solo (fst (SetPowerProfile env g p prof h)) {} (Finished (snd (SetPowerProfile env g p prof h)))"
proof (cases "p = ReservedPool")
  case True
  have "(advance env g 0 ^^ 1) (solo h {} (Profile1 p prof)) =
      solo h {} (Finished (Error (Errorf ''cannot set power profile for reserved pool'')))" using True by (simp add: advance_solo)
  then show ?thesis using True by (intro exI[of _ 1]) (simp add: start_solo SetPowerProfile_def)
next
  case False
  let ?h = "h\<lparr>pools := (pools h)(p := (pools h p)\<lparr>p_profile := prof\<rparr>)\<rparr>" and ?cs = "p_cpus (pools h p)"
  have e: "SetPowerProfile env g p prof h = foreach (consolidate env g) ?cs ?h" using False by (simp add: SetPowerProfile_def)
  have 1: "(advance env g 0 ^^ 2) (solo h {} (Profile1 p prof)) = solo ?h {PoolMutex p} (Profile3 p ?cs)"
    using False by (simp add: eval_nat_numeral advance_solo)
  obtain n where n: "(advance env g 0 ^^ n) (solo ?h {PoolMutex p} (Profile3 p ?cs)) =
     solo (fst (foreach (consolidate env g) ?cs ?h)) {PoolMutex p} (Profile6 p (snd (foreach (consolidate env g) ?cs ?h)))"
    using solo_profile_loop by blast
  have 2: "(advance env g 0 ^^ 1) (solo k {PoolMutex p} (Profile6 p r)) = solo k {} (Finished r)" for k r
    by (simp add: advance_solo)
  show ?thesis unfolding start_solo e using funpow_then[OF funpow_then[OF 1 n] 2] by blast
qed

section \<open>Properties\<close>

text \<open>
  C17. Any number of goroutines call \<open>SetPool\<close> and \<open>SetPowerProfile\<close>, in any interleaving of the steps
  between their lock operations. No two of them ever hold the same mutex, so no two work on the
  files of one CPU or on the list of one pool; every CPU that is not being moved is in the list of
  the pool it names, once, and in no other; when no move is under way the host satisfies the
  invariant of the sequential operations; and no call has panicked.
\<close>
theorem interleavings_keep_pools:
  assumes "host_inv g h" and "conc_reach env g (library_calls h) h s"
  shows "(\<forall>l t u. l \<in> held (thr s t) \<and> l \<in> held (thr s u) \<longrightarrow> t = u) \<and>
    (\<forall>c \<in> set (allCpus h). (\<forall>t. c \<notin> in_flight (thr s t)) \<longrightarrow>
       (\<forall>q. count (mset (p_cpus (pools (c_host s) q))) c = (if q = cpu_pool (c_host s) c then 1 else 0))) \<and>
    ((\<forall>t. in_flight (thr s t) = {}) \<longrightarrow> host_inv g (c_host s)) \<and>
    (\<forall>t r. thr s t = Finished r \<longrightarrow> \<not> is_panic r)"
proof -
  have i: "conc_inv g s" "allCpus (c_host s) = allCpus h" using conc_reach_inv[OF assms(2,1)] by auto
  have "count (mset (p_cpus (pools (c_host s) q))) c = (if q = cpu_pool (c_host s) c then 1 else 0)"
    if "c \<in> set (allCpus h)" "\<forall>t. c \<notin> in_flight (thr s t)" for c q
    using conc_invD(3)[OF i(1)] i(2) that by (auto simp: lists_ok_def distinct_count_atmost_1)
  moreover have "host_inv g (c_host s)" if "\<forall>t. in_flight (thr s t) = {}"
    using conc_invD(3)[OF i(1)] that lists_ok_host_inv by simp
  moreover have "\<not> is_panic r" if "thr s t = Finished r" for t r using conc_invD(2)[OF i(1), of t] that by simp
  ultimately show ?thesis using conc_inv_exclusive[OF i(1)] by blast
qed

theorem interleavings_keep_pools_witness:
  "host_inv idle (c_host (advance env0 idle 1 (start_call 1 (SetPool1 1 SharedPool)
     (advance env0 idle 0 (start_call 0 (SetPool1 0 (ExclusivePool 0)) (initial small_host))))))"
  (is "host_inv idle (c_host ?s)")
proof -
  have "conc_reach env0 idle (library_calls small_host) small_host ?s"
    by (intro reach_advance reach_start) (simp_all add: start_call_def advance_def initial_def library_calls_def)
  from interleavings_keep_pools[OF small_host_inv this]
  have "(\<forall>t. in_flight (thr ?s t) = {}) \<longrightarrow> host_inv idle (c_host ?s)" by (elim conjE)
  moreover have "\<forall>t. in_flight (thr ?s t) = {}" by (simp add: start_call_def advance_def initial_def)
  ultimately show ?thesis by (rule mp)
qed

text \<open>
  C19. Calls that go one way never deadlock. When the goroutines only move CPUs into the shared pool
  (deleted pods), or only out of it (new pods and reserved CPUs), or only update profiles, then
  in every reachable state with a call under way some goroutine can go on.
\<close>
theorem one_way_calls_progress:
  assumes "host_inv g h" and "calls \<in> {moves_to (\<lambda>p. p = SharedPool) h, moves_to (\<lambda>p. p \<noteq> SharedPool) h, profile_updates}"
    and "conc_reach env g calls h s" and "finite {t. \<not> at_rest (thr s t)}" and "\<not> at_rest (thr s t)"
  shows "\<exists>t. can_move env g s t"
  using assms inward.progress[OF assms(1) _ assms(4,5)] outward.progress[OF assms(1) _ assms(4,5)]
    updates.progress[OF assms(1) _ assms(4,5)] by blast

theorem one_way_calls_progress_witness:
  "\<exists>t. can_move env0 idle (advance env0 idle 0 (start_call 0 (SetPool1 1 SharedPool) (initial small_host))) t"
  (is "\<exists>t. can_move env0 idle ?s t")
proof -
  have "conc_reach env0 idle (moves_to (\<lambda>p. p = SharedPool) small_host) small_host ?s"
    by (intro reach_advance reach_start) (simp_all add: start_call_def advance_def initial_def moves_to_def)
  moreover have "{t. \<not> at_rest (thr ?s t)} \<subseteq> {0}" by (auto simp: start_call_def advance_def initial_def split: if_splits)
  then have "finite {t. \<not> at_rest (thr ?s t)}" by (rule finite_subset) simp
  moreover have "\<not> at_rest (thr ?s 0)" by (simp add: start_call_def advance_def initial_def)
  ultimately show ?thesis by (intro one_way_calls_progress[OF small_host_inv, where env = env0]) auto
qed

text \<open>
  C18. The order of the locks is not safe in general. Two goroutines that move one CPU out of the shared
  pool and another one into it, from and to the same pool, can reach a deadlock, and so can one
  that sets the profile of the shared pool and one that moves its first CPU elsewhere. From then
  on the two wait for each other for ever, whatever the other goroutines do.
\<close>
theorem deadlock_reachable:
  assumes "host_inv g h" and "c \<in> set (allCpus h)" and "d \<in> set (allCpus h)"
    and "cpu_pool h c = SharedPool" and "cpu_pool h d = p" and "p \<noteq> SharedPool"
  shows "(\<exists>s. conc_reach env g {SetPool1 c p, SetPool1 d SharedPool} h s \<and>
      (\<forall>s'. (conc_step env g (library_calls h))\<^sup>*\<^sup>* s s' \<longrightarrow> deadlocked env g s' {0, 1})) \<and>
    (\<exists>b s. conc_reach env g {Profile1 SharedPool prof, SetPool1 b p} h s \<and>
      (\<forall>s'. (conc_step env g (library_calls h))\<^sup>*\<^sup>* s s' \<longrightarrow> deadlocked env g s' {0, 1}))"
proof
  have l: "\<And>c. c \<in> set (allCpus h) \<Longrightarrow> SetPool1 c q \<in> library_calls h" "Profile1 q prof \<in> library_calls h" for q
    by (auto simp: library_calls_def)
  show "\<exists>s. conc_reach env g {SetPool1 c p, SetPool1 d SharedPool} h s \<and>
      (\<forall>s'. (conc_step env g (library_calls h))\<^sup>*\<^sup>* s s' \<longrightarrow> deadlocked env g s' {0, 1})"
    using opposite_moves[OF assms(4-6), of env g] deadlock_for_ever[OF assms(1) conc_reach_mono] l(1)[OF assms(2)] l(1)[OF assms(3)]
    by (metis empty_subsetI insert_subset)
  have "c \<in> set (p_cpus (pools h SharedPool))" using assms by (auto simp: host_inv_def pool_inv_def)
  then obtain b cs where b: "p_cpus (pools h SharedPool) = b # cs" by (cases "p_cpus (pools h SharedPool)") auto
  then have "b \<in> set (p_cpus (pools h SharedPool))" by simp
  then have b2: "b \<in> set (allCpus h)" "cpu_pool h b = SharedPool" using assms(1) by (auto simp: host_inv_def pool_inv_def)
  show "\<exists>b s. conc_reach env g {Profile1 SharedPool prof, SetPool1 b p} h s \<and>
      (\<forall>s'. (conc_step env g (library_calls h))\<^sup>*\<^sup>* s s' \<longrightarrow> deadlocked env g s' {0, 1})"
    using profile_and_move[OF b b2(2) assms(6), of env g prof] deadlock_for_ever[OF assms(1) conc_reach_mono] l(1)[OF b2(1)] l(2)
    by (metis empty_subsetI insert_subset)
qed

theorem deadlock_reachable_witness:
  "\<exists>s. conc_reach env0 idle {SetPool1 0 (ExclusivePool 0), SetPool1 1 SharedPool} small_host s \<and> deadlocked env0 idle s {0, 1}"
proof -
  have "0 \<in> set (allCpus small_host)" "1 \<in> set (allCpus small_host)" "cpu_pool small_host 0 = SharedPool"
    "cpu_pool small_host 1 = ExclusivePool 0" "ExclusivePool 0 \<noteq> SharedPool" by simp_all
  from deadlock_reachable[OF small_host_inv this, of env0 None] show ?thesis by blast
qed

text \<open>
  C20. The sequential model is what the locked code does when it is left alone: a call of \<open>SetPool\<close> or
  \<open>SetPowerProfile\<close> that no other goroutine interrupts comes to its end, with the host and the
  result of the functions of theory \<open>Pools\<close>, and with every mutex given back.
\<close>
theorem undisturbed_calls_are_sequential:
  assumes "host_inv g h" and "c \<in> set (allCpus h)"
  shows "(\<exists>n s. (advance env g 0 ^^ n) (start_call 0 (SetPool1 c p) (initial h)) = s \<and>
      c_host s = fst (SetPool env g c (Some p) h) \<and> thr s 0 = Finished (snd (SetPool env g c (Some p) h)) \<and> owner s = (\<lambda>_. None)) \<and>
    (\<exists>n s. (advance env g 0 ^^ n) (start_call 0 (Profile1 p prof) (initial h)) = s \<and>
      c_host s = fst (SetPowerProfile env g p prof h) \<and> thr s 0 = Finished (snd (SetPowerProfile env g p prof h)) \<and> owner s = (\<lambda>_. None))"
proof
  obtain n where n: "(advance env g 0 ^^ n) (start_call 0 (SetPool1 c p) (initial h)) =
      solo (fst (SetPool env g c (Some p) h)) {} (Finished (snd (SetPool env g c (Some p) h)))"
    using solo_SetPool[OF assms] by blast
  show "\<exists>n s. (advance env g 0 ^^ n) (start_call 0 (SetPool1 c p) (initial h)) = s \<and>
      c_host s = fst (SetPool env g c (Some p) h) \<and> thr s 0 = Finished (snd (SetPool env g c (Some p) h)) \<and> owner s = (\<lambda>_. None)"
    by (rule exI[of _ n]) (simp add: n, simp add: solo_def)
  obtain m where m: "(advance env g 0 ^^ m) (start_call 0 (Profile1 p prof) (initial h)) =
      solo (fst (SetPowerProfile env g p prof h)) {} (Finished (snd (SetPowerProfile env g p prof h)))"
    using solo_SetPowerProfile by blast
  show "\<exists>n s. (advance env g 0 ^^ n) (start_call 0 (Profile1 p prof) (initial h)) = s \<and>
      c_host s = fst (SetPowerProfile env g p prof h) \<and> thr s 0 = Finished (snd (SetPowerProfile env g p prof h)) \<and> owner s = (\<lambda>_. None)"
    by (rule exI[of _ m]) (simp add: m, simp add: solo_def)
qed

theorem undisturbed_calls_are_sequential_witness:
  "\<exists>n s. (advance env0 idle 0 ^^ n) (start_call 0 (SetPool1 1 ReservedPool) (initial small_host)) = s \<and>
     c_host s = small_host \<and> thr s 0 = Finished (snd (SetPool env0 idle 1 (Some ReservedPool) small_host)) \<and> owner s = (\<lambda>_. None)"
proof -
  have "1 \<in> set (allCpus small_host)" by simp
  moreover have "fst (SetPool env0 idle 1 (Some ReservedPool) small_host) = small_host" by (simp add: SetPool_def)
  ultimately show ?thesis using undisturbed_calls_are_sequential[OF small_host_inv, of 1 env0 ReservedPool None] by simp
qed

end
