(* ===== verification/Pool_Kinds.thy ===== *)
theory Pool_Kinds
  imports Pool_Library
begin

text \<open>
  The three types that implement the interface \<open>Pool\<close> (\<open>pool.go\<close>). Each embeds \<open>poolImpl\<close>, whose methods it
  inherits unless it has its own: a table of methods is built from the one of \<open>poolImpl\<close> by replacing
  entries. Most methods of \<open>poolImpl\<close> are "virtual" and panic. The theories on pools use one definition per
  method with the pool as an argument; here it is shown that this is what a call through the
  interface does, and that no call reaches a virtual method.
\<close>

type_synonym host_call = "host \<Rightarrow> host \<times> unit res"

record pool_methods =
  m_SetCpuIDs :: "nat list \<Rightarrow> host_call"
  m_SetCpus :: "nat list \<Rightarrow> host_call"
  m_MoveCpus :: "nat list \<Rightarrow> host_call"
  m_MoveCpuIDs :: "nat list \<Rightarrow> host_call"
  m_Remove :: host_call
  m_Clear :: host_call
  m_SetPowerProfile :: "profile option \<Rightarrow> host_call"
  m_isExclusive :: bool

definition poolImpl_SetPowerProfile :: "env \<Rightarrow> pkgvars \<Rightarrow> pool_ref \<Rightarrow> profile option \<Rightarrow> host_call" where
  "poolImpl_SetPowerProfile env g p prof h =
     (let h1 = h\<lparr>pools := (pools h)(p := (pools h p)\<lparr>p_profile := prof\<rparr>)\<rparr> in
      foreach (consolidate env g) (p_cpus (pools h1 p)) h1)"

definition poolImpl_methods :: "env \<Rightarrow> pkgvars \<Rightarrow> pool_ref \<Rightarrow> pool_methods" where
  "poolImpl_methods env g p =
     \<lparr>m_SetCpuIDs = \<lambda>_ h. (h, Panic ''virtual''), m_SetCpus = \<lambda>_ h. (h, Panic ''scuffed''),
      m_MoveCpus = \<lambda>_ h. (h, Panic ''virtual''), m_MoveCpuIDs = \<lambda>_ h. (h, Panic ''virtual''),
      m_Remove = \<lambda>h. (h, Panic (CHR 0x27 # ''virtual'' @ CHR 0x27 # '' function'')), m_Clear = \<lambda>h. (h, Panic ''scuffed''),
      m_SetPowerProfile = poolImpl_SetPowerProfile env g p, m_isExclusive = False\<rparr>"

section \<open>The shared pool\<close>

definition sharedPool_MoveCpus :: "env \<Rightarrow> pkgvars \<Rightarrow> nat list \<Rightarrow> host_call" where
  "sharedPool_MoveCpus env g cpus = foreach (\<lambda>c. SetPool env g c (Some SharedPool)) cpus"

definition sharedPool_MoveCpuIDs :: "env \<Rightarrow> pkgvars \<Rightarrow> nat list \<Rightarrow> host_call" where
  "sharedPool_MoveCpuIDs env g cpuIDs h =
     then_do (h, ManyByIDs (allCpus h) cpuIDs) (\<lambda>cpus. sharedPool_MoveCpus env g cpus)"

definition sharedPool_SetCpuIDs :: "env \<Rightarrow> pkgvars \<Rightarrow> nat list \<Rightarrow> host_call" where
  "sharedPool_SetCpuIDs env g cpuIDs h =
     then_do (wrap_err ''cpuCore out of range'' (h, ManyByIDs (allCpus h) cpuIDs)) (\<lambda>cores. sharedPool_SetCpus env g cores)"

definition sharedPool_Clear :: "env \<Rightarrow> pkgvars \<Rightarrow> host_call" where
  "sharedPool_Clear env g = sharedPool_SetCpus env g []"

definition sharedPool_Remove :: host_call where
  "sharedPool_Remove h = (h, Error (Errorf ''shared pool canot be removed''))"

definition sharedPool_methods :: "env \<Rightarrow> pkgvars \<Rightarrow> pool_methods" where
  "sharedPool_methods env g = (poolImpl_methods env g SharedPool)
     \<lparr>m_MoveCpuIDs := sharedPool_MoveCpuIDs env g, m_MoveCpus := sharedPool_MoveCpus env g,
      m_SetCpuIDs := sharedPool_SetCpuIDs env g, m_SetCpus := sharedPool_SetCpus env g,
      m_Clear := sharedPool_Clear env g, m_Remove := sharedPool_Remove\<rparr>"

section \<open>The reserved pool\<close>

definition reservedPool_MoveCpus :: "env \<Rightarrow> pkgvars \<Rightarrow> nat list \<Rightarrow> host_call" where
  "reservedPool_MoveCpus env g cpus = foreach (\<lambda>c. SetPool env g c (Some ReservedPool)) cpus"

definition reservedPool_MoveCpuIDs :: "env \<Rightarrow> pkgvars \<Rightarrow> nat list \<Rightarrow> host_call" where
  "reservedPool_MoveCpuIDs env g cpuIDs h =
     then_do (h, ManyByIDs (allCpus h) cpuIDs) (\<lambda>cpus. reservedPool_MoveCpus env g cpus)"

definition reservedPool_SetCpuIDs :: "env \<Rightarrow> pkgvars \<Rightarrow> nat list \<Rightarrow> host_call" where
  "reservedPool_SetCpuIDs env g cpuIDs h =
     then_do (wrap_err ''cpuCore out of range'' (h, ManyByIDs (allCpus h) cpuIDs)) (\<lambda>cpus. reservedPool_SetCpus env g cpus)"

definition reservedPool_SetPowerProfile :: "profile option \<Rightarrow> host_call" where
  "reservedPool_SetPowerProfile prof h = (h, Error (Errorf ''cannot set power profile for reserved pool''))"

definition reservedPool_Remove :: host_call where
  "reservedPool_Remove h = (h, Error (Errorf ''reserved Pool cannot be removed''))"

definition reservedPool_Clear :: "env \<Rightarrow> pkgvars \<Rightarrow> host_call" where
  "reservedPool_Clear env g = reservedPool_SetCpus env g []"

definition reservedPool_methods :: "env \<Rightarrow> pkgvars \<Rightarrow> pool_methods" where
  "reservedPool_methods env g = (poolImpl_methods env g ReservedPool)
     \<lparr>m_MoveCpuIDs := reservedPool_MoveCpuIDs env g, m_MoveCpus := reservedPool_MoveCpus env g,
      m_SetCpuIDs := reservedPool_SetCpuIDs env g, m_SetPowerProfile := reservedPool_SetPowerProfile,
      m_SetCpus := reservedPool_SetCpus env g, m_Remove := reservedPool_Remove, m_Clear := reservedPool_Clear env g\<rparr>"

section \<open>Exclusive pools\<close>

definition exclusivePool_methods :: "env \<Rightarrow> pkgvars \<Rightarrow> pool_ref \<Rightarrow> pool_methods" where
  "exclusivePool_methods env g p = (poolImpl_methods env g p)
     \<lparr>m_MoveCpuIDs := MoveCpuIDs env g p, m_MoveCpus := MoveCpus env g p, m_SetCpuIDs := SetCpuIDs env g p,
      m_SetCpus := exclusivePool_SetCpus env g p, m_Clear := Clear env g p, m_Remove := Pool_Remove env g p, m_isExclusive := True\<rparr>"

definition methods_of :: "env \<Rightarrow> pkgvars \<Rightarrow> pool_ref \<Rightarrow> pool_methods" where
  "methods_of env g p =
     (case p of SharedPool \<Rightarrow> sharedPool_methods env g | ReservedPool \<Rightarrow> reservedPool_methods env g
      | ExclusivePool n \<Rightarrow> exclusivePool_methods env g p)"

section \<open>Lists of pools\<close>

fun PoolList_IndexOf :: "pool_ref list \<Rightarrow> pool_ref \<Rightarrow> int \<Rightarrow> int" where
  "PoolList_IndexOf [] p i = - 1"
| "PoolList_IndexOf (q # qs) p i = (if q = p then i else PoolList_IndexOf qs p (i + 1))"

definition PoolList_Contains :: "pool_ref list \<Rightarrow> pool_ref \<Rightarrow> bool" where
  "PoolList_Contains ps p = (if PoolList_IndexOf ps p 0 < 0 then False else True)"

definition PoolList_add :: "pool_ref list \<Rightarrow> pool_ref \<Rightarrow> pool_ref list" where
  "PoolList_add ps p = ps @ [p]"

lemma PoolList_Contains_iff: "PoolList_Contains ps p \<longleftrightarrow> p \<in> set ps"
proof -
  have "PoolList_IndexOf ps p i < 0 \<longleftrightarrow> p \<notin> set ps" if "0 \<le> i" for i using that by (induction ps arbitrary: i) auto
  then show ?thesis by (simp add: PoolList_Contains_def)
qed

section \<open>Calls through the interface\<close>

text \<open>
  A call through the interface \<open>Pool\<close> is the operation of the library on the pool it is made on, for every
  kind of pool and every method; so no call ends in a virtual method of \<open>poolImpl\<close>.
\<close>
theorem pool_interface:
  "methods_of env g p =
     \<lparr>m_SetCpuIDs = SetCpuIDs env g p, m_SetCpus = SetCpus env g p, m_MoveCpus = MoveCpus env g p,
      m_MoveCpuIDs = MoveCpuIDs env g p, m_Remove = Pool_Remove env g p, m_Clear = Clear env g p,
      m_SetPowerProfile = SetPowerProfile env g p, m_isExclusive = isExclusive p\<rparr>"
proof -
  have set: "SetCpus env g SharedPool = sharedPool_SetCpus env g" "SetCpus env g ReservedPool = reservedPool_SetCpus env g"
    "SetCpus env g (ExclusivePool n) = exclusivePool_SetCpus env g (ExclusivePool n)" for n
    by (simp_all add: SetCpus_def fun_eq_iff)
  show ?thesis
    by (cases p) (simp_all add: set methods_of_def sharedPool_methods_def reservedPool_methods_def exclusivePool_methods_def
      poolImpl_methods_def fun_eq_iff SetCpuIDs_def MoveCpus_def MoveCpuIDs_def Pool_Remove_def Clear_def
      SetPowerProfile_def poolImpl_SetPowerProfile_def sharedPool_MoveCpus_def sharedPool_MoveCpuIDs_def sharedPool_SetCpuIDs_def
      sharedPool_Clear_def sharedPool_Remove_def reservedPool_MoveCpus_def reservedPool_MoveCpuIDs_def reservedPool_SetCpuIDs_def
      reservedPool_Clear_def reservedPool_Remove_def reservedPool_SetPowerProfile_def)
qed

end
