(* ===== verification/Host.thy ===== *)
theory Host
  imports Pool_Props
begin

text \<open>
  Start of the library, from \<open>power.go\<close> and \<open>host.go\<close>: initialisation of the features, creation of
  the host with its predefined pools, and the accessors of the host. The output of \<open>lscpu\<close> is a
  parameter (\<open>cmd\<close>: standard output and standard error of a shell command, or its failure), the
  order in which \<open>range\<close> enumerates the feature map is the list \<open>order\<close>.
\<close>

section \<open>Features\<close>

definition init_feature :: "env \<Rightarrow> featureID \<Rightarrow> pkgvars \<times> sys \<Rightarrow> (pkgvars \<times> sys) \<times> featureStatus res" where
  "init_feature env f =
     (case f of
        EPPFeature \<Rightarrow> initEpp env
      | FrequencyScalingFeature \<Rightarrow> initScalingDriver env
      | CStatesFeature \<Rightarrow> initCStates env
      | UncoreFeature \<Rightarrow> initUncore env)"

definition init_step ::
  "env \<Rightarrow> featureID \<Rightarrow> (pkgvars \<times> sys) \<times> err option list \<Rightarrow> ((pkgvars \<times> sys) \<times> err option list) \<times> unit res" where
  "init_step env f = (\<lambda>(s, errs).
     (case init_feature env f s of
        ((g, sy), Ok status) \<Rightarrow>
          (((g\<lparr>featureList := (featureList g)(f \<mapsto> status)\<rparr>, sy), errs @ [fs_err status]), Ok ())
      | (s, Error e) \<Rightarrow> ((s, errs), Error e)
      | (s, Panic m) \<Rightarrow> ((s, errs), Panic m)))"

definition FeatureSet_init ::
  "env \<Rightarrow> featureID list \<Rightarrow> pkgvars \<times> sys \<Rightarrow> (pkgvars \<times> sys) \<times> err option res" where
  "FeatureSet_init env order s =
     (if order = [] then (s, Ok (Some (Errorf ''no features defined'')))
      else
        (case foreach (init_step env) order (s, []) of
           ((s, allErrors), Ok _) \<Rightarrow> (s, Ok (errors_Join allErrors))
         | ((s, allErrors), Error e) \<Rightarrow> (s, Error e)
         | ((s, allErrors), Panic m) \<Rightarrow> (s, Panic m)))"

definition anySupported :: "featureID list \<Rightarrow> pkgvars \<Rightarrow> bool" where
  "anySupported order g = list_ex (isFeatureIdSupported g) order"

section \<open>Host\<close>

text \<open>The white space of Go's regular expression \<open>\s\<close>.\<close>

definition is_space :: "char \<Rightarrow> bool" where
  "is_space c = (c \<in> {CHR 0x09, CHR 0x0A, CHR 0x0C, CHR 0x0D, CHR '' ''})"

definition GetFromLscpu :: "(string \<Rightarrow> (string \<times> string) res) \<Rightarrow> string \<Rightarrow> string res" where
  "GetFromLscpu cmd regex =
     (case cmd (''lscpu | grep -Ew \"'' @ regex @ ''\" | cut -d ':' -f 2'') of
        Panic m \<Rightarrow> Panic m
      | Error e \<Rightarrow> Error e
      | Ok (output, stderr) \<Rightarrow>
          if 0 < length stderr then Error (Errorf (''failed to get lscpu info: '' @ stderr))
          else Ok (filter (\<lambda>c. \<not> is_space c) output))"

definition SetArchitecture ::
  "(string \<Rightarrow> (string \<times> string) res) \<Rightarrow> string res" where
  "SetArchitecture cmd =
     (case GetFromLscpu cmd ''^Architecture:'' of
        Error e \<Rightarrow> Error (Wrapf ''failed to get Architecture from lscpu'' e)
      | r \<Rightarrow> r)"

definition SetVendorID :: "(string \<Rightarrow> (string \<times> string) res) \<Rightarrow> string res" where
  "SetVendorID cmd =
     (case GetFromLscpu cmd ''^Vendor ID:'' of
        Error e \<Rightarrow> Error (Wrapf ''failed to get VendorID from lscpu'' e)
      | r \<Rightarrow> r)"

definition new_host :: "string \<Rightarrow> string \<Rightarrow> string \<Rightarrow> topology \<Rightarrow> nat list \<Rightarrow> sys \<Rightarrow> host" where
  "new_host nodeName arch vendor t cs sy =
     \<lparr>h_name = nodeName, h_arch = arch, h_vendor = vendor, exclusivePools = [],
      pools = (\<lambda>p. \<lparr>p_name = (case p of ReservedPool \<Rightarrow> ''reservedPool'' | SharedPool \<Rightarrow> ''sharedPool''
                            | ExclusivePool n \<Rightarrow> []),
                    p_cpus = (if p = ReservedPool then cs else []), p_profile = None\<rparr>),
      cpu_pool = (\<lambda>c. ReservedPool), allCpus = cs, h_topo = t, nextPool = 0, hsys = sy\<rparr>"

text \<open>\<open>cpu._setPoolProperty\<close> on a nil CPU panics.\<close>

definition initHost ::
  "env \<Rightarrow> (string \<Rightarrow> (string \<times> string) res) \<Rightarrow> string \<Rightarrow> pkgvars \<times> sys \<Rightarrow> (pkgvars \<times> sys) \<times> host res" where
  "initHost env cmd nodeName s =
     then_do (wrap_err ''failed to set host architecture'' (s, SetArchitecture cmd)) (\<lambda>arch s.
     then_do (wrap_err ''failed to set host vendorId'' (s, SetVendorID cmd)) (\<lambda>vendor s.
       (case discoverTopology env arch s of
          ((t, g, sy), Error e) \<Rightarrow> ((g, sy), Error (Wrapf ''failed to init host'' e))
        | ((t, g, sy), Panic m) \<Rightarrow> ((g, sy), Panic m)
        | ((t, g, sy), Ok _) \<Rightarrow>
            if list_ex (\<lambda>c. c = None) (t_allCpus t)
            then ((g, sy), Panic ''invalid memory address or nil pointer dereference'')
            else ((g, sy), Ok (new_host nodeName arch vendor t (somes (t_allCpus t)) sy)))))"

definition CreateInstance ::
  "env \<Rightarrow> (string \<Rightarrow> (string \<times> string) res) \<Rightarrow> featureID list \<Rightarrow> string \<Rightarrow> pkgvars \<times> sys \<Rightarrow>
   (pkgvars \<times> sys) \<times> (host option \<times> err option) res" where
  "CreateInstance env cmd order hostName s =
     (case FeatureSet_init env order s of
        (s, Panic m) \<Rightarrow> (s, Panic m)
      | (s, Error e) \<Rightarrow> (s, Error e)
      | (s, Ok allErrors) \<Rightarrow>
          if \<not> anySupported order (fst s) then (s, Ok (None, allErrors))
          else
            (case initHost env cmd hostName s of
               (s, Panic m) \<Rightarrow> (s, Panic m)
             | (s, Error e) \<Rightarrow> (s, Ok (None, errors_Join [allErrors, Some e]))
             | (s, Ok h) \<Rightarrow> (s, Ok (Some h, allErrors))))"

record LibConfig =
  CpuPath :: string
  ModulePath :: string
  Cores :: nat

definition CreateInstanceWithConf ::
  "env \<Rightarrow> (string \<Rightarrow> (string \<times> string) res) \<Rightarrow> featureID list \<Rightarrow> string \<Rightarrow> LibConfig \<Rightarrow> pkgvars \<times> sys \<Rightarrow>
   (pkgvars \<times> sys) \<times> (host option \<times> err option) res" where
  "CreateInstanceWithConf env cmd order hostName conf = (\<lambda>(g, sy).
     (let g = (if CpuPath conf \<noteq> [] then g\<lparr>basePath := CpuPath conf\<rparr> else g);
          g = (if ModulePath conf \<noteq> [] then g\<lparr>kernelModulesFilePath := ModulePath conf\<rparr> else g);
          g = g\<lparr>confCores := Some (Cores conf)\<rparr>
      in CreateInstance env cmd order hostName (g, sy)))"

definition SetName :: "string \<Rightarrow> host \<Rightarrow> host" where
  "SetName name h = h\<lparr>h_name := name\<rparr>"

definition GetFreqRanges :: "pkgvars \<Rightarrow> (nat \<times> nat) list" where
  "GetFreqRanges g = coreTypes g"

definition NumCoreTypes :: "pkgvars \<Rightarrow> nat" where
  "NumCoreTypes g = length (coreTypes g)"

definition GetFeaturesInfo :: "pkgvars \<Rightarrow> featureID \<rightharpoonup> featureStatus" where
  "GetFeaturesInfo g = featureList g"

section \<open>What initialisation keeps\<close>

text \<open>The part of the state that no initialisation function changes.\<close>

definition base :: "pkgvars \<times> sys \<Rightarrow> nat option \<times> string \<times> (string \<rightharpoonup> string) \<times> (featureID \<rightharpoonup> featureStatus)" where
  "base s = (confCores (fst s), basePath (fst s), files (snd s), featureList (fst s))"

lemma read_files [simp]:
  "files (fst (readStringFromFile env p sy)) = files sy"
  "files (fst (readUintFromFile env p sy)) = files sy"
  "files (fst (readCpuUintProperty env g c f sy)) = files sy"
  "files (fst (readCpuStringProperty env g c f sy)) = files sy"
  "files (fst (ReadDir env p sy)) = files sy"
  "files (fst (getNumberOfCpus env g sy)) = files sy"
  "files (fst (initAvailableGovernors env g sy)) = files sy"
  by (auto simp: readStringFromFile_def readUintFromFile_def readCpuUintProperty_def
      readCpuStringProperty_def ReadDir_def getNumberOfCpus_def initAvailableGovernors_def then_do_def
      split: prod.splits res.splits option.splits)

text \<open>Without read faults the number of CPUs depends on what \<open>base\<close> keeps only.\<close>

definition no_read_faults :: "env \<Rightarrow> bool" where
  "no_read_faults env = (\<forall>n p. read_fault env n p = None)"

lemma numCpus_base:
  assumes "no_read_faults env" and "base (g, sy) = base (g', sy')"
  shows "snd (getNumberOfCpus env g sy) = snd (getNumberOfCpus env g' sy')"
  using assms
  by (auto simp: base_def getNumberOfCpus_def readStringFromFile_def no_read_faults_def
      split: option.splits)


lemma read_eqs:
  "readStringFromFile env p sy = (sy', rs) \<Longrightarrow> files sy' = files sy"
  "readUintFromFile env p sy = (sy', ru) \<Longrightarrow> files sy' = files sy"
  "readCpuUintProperty env g c f sy = (sy', ru) \<Longrightarrow> files sy' = files sy"
  "readCpuStringProperty env g c f sy = (sy', rs) \<Longrightarrow> files sy' = files sy"
  "ReadDir env p sy = (sy', rd) \<Longrightarrow> files sy' = files sy"
  "getNumberOfCpus env g sy = (sy', n) \<Longrightarrow> files sy' = files sy"
  "initAvailableGovernors env g sy = (sy', rg) \<Longrightarrow> files sy' = files sy"
  by (metis fst_conv read_files)+

lemma default_pstates_base:
  "base (fst (default_pstates env c s)) = base s"
  "length (allCPUDefaultPStatesInfo (fst (fst (default_pstates env c s)))) =
     length (allCPUDefaultPStatesInfo (fst s))"
  by (auto simp: default_pstates_def base_def Let_def dest!: read_eqs split: prod.splits res.splits)

lemma generateDefaultPStates_base:
  "base (fst (generateDefaultPStates env s)) = base s"
proof -
  obtain g sy where s: "s = (g, sy)" by (cases s)
  have "base (fst (foreach (default_pstates env) xs t)) = base s" if "base t = base s" for xs t
    by (rule foreach_inv[where I = "\<lambda>t. base t = base s"]) (use that default_pstates_base in auto)
  then show ?thesis
    by (auto simp: s generateDefaultPStates_def base_def dest!: read_eqs split: prod.splits)
qed

lemma generateDefaultPStates_length:
  assumes "snd (generateDefaultPStates env (g, sy)) = Ok ()"
  shows "length (allCPUDefaultPStatesInfo (fst (fst (generateDefaultPStates env (g, sy))))) =
         snd (getNumberOfCpus env g sy)"
proof -
  obtain sy' n where n: "getNumberOfCpus env g sy = (sy', n)" by (cases "getNumberOfCpus env g sy")
  have "length (allCPUDefaultPStatesInfo (fst (fst (foreach (default_pstates env) xs t)))) = n"
    if "length (allCPUDefaultPStatesInfo (fst t)) = n" for xs t
    by (rule foreach_inv[where I = "\<lambda>t. length (allCPUDefaultPStatesInfo (fst t)) = n"])
       (use that default_pstates_base in auto)
  then show ?thesis using assms by (simp add: generateDefaultPStates_def n split: if_splits)
qed

lemma map_cstate_dir_base:
  "base (fst (map_cstate_dir env c d s)) = base s"
  "allCPUDefaultPStatesInfo (fst (fst (map_cstate_dir env c d s))) = allCPUDefaultPStatesInfo (fst s)"
proof -
  have r: "files (fst (read_cstate env g c n sy)) = files sy" for g n sy
    by (auto simp: read_cstate_def Let_def then_do_def wrap_err_def dest!: read_eqs
        split: prod.splits res.splits)
  then have "read_cstate env g c n sy = (sy', x) \<Longrightarrow> files sy' = files sy" for g n sy sy' x
    by (metis fst_conv)
  then show "base (fst (map_cstate_dir env c d s)) = base s"
    "allCPUDefaultPStatesInfo (fst (fst (map_cstate_dir env c d s))) = allCPUDefaultPStatesInfo (fst s)"
    by (auto simp: map_cstate_dir_def base_def split: prod.splits option.splits res.splits)
qed

lemma mapAvailableCStates_base:
  "base (fst (mapAvailableCStates env s)) = base s"
  "allCPUDefaultPStatesInfo (fst (fst (mapAvailableCStates env s))) = allCPUDefaultPStatesInfo (fst s)"
proof -
  let ?I = "\<lambda>t. base t = base s \<and> allCPUDefaultPStatesInfo (fst t) = allCPUDefaultPStatesInfo (fst s)"
  have d: "?I (fst (foreach (map_cstate_dir env c) ds t))" if "?I t" for c ds t
    by (rule foreach_inv[where I = ?I]) (use that map_cstate_dir_base in auto)
  have c: "?I (fst (map_cstates_cpu env c t))" if "?I t" for c t
  proof -
    obtain g sy where t: "t = (g, sy)" by (cases t)
    have "?I (g\<lparr>allCPUCStatesInfo := x\<rparr>, fst (ReadDir env p sy))" for x p
      using that by (simp add: t base_def)
    then show ?thesis using d by (auto simp: t map_cstates_cpu_def Let_def ReadDir_def split: res.splits)
  qed
  have "?I (fst (foreach (map_cstates_cpu env) ns t))" if "?I t" for ns t
    by (rule foreach_inv[where I = ?I]) (use that c in auto)
  moreover have "?I (fst s, fst (getNumberOfCpus env (fst s) (snd s)))" by (simp add: base_def)
  ultimately have "?I (fst (mapAvailableCStates env s))"
    by (cases s; cases "getNumberOfCpus env (fst s) (snd s)") (simp add: mapAvailableCStates_def)
  then show "base (fst (mapAvailableCStates env s)) = base s"
    "allCPUDefaultPStatesInfo (fst (fst (mapAvailableCStates env s))) = allCPUDefaultPStatesInfo (fst s)"
    by auto
qed

lemma init_others_base:
  assumes "f \<noteq> FrequencyScalingFeature"
  shows "base (fst (init_feature env f s)) = base s"
    and "allCPUDefaultPStatesInfo (fst (fst (init_feature env f s))) = allCPUDefaultPStatesInfo (fst s)"
proof -
  have u: "checkKernelModuleLoaded env g m sy = (sy', b) \<Longrightarrow> files sy' = files sy"
    "readUncoreProperty env g i j q sy = (sy', r) \<Longrightarrow> files sy' = files sy" for g m sy sy' b i j q r
    by (auto simp: checkKernelModuleLoaded_def readUncoreProperty_def dest: read_eqs
        split: prod.splits res.splits)
  have "base (fst (initCStates env s)) = base s \<and>
      allCPUDefaultPStatesInfo (fst (fst (initCStates env s))) = allCPUDefaultPStatesInfo (fst s)"
  proof -
    obtain g sy where s: "s = (g, sy)" by (cases s)
    obtain sy' r where r: "readStringFromFile env (basePath g @ ''/'' @ cStatesDir @ ''/current_driver'') sy = (sy', r)"
      by fastforce
    then have "base (g, sy') = base s" by (auto simp: base_def s dest!: read_eqs)
    then show ?thesis
      using mapAvailableCStates_base[of env "(g, sy')"] r
      by (auto simp: s initCStates_def Let_def split: prod.splits res.splits)
  qed
  moreover have "base (fst (initUncore env s)) = base s \<and>
      allCPUDefaultPStatesInfo (fst (fst (initUncore env s))) = allCPUDefaultPStatesInfo (fst s)"
    by (auto simp: initUncore_def base_def Let_def dest!: u read_eqs
        split: prod.splits bool.splits res.splits list.splits)
  moreover have "base (fst (initEpp env s)) = base s \<and>
      allCPUDefaultPStatesInfo (fst (fst (initEpp env s))) = allCPUDefaultPStatesInfo (fst s)"
    by (auto simp: initEpp_def base_def dest!: read_eqs split: prod.splits)
  ultimately show "base (fst (init_feature env f s)) = base s"
    "allCPUDefaultPStatesInfo (fst (fst (init_feature env f s))) = allCPUDefaultPStatesInfo (fst s)"
    using assms by (cases f; simp add: init_feature_def)+
qed


lemma initScalingDriver_base:
  "base (fst (initScalingDriver env s)) = base s"
  "snd (initScalingDriver env s) = Ok status \<Longrightarrow> fs_err status = None \<Longrightarrow> no_read_faults env \<Longrightarrow>
   length (allCPUDefaultPStatesInfo (fst (fst (initScalingDriver env s)))) =
     snd (getNumberOfCpus env (fst s) (snd s))"
proof -
  obtain g sy where s: "s = (g, sy)" by (cases s)
  obtain sy1 govs where govs: "initAvailableGovernors env g sy = (sy1, govs)" by fastforce
  define g1 where "g1 = g\<lparr>availableGovs := (case govs of Ok x \<Rightarrow> x | _ \<Rightarrow> [])\<rparr>"
  obtain sy2 drv where drv: "readCpuStringProperty env g1 0 pStatesDrvFile sy1 = (sy2, drv)" by fastforce
  have b: "base (g1, sy2) = base s"
    using govs drv by (auto simp: s base_def g1_def dest!: read_eqs)
  note gen = generateDefaultPStates_base[of env "(g1, sy2)"]
  have r: "initScalingDriver env s = generated \<or> fst (initScalingDriver env s) = (g1, sy2) \<and>
       (\<forall>st. snd (initScalingDriver env s) = Ok st \<longrightarrow> fs_err st \<noteq> None)"
    if "generated = (case generateDefaultPStates env (g1, sy2) of
              (s, Ok _) \<Rightarrow> (s, Ok \<lparr>fs_name = ''Frequency-Scaling'',
                 fs_driver = (case drv of Ok d \<Rightarrow> d | _ \<Rightarrow> []), fs_err = None\<rparr>)
            | (s, Error e) \<Rightarrow>
                (s, Ok \<lparr>fs_name = ''Frequency-Scaling'', fs_driver = (case drv of Ok d \<Rightarrow> d | _ \<Rightarrow> []),
                        fs_err = Some (Wrapf ''failed to read default frequenices'' e)\<rparr>)
            | (s, Panic m) \<Rightarrow> (s, Panic m))" for generated
    using that unfolding initScalingDriver_def s Let_def govs prod.case g1_def[symmetric] drv
    by auto
  show "base (fst (initScalingDriver env s)) = base s"
    using r[OF refl] b gen by (auto split: prod.splits res.splits)
  assume ok: "snd (initScalingDriver env s) = Ok status" "fs_err status = None" "no_read_faults env"
  then have "initScalingDriver env s = (fst (generateDefaultPStates env (g1, sy2)), Ok status) \<and>
      snd (generateDefaultPStates env (g1, sy2)) = Ok ()"
    using r[OF refl] by (auto split: prod.splits res.splits)
  then show "length (allCPUDefaultPStatesInfo (fst (fst (initScalingDriver env s)))) =
     snd (getNumberOfCpus env (fst s) (snd s))"
    using generateDefaultPStates_length[of env g1 sy2] numCpus_base[OF ok(3), of g1 sy2 g sy] b s by simp
qed

text \<open>
  After initialisation a supported frequency scaling feature has the defaults of every CPU.
\<close>

definition features_ok :: "env \<Rightarrow> nat \<Rightarrow> pkgvars \<times> sys \<Rightarrow> bool" where
  "features_ok env n s =
     (snd (getNumberOfCpus env (fst s) (snd s)) = n \<and>
      (isFeatureIdSupported (fst s) FrequencyScalingFeature \<longrightarrow>
         length (allCPUDefaultPStatesInfo (fst s)) = n))"

lemma numCpus_features: "getNumberOfCpus env (g\<lparr>featureList := x\<rparr>) sy = getNumberOfCpus env g sy"
  by (cases "confCores g") (simp_all add: getNumberOfCpus_def)

lemma init_step_ok:
  assumes "no_read_faults env" and "features_ok env n (fst t)" and "init_step env f t = (t', Ok ())"
  shows "features_ok env n (fst t')"
proof -
  obtain s errs where t: "t = (s, errs)" by (cases t)
  obtain g sy st where i: "init_feature env f s = ((g, sy), Ok st)"
    and t': "fst t' = (g\<lparr>featureList := (featureList g)(f \<mapsto> st)\<rparr>, sy)"
    using assms(3) by (auto simp: t init_step_def split: prod.splits res.splits)
  have b: "base (g, sy) = base s"
    using i initScalingDriver_base(1)[of env s] init_others_base(1)[of f env s]
    by (cases "f = FrequencyScalingFeature") (auto simp: init_feature_def)
  have n: "snd (getNumberOfCpus env g sy) = n"
    using numCpus_base[OF assms(1), of g sy "fst s" "snd s"] b assms(2) by (simp add: t features_ok_def)
  show ?thesis
  proof (cases "f = FrequencyScalingFeature")
    case True
    then have "initScalingDriver env s = ((g, sy), Ok st)" using i by (simp add: init_feature_def)
    then have "fs_err st = None \<longrightarrow> length (allCPUDefaultPStatesInfo g) = n"
      using initScalingDriver_base(2)[of env s st] assms(1,2) by (simp add: t features_ok_def)
    then show ?thesis using t' n True
      by (simp add: features_ok_def numCpus_features isFeatureIdSupported_def isSupported_def)
  next
    case False
    have "allCPUDefaultPStatesInfo g = allCPUDefaultPStatesInfo (fst s)" "featureList g = featureList (fst s)"
      using init_others_base[OF False, of env s] i by (auto simp: base_def)
    then show ?thesis using t' n False assms(2)
      by (simp add: t features_ok_def numCpus_features isFeatureIdSupported_def)
  qed
qed


section \<open>Discovery: facts\<close>

text \<open>What adding a CPU keeps of the package variables, and that it records a core type.\<close>

definition grown :: "pkgvars \<Rightarrow> pkgvars \<Rightarrow> bool" where
  "grown g g' \<longleftrightarrow> featureList g' = featureList g \<and>
     allCPUDefaultPStatesInfo g' = allCPUDefaultPStatesInfo g \<and> set (coreTypes g) \<subseteq> set (coreTypes g')"

lemma grown_refl [simp]: "grown g g"
  by (simp add: grown_def)

lemma grown_trans: "grown a b \<Longrightarrow> grown b c \<Longrightarrow> grown a c"
  by (auto simp: grown_def)

lemma reading_Ok: "reading f s = (s', Ok a) \<Longrightarrow> fst s' = fst s"
  by (auto simp: reading_def split: prod.splits)

lemma newCpu_Ok:
  assumes "newCpu env c co s = (s', Ok co')"
  shows "grown (fst s) (fst s') \<and>
    (isFeatureIdSupported (fst s) FrequencyScalingFeature \<longrightarrow> coreTypes (fst s') \<noteq> [])"
proof (cases "isFeatureIdSupported (fst s) FrequencyScalingFeature")
  case True
  then obtain t mn mx where t: "reading (\<lambda>g. readCpuFreqLimits env g c) s = (t, Ok (mn, mx))"
      "(case t of (g, sy) \<Rightarrow> case appendIfUnique (coreTypes g) mn mx of
         (l, i) \<Rightarrow> ((g\<lparr>coreTypes := l\<rparr>, sy), Ok (co\<lparr>coreType := i\<rparr>))) = (s', Ok co')"
    using assms by (auto simp: newCpu_def then_do_Ok_iff)
  obtain g sy where g: "t = (g, sy)" by (cases t)
  obtain l i where l: "appendIfUnique (coreTypes g) mn mx = (l, i)" by fastforce
  have "fst s' = g\<lparr>coreTypes := l\<rparr>" using t(2) g l by auto
  moreover have "g = fst s" using reading_Ok[OF t(1)] g by simp
  ultimately show ?thesis using appendIfUnique_spec[OF l] by (auto simp: grown_def)
qed (use assms in \<open>simp add: newCpu_def\<close>)

lemma die_addCpu_Ok:
  assumes "die_addCpu env c d s = (s', Ok d')"
  shows "d_id d' = d_id d \<and> grown (fst s) (fst s') \<and>
    (isFeatureIdSupported (fst s) FrequencyScalingFeature \<longrightarrow> coreTypes (fst s') \<noteq> [])"
  using assms newCpu_Ok
  by (fastforce simp: die_addCpu_def core_addCpu_def then_do_Ok_iff dest: reading_Ok)

lemma cluster_addCpu_Ok:
  assumes "cluster_addCpu env c d s = (s', Ok d')"
  shows "grown (fst s) (fst s') \<and>
    (isFeatureIdSupported (fst s) FrequencyScalingFeature \<longrightarrow> coreTypes (fst s') \<noteq> [])"
  using assms newCpu_Ok
  by (fastforce simp: cluster_addCpu_def core_addCpu_def then_do_Ok_iff dest: reading_Ok)

definition known_arch :: "string \<Rightarrow> bool" where
  "known_arch a = (a = ''x86_64'' \<or> a = ''aarch64'')"

text \<open>A package in a topology of dies with their own ids.\<close>

definition package_ok :: "nat \<Rightarrow> package \<Rightarrow> bool" where
  "package_ok i pk = (pk_id pk = i \<and> distinct (map fst (pk_dies pk)) \<and> (\<forall>(j, d) \<in> set (pk_dies pk). d_id d = j))"

lemma topo_ok_alt: "topo_ok t \<longleftrightarrow> distinct (map fst (packages t)) \<and> (\<forall>(i, pk) \<in> set (packages t). package_ok i pk)"
  by (simp add: topo_ok_def package_ok_def)

lemma package_addCpu_Ok:
  assumes "package_addCpu env arch c pk s = (s', Ok (pk', cpu))" and "package_ok i pk"
  shows "arch \<noteq> [] \<and> cpu = (if known_arch arch then Some c else None) \<and> package_ok i pk' \<and>
    grown (fst s) (fst s') \<and>
    (known_arch arch \<and> isFeatureIdSupported (fst s) FrequencyScalingFeature \<longrightarrow> coreTypes (fst s') \<noteq> [])"
proof (cases "arch = ''x86_64''")
  case True
  then obtain dieId t d where t: "reading (\<lambda>g. readCpuUintProperty env g c dieIdFile) s = (t, Ok dieId)"
      "die_addCpu env c (the_default (new_die dieId) (map_of (pk_dies pk) dieId)) t = (s', Ok d)"
    and pk': "pk' = pk\<lparr>pk_dies := AList.update dieId d (pk_dies pk), pk_cpus := pk_cpus pk @ [Some c]\<rparr>"
    and cpu: "cpu = Some c"
    using assms(1) by (auto simp: package_addCpu_def then_do_Ok_iff)
  have "d_id (the_default (new_die dieId) (map_of (pk_dies pk) dieId)) = dieId"
    using assms(2) by (cases "map_of (pk_dies pk) dieId")
      (auto simp: new_die_def package_ok_def dest: map_of_SomeD)
  then have "package_ok i pk'"
    using assms(2) die_addCpu_Ok[OF t(2)] set_update[of "pk_dies pk" dieId d]
    by (auto simp: pk' package_ok_def distinct_update)
  then show ?thesis using True cpu die_addCpu_Ok[OF t(2)] reading_Ok[OF t(1)] by (simp add: known_arch_def)
next
  case False
  show ?thesis
  proof (cases "arch = ''aarch64''")
    case True
    then obtain i' t d where t: "reading (\<lambda>g. readCpuUintProperty env g c clusterIdFile) s = (t, Ok i')"
      "cluster_addCpu env c (the_default (new_cluster i') (map_of (pk_clusters pk) i')) t = (s', Ok d)"
      "pk' = pk\<lparr>pk_clusters := AList.update i' d (pk_clusters pk), pk_cpus := pk_cpus pk @ [Some c]\<rparr>"
      "cpu = Some c"
      using assms(1) by (auto simp: package_addCpu_def then_do_Ok_iff)
    then show ?thesis using True assms(2) cluster_addCpu_Ok[OF t(2)] reading_Ok[OF t(1)]
      by (simp add: known_arch_def package_ok_def)
  next
    case no: False
    then show ?thesis using False assms
      by (auto simp: package_addCpu_def known_arch_def package_ok_def split: if_splits)
  qed
qed

lemma topology_addCpu_Ok:
  assumes "topology_addCpu env c (t, s) = ((t', s'), Ok ())" and "topo_ok t"
  shows "topo_ok t' \<and> architecture t' = architecture t \<and> architecture t \<noteq> [] \<and>
    t_allCpus t' = (t_allCpus t)[c := if known_arch (architecture t) then Some c else None] \<and>
    grown (fst s) (fst s') \<and>
    (known_arch (architecture t) \<and> isFeatureIdSupported (fst s) FrequencyScalingFeature \<longrightarrow>
       coreTypes (fst s') \<noteq> [])"
proof -
  obtain i u pk cpu where u: "reading (\<lambda>g. readCpuUintProperty env g c packageIdFile) s = (u, Ok i)"
    "package_addCpu env (architecture t) c (the_default (new_package i) (map_of (packages t) i)) u =
       (s', Ok (pk, cpu))"
    and t': "t' = t\<lparr>packages := AList.update i pk (packages t), t_allCpus := (t_allCpus t)[c := cpu]\<rparr>"
    using assms(1) by (auto simp: topology_addCpu_def split: prod.splits res.splits)
  have "package_ok i (the_default (new_package i) (map_of (packages t) i))"
    using assms(2) by (cases "map_of (packages t) i")
      (auto simp: new_package_def package_ok_def topo_ok_def dest!: map_of_SomeD)
  note p = package_addCpu_Ok[OF u(2) this]
  have "distinct (map fst (packages t))" using assms(2) by (simp add: topo_ok_alt)
  then have "topo_ok t'" using assms(2) p set_update[of "packages t" i pk]
    by (auto simp: t' topo_ok_alt distinct_update)
  then show ?thesis using p reading_Ok[OF u(1)] by (simp add: t')
qed


lemma discoverTopology_Ok:
  assumes "discoverTopology env arch (g, sy) = ((t, g', sy'), Ok ())"
    and "n = snd (getNumberOfCpus env g sy)"
  shows "topo_ok t \<and> architecture t = arch \<and> grown g g' \<and>
    t_allCpus t = map (\<lambda>i. if known_arch arch then Some i else None) [0..<n] \<and>
    (known_arch arch \<and> isFeatureIdSupported g FrequencyScalingFeature \<and> 0 < n \<longrightarrow> coreTypes g' \<noteq> [])"
proof -
  obtain sy0 where sy0: "getNumberOfCpus env g sy = (sy0, n)" using assms(2) by (metis prod.collapse)
  let ?t = "\<lparr>packages = [], t_allCpus = replicate n None, t_uncore = Some (defaultUncore g), architecture = arch\<rparr>"
  have f: "foreach (topology_addCpu env) [0..<n] (?t, g, sy0) = ((t, g', sy'), Ok ())"
    using assms(1) by (auto simp: discoverTopology_def sy0 Let_def split: if_splits)
  define I where "I = (\<lambda>s :: topology \<times> pkgvars \<times> sys. topo_ok (fst s) \<and> architecture (fst s) = arch \<and>
      grown g (fst (snd s)) \<and> length (t_allCpus (fst s)) = n)"
  have init: "I (?t, g, sy0)" by (simp add: I_def topo_ok_def)
  have step: "I s' \<and> t_allCpus (fst s') = (t_allCpus (fst s))[c := if known_arch arch then Some c else None] \<and>
      (known_arch arch \<and> isFeatureIdSupported g FrequencyScalingFeature \<longrightarrow> coreTypes (fst (snd s')) \<noteq> [])"
    if "I s" "topology_addCpu env c s = (s', Ok ())" for c s s'
  proof -
    obtain a b a' b' where s: "s = (a, b)" "s' = (a', b')" by (metis prod.collapse)
    have ok: "topo_ok a" "architecture a = arch" "grown g (fst b)" "length (t_allCpus a) = n"
      using that(1) by (simp_all add: s I_def)
    then have "isFeatureIdSupported (fst b) = isFeatureIdSupported g"
      by (auto simp: grown_def isFeatureIdSupported_def fun_eq_iff)
    then show ?thesis using topology_addCpu_Ok[of env c a b a' b'] that(2) ok grown_trans[OF ok(3)]
      by (simp add: s I_def)
  qed
  have It: "I (t, g', sy')" by (rule foreach_keeps[where P = I, OF f init]) (use step in blast)
  have all: "\<forall>c \<in> set [0..<n]. t_allCpus (fst (t, g', sy')) ! c = (if known_arch arch then Some c else None) \<and>
      (known_arch arch \<and> isFeatureIdSupported g FrequencyScalingFeature \<longrightarrow> coreTypes (fst (snd (t, g', sy'))) \<noteq> [])"
  proof (rule foreach_establishes_inv[where I = I and key = id, OF f _ init])
    show "I s'" if "c \<in> set [0..<n]" "I s" "topology_addCpu env c s = (s', Ok ())" for c s s'
      using step that by blast
    show "t_allCpus (fst s') ! c = (if known_arch arch then Some c else None) \<and>
      (known_arch arch \<and> isFeatureIdSupported g FrequencyScalingFeature \<longrightarrow> coreTypes (fst (snd s')) \<noteq> [])"
      if "c \<in> set [0..<n]" "I s" "topology_addCpu env c s = (s', Ok ())" for c s s'
      using step[OF that(2,3)] that(1,2) by (auto simp: I_def)
    show "t_allCpus (fst s') ! c = (if known_arch arch then Some c else None) \<and>
      (known_arch arch \<and> isFeatureIdSupported g FrequencyScalingFeature \<longrightarrow> coreTypes (fst (snd s')) \<noteq> [])"
      if "c \<in> set [0..<n]" "d \<in> set [0..<n]" "id c \<noteq> id d" "I s"
        "t_allCpus (fst s) ! c = (if known_arch arch then Some c else None) \<and>
         (known_arch arch \<and> isFeatureIdSupported g FrequencyScalingFeature \<longrightarrow> coreTypes (fst (snd s)) \<noteq> [])"
        "topology_addCpu env d s = (s', Ok ())" for c d s s'
      using step[OF that(4,6)] that(1,3,5) by auto
  qed simp
  have "t_allCpus t = map (\<lambda>i. if known_arch arch then Some i else None) [0..<n]"
    using It all by (intro nth_equalityI) (simp_all add: I_def)
  moreover have "coreTypes g' \<noteq> []"
    if "known_arch arch \<and> isFeatureIdSupported g FrequencyScalingFeature \<and> 0 < n"
    using bspec[OF all, of 0] that by simp
  ultimately show ?thesis using It by (simp add: I_def)
qed

lemma FeatureSet_init_ok:
  assumes "no_read_faults env" and "\<not> isFeatureIdSupported (fst s) FrequencyScalingFeature"
    and "FeatureSet_init env order s = (s', Ok r)"
  shows "features_ok env (snd (getNumberOfCpus env (fst s) (snd s))) s'"
proof (cases "order = []")
  case True
  then show ?thesis using assms by (simp add: FeatureSet_init_def features_ok_def)
next
  case False
  let ?n = "snd (getNumberOfCpus env (fst s) (snd s))"
  obtain errs where f: "foreach (init_step env) order (s, []) = ((s', errs), Ok ())"
    using assms(3) False by (cases "foreach (init_step env) order (s, [])")
      (auto simp: FeatureSet_init_def split: prod.splits res.splits)
  have "features_ok env ?n (fst (s', errs))"
  proof (rule foreach_keeps[where P = "\<lambda>t. features_ok env ?n (fst t)", OF f])
    show "features_ok env ?n (fst (s, []))" using assms(2) by (simp add: features_ok_def)
    show "features_ok env ?n (fst u)"
      if "features_ok env ?n (fst t)" "init_step env x t = (u, Ok ())" for x t u
      using that by (rule init_step_ok[OF assms(1)])
  qed
  then show ?thesis by simp
qed

lemma initHost_Ok:
  assumes "initHost env cmd name (g, sy) = ((g', sy'), Ok h)"
  obtains arch vendor t where "SetArchitecture cmd = Ok arch"
    and "discoverTopology env arch (g, sy) = ((t, g', sy'), Ok ())"
    and "None \<notin> set (t_allCpus t)" and "h = new_host name arch vendor t (somes (t_allCpus t)) sy'"
proof -
  obtain arch vendor where a: "SetArchitecture cmd = Ok arch" "SetVendorID cmd = Ok vendor"
    using assms by (auto simp: initHost_def then_do_Ok_iff)
  obtain t gx sx r where d: "discoverTopology env arch (g, sy) = ((t, gx, sx), r)"
    by (metis prod.collapse)
  then show ?thesis using assms a that[of arch t vendor]
    by (cases r) (auto simp: initHost_def list_ex_iff split: if_splits)
qed

section \<open>Properties\<close>

text \<open>
  When \<open>CreateInstance\<close> returns a host, the host satisfies the invariant the pool operations
  rely on: its CPUs are numbered from 0 up to the number of CPUs, all of them are in the reserved
  pool and in no other, there is no exclusive pool, the topology has consistent ids, and the
  package variables hold what the writing of frequencies needs. Reads of files are assumed not to
  fail intermittently.
\<close>
theorem CreateInstance_establishes_invariant:
  assumes "no_read_faults env" and "\<not> isFeatureIdSupported g FrequencyScalingFeature"
    and "CreateInstance env cmd order name (g, sy) = ((g', sy'), Ok (Some h, e))"
  shows "host_inv g' h \<and> allCpus h = [0..<snd (getNumberOfCpus env g sy)] \<and>
    p_cpus (pools h ReservedPool) = allCpus h \<and> p_cpus (pools h SharedPool) = [] \<and>
    exclusivePools h = [] \<and> (\<forall>c. cpu_pool h c = ReservedPool) \<and> topo_ok (h_topo h) \<and>
    (allCpus h \<noteq> [] \<longrightarrow> h_arch h \<in> {''x86_64'', ''aarch64''})"
proof -
  define n where "n = snd (getNumberOfCpus env g sy)"
  obtain g1 sy1 r where i: "FeatureSet_init env order (g, sy) = ((g1, sy1), Ok r)"
    and h: "initHost env cmd name (g1, sy1) = ((g', sy'), Ok h)"
    using assms(3) by (auto simp: CreateInstance_def split: prod.splits res.splits if_splits)
  have fo: "features_ok env n (g1, sy1)"
    using FeatureSet_init_ok[OF assms(1) _ i] assms(2) by (simp add: n_def)
  obtain arch vendor t where t: "discoverTopology env arch (g1, sy1) = ((t, g', sy'), Ok ())"
    "None \<notin> set (t_allCpus t)" and hh: "h = new_host name arch vendor t (somes (t_allCpus t)) sy'"
    using initHost_Ok[OF h] by metis
  have n1: "n = snd (getNumberOfCpus env g1 sy1)" using fo by (simp add: features_ok_def)
  note d = discoverTopology_Ok[OF t(1) n1]
  have k: "n = 0 \<or> known_arch arch" using d t(2) by (cases "known_arch arch") (auto split: if_splits)
  then have cs: "somes (t_allCpus t) = [0..<n]" using d by auto
  have "isFeatureIdSupported g' = isFeatureIdSupported g1" using d
    by (auto simp: grown_def isFeatureIdSupported_def fun_eq_iff)
  then have "\<forall>c < n. lib_ok g' c"
    using fo d k by (auto simp: features_ok_def lib_ok_def grown_def)
  then have "host_inv g' h" by (auto simp: hh new_host_def host_inv_def pool_inv_def cs)
  then show ?thesis using d k by (auto simp: hh new_host_def cs n_def known_arch_def)
qed

text \<open>A machine with one CPU, whose files are a list, and the output of \<open>lscpu\<close>.\<close>

definition boot_vars :: pkgvars where
  "boot_vars = \<lparr>basePath = ''/c'', kernelModulesFilePath = ''/proc/modules'',
     featureList = (\<lambda>f. Some \<lparr>fs_name = [], fs_driver = [], fs_err = Some uninitialisedErr\<rparr>),
     coreTypes = [], allCPUDefaultPStatesInfo = [], availableGovs = [], allCPUCStatesInfo = [],
     defaultUncore = (0, 0), confCores = Some 1\<rparr>"

definition boot_sys :: sys where
  "boot_sys = \<lparr>files = map_of
     [(''/c/cpu0/cpufreq/scaling_driver'', ''intel_pstate''),
      (''/c/cpu0/cpufreq/scaling_available_governors'', ''performance powersave''),
      (''/c/cpu0/cpufreq/cpuinfo_max_freq'', ''9''), (''/c/cpu0/cpufreq/cpuinfo_min_freq'', ''2''),
      (''/c/cpu0/topology/physical_package_id'', ''0''), (''/c/cpu0/topology/die_id'', ''0''),
      (''/c/cpu0/topology/core_id'', ''0'')], clock = 0\<rparr>"

definition lscpu :: "string \<Rightarrow> string \<Rightarrow> (string \<times> string) res" where
  "lscpu arch c = Ok (if str_contains c ''Architecture'' then arch else ''GenuineIntel'', [])"

definition all_features :: "featureID list" where
  "all_features = [EPPFeature, FrequencyScalingFeature, CStatesFeature, UncoreFeature]"

lemma boot_run:
  "case snd (CreateInstance env0 (lscpu ''x86_64'') all_features ''n'' (boot_vars, boot_sys)) of
     Ok (Some h, e) \<Rightarrow> True | _ \<Rightarrow> False"
  by code_simp

theorem CreateInstance_establishes_invariant_witness:
  "\<exists>g' h. host_inv g' h \<and> allCpus h = [0] \<and> p_cpus (pools h ReservedPool) = [0]"
proof -
  obtain g' sy' h e where
    "CreateInstance env0 (lscpu ''x86_64'') all_features ''n'' (boot_vars, boot_sys) = ((g', sy'), Ok (Some h, e))"
    using boot_run
    by (cases "CreateInstance env0 (lscpu ''x86_64'') all_features ''n'' (boot_vars, boot_sys)")
       (auto split: res.splits option.splits)
  moreover have "no_read_faults env0" by (simp add: no_read_faults_def env0_def)
  moreover have "\<not> isFeatureIdSupported boot_vars FrequencyScalingFeature"
    by (simp add: boot_vars_def isFeatureIdSupported_def isSupported_def)
  moreover have "snd (getNumberOfCpus env0 boot_vars boot_sys) = 1"
    by (simp add: getNumberOfCpus_def boot_vars_def)
  ultimately show ?thesis using CreateInstance_establishes_invariant by fastforce
qed

text \<open>
  On an architecture other than x86_64 and aarch64 the discovery does not fail, but leaves nil
  CPUs in its lists, and \<open>initHost\<close> ends in a panic instead of an error.
\<close>
theorem unknown_architecture_panics:
  assumes "SetArchitecture cmd = Ok arch" and "SetVendorID cmd = Ok vendor" and "\<not> known_arch arch"
    and "snd (discoverTopology env arch (g, sy)) = Ok ()" and "0 < snd (getNumberOfCpus env g sy)"
  shows "is_panic (snd (initHost env cmd name (g, sy)))"
proof -
  obtain t g' sy' where t: "discoverTopology env arch (g, sy) = ((t, g', sy'), Ok ())"
    using assms(4) by (metis prod.collapse)
  from discoverTopology_Ok[OF t refl] assms(3,5)
  have "list_ex (\<lambda>c. c = None) (t_allCpus t)"
    by (auto simp: list_ex_iff intro!: bexI[of _ 0])
  then show ?thesis using assms(1,2) t by (simp add: initHost_def)
qed


theorem unknown_architecture_panics_witness:
  "is_panic (snd (initHost env0 (lscpu ''ppc64le'') ''n'' (boot_vars, boot_sys)))"
proof -
  have "SetArchitecture (lscpu ''ppc64le'') = Ok ''ppc64le''" "SetVendorID (lscpu ''ppc64le'') = Ok ''GenuineIntel''"
    "\<not> known_arch ''ppc64le''" by code_simp+
  moreover have "snd (discoverTopology env0 ''ppc64le'' (boot_vars, boot_sys)) = Ok ()" by code_simp
  moreover have "0 < snd (getNumberOfCpus env0 boot_vars boot_sys)" by code_simp
  ultimately show ?thesis by (rule unknown_architecture_panics)
qed

end
