(* ===== verification/Topology_Access.thy ===== *)
theory Topology_Access
  imports Host "HOL-Library.Multiset"
begin

text \<open>
  The accessors of the topology (\<open>topology.go\<close>) and of the host, and what a client that walks down from the
  machine to its cores finds: the packages partition the CPUs, the dies or clusters of a package
  partition the CPUs of the package, and the cores of a die or cluster partition those of the die.
\<close>

section \<open>Accessors\<close>

text \<open>A lookup with an id that is not there gives nil (\<open>None\<close>).\<close>

definition Topology_CPUs :: "topology \<Rightarrow> nat option list" where
  "Topology_CPUs s = t_allCpus s"

definition Topology_Packages :: "topology \<Rightarrow> package list" where
  "Topology_Packages s = map snd (packages s)"

definition Topology_Package :: "topology \<Rightarrow> nat \<Rightarrow> package option" where
  "Topology_Package s i = map_of (packages s) i"

definition Package_Dies :: "package \<Rightarrow> die list" where
  "Package_Dies c = map snd (pk_dies c)"

definition Package_Die :: "package \<Rightarrow> nat \<Rightarrow> die option" where
  "Package_Die c i = map_of (pk_dies c) i"

definition Package_CPUs :: "package \<Rightarrow> nat option list" where
  "Package_CPUs c = pk_cpus c"

definition Package_getID :: "package \<Rightarrow> nat" where
  "Package_getID c = pk_id c"

definition Die_Cores :: "die \<Rightarrow> core list" where
  "Die_Cores d = map snd (d_cores d)"

definition Die_Core :: "die \<Rightarrow> nat \<Rightarrow> core option" where
  "Die_Core d i = map_of (d_cores d) i"

definition Die_CPUs :: "die \<Rightarrow> nat list" where
  "Die_CPUs d = d_cpus d"

definition Die_getID :: "die \<Rightarrow> nat" where
  "Die_getID d = d_id d"

definition Cluster_Cores :: "cluster \<Rightarrow> core list" where
  "Cluster_Cores c = map snd (cl_cores c)"

definition Cluster_Core :: "cluster \<Rightarrow> nat \<Rightarrow> core option" where
  "Cluster_Core c i = map_of (cl_cores c) i"

definition Cluster_CPUs :: "cluster \<Rightarrow> nat list" where
  "Cluster_CPUs c = cl_cpus c"

definition Core_CPUs :: "core \<Rightarrow> nat list" where
  "Core_CPUs c = core_cpus c"

definition Core_GetType :: "core \<Rightarrow> nat" where
  "Core_GetType c = coreType c"

section \<open>Sums over the entries of a map\<close>

definition entries :: "('x \<Rightarrow> 'c multiset) \<Rightarrow> (nat \<times> 'x) list \<Rightarrow> 'c multiset" where
  "entries f xs = sum_list (map (f \<circ> snd) xs)"

text \<open>One element is added to the entry of a key, which is new and empty if it was not there.\<close>

lemma entries_add:
  assumes "distinct (map fst xs)" and "f (the_default e (map_of xs k)) + {#c#} = f y" and "f e = {#}"
  shows "entries f (AList.update k y xs) = entries f xs + {#c#}"
  using assms
proof (induction xs)
  case (Cons x xs)
  then show ?case
  proof (cases "fst x = k")
    case True
    then show ?thesis using Cons.prems(2) by (cases x) (auto simp: entries_def ac_simps)
  next
    case False
    then show ?thesis using Cons by (cases x) (auto simp: entries_def ac_simps)
  qed
qed (simp add: entries_def)

text \<open>A set of elements that is spread over the entries without repetition: each is in one of them.\<close>

lemma entry_le: "map_of xs i = Some x \<Longrightarrow> count (f x) c \<le> count (entries f xs) c"
proof (induction xs)
  case (Cons y ys)
  then show ?case by (cases y) (auto simp: entries_def split: if_splits)
qed simp

lemma entries_one:
  assumes "distinct (map fst xs)" and "count (entries f xs) c = 1"
  shows "\<exists>!i. \<exists>x. map_of xs i = Some x \<and> c \<in># f x"
  using assms
proof (induction xs)
  case (Cons y ys)
  obtain k x where y: "y = (k, x)" by (cases y)
  have s: "count (f x) c + count (entries f ys) c = 1" using Cons.prems(2) by (simp add: y entries_def)
  have k: "map_of ys k = None" using Cons.prems(1) by (simp add: y map_of_eq_None_iff)
  show ?case
  proof (cases "c \<in># f x")
    case True
    then have z: "count (entries f ys) c = 0" using s count_greater_zero_iff[of "f x" c] by linarith
    have "c \<notin># f x'" if "map_of ys i = Some x'" for i x'
      using entry_le[OF that, of f c] z by (simp add: not_in_iff)
    then show ?thesis using True by (intro ex1I[of _ k]) (auto simp: y split: if_split_asm)
  next
    case False
    then have "count (entries f ys) c = 1" using s by (simp add: not_in_iff)
    then have e: "\<exists>!i. \<exists>x. map_of ys i = Some x \<and> c \<in># f x" using Cons.IH Cons.prems(1) by (simp add: y)
    have "(\<exists>z. map_of (y # ys) i = Some z \<and> c \<in># f z) \<longleftrightarrow> (\<exists>z. map_of ys i = Some z \<and> c \<in># f z)" for i
      using False k by (simp add: y)
    then show ?thesis using e by simp
  qed
qed (simp add: entries_def)

text \<open>The CPUs of a list, spread over the entries of a map.\<close>

definition spread :: "nat list \<Rightarrow> ('x \<Rightarrow> nat list) \<Rightarrow> (nat \<times> 'x) list \<Rightarrow> bool" where
  "spread cs f xs = (entries (\<lambda>x. mset (f x)) xs = mset cs)"

lemma spread_add:
  assumes "spread cs f xs" and "distinct (map fst xs)" and "f y = f (the_default e (map_of xs k)) @ [c]" and "f e = []"
  shows "spread (cs @ [c]) f (AList.update k y xs)"
  using entries_add[OF assms(2), of "\<lambda>x. mset (f x)" e k c y] assms(1,3,4) by (simp add: spread_def)

lemma spread_partition:
  assumes "spread cs f xs" and "distinct (map fst xs)" and "distinct cs"
  shows "c \<in> set cs \<Longrightarrow> \<exists>!i. \<exists>x. map_of xs i = Some x \<and> c \<in> set (f x)"
    and "map_of xs i = Some x \<Longrightarrow> set (f x) \<subseteq> set cs \<and> distinct (f x)"
proof -
  show "\<exists>!i. \<exists>x. map_of xs i = Some x \<and> c \<in> set (f x)" if "c \<in> set cs"
    using entries_one[OF assms(2), of "\<lambda>x. mset (f x)" c] assms(1,3) that by (simp add: spread_def distinct_count_atmost_1)
  have le: "count (mset (f x)) c \<le> count (mset cs) c" if "map_of xs i = Some x" for c
    using entry_le[OF that, of "\<lambda>x. mset (f x)" c] assms(1) by (simp add: spread_def)
  show "set (f x) \<subseteq> set cs \<and> distinct (f x)" if x: "map_of xs i = Some x"
  proof
    show "set (f x) \<subseteq> set cs" using le[OF x] by (metis count_mset_0_iff le_zero_eq subsetI)
    have "count (mset cs) c \<le> 1" for c using assms(3)[unfolded distinct_count_atmost_1] by (metis le_refl zero_le)
    then have "count (mset (f x)) c \<le> 1" for c using le[OF x, of c] by (meson le_trans)
    then show "distinct (f x)" unfolding distinct_count_atmost_1 by (metis count_mset_0_iff le_SucE One_nat_def le_zero_eq)
  qed
qed

section \<open>What discovery builds\<close>

definition cores_ok :: "nat list \<Rightarrow> (nat \<times> core) list \<Rightarrow> bool" where
  "cores_ok cs xs = (distinct (map fst xs) \<and> (\<forall>(k, co) \<in> set xs. core_id co = k) \<and> spread cs core_cpus xs)"

definition dies_ok :: "package \<Rightarrow> bool" where
  "dies_ok pk = (distinct (map fst (pk_dies pk)) \<and> (\<forall>(j, d) \<in> set (pk_dies pk). d_id d = j \<and> cores_ok (d_cpus d) (d_cores d)) \<and>
     spread (somes (pk_cpus pk)) d_cpus (pk_dies pk))"

definition clusters_ok :: "package \<Rightarrow> bool" where
  "clusters_ok pk = (distinct (map fst (pk_clusters pk)) \<and>
     (\<forall>(j, cl) \<in> set (pk_clusters pk). cl_id cl = j \<and> cores_ok (cl_cpus cl) (cl_cores cl)) \<and>
     spread (somes (pk_cpus pk)) cl_cpus (pk_clusters pk))"

definition tree_ok :: "nat list \<Rightarrow> topology \<Rightarrow> bool" where
  "tree_ok cs t = (distinct (map fst (packages t)) \<and>
     (\<forall>(i, pk) \<in> set (packages t). pk_id pk = i \<and> (if architecture t = ''x86_64'' then dies_ok pk else clusters_ok pk)) \<and>
     spread cs (\<lambda>pk. somes (pk_cpus pk)) (packages t))"

lemma cores_ok_add:
  assumes "cores_ok cs xs" and "core_cpus co = core_cpus (the_default (new_core k) (map_of xs k)) @ [c]"
    and "core_id co = core_id (the_default (new_core k) (map_of xs k))"
  shows "cores_ok (cs @ [c]) (AList.update k co xs)"
proof -
  have "core_id co = k" using assms(1,3)
    by (cases "map_of xs k") (auto simp: cores_ok_def new_core_def dest!: map_of_SomeD)
  moreover have "spread (cs @ [c]) core_cpus (AList.update k co xs)"
    using spread_add[OF _ _ assms(2)] assms(1) by (simp add: cores_ok_def new_core_def)
  ultimately show ?thesis using assms(1) set_update[of xs k co] by (auto simp: cores_ok_def distinct_update)
qed

lemma core_addCpu_cpus: "core_addCpu env c co s = (s', Ok co') \<Longrightarrow> core_cpus co' = core_cpus co @ [c] \<and> core_id co' = core_id co"
  by (auto simp: core_addCpu_def newCpu_def then_do_Ok_iff split_beta split: if_splits)

lemma die_addCpu_ok:
  assumes "die_addCpu env c d s = (s', Ok d')" and "cores_ok (d_cpus d) (d_cores d)"
  shows "d_cpus d' = d_cpus d @ [c] \<and> d_id d' = d_id d \<and> cores_ok (d_cpus d') (d_cores d')"
  using assms(1) cores_ok_add[OF assms(2)] core_addCpu_cpus by (fastforce simp: die_addCpu_def then_do_Ok_iff)

lemma cluster_addCpu_ok:
  assumes "cluster_addCpu env c d s = (s', Ok d')" and "cores_ok (cl_cpus d) (cl_cores d)"
  shows "cl_cpus d' = cl_cpus d @ [c] \<and> cl_id d' = cl_id d \<and> cores_ok (cl_cpus d') (cl_cores d')"
  using assms(1) cores_ok_add[OF assms(2)] core_addCpu_cpus by (fastforce simp: cluster_addCpu_def then_do_Ok_iff)

lemma somes_append [simp]: "somes (xs @ ys) = somes xs @ somes ys"
  by (induction xs rule: somes.induct) simp_all

lemma package_addCpu_tree:
  assumes "package_addCpu env arch c pk s = (s', Ok (pk', cpu))" and "known_arch arch"
    and "if arch = ''x86_64'' then dies_ok pk else clusters_ok pk"
  shows "(if arch = ''x86_64'' then dies_ok pk' else clusters_ok pk') \<and> pk_id pk' = pk_id pk \<and>
    somes (pk_cpus pk') = somes (pk_cpus pk) @ [c]"
proof (cases "arch = ''x86_64''")
  case True
  then obtain j t d where t: "die_addCpu env c (the_default (new_die j) (map_of (pk_dies pk) j)) t = (s', Ok d)"
    and pk': "pk' = pk\<lparr>pk_dies := AList.update j d (pk_dies pk), pk_cpus := pk_cpus pk @ [Some c]\<rparr>"
    using assms(1) by (auto simp: package_addCpu_def then_do_Ok_iff)
  have ok: "dies_ok pk" using assms(3) True by simp
  let ?d = "the_default (new_die j) (map_of (pk_dies pk) j)"
  have d0: "d_id ?d = j" "cores_ok (d_cpus ?d) (d_cores ?d)"
    using ok by (cases "map_of (pk_dies pk) j";
      auto simp: dies_ok_def new_die_def cores_ok_def spread_def entries_def dest!: map_of_SomeD)+
  have d: "d_cpus d = d_cpus ?d @ [c]" "d_id d = j" "cores_ok (d_cpus d) (d_cores d)" using die_addCpu_ok[OF t d0(2)] d0(1) by auto
  have "spread (somes (pk_cpus pk) @ [c]) d_cpus (AList.update j d (pk_dies pk))"
    using spread_add[OF _ _ d(1)] ok by (simp add: dies_ok_def new_die_def)
  then have "dies_ok pk'" using ok d set_update[of "pk_dies pk" j d] by (auto simp: pk' dies_ok_def distinct_update)
  then show ?thesis using True by (simp add: pk')
next
  case False
  then have arch: "arch = ''aarch64''" using assms(2) by (simp add: known_arch_def)
  then obtain j t d where t: "cluster_addCpu env c (the_default (new_cluster j) (map_of (pk_clusters pk) j)) t = (s', Ok d)"
    and pk': "pk' = pk\<lparr>pk_clusters := AList.update j d (pk_clusters pk), pk_cpus := pk_cpus pk @ [Some c]\<rparr>"
    using assms(1) by (auto simp: package_addCpu_def then_do_Ok_iff)
  have ok: "clusters_ok pk" using assms(3) False by simp
  let ?d = "the_default (new_cluster j) (map_of (pk_clusters pk) j)"
  have d0: "cl_id ?d = j" "cores_ok (cl_cpus ?d) (cl_cores ?d)"
    using ok by (cases "map_of (pk_clusters pk) j";
      auto simp: clusters_ok_def new_cluster_def cores_ok_def spread_def entries_def dest!: map_of_SomeD)+
  have d: "cl_cpus d = cl_cpus ?d @ [c]" "cl_id d = j" "cores_ok (cl_cpus d) (cl_cores d)" using cluster_addCpu_ok[OF t d0(2)] d0(1) by auto
  have "spread (somes (pk_cpus pk) @ [c]) cl_cpus (AList.update j d (pk_clusters pk))"
    using spread_add[OF _ _ d(1)] ok by (simp add: clusters_ok_def new_cluster_def)
  then have "clusters_ok pk'" using ok d set_update[of "pk_clusters pk" j d] by (auto simp: pk' clusters_ok_def distinct_update)
  then show ?thesis using False by (simp add: pk')
qed

lemma topology_addCpu_tree:
  assumes "topology_addCpu env c (t, s) = ((t', s'), Ok ())" and "known_arch (architecture t)" and "tree_ok cs t"
  shows "tree_ok (cs @ [c]) t' \<and> architecture t' = architecture t"
proof -
  obtain i u pk cpu where p: "package_addCpu env (architecture t) c (the_default (new_package i) (map_of (packages t) i)) u = (s', Ok (pk, cpu))"
    and t': "t' = t\<lparr>packages := AList.update i pk (packages t), t_allCpus := (t_allCpus t)[c := cpu]\<rparr>"
    using assms(1) by (auto simp: topology_addCpu_def split: prod.splits res.splits)
  let ?pk = "the_default (new_package i) (map_of (packages t) i)"
  have "dies_ok (new_package i)" "clusters_ok (new_package i)" "pk_id (new_package i) = i"
    by (simp_all add: new_package_def dies_ok_def clusters_ok_def spread_def entries_def)
  then have "pk_id ?pk = i \<and> (if architecture t = ''x86_64'' then dies_ok ?pk else clusters_ok ?pk)"
    using assms(3) by (cases "map_of (packages t) i") (auto simp: tree_ok_def dest!: map_of_SomeD)
  with package_addCpu_tree[OF p assms(2)]
  have pk: "if architecture t = ''x86_64'' then dies_ok pk else clusters_ok pk" "pk_id pk = i"
    "somes (pk_cpus pk) = somes (pk_cpus ?pk) @ [c]" by simp_all
  have "spread (cs @ [c]) (\<lambda>pk. somes (pk_cpus pk)) (AList.update i pk (packages t))"
    using spread_add[OF _ _ pk(3)] assms(3) by (simp add: tree_ok_def new_package_def)
  then show ?thesis using assms(3) pk set_update[of "packages t" i pk] by (auto simp: t' tree_ok_def distinct_update)
qed

lemma foreach_prefix:
  assumes "foreach f xs s = (s', Ok ())" and "P [] s" and "\<And>cs c s s'. P cs s \<Longrightarrow> f c s = (s', Ok ()) \<Longrightarrow> P (cs @ [c]) s'"
  shows "P xs s'"
proof -
  have "P (ys @ xs) s'" if "P ys s" "foreach f xs s = (s', Ok ())" for ys
    using that
  proof (induction xs arbitrary: ys s)
    case (Cons x xs)
    then show ?case using assms(3)[of ys _ x] Cons.IH[of "ys @ [x]"] by (auto split: prod.splits res.splits)
  qed simp
  from this[of "[]"] show ?thesis using assms(1,2) by simp
qed

lemma discovered_tree:
  assumes "discoverTopology env arch (g, sy) = ((t, g', sy'), Ok ())" and "known_arch arch"
    and "n = snd (getNumberOfCpus env g sy)"
  shows "tree_ok [0..<n] t \<and> architecture t = arch"
proof -
  obtain sy0 where sy0: "getNumberOfCpus env g sy = (sy0, n)" using assms(3) by (metis prod.collapse)
  let ?t = "\<lparr>packages = [], t_allCpus = replicate n None, t_uncore = Some (defaultUncore g), architecture = arch\<rparr>"
  have f: "foreach (topology_addCpu env) [0..<n] (?t, g, sy0) = ((t, g', sy'), Ok ())"
    using assms(1) by (auto simp: discoverTopology_def sy0 Let_def split: if_splits)
  have "tree_ok [0..<n] (fst (t, g', sy')) \<and> architecture (fst (t, g', sy')) = arch"
  proof (rule foreach_prefix[OF f])
    show "tree_ok [] (fst (?t, g, sy0)) \<and> architecture (fst (?t, g, sy0)) = arch" by (simp add: tree_ok_def spread_def entries_def)
    show "tree_ok (cs @ [c]) (fst s') \<and> architecture (fst s') = arch"
      if "tree_ok cs (fst s) \<and> architecture (fst s) = arch" "topology_addCpu env c s = (s', Ok ())" for cs c s s'
      using topology_addCpu_tree[of env c "fst s" "snd s" "fst s'" "snd s'" cs] that assms(2) by simp
  qed
  then show ?thesis by simp
qed

lemma cores_partition:
  assumes "cores_ok cs xs" and "distinct cs" and "c \<in> set cs"
  shows "\<exists>!k. \<exists>co. map_of xs k = Some co \<and> c \<in> set (core_cpus co)"
  using spread_partition(1)[of cs core_cpus xs c] assms by (simp add: cores_ok_def)

lemma dies_partition:
  assumes "dies_ok pk" and "distinct (somes (pk_cpus pk))"
  shows "c \<in> set (somes (pk_cpus pk)) \<Longrightarrow> \<exists>!j. \<exists>d. map_of (pk_dies pk) j = Some d \<and> c \<in> set (d_cpus d)"
    and "map_of (pk_dies pk) j = Some d \<Longrightarrow> d_id d = j \<and> set (d_cpus d) \<subseteq> set (somes (pk_cpus pk)) \<and>
      (\<forall>c \<in> set (d_cpus d). \<exists>!k. \<exists>co. map_of (d_cores d) k = Some co \<and> c \<in> set (core_cpus co))"
proof -
  note p = spread_partition[of "somes (pk_cpus pk)" d_cpus "pk_dies pk"]
  show "\<exists>!j. \<exists>d. map_of (pk_dies pk) j = Some d \<and> c \<in> set (d_cpus d)" if "c \<in> set (somes (pk_cpus pk))"
    using p(1) assms that by (simp add: dies_ok_def)
  assume d: "map_of (pk_dies pk) j = Some d"
  have k: "d_id d = j" "cores_ok (d_cpus d) (d_cores d)" using assms(1) map_of_SomeD[OF d] by (auto simp: dies_ok_def)
  have "set (d_cpus d) \<subseteq> set (somes (pk_cpus pk)) \<and> distinct (d_cpus d)" using p(2) d assms by (simp add: dies_ok_def)
  then show "d_id d = j \<and> set (d_cpus d) \<subseteq> set (somes (pk_cpus pk)) \<and>
      (\<forall>c \<in> set (d_cpus d). \<exists>!k. \<exists>co. map_of (d_cores d) k = Some co \<and> c \<in> set (core_cpus co))"
    using k cores_partition[OF k(2)] by simp
qed

lemma clusters_partition:
  assumes "clusters_ok pk" and "distinct (somes (pk_cpus pk))"
  shows "c \<in> set (somes (pk_cpus pk)) \<Longrightarrow> \<exists>!j. \<exists>d. map_of (pk_clusters pk) j = Some d \<and> c \<in> set (cl_cpus d)"
    and "map_of (pk_clusters pk) j = Some d \<Longrightarrow> cl_id d = j \<and> set (cl_cpus d) \<subseteq> set (somes (pk_cpus pk)) \<and>
      (\<forall>c \<in> set (cl_cpus d). \<exists>!k. \<exists>co. map_of (cl_cores d) k = Some co \<and> c \<in> set (core_cpus co))"
proof -
  note p = spread_partition[of "somes (pk_cpus pk)" cl_cpus "pk_clusters pk"]
  show "\<exists>!j. \<exists>d. map_of (pk_clusters pk) j = Some d \<and> c \<in> set (cl_cpus d)" if "c \<in> set (somes (pk_cpus pk))"
    using p(1) assms that by (simp add: clusters_ok_def)
  assume d: "map_of (pk_clusters pk) j = Some d"
  have k: "cl_id d = j" "cores_ok (cl_cpus d) (cl_cores d)" using assms(1) map_of_SomeD[OF d] by (auto simp: clusters_ok_def)
  have "set (cl_cpus d) \<subseteq> set (somes (pk_cpus pk)) \<and> distinct (cl_cpus d)" using p(2) d assms by (simp add: clusters_ok_def)
  then show "cl_id d = j \<and> set (cl_cpus d) \<subseteq> set (somes (pk_cpus pk)) \<and>
      (\<forall>c \<in> set (cl_cpus d). \<exists>!k. \<exists>co. map_of (cl_cores d) k = Some co \<and> c \<in> set (core_cpus co))"
    using k cores_partition[OF k(2)] by simp
qed

section \<open>Properties\<close>

text \<open>The level of the dies below a package, and the level of the clusters, with the cores below.\<close>

definition splits_into_dies :: "package \<Rightarrow> bool" where
  "splits_into_dies pk =
     ((\<forall>c. Some c \<in> set (Package_CPUs pk) \<longrightarrow> (\<exists>!j. \<exists>d. Package_Die pk j = Some d \<and> c \<in> set (Die_CPUs d))) \<and>
      (\<forall>j d. Package_Die pk j = Some d \<longrightarrow> Die_getID d = j \<and>
         (\<forall>c \<in> set (Die_CPUs d). Some c \<in> set (Package_CPUs pk) \<and>
            (\<exists>!k. \<exists>co. Die_Core d k = Some co \<and> c \<in> set (Core_CPUs co)))))"

definition splits_into_clusters :: "package \<Rightarrow> bool" where
  "splits_into_clusters pk =
     ((\<forall>c. Some c \<in> set (Package_CPUs pk) \<longrightarrow> (\<exists>!j. \<exists>d. map_of (pk_clusters pk) j = Some d \<and> c \<in> set (Cluster_CPUs d))) \<and>
      (\<forall>j d. map_of (pk_clusters pk) j = Some d \<longrightarrow>
         (\<forall>c \<in> set (Cluster_CPUs d). Some c \<in> set (Package_CPUs pk) \<and>
            (\<exists>!k. \<exists>co. Cluster_Core d k = Some co \<and> c \<in> set (Core_CPUs co)))))"

lemmas accessors = Package_Die_def Package_CPUs_def Die_CPUs_def Die_getID_def Die_Core_def Core_CPUs_def
  Cluster_CPUs_def Cluster_Core_def set_somes[symmetric]

lemma dies_split: "dies_ok pk \<Longrightarrow> distinct (somes (pk_cpus pk)) \<Longrightarrow> splits_into_dies pk"
  unfolding splits_into_dies_def accessors using dies_partition[of pk] by blast

lemma clusters_split: "clusters_ok pk \<Longrightarrow> distinct (somes (pk_cpus pk)) \<Longrightarrow> splits_into_clusters pk"
  unfolding splits_into_clusters_def accessors using clusters_partition[of pk] by blast

text \<open>
  C38. The topology that discovery returns on a known architecture is a tree over the CPUs. Walking down with the
  accessors: every CPU is in exactly one package; every CPU of a package is in exactly one of its
  dies (on x86) or clusters (on ARM), which have no other CPUs; every CPU of a die or cluster is in exactly one of its cores;
  and packages and dies are found under the id they report.
\<close>
theorem topology_is_a_tree:
  assumes "discoverTopology env arch (g, sy) = ((t, g', sy'), Ok ())" and "known_arch arch"
  shows "Topology_CPUs t = map Some [0..<snd (getNumberOfCpus env g sy)] \<and>
    (\<forall>c < snd (getNumberOfCpus env g sy). \<exists>!i. \<exists>pk. Topology_Package t i = Some pk \<and> Some c \<in> set (Package_CPUs pk)) \<and>
    (\<forall>i pk. Topology_Package t i = Some pk \<longrightarrow> Package_getID pk = i \<and>
       (if arch = ''x86_64'' then splits_into_dies pk else splits_into_clusters pk))"
proof -
  define n where "n = snd (getNumberOfCpus env g sy)"
  have tree: "tree_ok [0..<n] t" "architecture t = arch" using discovered_tree[OF assms n_def] by simp_all
  have all: "Topology_CPUs t = map Some [0..<n]" using discoverTopology_Ok[OF assms(1) n_def] assms(2) by (simp add: Topology_CPUs_def)
  note p = spread_partition[of "[0..<n]" "\<lambda>pk. somes (pk_cpus pk)" "packages t"]
  have one: "\<exists>!i. \<exists>pk. Topology_Package t i = Some pk \<and> Some c \<in> set (Package_CPUs pk)" if "c < n" for c
    using p(1)[of c] tree(1) that by (simp add: tree_ok_def Topology_Package_def Package_CPUs_def set_somes)
  have "Package_getID pk = i \<and> (if arch = ''x86_64'' then splits_into_dies pk else splits_into_clusters pk)"
    if "Topology_Package t i = Some pk" for i pk
  proof -
    have m: "map_of (packages t) i = Some pk" using that by (simp add: Topology_Package_def)
    have "pk_id pk = i" "if arch = ''x86_64'' then dies_ok pk else clusters_ok pk"
      using tree map_of_SomeD[OF m] by (auto simp: tree_ok_def)
    moreover have "distinct (somes (pk_cpus pk))" using p(2)[OF _ _ _ m] tree(1) by (simp add: tree_ok_def)
    ultimately show ?thesis using dies_split clusters_split by (simp add: Package_getID_def)
  qed
  then show ?thesis unfolding n_def[symmetric] using all one by blast
qed

lemma boot_tree: "snd (discoverTopology env0 ''x86_64'' (boot_vars, boot_sys)) = Ok ()"
  by code_simp

theorem topology_is_a_tree_witness:
  "\<exists>t g' sy'. discoverTopology env0 ''x86_64'' (boot_vars, boot_sys) = ((t, g', sy'), Ok ()) \<and>
     (\<exists>!i. \<exists>pk. Topology_Package t i = Some pk \<and> Some 0 \<in> set (Package_CPUs pk))"
proof -
  obtain t g' sy' where d: "discoverTopology env0 ''x86_64'' (boot_vars, boot_sys) = ((t, g', sy'), Ok ())"
    using boot_tree by (metis prod.collapse)
  have "known_arch ''x86_64''" by (simp add: known_arch_def)
  note tree = topology_is_a_tree[OF d this]
  have "snd (getNumberOfCpus env0 boot_vars boot_sys) = 1" by (simp add: getNumberOfCpus_def boot_vars_def)
  then have "\<exists>!i. \<exists>pk. Topology_Package t i = Some pk \<and> Some 0 \<in> set (Package_CPUs pk)"
    using conjunct1[OF conjunct2[OF tree]] by simp
  then show ?thesis using d by blast
qed

end
