(* ===== verification/Frames.thy ===== *)
theory Frames
  imports Go_Slices
begin

text \<open>
  What a call does to its state, as a relation between the state before and the state after it,
  whatever the call returns. A relation that is reflexive and transitive is kept by the ways in which
  the code composes calls (locale \<open>frame\<close>), so a fact such as "the topology is untouched" or "every
  request that is sent has this form" is proved for the smallest calls and carried over to a whole
  controller by one introduction step.
\<close>

definition steps :: "('s \<Rightarrow> 's \<Rightarrow> bool) \<Rightarrow> ('s \<Rightarrow> 's \<times> 'a res) \<Rightarrow> bool" where
  "steps R f = (\<forall>s. R s (fst (f s)))"

lemma stepsI: "(\<And>s. R s (fst (f s))) \<Longrightarrow> steps R f"
  by (simp add: steps_def)

lemma stepsD: "steps R f \<Longrightarrow> R s (fst (f s))"
  by (simp add: steps_def)

lemma stepsD_eq: "steps R f \<Longrightarrow> f s = (s', x) \<Longrightarrow> R s s'"
  by (metis fst_conv stepsD)

locale frame =
  fixes R :: "'s \<Rightarrow> 's \<Rightarrow> bool"
  assumes refl: "R s s" and trans: "R s t \<Longrightarrow> R t u \<Longrightarrow> R s u"
begin

lemma return: "steps R (\<lambda>s. (s, x s))"
  by (simp add: steps_def refl)

lemma then_do:
  assumes "steps R f" and "\<And>a. steps R (k a)"
  shows "steps R (\<lambda>s. then_do (f s) k)"
proof (rule stepsI)
  fix s
  obtain t x where "f s = (t, x)" by (cases "f s")
  then show "R s (fst (then_do (f s) k))"
    using stepsD[OF assms(1), of s] trans[OF _ stepsD[OF assms(2)], of s t] by (cases x) simp_all
qed

lemma catch_err:
  assumes "steps R f" and "\<And>e. steps R (handle e)" and "\<And>a. steps R (k a)"
  shows "steps R (\<lambda>s. catch_err (f s) handle k)"
proof (rule stepsI)
  fix s
  obtain t x where "f s = (t, x)" by (cases "f s")
  then show "R s (fst (catch_err (f s) handle k))"
    using stepsD[OF assms(1), of s] trans[OF _ stepsD[OF assms(2)], of s t] trans[OF _ stepsD[OF assms(3)], of s t]
    by (cases x) simp_all
qed

lemma wrap_err: "steps R f \<Longrightarrow> steps R (\<lambda>s. wrap_err (m s) (f s))"
  by (simp add: steps_def)

lemma cond: "steps R f \<Longrightarrow> steps R k \<Longrightarrow> steps R (\<lambda>s. if b s then f s else k s)"
  by (simp add: steps_def)

lemma opt: "steps R f \<Longrightarrow> (\<And>a. steps R (k a)) \<Longrightarrow> steps R (\<lambda>s. case x s of None \<Rightarrow> f s | Some a \<Rightarrow> k a s)"
  by (simp add: steps_def split: option.split)

lemma sum: "(\<And>a. steps R (f a)) \<Longrightarrow> (\<And>b. steps R (k b)) \<Longrightarrow> steps R (\<lambda>s. case x s of Inl a \<Rightarrow> f a s | Inr b \<Rightarrow> k b s)"
  by (simp add: steps_def split: sum.split)

lemma pair: "(\<And>a b. steps R (f a b)) \<Longrightarrow> steps R (case p of (a, b) \<Rightarrow> f a b)"
  by (simp split: prod.split)

lemma pair_at: "(\<And>a b. steps R (f a b)) \<Longrightarrow> steps R (\<lambda>s. case p of (a, b) \<Rightarrow> f a b s)"
  by (simp add: steps_def split: prod.split)

lemma foreach:
  assumes "\<And>x. steps R (f x)" shows "steps R (foreach f xs)"
proof (rule stepsI)
  fix s
  show "R s (fst (foreach f xs s))"
    by (rule foreach_inv[where I = "R s"]) (use refl trans stepsD[OF assms] in blast)+
qed

lemma range_alias:
  assumes "\<And>x. steps R (body x)" shows "R s (fst (range_alias view body i n arr s))"
proof (induction "n - i" arbitrary: i arr s)
  case 0
  then show ?case by (simp add: range_alias.simps refl)
next
  case (Suc m)
  obtain t x where t: "body (arr ! i) s = (t, x)" by (cases "body (arr ! i) s")
  have "R s t" using stepsD_eq[OF assms t] .
  then show ?case using Suc.hyps t trans[OF _ Suc.hyps(1), of s t "Suc i"]
    by (subst range_alias.simps) (auto split: res.split)
qed

lemma range_slice: "(\<And>x. steps R (body x)) \<Longrightarrow> steps R (range_slice view body)"
  by (simp add: steps_def range_slice_def range_alias)

end

end
