(* ===== verification/Pkg_State.thy ===== *)
theory Pkg_State
  imports Go_Slices Go_Strings
begin

text \<open>
  The small stores of the operator: \<open>pkg/podstate\<close> (the guaranteed pods the node agent knows),
  \<open>pkg/state\<close> (the nodes the manager has seen) and the list helpers of \<open>pkg/util\<close>, with the
  types of \<open>api/v1alpha1/common.go\<close>. Both stores delete from a slice while ranging over it, so
  deletion is the aliased loop \<open>range_delete\<close>; the invariants say why it does not panic.
\<close>

section \<open>Pods and containers\<close>

record Container =
  Ct_Name :: string
  Ct_ID :: string
  Ct_Pod :: string
  Ct_PodUID :: string
  ExclusiveCPUs :: "nat list"
  Ct_PowerProfile :: string

record GuaranteedPod =
  Gp_Node :: string
  Gp_Name :: string
  Gp_Namespace :: string
  Gp_UID :: string
  Gp_Containers :: "Container list"

definition zero_pod :: GuaranteedPod where
  "zero_pod = \<lparr>Gp_Node = [], Gp_Name = [], Gp_Namespace = [], Gp_UID = [], Gp_Containers = []\<rparr>"

abbreviation pod_key :: "GuaranteedPod \<Rightarrow> string \<times> string" where
  "pod_key p \<equiv> (Gp_Name p, Gp_Namespace p)"

section \<open>\<open>pkg/podstate\<close>\<close>

record State =
  GuaranteedPods :: "GuaranteedPod list"

definition NewState :: State where
  "NewState = \<lparr>GuaranteedPods = []\<rparr>"

fun update_loop :: "GuaranteedPod \<Rightarrow> GuaranteedPod list \<Rightarrow> GuaranteedPod list" where
  "update_loop g [] = [g]"
| "update_loop g (p # ps) =
     (if Gp_Name p = Gp_Name g \<and> Gp_Namespace p = Gp_Namespace g then g # ps
      else p # update_loop g ps)"

definition UpdateStateGuaranteedPods :: "GuaranteedPod \<Rightarrow> State \<Rightarrow> State" where
  "UpdateStateGuaranteedPods g s = s\<lparr>GuaranteedPods := update_loop g (GuaranteedPods s)\<rparr>"

fun get_loop :: "string \<Rightarrow> string \<Rightarrow> GuaranteedPod list \<Rightarrow> GuaranteedPod" where
  "get_loop n ns [] = zero_pod"
| "get_loop n ns (p # ps) = (if Gp_Name p = n \<and> Gp_Namespace p = ns then p else get_loop n ns ps)"

definition GetPodFromState :: "string \<Rightarrow> string \<Rightarrow> State \<Rightarrow> GuaranteedPod" where
  "GetPodFromState n ns s = get_loop n ns (GuaranteedPods s)"

definition GetCPUsFromPodState :: "GuaranteedPod \<Rightarrow> nat list" where
  "GetCPUsFromPodState p = concat (map ExclusiveCPUs (Gp_Containers p))"

text \<open>\<open>None\<close> is the slice bounds panic of the deletion loop.\<close>

definition DeletePodFromState :: "string \<Rightarrow> string \<Rightarrow> State \<Rightarrow> State option" where
  "DeletePodFromState n ns s =
     map_option (\<lambda>ps. s\<lparr>GuaranteedPods := ps\<rparr>)
       (range_delete (\<lambda>p. Gp_Name p = n \<and> Gp_Namespace p = ns) 0
          (length (GuaranteedPods s)) (GuaranteedPods s) (length (GuaranteedPods s)))"

definition podstate_ok :: "State \<Rightarrow> bool" where
  "podstate_ok s = distinct (map pod_key (GuaranteedPods s))"

section \<open>\<open>pkg/state\<close>\<close>

record PowerNodeData =
  PowerNodeList :: "string list"

definition NewPowerNodeData :: PowerNodeData where
  "NewPowerNodeData = \<lparr>PowerNodeList = []\<rparr>"

definition UpdatePowerNodeData :: "string \<Rightarrow> PowerNodeData \<Rightarrow> PowerNodeData" where
  "UpdatePowerNodeData n nd =
     (if n \<in> set (PowerNodeList nd) then nd
      else nd\<lparr>PowerNodeList := PowerNodeList nd @ [n]\<rparr>)"

definition DeletePowerNodeData :: "string \<Rightarrow> PowerNodeData \<Rightarrow> PowerNodeData option" where
  "DeletePowerNodeData n nd =
     map_option (\<lambda>l. nd\<lparr>PowerNodeList := l\<rparr>)
       (range_delete (\<lambda>m. m = n) 0
          (length (PowerNodeList nd)) (PowerNodeList nd) (length (PowerNodeList nd)))"

section \<open>\<open>pkg/util\<close>\<close>

fun in_list :: "'a \<Rightarrow> 'a list \<Rightarrow> bool" where
  "in_list x [] = False"
| "in_list x (y # ys) = (if y = x then True else in_list x ys)"

definition CPUInCPUList :: "nat \<Rightarrow> nat list \<Rightarrow> bool" where
  "CPUInCPUList c cs = in_list c cs"

definition NodeNameInNodeList :: "string \<Rightarrow> ('n \<Rightarrow> string) \<Rightarrow> 'n list \<Rightarrow> bool" where
  "NodeNameInNodeList n name nodes = in_list n (map name nodes)"

definition StringInStringList :: "string \<Rightarrow> string list \<Rightarrow> bool" where
  "StringInStringList s ss = in_list s ss"

text \<open>\<open>errors.As\<close> with a target of type \<open>interface{ Unwrap() []error }\<close> follows the wrapping chain.\<close>

fun as_joined :: "err \<Rightarrow> err list option" where
  "as_joined (Joined es) = Some es"
| "as_joined (Wrapf m e) = as_joined e"
| "as_joined _ = None"

definition UnpackErrsToStrings :: "err option \<Rightarrow> string list" where
  "UnpackErrsToStrings e =
     (case e of
        None \<Rightarrow> []
      | Some e' \<Rightarrow>
          (case as_joined e' of
             Some es \<Rightarrow> map err_msg es
           | None \<Rightarrow> [err_msg e']))"

section \<open>Properties\<close>

lemma in_list_iff [simp]: "in_list x xs \<longleftrightarrow> x \<in> set xs"
  by (induction xs) auto

lemma update_loop_keys:
  "map pod_key (update_loop g ps) =
     (if pod_key g \<in> set (map pod_key ps) then map pod_key ps else map pod_key ps @ [pod_key g])"
  by (induction ps) auto

lemma podstate_ok_update: "podstate_ok s \<Longrightarrow> podstate_ok (UpdateStateGuaranteedPods g s)"
  by (simp add: podstate_ok_def UpdateStateGuaranteedPods_def update_loop_keys)

lemma DeletePodFromState_filter:
  assumes "podstate_ok s"
  shows "DeletePodFromState n ns s =
    Some (s\<lparr>GuaranteedPods := filter (\<lambda>p. pod_key p \<noteq> (n, ns)) (GuaranteedPods s)\<rparr>)"
proof -
  let ?ps = "GuaranteedPods s"
  have "range_delete (\<lambda>p. Gp_Name p = n \<and> Gp_Namespace p = ns) 0 (length ?ps) ?ps (length ?ps) =
        Some (filter (\<lambda>p. \<not> (Gp_Name p = n \<and> Gp_Namespace p = ns)) ?ps)"
  proof (rule range_delete_unique)
    fix i j assume ij: "i < length ?ps" "j < length ?ps"
      and m: "Gp_Name (?ps ! i) = n \<and> Gp_Namespace (?ps ! i) = ns"
        "Gp_Name (?ps ! j) = n \<and> Gp_Namespace (?ps ! j) = ns"
    then have "map pod_key ?ps ! i = map pod_key ?ps ! j" by simp
    with assms ij show "i = j"
      using nth_eq_iff_index_eq[of "map pod_key ?ps" i j] unfolding podstate_ok_def by simp
  qed
  then show ?thesis by (simp add: DeletePodFromState_def)
qed

lemma podstate_ok_delete:
  "podstate_ok s \<Longrightarrow> DeletePodFromState n ns s = Some s' \<Longrightarrow> podstate_ok s'"
  by (auto simp: DeletePodFromState_filter podstate_ok_def distinct_map_filter)

lemma get_update_loop:
  "get_loop n ns (update_loop g ps) = (if pod_key g = (n, ns) then g else get_loop n ns ps)"
  by (induction ps) auto

lemma get_loop_filter:
  "get_loop n ns (filter (\<lambda>p. Gp_Name p = a \<longrightarrow> Gp_Namespace p \<noteq> b) ps) =
     (if a = n \<and> b = ns then zero_pod else get_loop n ns ps)"
  by (induction ps) auto

text \<open>The pod store as a map from keys to pods: the contract the pod controller relies on.\<close>

locale keyed_store =
  fixes ok :: "'s \<Rightarrow> bool" and init :: 's
    and update :: "'v \<Rightarrow> 's \<Rightarrow> 's" and delete :: "'k \<Rightarrow> 's \<Rightarrow> 's option"
    and lookup :: "'k \<Rightarrow> 's \<Rightarrow> 'v" and key :: "'v \<Rightarrow> 'k" and missing :: 'v
  assumes ok_init: "ok init" and ok_update: "ok s \<Longrightarrow> ok (update v s)"
    and delete_ok: "ok s \<Longrightarrow> \<exists>s'. delete k s = Some s' \<and> ok s' \<and>
          (\<forall>k'. lookup k' s' = (if k' = k then missing else lookup k' s))"
    and lookup_init: "lookup k init = missing"
    and lookup_update: "lookup k (update v s) = (if key v = k then v else lookup k s)"
begin

lemma insert_delete:
  assumes "ok s"
  obtains s' where "delete (key v) (update v s) = Some s'" and "ok s'"
    and "lookup k' s' = (if k' = key v then missing else lookup k' s)"
  using delete_ok[OF ok_update[OF assms], of "key v" v] by (auto simp: lookup_update)

end

interpretation pods: keyed_store podstate_ok NewState UpdateStateGuaranteedPods
  "\<lambda>k. DeletePodFromState (fst k) (snd k)" "\<lambda>k. GetPodFromState (fst k) (snd k)" pod_key zero_pod
proof (unfold_locales, goal_cases)
  case 1 show ?case by (simp add: podstate_ok_def NewState_def)
next
  case (2 s v) then show ?case by (rule podstate_ok_update)
next
  case (3 s k)
  obtain n ns where k: "k = (n, ns)" by (cases k)
  have "podstate_ok (s\<lparr>GuaranteedPods := filter (\<lambda>p. pod_key p \<noteq> (n, ns)) (GuaranteedPods s)\<rparr>)"
    by (rule podstate_ok_delete[OF 3 DeletePodFromState_filter[OF 3]])
  with 3 show ?case
    by (auto simp: k DeletePodFromState_filter GetPodFromState_def get_loop_filter)
next
  case (4 k) show ?case by (simp add: GetPodFromState_def NewState_def)
next
  case (5 k v s) show ?case
    by (cases k) (simp add: GetPodFromState_def UpdateStateGuaranteedPods_def get_update_loop)
qed

lemma DeletePowerNodeData_filter:
  assumes "distinct (PowerNodeList nd)"
  shows "DeletePowerNodeData n nd = Some (nd\<lparr>PowerNodeList := filter (\<lambda>m. m \<noteq> n) (PowerNodeList nd)\<rparr>)"
proof -
  have "range_delete (\<lambda>m. m = n) 0 (length (PowerNodeList nd)) (PowerNodeList nd) (length (PowerNodeList nd)) =
        Some (filter (\<lambda>m. \<not> m = n) (PowerNodeList nd))"
    by (rule range_delete_unique) (metis assms nth_eq_iff_index_eq)
  then show ?thesis by (simp add: DeletePowerNodeData_def)
qed

lemma UnpackErrs_Join: "UnpackErrsToStrings (errors_Join es) = map err_msg (somes es)"
  by (simp add: UnpackErrsToStrings_def errors_Join_def)


section \<open>Properties\<close>

text \<open>
  C39. The pod state behaves as a map from (name, namespace) to pods: after an update the pod is
  found, after a deletion it is not, and no other pod is affected. The deletion, which edits the
  slice it ranges over, removes exactly the pod and never panics.
\<close>
theorem podstate_is_a_map:
  assumes "podstate_ok s"
  shows "podstate_ok (UpdateStateGuaranteedPods p s) \<and>
    GetPodFromState n ns (UpdateStateGuaranteedPods p s) =
      (if (Gp_Name p, Gp_Namespace p) = (n, ns) then p else GetPodFromState n ns s) \<and>
    (\<exists>s'. DeletePodFromState m ms s = Some s' \<and> podstate_ok s' \<and>
      GuaranteedPods s' =
        filter (\<lambda>q. (Gp_Name q, Gp_Namespace q) \<noteq> (m, ms)) (GuaranteedPods s) \<and>
      GetPodFromState n ns s' = (if (n, ns) = (m, ms) then zero_pod else GetPodFromState n ns s))"
proof -
  obtain s' where s': "DeletePodFromState m ms s = Some s'" "podstate_ok s'"
    "\<forall>k. GetPodFromState (fst k) (snd k) s' =
       (if k = (m, ms) then zero_pod else GetPodFromState (fst k) (snd k) s)"
    using pods.delete_ok[OF assms, of "(m, ms)"] by auto
  have "GetPodFromState n ns s' = (if (n, ns) = (m, ms) then zero_pod else GetPodFromState n ns s)"
    using spec[OF s'(3), of "(n, ns)"] by simp
  moreover have "GuaranteedPods s' = filter (\<lambda>q. (Gp_Name q, Gp_Namespace q) \<noteq> (m, ms)) (GuaranteedPods s)"
    using s'(1) DeletePodFromState_filter[OF assms, of m ms] by auto
  moreover have "GetPodFromState n ns (UpdateStateGuaranteedPods p s) =
      (if (Gp_Name p, Gp_Namespace p) = (n, ns) then p else GetPodFromState n ns s)"
    using pods.lookup_update[of "(n, ns)" p s] by simp
  ultimately show ?thesis using s' podstate_ok_update[OF assms] by blast
qed

theorem podstate_is_a_map_witness:
  "GetPodFromState ''a'' ''ns'' (UpdateStateGuaranteedPods (zero_pod\<lparr>Gp_Name := ''a'', Gp_Namespace := ''ns''\<rparr>) NewState) =
     zero_pod\<lparr>Gp_Name := ''a'', Gp_Namespace := ''ns''\<rparr>"
  using podstate_is_a_map[OF pods.ok_init,
      of "zero_pod\<lparr>Gp_Name := ''a'', Gp_Namespace := ''ns''\<rparr>" "''a''" "''ns''" "''b''" "''ns''"]
  by (simp add: zero_pod_def)

text \<open>
  \<open>UnpackErrsToStrings\<close> of joined errors gives back the messages of the errors that were not
  nil, in their order; of no error, the empty list.
\<close>
theorem unpack_joined_errors:
  "UnpackErrsToStrings (errors_Join es) = map err_msg (somes es)"
  by (rule UnpackErrs_Join)

end
