(* ===== verification/Cluster.thy ===== *)
theory Cluster
  imports Pool_Library Pkg_State
begin

text \<open>
  The objects the controllers read and write, after the types of \<open>api/v1alpha1\<close> (and the fields the
  code uses of the Kubernetes types), and the API server as a parameter: what it answers to a
  read and whether it accepts a write may depend on how many calls were made before, so that
  nothing is assumed about other clients. A record \<open>world\<close> holds the library's host and the
  requests that were sent; the controllers are functions on it.
\<close>

section \<open>Objects\<close>

text \<open>Maps are association lists, time stamps and durations numbers of nanoseconds.\<close>

record ObjectMeta =
  om_Name :: string
  om_Namespace :: string
  om_CreationTimestamp :: int

record LabelSelectorRequirement =
  lsr_Key :: string
  lsr_Operator :: string
  lsr_Values :: "string list"

record LabelSelector =
  MatchLabels :: "(string \<times> string) list"
  MatchExpressions :: "LabelSelectorRequirement list"

record NodeSelector =
  ns_LabelSelector :: LabelSelector

record PStatesConfig =
  Max :: "IntOrString option"
  Min :: "IntOrString option"
  Epp :: string
  Governor :: string

record CStatesConfig =
  Names :: "(string \<times> bool) list"
  MaxLatencyUs :: "int option"

record CPUScalingPolicy =
  WorkloadType :: string
  SamplePeriod :: "int option"
  CooldownPeriod :: "int option"
  TargetUsage :: "int option"
  AllowedUsageDifference :: "int option"
  AllowedFrequencyDifference :: "int option"
  ScalePercentage :: "int option"
  FallbackFreqPercent :: "int option"

record PowerProfileSpec =
  Shared :: bool
  pps_NodeSelector :: NodeSelector
  PStates :: PStatesConfig
  CStates :: CStatesConfig
  CPUCapacity :: IntOrString
  pps_CPUScalingPolicy :: "CPUScalingPolicy option"

record PowerProfile =
  pp_Meta :: ObjectMeta
  pp_Spec :: PowerProfileSpec

record ReservedSpec =
  rs_Cores :: "nat list"
  rs_PowerProfile :: string

record PowerNodeConfigSpec =
  SharedPowerProfile :: string
  pncs_NodeSelector :: NodeSelector
  ReservedCPUs :: "ReservedSpec list"

record PowerNodeConfig =
  pnc_Meta :: ObjectMeta
  pnc_Spec :: PowerNodeConfigSpec

record DieSelector =
  ds_Package :: "nat option"
  ds_Die :: "nat option"
  ds_Min :: "nat option"
  ds_Max :: "nat option"

record UncoreSpec =
  us_NodeSelector :: NodeSelector
  SysMax :: "nat option"
  SysMin :: "nat option"
  DieSelectors :: "DieSelector list option"

record Uncore =
  un_Meta :: ObjectMeta
  un_Spec :: UncoreSpec

section \<open>The status of a node\<close>

text \<open>
  Slices that are left out of the JSON when they are nil, and written as \<open>[]\<close> when they are empty
  (\<open>omitzero\<close>), are options of lists.
\<close>

record NodeInfo =
  ni_CPUCapacity :: int
  ni_Architecture :: string

record PowerNodeProfileStatus =
  pnps_Name :: string
  pnps_Config :: string
  pnps_Errors :: "string list"

record SharedCPUPoolStatus =
  ss_PowerProfile :: string
  ss_PowerNodeConfig :: string
  ss_CPUIDs :: string
  ss_Errors :: "string list"

record PowerProfileCPUs =
  ppc_PowerProfile :: string
  ppc_CPUIDs :: string
  ppc_Errors :: "string list"

record ReservedCPUPoolStatus =
  rst_PowerProfileCPUs :: "PowerProfileCPUs list"
  rst_PowerNodeConfig :: string

record PowerContainer =
  pc_Name :: string
  pc_ID :: string
  pc_PowerProfile :: string
  pc_CPUIDs :: "nat list"
  pc_Errors :: "string list"

record ExclusiveCPUPoolStatus =
  es_PodUID :: string
  es_Pod :: string
  es_PowerContainers :: "PowerContainer list"

record CPUPoolsStatus =
  cps_Shared :: "SharedCPUPoolStatus option"
  cps_Reserved :: "ReservedCPUPoolStatus list option"
  cps_Exclusive :: "ExclusiveCPUPoolStatus list option"

record NodeUncoreStatus =
  nus_Name :: string
  nus_Config :: string
  nus_Errors :: "string list"

record PowerNodeStateStatus =
  st_NodeInfo :: "NodeInfo option"
  st_PowerProfiles :: "PowerNodeProfileStatus list option"
  st_CPUPools :: "CPUPoolsStatus option"
  st_Uncore :: "NodeUncoreStatus option"

definition empty_status :: PowerNodeStateStatus where
  "empty_status = \<lparr>st_NodeInfo = None, st_PowerProfiles = None, st_CPUPools = None, st_Uncore = None\<rparr>"

section \<open>Nodes and pods\<close>

text \<open>
  A resource quantity is a number of \<open>10\<^sup>-\<^sup>9\<close> units; \<open>Value\<close> and \<open>MilliValue\<close> round away from zero. A
  \<open>Capacity\<close> map may be nil.
\<close>

type_synonym Quantity = int

definition Quantity_Value :: "Quantity \<Rightarrow> int" where
  "Quantity_Value q = - sgn q * ((- \<bar>q\<bar>) div 10 ^ 9)"

definition Quantity_MilliValue :: "Quantity \<Rightarrow> int" where
  "Quantity_MilliValue q = - sgn q * ((- \<bar>q\<bar>) div 10 ^ 6)"

definition NewQuantity :: "int \<Rightarrow> Quantity" where
  "NewQuantity n = n * 10 ^ 9"

record Node =
  nd_Name :: string
  nd_Labels :: "(string \<times> string) list"
  nd_Capacity :: "(string \<times> Quantity) list option"

record PodContainer =
  ctr_Name :: string
  ctr_Requests :: "(string \<times> Quantity) list"
  ctr_Limits :: "(string \<times> Quantity) list"
  ctr_Claims :: "string list"

record Pod =
  pod_Name :: string
  pod_Namespace :: string
  pod_UID :: string
  pod_Deleted :: bool
  pod_Phase :: string
  pod_QOSClass :: string
  pod_NodeName :: string
  pod_InitContainers :: "PodContainer list"
  pod_Containers :: "PodContainer list"
  pod_InitStatuses :: "(string \<times> string) list"
  pod_Statuses :: "(string \<times> string) list"

section \<open>The API server\<close>

text \<open>
  Requests that change the cluster: a server-side apply to the status of a PowerNodeState under a
  field manager, and an update of the status of a node. PowerProfiles, PowerNodeStates,
  PowerNodeConfigs and Uncores are always asked for in the namespace \<open>PowerNamespace\<close>. \<open>asSelector\<close> is
  \<open>metav1.LabelSelectorAsSelector\<close>, with the selector as its \<open>Matches\<close> function; \<open>marshalPolicy\<close> is
  \<open>json.Marshal\<close> on a scaling policy.
\<close>

datatype api_request =
    StatusApply string PowerNodeStateStatus string
  | UpdateNodeStatus Node

record api =
  asSelector :: "LabelSelector \<Rightarrow> err + ((string \<times> string) list \<Rightarrow> bool)"
  marshalPolicy :: "CPUScalingPolicy \<Rightarrow> err + string"
  get_node :: "nat \<Rightarrow> string \<Rightarrow> err + Node"
  get_profile :: "nat \<Rightarrow> string \<Rightarrow> err + PowerProfile"
  get_pns :: "nat \<Rightarrow> string \<Rightarrow> err + PowerNodeStateStatus"
  get_pod :: "nat \<Rightarrow> string \<times> string \<Rightarrow> err + Pod"
  list_configs :: "nat \<Rightarrow> err + PowerNodeConfig list"
  list_uncores :: "nat \<Rightarrow> err + Uncore list"
  list_profiles :: "nat \<Rightarrow> err + PowerProfile list"
  list_pods :: "nat \<Rightarrow> string \<Rightarrow> err + Pod list"
  send :: "nat \<Rightarrow> api_request \<Rightarrow> err option"

record world =
  w_host :: host
  w_calls :: nat
  w_requests :: "(api_request \<times> err option) list"

text \<open>The fields of a reconciler that do not change, with the environment variable \<open>NODE_NAME\<close>.\<close>

record reconciler =
  r_env :: env
  r_vars :: pkgvars
  r_api :: api
  r_node :: string

definition PowerNamespace :: string where
  "PowerNamespace = ''power-manager''"

fun reply :: "err + 'a \<Rightarrow> 'a res" where
  "reply (Inl e) = Error e" | "reply (Inr a) = Ok a"

definition api_get :: "(nat \<Rightarrow> err + 'a) \<Rightarrow> world \<Rightarrow> world \<times> 'a res" where
  "api_get f w = (w\<lparr>w_calls := Suc (w_calls w)\<rparr>, reply (f (w_calls w)))"

definition api_send :: "reconciler \<Rightarrow> api_request \<Rightarrow> world \<Rightarrow> world \<times> unit res" where
  "api_send r q w =
     (let e = send (r_api r) (w_calls w) q;
          w' = w\<lparr>w_calls := Suc (w_calls w), w_requests := w_requests w @ [(q, e)]\<rparr>
      in (w', case e of None \<Rightarrow> Ok () | Some e \<Rightarrow> Error e))"

text \<open>A call of the library.\<close>

definition on_host :: "(host \<Rightarrow> host \<times> 'a res) \<Rightarrow> world \<Rightarrow> world \<times> 'a res" where
  "on_host f w = (case f (w_host w) of (h, r) \<Rightarrow> (w\<lparr>w_host := h\<rparr>, r))"

text \<open>What \<open>Reconcile\<close> returns without an error.\<close>

datatype Result = Done | RequeueAfter int

definition queuetime :: int where
  "queuetime = 5 * 10 ^ 9"

section \<open>Operations that keep the library sound\<close>

text \<open>\<open>sound g f\<close>: \<open>f\<close> keeps the invariant of the library, whatever it returns, and does not panic.\<close>

definition sound_on :: "pkgvars \<Rightarrow> (world \<Rightarrow> bool) \<Rightarrow> (world \<Rightarrow> world \<times> 'a res) \<Rightarrow> bool" where
  "sound_on g P f =
     (\<forall>w. lib_inv g (w_host w) \<and> P w \<longrightarrow>
        lib_inv g (w_host (fst (f w))) \<and> allCpus (w_host (fst (f w))) = allCpus (w_host w) \<and>
        \<not> is_panic (snd (f w)))"

abbreviation sound :: "pkgvars \<Rightarrow> (world \<Rightarrow> world \<times> 'a res) \<Rightarrow> bool" where
  "sound g f \<equiv> sound_on g (\<lambda>_. True) f"

named_theorems sound_ops \<open>steps of the controllers keep the library sound\<close>

lemma sound_onI:
  assumes "\<And>w. lib_inv g (w_host w) \<Longrightarrow> P w \<Longrightarrow>
    lib_inv g (w_host (fst (f w))) \<and> allCpus (w_host (fst (f w))) = allCpus (w_host w) \<and> \<not> is_panic (snd (f w))"
  shows "sound_on g P f"
  using assms by (auto simp: sound_on_def)

lemma sound_onD:
  assumes "sound_on g P f" and "lib_inv g (w_host w)" and "P w"
  shows "lib_inv g (w_host (fst (f w)))" and "allCpus (w_host (fst (f w))) = allCpus (w_host w)"
    and "\<not> is_panic (snd (f w))"
  using assms by (auto simp: sound_on_def)

lemma reply_no_panic [simp]: "\<not> is_panic (reply x)"
  by (cases x) simp_all

lemma sound_return [sound_ops]: "\<not> is_panic r \<Longrightarrow> sound_on g P (\<lambda>w. (w, r))"
  by (simp add: sound_on_def)

lemma sound_api_get [sound_ops]: "sound_on g P (api_get f)"
  by (simp add: sound_on_def api_get_def)

lemma sound_api_send [sound_ops]: "sound_on g P (api_send r q)"
  by (simp add: sound_on_def api_send_def Let_def split: option.split)

lemma sound_on_host [sound_ops]: "safe_on g P f \<Longrightarrow> sound_on g (\<lambda>w. P (w_host w)) (on_host f)"
  by (auto simp: sound_on_def safe_on_def on_host_def split: prod.split)

lemma sound_on_host_safe [sound_ops]: "safe g f \<Longrightarrow> sound_on g P (on_host f)"
  by (auto simp: sound_on_def safe_on_def on_host_def split: prod.split)

lemma sound_catch_err [sound_ops]:
  assumes "sound_on g P f" and "\<And>e. sound g (handle e)" and "\<And>a. sound g (k a)"
  shows "sound_on g P (\<lambda>w. catch_err (f w) handle k)"
proof (rule sound_onI)
  fix w assume w: "lib_inv g (w_host w)" "P w"
  obtain v r where r: "f w = (v, r)" by (cases "f w")
  show "lib_inv g (w_host (fst (catch_err (f w) handle k))) \<and>
      allCpus (w_host (fst (catch_err (f w) handle k))) = allCpus (w_host w) \<and>
      \<not> is_panic (snd (catch_err (f w) handle k))"
    using sound_onD[OF assms(1) w] sound_onD[OF assms(2), of v] sound_onD[OF assms(3), of v] r
    by (cases r) simp_all
qed

lemma sound_then_do [sound_ops]:
  assumes "sound_on g P f" and "\<And>a. sound g (k a)"
  shows "sound_on g P (\<lambda>w. then_do (f w) k)"
proof (rule sound_onI)
  fix w assume w: "lib_inv g (w_host w)" "P w"
  obtain v r where r: "f w = (v, r)" by (cases "f w")
  show "lib_inv g (w_host (fst (then_do (f w) k))) \<and>
      allCpus (w_host (fst (then_do (f w) k))) = allCpus (w_host w) \<and> \<not> is_panic (snd (then_do (f w) k))"
    using sound_onD[OF assms(1) w] sound_onD[OF assms(2), of v] r by (cases r) simp_all
qed

lemma sound_wrap_err [sound_ops]: "sound_on g P f \<Longrightarrow> sound_on g P (\<lambda>w. wrap_err m (f w))"
  by (simp add: sound_on_def)

lemma sound_if [sound_ops]:
  "(b \<Longrightarrow> sound_on g P f) \<Longrightarrow> (\<not> b \<Longrightarrow> sound_on g P k) \<Longrightarrow> sound_on g P (\<lambda>w. if b then f w else k w)"
  by (cases b) simp_all

lemma sound_option [sound_ops]:
  "(x = None \<Longrightarrow> sound_on g P f) \<Longrightarrow> (\<And>a. x = Some a \<Longrightarrow> sound_on g P (k a)) \<Longrightarrow>
   sound_on g P (\<lambda>w. case x of None \<Rightarrow> f w | Some a \<Rightarrow> k a w)"
  by (cases x) simp_all

lemma sound_foreach [sound_ops]:
  assumes "\<And>x. x \<in> set xs \<Longrightarrow> sound g (f x)"
  shows "sound_on g P (foreach f xs)"
proof (rule sound_onI)
  fix w :: world assume w: "lib_inv g (w_host w)"
  let ?I = "\<lambda>t :: world. lib_inv g (w_host t) \<and> allCpus (w_host t) = allCpus (w_host w)"
  have "?I (fst (foreach f xs w))"
    by (rule foreach_inv[where I = ?I]) (use w sound_onD[OF assms] in auto)
  moreover have "\<not> is_panic (snd (foreach f xs w))"
    by (rule foreach_panic[where I = ?I]) (use w sound_onD[OF assms] in auto)
  ultimately show "lib_inv g (w_host (fst (foreach f xs w))) \<and>
      allCpus (w_host (fst (foreach f xs w))) = allCpus (w_host w) \<and> \<not> is_panic (snd (foreach f xs w))" by simp
qed

end
