(* ===== verification/Core_Lists.thy ===== *)
theory Core_Lists
  imports CPU_List "HOL-Library.Char_ord" "HOL-Library.List_Lexorder"
begin

text \<open>
  Texts the controllers write and read: \<open>prettifyCoreList\<close> and \<open>prettifyCStatesMap\<close> of \<open>common.go\<close>
  and \<open>getCleanCoreList\<close> of \<open>powerpod_controller.go\<close>. The two functions on CPU lists implement the
  contracts of theory \<open>CPU_List\<close>, so that what one prints the other reads back.
\<close>

section \<open>Printing\<close>

text \<open>The inner loop: from \<open>e\<close> as far as the numbers are consecutive.\<close>

function run_end :: "nat list \<Rightarrow> nat \<Rightarrow> nat" where
  "run_end srt e =
     (if e < length srt - 1 then
        (if to_uint64 (int (srt ! (e + 1)) - int (srt ! e)) = 1 then run_end srt (e + 1) else e)
      else e)"
  by pat_completeness auto
termination by (relation "measure (\<lambda>(s, e). length s - e)") auto

declare run_end.simps [simp del]

lemma run_end_ge: "e \<le> run_end s e"
  by (induction s e rule: run_end.induct) (subst run_end.simps, auto)

function prettify_loop :: "nat list \<Rightarrow> nat \<Rightarrow> string \<Rightarrow> string" where
  "prettify_loop srt i acc =
     (if i < length srt then
        (let e = run_end srt i;
             acc = acc @ (if 0 < e - i then nat_str (srt ! i) @ ''-'' @ nat_str (srt ! e)
                          else nat_str (srt ! i));
             acc = (if e < length srt - 1 then acc @ '','' else acc)
         in prettify_loop srt (Suc e) acc)
      else acc)"
  by pat_completeness auto
termination
  by (relation "measure (\<lambda>(s, i, acc). length s - i)") (use run_end_ge in \<open>auto intro: diff_less_mono2 le_imp_less_Suc\<close>)

declare prettify_loop.simps [simp del]

definition prettifyCoreList :: "nat list \<Rightarrow> string" where
  "prettifyCoreList cores = prettify_loop (sort cores) 0 []"

text \<open>\<open>sort.Strings\<close> orders by bytes; the order of \<open>states\<close> stands for the order of \<open>range\<close>.\<close>

definition prettifyCStatesMap :: "(string \<times> bool) list \<Rightarrow> string" where
  "prettifyCStatesMap sts =
     (if length sts = 0 then []
      else
        (let enabled = sort (map fst (filter snd sts));
             disabled = sort (map fst (filter (\<lambda>x. \<not> snd x) sts));
             parts = (if 0 < length enabled then [''enabled: '' @ intercalate '','' enabled] else []);
             parts = (if 0 < length disabled then parts @ [''disabled: '' @ intercalate '','' disabled] else parts)
         in intercalate ''; '' parts))"

section \<open>Reading\<close>

text \<open>\<open>None\<close>: a range up to the largest \<open>int\<close> is never left. A malformed entry empties the result.\<close>

fun clean_loop :: "string list \<Rightarrow> nat list \<Rightarrow> nat list option" where
  "clean_loop [] cleanCores = Some cleanCores"
| "clean_loop (x # xs) cleanCores =
     (let parts = split_on CHR ''-'' x in
      if length parts = 1 then
        (case ParseUint 32 (hd parts) of
           None \<Rightarrow> Some []
         | Some c \<Rightarrow> clean_loop xs (cleanCores @ [c]))
      else
        (case Atoi (hd parts) of
           None \<Rightarrow> Some []
         | Some startCore \<Rightarrow>
             (case Atoi (last parts) of
                None \<Rightarrow> Some []
              | Some endCore \<Rightarrow>
                  (case int_loop startCore endCore of
                     None \<Rightarrow> None
                   | Some is \<Rightarrow> clean_loop xs (cleanCores @ map to_uint64 is)))))"

definition getCleanCoreList :: "string \<Rightarrow> nat list option" where
  "getCleanCoreList coreIDs = clean_loop (split_on CHR '','' coreIDs) []"

section \<open>The contracts\<close>

lemma run_end_run:
  assumes "sorted s" and "e < length s" and "\<forall>x \<in> set s. x < 2 ^ 64"
  shows "run_end s e < length s \<and> (\<forall>k. e \<le> k \<and> k \<le> run_end s e \<longrightarrow> s ! k = s ! e + (k - e))"
  using assms
proof (induction s e rule: run_end.induct)
  case (1 s e)
  show ?case
  proof (cases "e < length s - 1 \<and> to_uint64 (int (s ! (e + 1)) - int (s ! e)) = 1")
    case True
    have le: "s ! e \<le> s ! (e + 1)" using 1(2) True by (intro sorted_nth_mono) auto
    have "s ! (e + 1) < 2 ^ 64" using 1(4) True by auto
    then have "int (s ! (e + 1)) - int (s ! e) < 2 ^ 64" by simp
    then have step: "s ! (e + 1) = Suc (s ! e)"
      using True le by (auto simp: to_uint64_id)
    have lt: "e + 1 < length s" using True by arith
    have IH: "run_end s (e + 1) < length s"
      "\<forall>k. e + 1 \<le> k \<and> k \<le> run_end s (e + 1) \<longrightarrow> s ! k = s ! (e + 1) + (k - (e + 1))"
      using 1(1)[OF _ _ 1(2) lt 1(4)] True by blast+
    have r: "run_end s e = run_end s (e + 1)" using True by (subst run_end.simps) simp
    have "s ! k = s ! e + (k - e)" if "e \<le> k" "k \<le> run_end s (e + 1)" for k
    proof (cases "k = e")
      case False
      then have "e + 1 \<le> k" using that(1) by simp
      then show ?thesis using IH(2)[rule_format, of k] that(2) step by arith
    qed simp
    with IH(1) show ?thesis unfolding r by blast
  next
    case False
    then have "run_end s e = e" by (subst run_end.simps) auto
    then show ?thesis using 1(3) by (auto simp: le_antisym)
  qed
qed

text \<open>The loop prints the ranges that enumerate the rest of the list.\<close>

lemma prettify_loop_ranges:
  assumes "sorted s" and "i \<le> length s" and "\<forall>x \<in> set s. x < 2 ^ 64"
  shows "\<exists>rs. prettify_loop s i acc = acc @ print_ranges rs \<and> valid_ranges rs \<and> expand rs = drop i s"
  using assms
proof (induction "length s - i" arbitrary: i acc rule: less_induct)
  case less
  show ?case
  proof (cases "i < length s")
    case True
    define e where "e = run_end s i"
    have e: "i \<le> e" "e < length s" unfolding e_def
      using run_end_run[OF less.prems(1) True less.prems(3)] run_end_ge[of i s] by simp_all
    have run: "\<forall>k. i \<le> k \<and> k \<le> e \<longrightarrow> s ! k = s ! i + (k - i)" unfolding e_def
      using run_end_run[OF less.prems(1) True less.prems(3)] by blast
    have run_e: "s ! e = s ! i + (e - i)" using run e by blast
    let ?r = "(s ! i, s ! e)"
    let ?acc = "if e < length s - 1 then (acc @ range_str ?r) @ '','' else acc @ range_str ?r"
    have lt: "s ! i \<le> s ! e" using run_e by simp
    have re: "s ! e = s ! i \<longleftrightarrow> e = i" using run_e e by arith
    have str: "(if 0 < e - i then nat_str (s ! i) @ ''-'' @ nat_str (s ! e) else nat_str (s ! i)) = range_str ?r"
      using e re by (auto simp: range_str_def)
    have less': "length s - Suc e < length s - i" using e by arith
    have "prettify_loop s i acc = prettify_loop s (Suc e) ?acc"
      using True by (subst prettify_loop.simps) (simp only: Let_def e_def[symmetric] str if_True)
    moreover obtain rs where rs: "prettify_loop s (Suc e) ?acc = ?acc @ print_ranges rs"
        "valid_ranges rs" "expand rs = drop (Suc e) s"
      using less.hyps[OF less' less.prems(1) _ less.prems(3), of ?acc] e(2) by (meson Suc_leI)
    moreover have "drop i s = [s ! i..<Suc (s ! e)] @ drop (Suc e) s"
    proof -
      have "take (Suc e - i) (drop i s) = [s ! i..<Suc (s ! e)]"
      proof (rule nth_equalityI)
        show "length (take (Suc e - i) (drop i s)) = length [s ! i..<Suc (s ! e)]"
          using run_e e by (simp del: upt_Suc)
        fix k assume k: "k < length (take (Suc e - i) (drop i s))"
        then have "i + k \<le> e" by simp linarith
        then have "s ! (i + k) = s ! i + k" using run[rule_format, of "i + k"] by simp
        then show "take (Suc e - i) (drop i s) ! k = [s ! i..<Suc (s ! e)] ! k"
          using k run_e e by (simp del: upt_Suc)
      qed
      moreover have "drop (Suc e - i) (drop i s) = drop (Suc e) s" using e by simp
      ultimately show ?thesis by (metis append_take_drop_id)
    qed
    moreover have "?acc @ print_ranges rs = acc @ print_ranges (?r # rs)"
    proof (cases "e < length s - 1")
      case True
      then have "drop (Suc e) s \<noteq> []" by simp
      with rs(3) have "rs \<noteq> []" by auto
      then show ?thesis using True by (cases rs) (simp_all add: print_ranges_def)
    next
      case False
      then have "expand rs = []" using rs(3) by simp
      then have "rs = []" using rs(2) by (cases rs) auto
      then show ?thesis using False by (simp add: print_ranges_def)
    qed
    ultimately show ?thesis using lt by (intro exI[of _ "?r # rs"]) simp
  next
    case False
    then show ?thesis by (intro exI[of _ "[]"]) (simp add: prettify_loop.simps print_ranges_def)
  qed
qed

lemma clean_loop_returns:
  assumes "\<forall>x \<in> set xs. Atoi (last (split_on CHR ''-'' x)) \<noteq> Some max_int64"
  shows "\<exists>cs. clean_loop xs acc = Some cs"
  using assms
proof (induction xs arbitrary: acc)
  case (Cons x xs)
  let ?p = "split_on CHR ''-'' x"
  have i: "\<exists>cs. clean_loop xs acc' = Some cs" for acc' using Cons by simp
  have "Atoi (last ?p) \<noteq> Some max_int64" using Cons.prems by simp
  then show ?case using i int_loop_Atoi[of "hd ?p" _ "last ?p"]
    by (cases "Atoi (hd ?p)"; cases "Atoi (last ?p)") (auto simp: Let_def split: option.split)
qed simp

lemma clean_loop_ranges:
  assumes "valid_ranges rs" and "\<And>c. c \<in> set (expand rs) \<Longrightarrow> c < 2 ^ 32"
  shows "clean_loop (map range_str rs) acc = Some (acc @ expand rs)"
  using assms
proof (induction rs arbitrary: acc)
  case (Cons r rs)
  have "snd r \<in> set (expand (r # rs))" "fst r \<in> set (expand (r # rs))" using Cons.prems(1) by auto
  with Cons.prems(2) have b: "snd r < 2 ^ 32" "fst r < 2 ^ 32" by blast+
  then have i: "int (snd r) < max_int64" "int (fst r) < max_int64" by (simp_all add: max_int64_def)
  have IH: "clean_loop (map range_str rs) acc' = Some (acc' @ expand rs)" for acc'
    using Cons by simp
  show ?case
  proof (cases "fst r = snd r")
    case True
    then show ?thesis using IH b by (simp add: split_range_str)
  next
    case False
    have "map to_uint64 (map int [fst r..<Suc (snd r)]) = map id [fst r..<Suc (snd r)]"
      unfolding map_map using b by (intro map_cong) (auto simp: to_uint64_of_nat)
    then show ?thesis using False IH i by (simp add: split_range_str del: upt_Suc)
  qed
qed simp

interpretation core_list_codec: cpulist_codec prettifyCoreList sort "\<lambda>cs. \<forall>c \<in> set cs. c < 2 ^ 64"
  getCleanCoreList "\<lambda>r cs. r = Some cs" "2 ^ 32"
proof (unfold_locales, goal_cases)
  case (1 cs)
  then show ?case using prettify_loop_ranges[of "sort cs" 0 "[]"] by (simp add: prettifyCoreList_def)
next
  case (2 rs)
  show ?case
  proof (cases "rs = []")
    case True
    have "getCleanCoreList [] = Some []" by code_simp
    then show ?thesis using True by (simp add: print_ranges_def)
  next
    case False
    then show ?thesis using clean_loop_ranges[OF 2(1), of "[]"] 2(2)
      by (simp add: getCleanCoreList_def split_print_ranges)
  qed
qed

section \<open>Properties\<close>

text \<open>
  C40. What \<open>prettifyCoreList\<close> writes into a status, \<open>getCleanCoreList\<close> reads back as the sorted list
  of the same CPU ids: for every list of ids below 2 ^ 32, repeated ids and the empty list
  included, the pair is a round trip that always returns.
\<close>
theorem core_list_round_trip:
  assumes "\<forall>c \<in> set cs. c < 2 ^ 32"
  shows "getCleanCoreList (prettifyCoreList cs) = Some (sort cs)"
proof (rule core_list_codec.round_trip)
  show "\<forall>c \<in> set cs. c < 2 ^ 64" using assms by auto
  show "c < 2 ^ 32" if "c \<in> set (sort cs)" for c using assms that by simp
qed

theorem core_list_round_trip_witness:
  "getCleanCoreList (prettifyCoreList [7, 0, 1, 2, 9, 8]) = Some [0, 1, 2, 7, 8, 9]"
  using core_list_round_trip[of "[7, 0, 1, 2, 9, 8]"] by simp

end
