(* ===== verification/Controllers_Common.thy ===== *)
theory Controllers_Common
  imports Cluster Core_Lists "HOL-Library.AList" "HOL-Library.Product_Lexorder"
begin

text \<open>
  The helpers of \<open>controllers/common.go\<close> that the controllers share: matching of node selectors, the
  choice among several resources that match a node, the availability of a profile, and the
  entries of profiles in the status of the node.
\<close>

text \<open>A name in single quotes, as error messages have it.\<close>

definition squote :: "string \<Rightarrow> string" where
  "squote s = [CHR 0x27] @ s @ [CHR 0x27]"

section \<open>Selectors\<close>

definition ValidEppValues :: "string list" where
  "ValidEppValues = [''performance'', ''balance_performance'', ''balance_power'', ''power'']"

definition isValidEpp :: "string \<Rightarrow> bool" where
  "isValidEpp inputName = list_ex (\<lambda>validEpp. inputName = validEpp) ValidEppValues"

definition empty_selector :: "LabelSelector \<Rightarrow> bool" where
  "empty_selector ls = (length (MatchLabels ls) = 0 \<and> length (MatchExpressions ls) = 0)"

definition nodeMatchesSelector :: "api \<Rightarrow> (string \<times> string) list \<Rightarrow> LabelSelector \<Rightarrow> bool res" where
  "nodeMatchesSelector a nodeLabels ls =
     (if empty_selector ls then Ok True
      else case asSelector a ls of Inl e \<Rightarrow> Error e | Inr Matches \<Rightarrow> Ok (Matches nodeLabels))"

definition pns_name :: "string \<Rightarrow> string" where
  "pns_name nodeName = nodeName @ ''-power-state''"

definition getActiveResourceName ::
  "reconciler \<Rightarrow> string \<Rightarrow> (PowerNodeStateStatus \<Rightarrow> string) \<Rightarrow> world \<Rightarrow> world \<times> string res" where
  "getActiveResourceName r nodeName extractName w =
     then_do (api_get (\<lambda>n. get_pns (r_api r) n (pns_name nodeName)) w)
       (\<lambda>pns w. (w, Ok (extractName pns)))"

text \<open>An item with an invalid selector is logged and left out.\<close>

fun filterByNodeSelector ::
  "api \<Rightarrow> ('t \<Rightarrow> LabelSelector) \<Rightarrow> 't list \<Rightarrow> (string \<times> string) list \<Rightarrow> 't list" where
  "filterByNodeSelector a getSelector [] nodeLabels = []"
| "filterByNodeSelector a getSelector (item # items) nodeLabels =
     (case nodeMatchesSelector a nodeLabels (getSelector item) of
        Ok True \<Rightarrow> item # filterByNodeSelector a getSelector items nodeLabels
      | _ \<Rightarrow> filterByNodeSelector a getSelector items nodeLabels)"

text \<open>
  The list is sorted in place, so the caller sees it sorted: the result is the list after the call
  and the item selected. \<open>sort.Slice\<close> is not stable, but items with the same time and name cannot
  be told apart by the order: names are unique in the namespace.
\<close>

definition age_key :: "ObjectMeta \<Rightarrow> int \<times> string" where
  "age_key m = (om_CreationTimestamp m, om_Name m)"

definition selectActiveOrOldest ::
  "('t \<Rightarrow> ObjectMeta) \<Rightarrow> 't list \<Rightarrow> string \<Rightarrow> 't list \<times> 't option" where
  "selectActiveOrOldest getMeta matches activeName =
     (if length matches = 0 then (matches, None)
      else
        (case (if activeName \<noteq> [] then find (\<lambda>m. om_Name (getMeta m) = activeName) matches else None) of
           Some m \<Rightarrow> (matches, Some m)
         | None \<Rightarrow>
             (let sorted_matches = sort_key (\<lambda>m. age_key (getMeta m)) matches
              in (sorted_matches, Some (sorted_matches ! 0)))))"

definition nodeMatchesPowerProfile ::
  "reconciler \<Rightarrow> PowerProfile \<Rightarrow> string \<Rightarrow> world \<Rightarrow> world \<times> bool res" where
  "nodeMatchesPowerProfile r p nodeName w =
     (let ls = ns_LabelSelector (pps_NodeSelector (pp_Spec p)) in
      if empty_selector ls then (w, Ok True)
      else then_do (api_get (\<lambda>n. get_node (r_api r) n nodeName) w)
             (\<lambda>node w. (w, nodeMatchesSelector (r_api r) (nd_Labels node) ls)))"

definition validateProfileAvailabilityOnNode ::
  "reconciler \<Rightarrow> string \<Rightarrow> string \<Rightarrow> host option \<Rightarrow> world \<Rightarrow> world \<times> bool res" where
  "validateProfileAvailabilityOnNode r profileName nodeName powerLibrary w =
     (if profileName = [] then (w, Ok True)
      else catch_err (api_get (\<lambda>n. get_profile (r_api r) n profileName) w)
        (\<lambda>e w. if IsNotFound e then (w, Ok False) else (w, Error e))
        (\<lambda>powerProfile w.
           (case powerLibrary of
              None \<Rightarrow> (w, Error (Errorf ''power library is nil''))
            | Some h \<Rightarrow>
                (case GetExclusivePool h profileName of
                   None \<Rightarrow> (w, Ok False)
                 | Some _ \<Rightarrow> nodeMatchesPowerProfile r powerProfile nodeName w))))"

section \<open>The entry of a profile in the status of the node\<close>

definition FieldOwnerPowerProfileController :: string where
  "FieldOwnerPowerProfileController = ''powerprofile-controller''"

definition powerProfileFieldManager :: "string \<Rightarrow> string" where
  "powerProfileFieldManager profileName = FieldOwnerPowerProfileController @ ''.'' @ profileName"

definition formatIntOrString :: "IntOrString option \<Rightarrow> string" where
  "formatIntOrString v = (case v of None \<Rightarrow> [] | Some (IntV i) \<Rightarrow> Itoa i | Some (StrV s) \<Rightarrow> s)"

definition zero_policy :: CPUScalingPolicy where
  "zero_policy = \<lparr>WorkloadType = [], SamplePeriod = None, CooldownPeriod = None, TargetUsage = None,
     AllowedUsageDifference = None, AllowedFrequencyDifference = None, ScalePercentage = None,
     FallbackFreqPercent = None\<rparr>"

definition formatCPUScalingPolicy :: "api \<Rightarrow> CPUScalingPolicy option \<Rightarrow> string res" where
  "formatCPUScalingPolicy a policy =
     (case policy of
        None \<Rightarrow> Ok []
      | Some p \<Rightarrow>
          if p = zero_policy then Ok []
          else (case marshalPolicy a p of
                  Inl e \<Rightarrow> Error (Wrapf ''failed to marshal cpuScalingPolicy'' e)
                | Inr b \<Rightarrow> Ok b))"

definition applyPowerNodeStateProfilesStatus ::
  "reconciler \<Rightarrow> string \<Rightarrow> PowerNodeProfileStatus list \<Rightarrow> string \<Rightarrow> world \<Rightarrow> world \<times> unit res" where
  "applyPowerNodeStateProfilesStatus r powerNodeStateName profiles fieldManager =
     api_send r (StatusApply powerNodeStateName (empty_status\<lparr>st_PowerProfiles := Some profiles\<rparr>) fieldManager)"

definition profile_config :: "PowerProfile \<Rightarrow> string" where
  "profile_config p =
     (let cstatesString = prettifyCStatesMap (Names (CStates (pp_Spec p)));
          cstatesString =
            (case MaxLatencyUs (CStates (pp_Spec p)) of
               Some l \<Rightarrow> if cstatesString = [] then ''maxLatency: '' @ Itoa l else cstatesString
             | None \<Rightarrow> cstatesString)
      in ''Min: '' @ formatIntOrString (Min (PStates (pp_Spec p))) @
         '', Max: '' @ formatIntOrString (Max (PStates (pp_Spec p))) @
         '', Governor: '' @ Governor (PStates (pp_Spec p)) @
         '', EPP: '' @ Epp (PStates (pp_Spec p)) @ '', C-States: '' @ cstatesString)"

definition addPowerNodeStatusProfileEntry ::
  "reconciler \<Rightarrow> string \<Rightarrow> PowerProfile \<Rightarrow> err option \<Rightarrow> world \<Rightarrow> world \<times> unit res" where
  "addPowerNodeStatusProfileEntry r nodeName p profileErrors w =
     (if nodeName = [] then (w, Error (Errorf ''nodeName cannot be empty''))
      else then_do (w, formatCPUScalingPolicy (r_api r) (pps_CPUScalingPolicy (pp_Spec p)))
        (\<lambda>scalingStr.
           (let config = (if scalingStr \<noteq> [] then profile_config p @ '', CPUScalingPolicy: '' @ scalingStr
                          else profile_config p);
                name = om_Name (pp_Meta p);
                profileStatus = \<lparr>pnps_Name = name, pnps_Config = config,
                                 pnps_Errors = UnpackErrsToStrings profileErrors\<rparr>
            in applyPowerNodeStateProfilesStatus r (pns_name nodeName) [profileStatus]
                 (powerProfileFieldManager name))))"

definition removePowerNodeStatusProfileEntry ::
  "reconciler \<Rightarrow> string \<Rightarrow> string \<Rightarrow> world \<Rightarrow> world \<times> unit res" where
  "removePowerNodeStatusProfileEntry r nodeName profileName w =
     (if nodeName = [] then (w, Error (Errorf ''nodeName cannot be empty''))
      else catch_err
        (applyPowerNodeStateProfilesStatus r (pns_name nodeName) [] (powerProfileFieldManager profileName) w)
        (\<lambda>e w. if IsNotFound e then (w, Ok ()) else (w, Error e)) (\<lambda>_ w. (w, Ok ())))"

section \<open>Facts\<close>

lemma nodeMatchesSelector_no_panic [simp]: "\<not> is_panic (nodeMatchesSelector a l s)"
  by (simp add: nodeMatchesSelector_def split: sum.split)

lemma filterByNodeSelector_eq:
  "filterByNodeSelector a getSelector items nodeLabels =
     filter (\<lambda>item. nodeMatchesSelector a nodeLabels (getSelector item) = Ok True) items"
  by (induction items) (auto split: res.splits bool.splits)

text \<open>None of these calls touches the library.\<close>

definition host_kept :: "(world \<Rightarrow> world \<times> 'a res) \<Rightarrow> bool" where
  "host_kept f = (\<forall>w. w_host (fst (f w)) = w_host w \<and> \<not> is_panic (snd (f w)))"

named_theorems host_kepts \<open>calls that leave the library alone and do not panic\<close>

lemma host_keptD: "host_kept f \<Longrightarrow> w_host (fst (f w)) = w_host w" "host_kept f \<Longrightarrow> \<not> is_panic (snd (f w))"
  by (simp_all add: host_kept_def)

lemma host_kept_sound: "host_kept f \<Longrightarrow> sound_on g P f"
  by (simp add: host_kept_def sound_on_def)

lemma host_kept_return [host_kepts]: "\<not> is_panic r \<Longrightarrow> host_kept (\<lambda>w. (w, r))"
  by (simp add: host_kept_def)

lemma host_kept_api [host_kepts]: "host_kept (api_get f)" "host_kept (api_send r q)"
  by (simp_all add: host_kept_def api_get_def api_send_def Let_def split: option.split)

lemma host_kept_then_do [host_kepts]:
  assumes "host_kept f" and "\<And>a. host_kept (k a)"
  shows "host_kept (\<lambda>w. then_do (f w) k)"
  unfolding host_kept_def
proof
  fix w
  obtain v r where "f w = (v, r)" by (cases "f w")
  then show "w_host (fst (then_do (f w) k)) = w_host w \<and> \<not> is_panic (snd (then_do (f w) k))"
    using assms(1)[unfolded host_kept_def, rule_format, of w] assms(2)[unfolded host_kept_def, rule_format, of _ v]
    by (cases r) simp_all
qed

lemma host_kept_catch_err [host_kepts]:
  assumes "host_kept f" and "\<And>e. host_kept (handle e)" and "\<And>a. host_kept (k a)"
  shows "host_kept (\<lambda>w. catch_err (f w) handle k)"
  unfolding host_kept_def
proof
  fix w
  obtain v r where "f w = (v, r)" by (cases "f w")
  then show "w_host (fst (catch_err (f w) handle k)) = w_host w \<and> \<not> is_panic (snd (catch_err (f w) handle k))"
    using assms(1)[unfolded host_kept_def, rule_format, of w] assms(2)[unfolded host_kept_def, rule_format, of _ v]
      assms(3)[unfolded host_kept_def, rule_format, of _ v]
    by (cases r) simp_all
qed

lemma host_kept_if [host_kepts]:
  "(b \<Longrightarrow> host_kept f) \<Longrightarrow> (\<not> b \<Longrightarrow> host_kept k) \<Longrightarrow> host_kept (\<lambda>w. if b then f w else k w)"
  by (cases b) simp_all

lemma host_kept_option [host_kepts]:
  "(x = None \<Longrightarrow> host_kept f) \<Longrightarrow> (\<And>a. x = Some a \<Longrightarrow> host_kept (k a)) \<Longrightarrow>
   host_kept (\<lambda>w. case x of None \<Rightarrow> f w | Some a \<Rightarrow> k a w)"
  by (cases x) simp_all

lemma host_kept_wrap_err [host_kepts]: "host_kept f \<Longrightarrow> host_kept (\<lambda>w. wrap_err m (f w))"
  by (simp add: host_kept_def)

lemma on_host_Ok_iff: "on_host f w = (w', Ok a) \<longleftrightarrow> (\<exists>h'. f (w_host w) = (h', Ok a) \<and> w' = w\<lparr>w_host := h'\<rparr>)"
  by (auto simp: on_host_def split: prod.splits)

lemma host_kept_foreach [host_kepts]:
  assumes "\<And>x. x \<in> set xs \<Longrightarrow> host_kept (f x)"
  shows "host_kept (foreach f xs)"
  unfolding host_kept_def
proof
  fix w :: world
  let ?I = "\<lambda>v :: world. w_host v = w_host w"
  have "?I (fst (foreach f xs w))"
    by (rule foreach_inv[where I = ?I]) (use host_keptD(1)[OF assms] in auto)
  moreover have "\<not> is_panic (snd (foreach f xs w))"
    by (rule foreach_panic[where I = ?I]) (use host_keptD[OF assms] in auto)
  ultimately show "w_host (fst (foreach f xs w)) = w_host w \<and> \<not> is_panic (snd (foreach f xs w))" by simp
qed

lemma getActiveResourceName_kept [host_kepts]: "host_kept (getActiveResourceName r n f)"
  unfolding getActiveResourceName_def by (intro host_kepts) simp

lemma nodeMatchesPowerProfile_kept [host_kepts]: "host_kept (nodeMatchesPowerProfile r p n)"
  unfolding nodeMatchesPowerProfile_def Let_def by (intro host_kepts) simp_all

lemma validateProfile_kept [host_kepts]: "host_kept (validateProfileAvailabilityOnNode r p n h)"
  unfolding validateProfileAvailabilityOnNode_def
  by (intro host_kepts) simp_all

lemma addProfileEntry_kept [host_kepts]: "host_kept (addPowerNodeStatusProfileEntry r n p e)"
  unfolding addPowerNodeStatusProfileEntry_def Let_def applyPowerNodeStateProfilesStatus_def
  by (intro host_kepts) (simp_all add: formatCPUScalingPolicy_def split: option.split sum.split)

lemma removeProfileEntry_kept [host_kepts]: "host_kept (removePowerNodeStatusProfileEntry r n p)"
  unfolding removePowerNodeStatusProfileEntry_def applyPowerNodeStateProfilesStatus_def
  by (intro host_kepts) simp_all

section \<open>Properties\<close>

text \<open>
  Among the resources that match a node, the one that is already active stays selected as long
  as it matches; otherwise the oldest is selected, the name deciding between resources of the
  same age. Something is selected whenever something matches, and the list the caller goes on
  with holds the same resources.
\<close>
theorem selectActiveOrOldest_correct:
  assumes "selectActiveOrOldest getMeta matches active = (ms, sel)"
    and "inj_on (\<lambda>m. om_Name (getMeta m)) (set matches)"
  shows "mset ms = mset matches \<and> (sel = None \<longleftrightarrow> matches = []) \<and>
    (\<forall>s. sel = Some s \<longrightarrow> s \<in> set matches \<and>
      (if active \<noteq> [] \<and> active \<in> (\<lambda>m. om_Name (getMeta m)) ` set matches
       then om_Name (getMeta s) = active
       else \<forall>m \<in> set matches. m \<noteq> s \<longrightarrow>
         om_CreationTimestamp (getMeta s) < om_CreationTimestamp (getMeta m) \<or>
         om_CreationTimestamp (getMeta s) = om_CreationTimestamp (getMeta m) \<and>
         om_Name (getMeta s) < om_Name (getMeta m)))"
proof (cases "matches = []")
  case True
  then show ?thesis using assms(1) by (simp add: selectActiveOrOldest_def)
next
  case False
  let ?nm = "\<lambda>m. om_Name (getMeta m)"
  show ?thesis
  proof (cases "active \<noteq> [] \<and> active \<in> ?nm ` set matches")
    case True
    then have "find (\<lambda>m. ?nm m = active) matches \<noteq> None" by (auto simp: find_None)
    then obtain m where m: "find (\<lambda>m. ?nm m = active) matches = Some m" by blast
    then have "ms = matches" "sel = Some m"
      using assms(1) False True by (auto simp: selectActiveOrOldest_def)
    then show ?thesis using find_SomeD[OF m] True False by auto
  next
    case no: False
    then have "(if active \<noteq> [] then find (\<lambda>m. ?nm m = active) matches else None) = None"
      by (auto simp: find_None)
    then have sel: "ms = sort_key (\<lambda>m. age_key (getMeta m)) matches" "sel = Some (ms ! 0)"
      using assms(1) False by (simp_all only: selectActiveOrOldest_def Let_def option.case) auto
    have ne: "ms \<noteq> []" using sel(1) False by (metis length_0_conv length_sort)
    have srt: "sorted (map (\<lambda>m. age_key (getMeta m)) ms)" by (simp add: sel(1))
    have first: "age_key (getMeta (ms ! 0)) \<le> age_key (getMeta m)" if m: "m \<in> set matches" for m
    proof -
      obtain j where j: "j < length ms" "ms ! j = m"
        using m sel(1) by (metis in_set_conv_nth set_sort)
      then show ?thesis using sorted_nth_mono[OF srt, of 0 j] ne by simp
    qed
    have s: "ms ! 0 \<in> set matches" using ne sel(1) by (metis length_greater_0_conv nth_mem set_sort)
    have "om_CreationTimestamp (getMeta (ms ! 0)) < om_CreationTimestamp (getMeta m) \<or>
        om_CreationTimestamp (getMeta (ms ! 0)) = om_CreationTimestamp (getMeta m) \<and> ?nm (ms ! 0) < ?nm m"
      if m: "m \<in> set matches" "m \<noteq> ms ! 0" for m
    proof -
      have "?nm m \<noteq> ?nm (ms ! 0)" using m s assms(2) by (auto dest: inj_onD)
      then show ?thesis using first[OF m(1)] by (auto simp: age_key_def less_eq_prod_def)
    qed
    moreover have "mset ms = mset matches" by (simp add: sel(1))
    ultimately show ?thesis using no sel(2) s False by auto
  qed
qed

definition meta0 :: "string \<Rightarrow> int \<Rightarrow> ObjectMeta" where
  "meta0 n t = \<lparr>om_Name = n, om_Namespace = PowerNamespace, om_CreationTimestamp = t\<rparr>"

theorem selectActiveOrOldest_correct_witness:
  "\<exists>ms. selectActiveOrOldest id [meta0 ''b'' 2, meta0 ''c'' 1, meta0 ''a'' 1] ''x'' = (ms, Some (meta0 ''a'' 1))"
proof -
  let ?ms = "[meta0 ''b'' 2, meta0 ''c'' 1, meta0 ''a'' 1]"
  let ?p = "selectActiveOrOldest id ?ms ''x''"
  have "?p = (fst ?p, snd ?p)" by simp
  note c = selectActiveOrOldest_correct[OF this]
  have inj: "inj_on (\<lambda>m. om_Name (id m)) (set ?ms)" by (simp add: meta0_def)
  obtain y where y: "snd ?p = Some y" using c[OF inj] by blast
  have no: "\<not> (''x'' \<noteq> [] \<and> ''x'' \<in> (\<lambda>m. om_Name (id m)) ` set ?ms)" by (simp add: meta0_def)
  have k: "y \<in> set ?ms" "\<forall>m \<in> set ?ms. m \<noteq> y \<longrightarrow>
      om_CreationTimestamp (id y) < om_CreationTimestamp (id m) \<or>
      om_CreationTimestamp (id y) = om_CreationTimestamp (id m) \<and> om_Name (id y) < om_Name (id m)"
    using c[OF inj] y no by (simp_all only: option.inject if_False) blast+
  have "y = meta0 ''a'' 1"
  proof (rule ccontr)
    assume "y \<noteq> meta0 ''a'' 1"
    then have "om_CreationTimestamp y < 1 \<or> om_CreationTimestamp y = 1 \<and> om_Name y < ''a''"
      using k(2) by (simp add: meta0_def)
    moreover have "y = meta0 ''b'' 2 \<or> y = meta0 ''c'' 1" using k(1) \<open>y \<noteq> meta0 ''a'' 1\<close> by simp
    ultimately show False by (auto simp: meta0_def)
  qed
  then show ?thesis using y by (intro exI[of _ "fst ?p"]) (simp add: prod_eq_iff)
qed

end
