(* ===== verification/NodeConfig_Controller.thy ===== *)
theory NodeConfig_Controller
  imports Controllers_Common
begin

text \<open>
  \<open>controllers/powernodeconfig_controller.go\<close>: the choice of the configuration of a node, the
  validation of its profiles, and the shared and reserved pools that it describes. A host call is
  a function on the host, a call that also talks to the API server one on the world.
\<close>

section \<open>Choosing a configuration\<close>

definition powerNodeConfigActiveName :: "PowerNodeStateStatus \<Rightarrow> string" where
  "powerNodeConfigActiveName s =
     (case st_CPUPools s of
        None \<Rightarrow> []
      | Some pl \<Rightarrow> (case cps_Shared pl of None \<Rightarrow> [] | Some sh \<Rightarrow> ss_PowerNodeConfig sh))"

definition powerNodeConfigSelector :: "PowerNodeConfig \<Rightarrow> LabelSelector" where
  "powerNodeConfigSelector c = ns_LabelSelector (pncs_NodeSelector (pnc_Spec c))"

definition getMatchingPowerNodeConfigs ::
  "reconciler \<Rightarrow> string \<Rightarrow> world \<Rightarrow> world \<times> PowerNodeConfig list res" where
  "getMatchingPowerNodeConfigs r nodeName w =
     then_do (wrap_err (''failed to get node '' @ nodeName) (api_get (\<lambda>n. get_node (r_api r) n nodeName) w))
       (\<lambda>node w.
          then_do (wrap_err ''failed to list PowerNodeConfigs'' (api_get (list_configs (r_api r)) w))
            (\<lambda>items w. (w, Ok (filterByNodeSelector (r_api r) powerNodeConfigSelector items (nd_Labels node)))))"

definition conflict_msg :: "string \<Rightarrow> string" where
  "conflict_msg name = ''conflicting PowerNodeConfig: '' @ name"

definition describeConflictingConfig :: "reconciler \<Rightarrow> PowerNodeConfig \<Rightarrow> world \<Rightarrow> world \<times> string res" where
  "describeConflictingConfig r config w =
     (let name = om_Name (pnc_Meta config); prof = SharedPowerProfile (pnc_Spec config) in
      catch_err (api_get (\<lambda>n. get_profile (r_api r) n prof) w)
        (\<lambda>e w. (w, Ok (if IsNotFound e then conflict_msg name @ '' (profile '' @ squote prof @ '' not found)''
                       else conflict_msg name)))
        (\<lambda>p w. (w, Ok (if \<not> Shared (pp_Spec p)
                       then conflict_msg name @ '' (profile '' @ squote prof @ '' is not a shared profile)''
                       else conflict_msg name))))"

section \<open>Validating it\<close>

text \<open>The first core that is listed twice, in the order of the two loops.\<close>

fun first_duplicate :: "nat list \<Rightarrow> nat list \<Rightarrow> nat option" where
  "first_duplicate seen [] = None"
| "first_duplicate seen (c # cs) = (if c \<in> set seen then Some c else first_duplicate (c # seen) cs)"

definition profile_names :: "PowerNodeConfig \<Rightarrow> string list" where
  "profile_names config =
     SharedPowerProfile (pnc_Spec config) #
       filter (\<lambda>n. n \<noteq> []) (map rs_PowerProfile (ReservedCPUs (pnc_Spec config)))"

definition validatePowerNodeConfigProfiles ::
  "reconciler \<Rightarrow> PowerNodeConfig \<Rightarrow> string \<Rightarrow> world \<Rightarrow> world \<times> unit res" where
  "validatePowerNodeConfigProfiles r config nodeName w =
     (let shared = SharedPowerProfile (pnc_Spec config) in
      catch_err (api_get (\<lambda>n. get_profile (r_api r) n shared) w)
        (\<lambda>e w. (w, Error (if IsNotFound e then Errorf (''PowerProfile '' @ squote shared @ '' not found'') else e)))
        (\<lambda>sharedProfile w.
           if \<not> Shared (pp_Spec sharedProfile) then
             (w, Error (Errorf (''PowerProfile '' @ squote shared @
                '' is not a shared profile (spec.shared must be true)'')))
           else
             (case first_duplicate [] (concat (map rs_Cores (ReservedCPUs (pnc_Spec config)))) of
                Some core \<Rightarrow> (w, Error (Errorf (''reserved CPU '' @ nat_str core @
                  '' is listed in multiple reservedCPUs entries'')))
              | None \<Rightarrow>
                  foreach (\<lambda>name w.
                    then_do (validateProfileAvailabilityOnNode r name nodeName (Some (w_host w)) w)
                      (\<lambda>available w.
                         if \<not> available then
                           (w, Error (Errorf (''PowerProfile '' @ squote name @ '' not available on node '' @ nodeName)))
                         else (w, Ok ())))
                    (profile_names config) w)))"

section \<open>Configuring the pools\<close>

definition configureSharedPool :: "reconciler \<Rightarrow> PowerNodeConfig \<Rightarrow> host \<Rightarrow> host \<times> unit res" where
  "configureSharedPool r config h =
     (let name = SharedPowerProfile (pnc_Spec config) in
      case GetExclusivePool h name of
        None \<Rightarrow> (h, Error (Errorf (''pool for profile '' @ squote name @ '' not found'')))
      | Some p \<Rightarrow>
          (case p_profile (pools h p) of
             None \<Rightarrow> (h, Error (Errorf (''profile for pool '' @ squote name @ '' not found'')))
           | Some prof \<Rightarrow>
               then_do (wrap_err ''failed to set shared pool profile''
                          (SetPowerProfile (r_env r) (r_vars r) SharedPool (Some prof) h))
                 (\<lambda>_ h. wrap_err ''failed to clear reserved pool''
                    (SetCpuIDs (r_env r) (r_vars r) ReservedPool [] h))))"

definition reserved_prefix :: "string \<Rightarrow> string" where
  "reserved_prefix nodeName = nodeName @ ''-reserved-''"

definition is_reserved_pool :: "string \<Rightarrow> host \<Rightarrow> pool_ref \<Rightarrow> bool" where
  "is_reserved_pool nodeName h p = HasPrefix (p_name (pools h p)) (reserved_prefix nodeName)"

text \<open>\<open>%v\<close> of a slice of numbers.\<close>

definition fmt_uints :: "nat list \<Rightarrow> string" where
  "fmt_uints xs = ''['' @ intercalate '' '' (map nat_str xs) @ '']''"

definition reserved_name :: "string \<Rightarrow> nat list \<Rightarrow> string" where
  "reserved_name nodeName cores = reserved_prefix nodeName @ fmt_uints cores"

text \<open>\<open>_ = p.Remove()\<close>\<close>

definition remove_quietly :: "reconciler \<Rightarrow> pool_ref \<Rightarrow> err \<Rightarrow> host \<Rightarrow> host \<times> unit res" where
  "remove_quietly r p e h =
     catch_err (Pool_Remove (r_env r) (r_vars r) p h) (\<lambda>_ h. (h, Error e)) (\<lambda>_ h. (h, Error e))"

definition createReservedPool :: "reconciler \<Rightarrow> ReservedSpec \<Rightarrow> string \<Rightarrow> host \<Rightarrow> host \<times> unit res" where
  "createReservedPool r rc nodeName h =
     (case AddExclusivePool (reserved_name nodeName (rs_Cores rc)) h of
        (h, p, Some e) \<Rightarrow>
          (h, Error (Wrapf (''failed to create reserved pool for cores '' @ fmt_uints (rs_Cores rc)) e))
      | (h, p, None) \<Rightarrow>
          (case GetExclusivePool h (rs_PowerProfile rc) of
             None \<Rightarrow> remove_quietly r p
                       (Errorf (''profile '' @ squote (rs_PowerProfile rc) @ '' has no existing pool'')) h
           | Some corePool \<Rightarrow>
               catch_err (SetPowerProfile (r_env r) (r_vars r) p (p_profile (pools h corePool)) h)
                 (\<lambda>e. remove_quietly r p (Wrapf ''failed to set profile for reserved cores'' e))
                 (\<lambda>_ h.
                    catch_err (SetCpuIDs (r_env r) (r_vars r) p (rs_Cores rc) h)
                      (\<lambda>e. remove_quietly r p (Wrapf ''failed to move cores to reserved pool'' e))
                      (\<lambda>_ h. (h, Ok ())))))"

definition remove_reserved_pools :: "reconciler \<Rightarrow> string \<Rightarrow> host \<Rightarrow> host \<times> unit res" where
  "remove_reserved_pools r nodeName =
     range_slice exclusivePools (\<lambda>p h.
       if is_reserved_pool nodeName h p then
         wrap_err (''failed to remove reserved pool '' @ p_name (pools h p))
           (Pool_Remove (r_env r) (r_vars r) p h)
       else (h, Ok ()))"

text \<open>
  The loop over the groups, with the statuses and errors collected so far. A failed move ends it
  with that one error.
\<close>

fun reserve_groups ::
  "reconciler \<Rightarrow> string \<Rightarrow> ReservedSpec list \<Rightarrow> PowerProfileCPUs list \<Rightarrow> err list \<Rightarrow> host \<Rightarrow>
   host \<times> (PowerProfileCPUs list \<times> err list) res" where
  "reserve_groups r nodeName [] cpus errs h = (h, Ok (cpus, errs))"
| "reserve_groups r nodeName (rc # rcs) cpus errs h =
     (let move = (\<lambda>p. MoveCpuIDs (r_env r) (r_vars r) p (rs_Cores rc));
          status = \<lparr>ppc_PowerProfile = rs_PowerProfile rc, ppc_CPUIDs = prettifyCoreList (rs_Cores rc), ppc_Errors = []\<rparr>
      in catch_err (move SharedPool h)
           (\<lambda>e h. (h, Ok (cpus, [Wrapf ''failed to move reserved cores to shared'' e])))
           (\<lambda>_ h.
              if rs_PowerProfile rc \<noteq> [] then
                catch_err (createReservedPool r rc nodeName h)
                  (\<lambda>e h. catch_err (move ReservedPool h)
                     (\<lambda>e' h. (h, Ok (cpus, [Wrapf ''failed to move cores to reserved'' e'])))
                     (\<lambda>_ h. reserve_groups r nodeName rcs (cpus @ [status\<lparr>ppc_Errors := [err_msg e]\<rparr>]) (errs @ [e]) h))
                  (\<lambda>_ h. reserve_groups r nodeName rcs (cpus @ [status]) errs h)
              else
                catch_err (move ReservedPool h)
                  (\<lambda>e h. (h, Ok (cpus, [Wrapf ''failed to move cores to reserved'' e])))
                  (\<lambda>_ h. reserve_groups r nodeName rcs (cpus @ [status]) errs h)))"

definition configureReservedPools ::
  "reconciler \<Rightarrow> PowerNodeConfig \<Rightarrow> string \<Rightarrow> host \<Rightarrow> host \<times> (PowerProfileCPUs list \<times> err list) res" where
  "configureReservedPools r config nodeName h =
     catch_err (remove_reserved_pools r nodeName h)
       (\<lambda>e h. (h, Ok ([], [e])))
       (\<lambda>_. reserve_groups r nodeName (ReservedCPUs (pnc_Spec config)) [] [])"

section \<open>The status\<close>

definition FieldOwnerPowerNodeConfigController :: string where
  "FieldOwnerPowerNodeConfigController = ''powernodeconfig-controller''"

definition pools_status :: "CPUPoolsStatus \<Rightarrow> PowerNodeStateStatus" where
  "pools_status s = empty_status\<lparr>st_CPUPools := Some s\<rparr>"

definition updatePowerNodeStatusPools ::
  "reconciler \<Rightarrow> string \<Rightarrow> string \<Rightarrow> string \<Rightarrow> string \<Rightarrow> PowerProfileCPUs list \<Rightarrow> string list \<Rightarrow> world \<Rightarrow>
   world \<times> unit res" where
  "updatePowerNodeStatusPools r nodeName configName profileName sharedCPUIDs reservedProfileCPUs statusErrors w =
     (let cpuPools = \<lparr>cps_Shared = Some \<lparr>ss_PowerProfile = profileName, ss_PowerNodeConfig = configName,
                        ss_CPUIDs = sharedCPUIDs, ss_Errors = statusErrors\<rparr>,
                      cps_Reserved = (if 0 < length reservedProfileCPUs
                        then Some [\<lparr>rst_PowerProfileCPUs = reservedProfileCPUs, rst_PowerNodeConfig = configName\<rparr>]
                        else None),
                      cps_Exclusive = None\<rparr>
      in catch_err
           (api_send r (StatusApply (pns_name nodeName) (pools_status cpuPools) FieldOwnerPowerNodeConfigController) w)
           (\<lambda>e w. (w, Error (if IsNotFound e
              then Errorf (''PowerNodeState '' @ pns_name nodeName @ '' not found, requeueing'')
              else Wrapf ''failed to update PowerNodeState pool status'' e)))
           (\<lambda>_ w. (w, Ok ())))"

definition removePowerNodeStatusPools :: "reconciler \<Rightarrow> string \<Rightarrow> world \<Rightarrow> world \<times> unit res" where
  "removePowerNodeStatusPools r nodeName w =
     catch_err
       (api_send r (StatusApply (pns_name nodeName)
          (pools_status \<lparr>cps_Shared = None, cps_Reserved = Some [], cps_Exclusive = None\<rparr>)
          FieldOwnerPowerNodeConfigController) w)
       (\<lambda>e w. if IsNotFound e then (w, Ok ()) else (w, Error (Wrapf ''failed to remove pool status'' e)))
       (\<lambda>_ w. (w, Ok ()))"

section \<open>Cleaning up\<close>

text \<open>
  \<open>movedCores := *shared.Cpus()\<close> shares the backing array of the shared pool's list. Appending the
  CPUs of a reserved pool either finds room in that array (\<open>room\<close>, left open), and then \<open>Remove\<close>
  writes the same slots when it returns these CPUs to the shared pool, so that \<open>movedCores\<close> is
  the shared pool's list; or it copies the list, and from then on nothing is shared.
\<close>

definition collect_reserved ::
  "reconciler \<Rightarrow> (pool_ref \<Rightarrow> bool) \<Rightarrow> string \<Rightarrow> pool_ref \<Rightarrow> host \<times> nat list \<times> bool \<Rightarrow> (host \<times> nat list \<times> bool) \<times> unit res" where
  "collect_reserved r room nodeName p = (\<lambda>(h, movedCores, aliased).
     if is_reserved_pool nodeName h p then
       (let cs = p_cpus (pools h p); aliased' = (aliased \<and> (cs = [] \<or> room p)) in
        case Pool_Remove (r_env r) (r_vars r) p h of
          (h', res) \<Rightarrow>
            wrap_err (''failed to remove reserved pool '' @ p_name (pools h p))
              ((h', if aliased' then p_cpus (pools h' SharedPool) else movedCores @ cs, aliased'), res))
     else ((h, movedCores, aliased), Ok ()))"

text \<open>\<open>reserved.MoveCpus(movedCores)\<close>, where the list ranged over may be the shared pool's own.\<close>

definition move_collected :: "reconciler \<Rightarrow> nat list \<Rightarrow> bool \<Rightarrow> host \<Rightarrow> host \<times> unit res" where
  "move_collected r movedCores aliased =
     (if aliased
      then range_slice (\<lambda>h. p_cpus (pools h SharedPool)) (\<lambda>c. SetPool (r_env r) (r_vars r) c (Some ReservedPool))
      else MoveCpus (r_env r) (r_vars r) ReservedPool movedCores)"

definition release_pools :: "reconciler \<Rightarrow> (pool_ref \<Rightarrow> bool) \<Rightarrow> string \<Rightarrow> host \<Rightarrow> host \<times> unit res" where
  "release_pools r room nodeName h =
     (case range_slice (\<lambda>(h, m, a). exclusivePools h) (collect_reserved r room nodeName)
             (h, p_cpus (pools h SharedPool), True) of
        ((h, movedCores, aliased), res) \<Rightarrow>
          then_do (h, res) (\<lambda>_ h. wrap_err ''failed to move cores to reserved'' (move_collected r movedCores aliased h)))"

definition cleanupPowerNodeConfigPools ::
  "reconciler \<Rightarrow> (pool_ref \<Rightarrow> bool) \<Rightarrow> string \<Rightarrow> world \<Rightarrow> world \<times> unit res" where
  "cleanupPowerNodeConfigPools r room nodeName w =
     then_do (on_host (release_pools r room nodeName) w) (\<lambda>_. removePowerNodeStatusPools r nodeName)"

section \<open>Applying a configuration\<close>

definition applyPowerNodeConfig ::
  "reconciler \<Rightarrow> PowerNodeConfig \<Rightarrow> string \<Rightarrow> string list \<Rightarrow> world \<Rightarrow> world \<times> Result res" where
  "applyPowerNodeConfig r config nodeName conflictErrors w =
     (let name = om_Name (pnc_Meta config); shared = SharedPowerProfile (pnc_Spec config) in
      catch_err (validatePowerNodeConfigProfiles r config nodeName w)
        (\<lambda>e w. catch_err (updatePowerNodeStatusPools r nodeName name shared [] [] [err_msg e] w)
           (\<lambda>_ w. (w, Ok (RequeueAfter queuetime))) (\<lambda>_ w. (w, Ok (RequeueAfter queuetime))))
        (\<lambda>_ w.
           then_do (on_host (configureSharedPool r config) w) (\<lambda>_ w.
             then_do (on_host (configureReservedPools r config nodeName) w) (\<lambda>(reservedProfileCPUs, reservedErrors) w.
               then_do (updatePowerNodeStatusPools r nodeName name shared
                          (prettifyCoreList (p_cpus (pools (w_host w) SharedPool))) reservedProfileCPUs
                          (conflictErrors @ map err_msg reservedErrors) w)
                 (\<lambda>_ w. if 0 < length reservedErrors then (w, Error (Errorf ''errors configuring reserved pools''))
                        else (w, Ok Done))))))"

text \<open>The messages on the configurations that were not selected.\<close>

fun conflict_errors :: "reconciler \<Rightarrow> string \<Rightarrow> PowerNodeConfig list \<Rightarrow> world \<Rightarrow> world \<times> string list res" where
  "conflict_errors r selected [] w = (w, Ok [])"
| "conflict_errors r selected (m # ms) w =
     (if om_Name (pnc_Meta m) \<noteq> selected then
        then_do (describeConflictingConfig r m w)
          (\<lambda>msg w. then_do (conflict_errors r selected ms w) (\<lambda>msgs w. (w, Ok (msg # msgs))))
      else conflict_errors r selected ms w)"

definition PowerNodeConfig_Reconcile ::
  "reconciler \<Rightarrow> (pool_ref \<Rightarrow> bool) \<Rightarrow> string \<Rightarrow> world \<Rightarrow> world \<times> Result res" where
  "PowerNodeConfig_Reconcile r room req_namespace w =
     (let nodeName = r_node r in
      if req_namespace \<noteq> PowerNamespace then (w, Ok Done)
      else if nodeName = [] then (w, Error (Errorf ''NODE_NAME environment variable not set''))
      else then_do (getMatchingPowerNodeConfigs r nodeName w) (\<lambda>matches w.
        catch_err (getActiveResourceName r nodeName powerNodeConfigActiveName w)
          (\<lambda>e w. if IsNotFound e then (w, Ok (RequeueAfter queuetime)) else (w, Error e))
          (\<lambda>activeConfigName w.
             (case selectActiveOrOldest pnc_Meta matches activeConfigName of
                (matches, None) \<Rightarrow>
                  if activeConfigName \<noteq> [] then
                    then_do (cleanupPowerNodeConfigPools r room nodeName w) (\<lambda>_ w. (w, Ok Done))
                  else (w, Ok Done)
              | (matches, Some selected) \<Rightarrow>
                  then_do (if 1 < length matches
                           then conflict_errors r (om_Name (pnc_Meta selected)) matches w else (w, Ok []))
                    (applyPowerNodeConfig r selected nodeName)))))"

text \<open>The requests that other events turn into.\<close>

definition enqueuePowerNodeConfigReconcile :: "reconciler \<Rightarrow> world \<Rightarrow> world \<times> (string \<times> string) list res" where
  "enqueuePowerNodeConfigReconcile r w =
     catch_err (api_get (list_configs (r_api r)) w) (\<lambda>_ w. (w, Ok []))
       (\<lambda>items w. (w, Ok (if length items = 0 then []
          else [(om_Namespace (pnc_Meta (items ! 0)), om_Name (pnc_Meta (items ! 0)))])))"

definition enqueueMatchingPowerNodeConfigReconcile ::
  "reconciler \<Rightarrow> world \<Rightarrow> world \<times> (string \<times> string) list res" where
  "enqueueMatchingPowerNodeConfigReconcile r w =
     catch_err (getMatchingPowerNodeConfigs r (r_node r) w) (\<lambda>_ w. (w, Ok []))
       (\<lambda>items w. (w, Ok (if length items = 0 then []
          else [(om_Namespace (pnc_Meta (items ! 0)), om_Name (pnc_Meta (items ! 0)))])))"

definition getExclusiveEntries :: "PowerNodeStateStatus \<Rightarrow> ExclusiveCPUPoolStatus list option" where
  "getExclusiveEntries pns = (case st_CPUPools pns of None \<Rightarrow> None | Some pl \<Rightarrow> cps_Exclusive pl)"

end
