(* ===== verification/Example_Node.thy ===== *)
theory Example_Node
  imports Controllers_Common
begin

text \<open>
  A small node on which the controllers' properties are tried: three CPUs on a machine without power
  management features (so that consolidating a CPU writes no file), one pool \<open>perf\<close> with a profile, and an API server that knows
  one shared profile and accepts every write.
\<close>

definition plain_vars :: pkgvars where
  "plain_vars = idle\<lparr>featureList := (\<lambda>_. None)\<rparr>"

lemma plain_vars_features [simp]: "isFeatureIdSupported plain_vars f = False"
  by (simp add: plain_vars_def isFeatureIdSupported_def)

lemma plain_consolidate [simp]: "consolidate env plain_vars c h = (h, Ok ())"
  by (simp add: consolidate_def on_sys_def consolidate_unsafe_def updateFrequencies_def updateCStates_def)

lemma plain_SetPowerProfile:
  "p \<noteq> ReservedPool \<Longrightarrow> SetPowerProfile env plain_vars p prof h =
     (h\<lparr>pools := (pools h)(p := (pools h p)\<lparr>p_profile := prof\<rparr>)\<rparr>, Ok ())"
  by (simp add: SetPowerProfile_def foreach_skip)

definition perf_prof :: profile where
  "perf_prof = \<lparr>prof_name = ''perf'', prof_pstates = zero_pstates,
     prof_cstates = \<lparr>states = [(''C6'', False)], maxLatencyUs = None\<rparr>\<rparr>"

definition plain_host :: "(nat \<Rightarrow> pool_ref) \<Rightarrow> host" where
  "plain_host place = \<lparr>h_name = ''node'', h_arch = ''x86_64'', h_vendor = ''GenuineIntel'',
     exclusivePools = [ExclusivePool 0],
     pools = (\<lambda>p. \<lparr>p_name = (case p of SharedPool \<Rightarrow> ''sharedPool'' | ReservedPool \<Rightarrow> ''reservedPool'' | ExclusivePool n \<Rightarrow> ''perf''),
        p_cpus = filter (\<lambda>c. place c = p) [0, 1, 2],
        p_profile = (if p = ExclusivePool 0 then Some perf_prof else None)\<rparr>),
     cpu_pool = place, allCpus = [0, 1, 2], h_topo = one_die, nextPool = 1, hsys = sys0\<rparr>"

lemma plain_host_lib_inv:
  assumes "\<And>c n. place c = ExclusivePool n \<Longrightarrow> n = 0" and "\<And>c. c < 3 \<Longrightarrow> lib_ok g c"
  shows "lib_inv g (plain_host place)"
proof -
  have p: "p_cpus (pools (plain_host place) p) = filter (\<lambda>c. place c = p) [0, 1, 2]" for p
    by (simp add: plain_host_def)
  have "distinct [0, 1, 2 :: nat]" by simp
  moreover have a: "allCpus (plain_host place) = [0, 1, 2]" "cpu_pool (plain_host place) = place"
    by (simp_all add: plain_host_def)
  ultimately have "pool_inv (plain_host place)" unfolding pool_inv_def p set_filter
    by (metis distinct_filter)
  moreover have "isExclusive (place c) \<Longrightarrow> place c = ExclusivePool 0" for c
    using assms(1) by (cases "place c") auto
  then have "listed (plain_host place)" by (simp add: listed_def plain_host_def)
  ultimately show ?thesis using assms(2) a by (simp add: lib_inv_def host_inv_def)
qed

lemma plain_host_inv: "(\<And>c n. place c = ExclusivePool n \<Longrightarrow> n = 0) \<Longrightarrow> lib_inv plain_vars (plain_host place)"
  by (rule plain_host_lib_inv) (simp_all add: lib_ok_def)

text \<open>The same node on a machine with every feature, where frequencies can be set.\<close>

definition gold_vars :: pkgvars where
  "gold_vars = hetero\<lparr>allCPUDefaultPStatesInfo := allCPUDefaultPStatesInfo hetero @
     [\<lparr>minFreq = IntV 400000, maxFreq = IntV 1600000, epp = ''power'', governor = ''powersave''\<rparr>]\<rparr>"

lemma gold_host_inv: "(\<And>c n. place c = ExclusivePool n \<Longrightarrow> n = 0) \<Longrightarrow> lib_inv gold_vars (plain_host place)"
  by (rule plain_host_lib_inv) (simp_all add: lib_ok_def gold_vars_def hetero_def)

definition gold_profile :: PowerProfile where
  "gold_profile = \<lparr>pp_Meta = meta0 ''gold'' 1, pp_Spec = \<lparr>Shared = False,
     pps_NodeSelector = \<lparr>ns_LabelSelector = \<lparr>MatchLabels = [], MatchExpressions = []\<rparr>\<rparr>,
     PStates = \<lparr>Max = Some (IntV 2000), Min = None, Epp = [], Governor = ''powersave''\<rparr>,
     CStates = \<lparr>Names = [], MaxLatencyUs = Some 10\<rparr>, CPUCapacity = StrV [], pps_CPUScalingPolicy = None\<rparr>\<rparr>"

lemma gold_vars_simps [simp]:
  "isFeatureIdSupported gold_vars f" "availableGovs gold_vars = [''performance'', ''powersave'']"
  "getAbsMinMaxFreq (coreTypes gold_vars) = Ok (400000, 3200000)"
  by (simp_all add: gold_vars_def hetero_def isFeatureIdSupported_def isSupported_def getAbsMinMaxFreq_def)

lemma gold_vars_new: "NewPowerProfile gold_vars ''gold'' None (Some (IntV 2000)) ''powersave'' [] [] (Some 10) = Ok gold"
  by (simp add: new_profile_simps gold_def)

definition every_node :: NodeSelector where
  "every_node = \<lparr>ns_LabelSelector = \<lparr>MatchLabels = [], MatchExpressions = []\<rparr>\<rparr>"

definition perf_profile :: PowerProfile where
  "perf_profile = \<lparr>pp_Meta = meta0 ''perf'' 1, pp_Spec = \<lparr>Shared = True, pps_NodeSelector = every_node,
     PStates = \<lparr>Max = None, Min = None, Epp = [], Governor = []\<rparr>,
     CStates = \<lparr>Names = [(''C6'', False)], MaxLatencyUs = None\<rparr>, CPUCapacity = StrV [], pps_CPUScalingPolicy = None\<rparr>\<rparr>"

definition plain_api :: api where
  "plain_api = \<lparr>asSelector = \<lambda>s. Inr (\<lambda>l. True), marshalPolicy = \<lambda>p. Inr ''{}'',
     get_node = \<lambda>n x. Inr \<lparr>nd_Name = x, nd_Labels = [], nd_Capacity = Some []\<rparr>,
     get_profile = \<lambda>n x. if x = ''perf'' then Inr perf_profile else Inl (NotFound x),
     get_pns = \<lambda>n x. Inr empty_status, get_pod = \<lambda>n x. Inl (NotFound (snd x)),
     list_configs = \<lambda>n. Inr [], list_uncores = \<lambda>n. Inr [], list_profiles = \<lambda>n. Inr [perf_profile],
     list_pods = \<lambda>n x. Inr [], send = \<lambda>n q. None\<rparr>"

definition plain_reconciler :: reconciler where
  "plain_reconciler = \<lparr>r_env = env0, r_vars = plain_vars, r_api = plain_api, r_node = ''node''\<rparr>"

definition plain_world :: "(nat \<Rightarrow> pool_ref) \<Rightarrow> world" where
  "plain_world place = \<lparr>w_host = plain_host place, w_calls = 0, w_requests = []\<rparr>"

lemma plain_simps [simp]:
  "r_vars plain_reconciler = plain_vars" "r_node plain_reconciler = ''node''" "r_api plain_reconciler = plain_api"
  "w_host (plain_world place) = plain_host place" "allCpus (plain_host place) = [0, 1, 2]"
  "cpu_pool (plain_host place) = place" "exclusivePools (plain_host place) = [ExclusivePool 0]"
  by (simp_all add: plain_reconciler_def plain_world_def plain_host_def)

end
