(* ===== verification/NodeConfig_Props.thy ===== *)
theory NodeConfig_Props
  imports NodeConfig_Controller Example_Node
begin

text \<open>
  What the PowerNodeConfig controller does to the pools: it keeps the library's invariant and does
  not panic whatever the API server and the files do, it builds the pools of a valid
  configuration, it leaves them alone when the configuration is not valid, and it gives all of
  them up when no configuration is left.
\<close>

section \<open>Removing the reserved pools\<close>

definition remove_body :: "reconciler \<Rightarrow> string \<Rightarrow> pool_ref \<Rightarrow> host \<Rightarrow> host \<times> unit res" where
  "remove_body r nodeName p h =
     (if is_reserved_pool nodeName h p then
        wrap_err (''failed to remove reserved pool '' @ p_name (pools h p)) (Pool_Remove (r_env r) (r_vars r) p h)
      else (h, Ok ()))"

lemma is_reserved_pool_name: "is_reserved_pool nodeName h p = HasPrefix (pool_name h p) (reserved_prefix nodeName)"
  by (simp add: is_reserved_pool_def pool_name_def)

lemma remove_body_Ok:
  assumes "lib_inv (r_vars r) h" and "p \<in> set (exclusivePools h)" and "remove_body r nodeName p h = (h', Ok ())"
  shows "lib_inv (r_vars r) h'"
    and "exclusivePools h' = exclusivePools h \<and> \<not> is_reserved_pool nodeName h p \<or>
         swap_remove (exclusivePools h) p = Some (exclusivePools h') \<and> is_reserved_pool nodeName h p"
    and "allCpus h' = allCpus h" and "pool_name h' = pool_name h" and "pool_profile h' = pool_profile h"
    and "\<forall>c \<in> set (allCpus h). cpu_pool h' c =
       (if cpu_pool h c = p \<and> is_reserved_pool nodeName h p then SharedPool else cpu_pool h c)"
proof -
  consider "h' = h" "\<not> is_reserved_pool nodeName h p"
    | "Pool_Remove (r_env r) (r_vars r) p h = (h', Ok ())" "is_reserved_pool nodeName h p"
  proof (cases "is_reserved_pool nodeName h p")
    case True
    with assms(3) have "Pool_Remove (r_env r) (r_vars r) p h = (h', Ok ())" by (simp add: remove_body_def)
    with True that(2) show ?thesis by blast
  next
    case False
    with assms(3) have "h' = h" by (simp add: remove_body_def)
    with False that(1) show ?thesis by blast
  qed
  then show "lib_inv (r_vars r) h'"
    "exclusivePools h' = exclusivePools h \<and> \<not> is_reserved_pool nodeName h p \<or>
         swap_remove (exclusivePools h) p = Some (exclusivePools h') \<and> is_reserved_pool nodeName h p"
    "allCpus h' = allCpus h" "pool_name h' = pool_name h" "pool_profile h' = pool_profile h"
    "\<forall>c \<in> set (allCpus h). cpu_pool h' c =
       (if cpu_pool h c = p \<and> is_reserved_pool nodeName h p then SharedPool else cpu_pool h c)"
    by (cases; use assms(1) Pool_Remove_Ok[OF assms(1,2), of "r_env r" h'] in simp)+
qed

interpretation reserved_remover: shrinking_body exclusivePools "remove_body r nodeName" "lib_inv (r_vars r)" for r nodeName
proof (standard, goal_cases)
  case (1 h) then show ?case by (rule lib_invD)
next
  case (2 h p h') then show ?case by (rule remove_body_Ok)
next
  case (3 h p h') then show ?case using remove_body_Ok(2)[OF 3] by blast
qed

lemma remove_reserved_pools_foreach:
  assumes "lib_inv (r_vars r) h"
  shows "remove_reserved_pools r nodeName h = foreach (remove_body r nodeName) (exclusivePools h) h"
  using reserved_remover.range_slice_foreach[OF assms, of nodeName]
  by (simp add: remove_reserved_pools_def remove_body_def[abs_def])

text \<open>What is left when the pools of a list were gone through.\<close>

lemma remove_loop_Ok:
  assumes "lib_inv (r_vars r) h" and "distinct xs" and "set xs \<subseteq> set (exclusivePools h)"
    and "foreach (remove_body r nodeName) xs h = (h', Ok ())"
  shows "lib_inv (r_vars r) h' \<and> allCpus h' = allCpus h \<and> pool_name h' = pool_name h \<and>
    pool_profile h' = pool_profile h \<and>
    set (exclusivePools h') = set (exclusivePools h) - {p \<in> set xs. is_reserved_pool nodeName h p} \<and>
    (\<forall>c \<in> set (allCpus h). cpu_pool h' c =
       (if cpu_pool h c \<in> set xs \<and> is_reserved_pool nodeName h (cpu_pool h c) then SharedPool else cpu_pool h c))"
  using assms
proof (induction xs arbitrary: h)
  case (Cons x xs)
  obtain t where t: "remove_body r nodeName x h = (t, Ok ())" "foreach (remove_body r nodeName) xs t = (h', Ok ())"
    using Cons.prems(4) by (auto split: prod.splits res.splits)
  have x: "x \<in> set (exclusivePools h)" using Cons.prems(3) by simp
  note b = remove_body_Ok[OF Cons.prems(1) x t(1)]
  have ne: "isExclusive x" by (rule lib_invD(4)[OF Cons.prems(1) x])
  have ex: "set (exclusivePools t) = set (exclusivePools h) - (if is_reserved_pool nodeName h x then {x} else {})"
    using b(2) swap_remove_distinct[OF _ lib_invD(2)[OF Cons.prems(1)], of x] by auto
  have res: "is_reserved_pool nodeName t q = is_reserved_pool nodeName h q" for q
    by (simp add: is_reserved_pool_name b(4))
  have "set xs \<subseteq> set (exclusivePools t)" using Cons.prems(2,3) ex by auto
  note IH = Cons.IH[OF b(1) _ this t(2), unfolded res b(3-5)]
  have sh: "SharedPool \<notin> set xs" using Cons.prems(3) lib_invD(4)[OF Cons.prems(1)] by fastforce
  have "cpu_pool h' c = (if cpu_pool h c \<in> set (x # xs) \<and> is_reserved_pool nodeName h (cpu_pool h c)
      then SharedPool else cpu_pool h c)" if c: "c \<in> set (allCpus h)" for c
    using IH Cons.prems(2) bspec[OF b(6) c] c sh by auto
  then show ?case using IH Cons.prems(2) ex by auto
qed auto

lemma remove_reserved_pools_Ok:
  assumes "lib_inv (r_vars r) h" and "remove_reserved_pools r nodeName h = (h', Ok ())"
  shows "lib_inv (r_vars r) h'" and "allCpus h' = allCpus h" and "pool_name h' = pool_name h"
    and "pool_profile h' = pool_profile h"
    and "set (exclusivePools h') = {p \<in> set (exclusivePools h). \<not> is_reserved_pool nodeName h p}"
    and "\<forall>c \<in> set (allCpus h). cpu_pool h' c =
       (if isExclusive (cpu_pool h c) \<and> is_reserved_pool nodeName h (cpu_pool h c) then SharedPool else cpu_pool h c)"
proof -
  note l = remove_loop_Ok[OF assms(1) lib_invD(2)[OF assms(1)] subset_refl
      assms(2)[unfolded remove_reserved_pools_foreach[OF assms(1)]]]
  have "cpu_pool h c \<in> set (exclusivePools h) \<longleftrightarrow> isExclusive (cpu_pool h c)" if "c \<in> set (allCpus h)" for c
    using lib_invD(4,8)[OF assms(1)] that by blast
  then show "lib_inv (r_vars r) h'" "allCpus h' = allCpus h" "pool_name h' = pool_name h"
    "pool_profile h' = pool_profile h"
    "set (exclusivePools h') = {p \<in> set (exclusivePools h). \<not> is_reserved_pool nodeName h p}"
    "\<forall>c \<in> set (allCpus h). cpu_pool h' c =
       (if isExclusive (cpu_pool h c) \<and> is_reserved_pool nodeName h (cpu_pool h c) then SharedPool else cpu_pool h c)"
    using l by auto
qed

lemma remove_reserved_pools_safe [safe_ops]: "safe (r_vars r) (remove_reserved_pools r nodeName)"
proof -
  have "safe (r_vars r) (remove_body r nodeName p)" for p
    unfolding safe_on_def remove_body_def using Pool_Remove_safe[of "r_vars r" "r_env r" p]
    by (auto simp: safe_on_def)
  then have "safe (r_vars r) (foreach (remove_body r nodeName) xs)" for xs
    by (intro safe_foreach)
  then show ?thesis unfolding safe_on_def using remove_reserved_pools_foreach by metis
qed

section \<open>Creating the reserved pools\<close>

lemma remove_quietly_not_Ok [simp]: "remove_quietly r p e h \<noteq> (h', Ok ())"
  by (auto simp: remove_quietly_def catch_err_Ok_iff)

text \<open>\<open>extends C h h'\<close>: \<open>h'\<close> has the pools of \<open>h\<close> and perhaps more, and only CPUs in \<open>C\<close> changed their pool.\<close>

definition extends :: "pkgvars \<Rightarrow> nat set \<Rightarrow> host \<Rightarrow> host \<Rightarrow> bool" where
  "extends g C h h' =
     (lib_inv g h' \<and> allCpus h' = allCpus h \<and> set (exclusivePools h) \<subseteq> set (exclusivePools h') \<and>
      (\<forall>p \<in> set (exclusivePools h). pool_name h' p = pool_name h p \<and> pool_profile h' p = pool_profile h p) \<and>
      pool_profile h' SharedPool = pool_profile h SharedPool \<and>
      (\<forall>c \<in> set (allCpus h). c \<notin> C \<longrightarrow> cpu_pool h' c = cpu_pool h c))"

lemma extends_trans:
  assumes "extends g C h h1" and "extends g D h1 h2"
  shows "extends g (C \<union> D) h h2"
  using assms unfolding extends_def by auto

lemma extends_MoveCpuIDs:
  assumes "lib_inv g h" and "\<not> isExclusive p" and "MoveCpuIDs env g p ids h = (h', Ok ())"
  shows "extends g (set ids) h h'" and "\<forall>c \<in> set ids. cpu_pool h' c = p" and "exclusivePools h' = exclusivePools h"
    and "pool_name h' = pool_name h" and "set ids \<subseteq> set (allCpus h)"
  using MoveCpuIDs_Ok[OF assms(1) _ assms(3)] assms(2) by (auto simp: extends_def host_rest_iff)

lemma createReservedPool_Ok:
  assumes "lib_inv (r_vars r) h" and "createReservedPool r rc nodeName h = (h', Ok ())"
  obtains p q where "extends (r_vars r) (set (rs_Cores rc)) h h'" and "exclusivePools h' = exclusivePools h @ [p]"
    and "pool_name h' p = reserved_name nodeName (rs_Cores rc)"
    and "q \<in> set (exclusivePools h')" and "pool_name h' q = rs_PowerProfile rc"
    and "pool_profile h' p = pool_profile h' q"
    and "\<forall>c \<in> set (rs_Cores rc). cpu_pool h' c = p"
proof -
  let ?g = "r_vars r" and ?C = "rs_Cores rc"
  obtain h1 p e where add: "AddExclusivePool (reserved_name nodeName ?C) h = (h1, p, e)"
    by (cases "AddExclusivePool (reserved_name nodeName ?C) h") auto
  then have "e = None" using assms(2) by (cases e) (auto simp: createReservedPool_def)
  note a = AddExclusivePool_new[OF assms(1) add[unfolded this]]
  obtain q where q: "GetExclusivePool h1 (rs_PowerProfile rc) = Some q"
    using assms(2) add \<open>e = None\<close> by (auto simp: createReservedPool_def split: option.splits)
  obtain h2 where h2: "SetPowerProfile (r_env r) ?g p (p_profile (pools h1 q)) h1 = (h2, Ok ())"
      "SetCpuIDs (r_env r) ?g p ?C h2 = (h', Ok ())"
    using assms(2) add \<open>e = None\<close> q by (auto simp: createReservedPool_def catch_err_Ok_iff)
  note f = SetPowerProfile_frame[of "r_env r" ?g p "p_profile (pools h1 q)" h1, unfolded h2(1) fst_conv]
  have i2: "lib_inv ?g h2" using safe_onD(1)[OF SetPowerProfile_safe a(1), of "r_env r" p "p_profile (pools h1 q)"] h2(1) by simp
  have p: "p \<noteq> ReservedPool" "p \<noteq> SharedPool" using a(6) by auto
  have u: "usable p h2" using f(2) a(4) by simp
  note s = SetCpuIDs_Ok[OF i2 u h2(2)]
  have rest: "exclusivePools h' = exclusivePools h @ [p]" "pool_name h' = (pool_name h)(p := reserved_name nodeName ?C)"
    "pool_profile h' = (pool_profile h1)(p := pool_profile h1 q)"
    using s(3) f a(4,7) p by (auto simp: host_rest_iff pool_profile_def)
  have qin: "q \<in> set (exclusivePools h')" using GetExclusivePool_Some(1)[OF q] rest(1) a(4) by simp
  have qname: "pool_name h' q = rs_PowerProfile rc"
    using GetExclusivePool_Some(2)[OF q] rest(2) a(7) by simp
  have w: "cpu_pool h' c = (if c \<in> set ?C then p else cpu_pool h c)" if "c \<in> set (allCpus h)" for c
    using bspec[OF s(5), of c] that f(1,5) a(2,3) a(10)[OF that] by auto
  show ?thesis
  proof (rule that[of p q])
    show "extends ?g (set ?C) h h'"
      unfolding extends_def using s(1,2) f(5) a(2,5,8) rest p w by auto
    show "\<forall>c \<in> set ?C. cpu_pool h' c = p" using s(4) f(5) a(2) w by auto
  qed (use rest qin qname in auto)
qed

section \<open>The groups of a configuration\<close>

definition group_done :: "string \<Rightarrow> host \<Rightarrow> ReservedSpec \<Rightarrow> bool" where
  "group_done nodeName h rc =
     (if rs_PowerProfile rc = [] then \<forall>c \<in> set (rs_Cores rc). cpu_pool h c = ReservedPool
      else \<exists>p q. p \<in> set (exclusivePools h) \<and> q \<in> set (exclusivePools h) \<and>
        pool_name h p = reserved_name nodeName (rs_Cores rc) \<and> pool_name h q = rs_PowerProfile rc \<and>
        pool_profile h p = pool_profile h q \<and> (\<forall>c \<in> set (rs_Cores rc). cpu_pool h c = p))"

lemma group_done_extends:
  assumes "group_done nodeName h rc" and "extends g C h h'" and "C \<inter> set (rs_Cores rc) = {}"
    and "set (rs_Cores rc) \<subseteq> set (allCpus h)"
  shows "group_done nodeName h' rc"
proof -
  have c: "cpu_pool h' c = cpu_pool h c" if "c \<in> set (rs_Cores rc)" for c
    using that assms(2-4) by (auto simp: extends_def)
  show ?thesis
  proof (cases "rs_PowerProfile rc = []")
    case True
    then show ?thesis using assms(1) c by (simp add: group_done_def)
  next
    case False
    then obtain p q where "p \<in> set (exclusivePools h)" "q \<in> set (exclusivePools h)"
      "pool_name h p = reserved_name nodeName (rs_Cores rc)" "pool_name h q = rs_PowerProfile rc"
      "pool_profile h p = pool_profile h q" "\<forall>c \<in> set (rs_Cores rc). cpu_pool h c = p"
      using assms(1) by (auto simp: group_done_def)
    then have "p \<in> set (exclusivePools h') \<and> q \<in> set (exclusivePools h') \<and>
        pool_name h' p = reserved_name nodeName (rs_Cores rc) \<and> pool_name h' q = rs_PowerProfile rc \<and>
        pool_profile h' p = pool_profile h' q \<and> (\<forall>c \<in> set (rs_Cores rc). cpu_pool h' c = p)"
      using assms(2) c by (auto simp: extends_def)
    then show ?thesis using False unfolding group_done_def by auto
  qed
qed

definition group_status :: "ReservedSpec \<Rightarrow> PowerProfileCPUs" where
  "group_status rc = \<lparr>ppc_PowerProfile = rs_PowerProfile rc, ppc_CPUIDs = prettifyCoreList (rs_Cores rc), ppc_Errors = []\<rparr>"

lemma reserve_groups_errs:
  "reserve_groups r nodeName rcs cpus errs h = (h', Ok (cs, [])) \<Longrightarrow> errs = []"
proof (induction rcs arbitrary: cpus errs h)
  case (Cons rc rcs)
  from Cons.prems Cons.IH show ?case
    by (auto simp: Let_def catch_err_Ok_iff split: if_splits)
qed simp

lemma reserve_groups_Cons:
  assumes "reserve_groups r nodeName (rc # rcs) cpus errs h = (h', Ok (cs, []))"
  obtains h1 h2 where "MoveCpuIDs (r_env r) (r_vars r) SharedPool (rs_Cores rc) h = (h1, Ok ())"
    and "if rs_PowerProfile rc \<noteq> [] then createReservedPool r rc nodeName h1 = (h2, Ok ())
         else MoveCpuIDs (r_env r) (r_vars r) ReservedPool (rs_Cores rc) h1 = (h2, Ok ())"
    and "reserve_groups r nodeName rcs (cpus @ [group_status rc]) errs h2 = (h', Ok (cs, []))"
proof (cases "rs_PowerProfile rc = []")
  case True
  then obtain h1 h2 where "MoveCpuIDs (r_env r) (r_vars r) SharedPool (rs_Cores rc) h = (h1, Ok ())"
    "MoveCpuIDs (r_env r) (r_vars r) ReservedPool (rs_Cores rc) h1 = (h2, Ok ())"
    "reserve_groups r nodeName rcs (cpus @ [group_status rc]) errs h2 = (h', Ok (cs, []))"
    using assms by (auto simp: Let_def catch_err_Ok_iff group_status_def)
  then show ?thesis using that[of h1 h2] True by simp
next
  case False
  then obtain h1 h2 where "MoveCpuIDs (r_env r) (r_vars r) SharedPool (rs_Cores rc) h = (h1, Ok ())"
    "createReservedPool r rc nodeName h1 = (h2, Ok ())"
    "reserve_groups r nodeName rcs (cpus @ [group_status rc]) errs h2 = (h', Ok (cs, []))"
    using assms by (auto simp: Let_def catch_err_Ok_iff group_status_def dest: reserve_groups_errs)
  then show ?thesis using that[of h1 h2] False by simp
qed

text \<open>One group, and then all of them.\<close>

lemma reserve_group_Ok:
  assumes "lib_inv (r_vars r) h" and "MoveCpuIDs (r_env r) (r_vars r) SharedPool (rs_Cores rc) h = (h1, Ok ())"
    and "if rs_PowerProfile rc \<noteq> [] then createReservedPool r rc nodeName h1 = (h2, Ok ())
         else MoveCpuIDs (r_env r) (r_vars r) ReservedPool (rs_Cores rc) h1 = (h2, Ok ())"
  shows "extends (r_vars r) (set (rs_Cores rc)) h h2 \<and> group_done nodeName h2 rc \<and>
    set (rs_Cores rc) \<subseteq> set (allCpus h) \<and>
    (\<forall>p \<in> set (exclusivePools h2) - set (exclusivePools h). pool_name h2 p = reserved_name nodeName (rs_Cores rc))"
proof -
  note m = extends_MoveCpuIDs[OF assms(1) _ assms(2)]
  have i1: "lib_inv (r_vars r) h1" using m(1) by (simp add: extends_def)
  show ?thesis
  proof (cases "rs_PowerProfile rc = []")
    case True
    then have "MoveCpuIDs (r_env r) (r_vars r) ReservedPool (rs_Cores rc) h1 = (h2, Ok ())" using assms(3) by simp
    note n = extends_MoveCpuIDs[OF i1 _ this]
    show ?thesis using extends_trans[OF m(1) n(1)] m n True by (simp add: group_done_def)
  next
    case False
    then have c: "createReservedPool r rc nodeName h1 = (h2, Ok ())" using assms(3) by simp
    obtain p q where e: "extends (r_vars r) (set (rs_Cores rc)) h1 h2" and "exclusivePools h2 = exclusivePools h1 @ [p]"
      "pool_name h2 p = reserved_name nodeName (rs_Cores rc)" "q \<in> set (exclusivePools h2)"
      "pool_name h2 q = rs_PowerProfile rc" "pool_profile h2 p = pool_profile h2 q"
      "\<forall>c \<in> set (rs_Cores rc). cpu_pool h2 c = p"
      by (rule createReservedPool_Ok[OF i1 c])
    then show ?thesis using extends_trans[OF m(1) e, unfolded Un_absorb] m False by (auto simp: group_done_def)
  qed
qed

lemma reserve_groups_Ok:
  assumes "lib_inv (r_vars r) h" and "distinct (concat (map rs_Cores rcs))"
    and "reserve_groups r nodeName rcs cpus errs h = (h', Ok (cs, []))"
  shows "extends (r_vars r) (set (concat (map rs_Cores rcs))) h h' \<and> (\<forall>rc \<in> set rcs. group_done nodeName h' rc) \<and>
    cs = cpus @ map group_status rcs \<and>
    (\<forall>p \<in> set (exclusivePools h') - set (exclusivePools h). \<exists>rc \<in> set rcs. pool_name h' p = reserved_name nodeName (rs_Cores rc))"
  using assms
proof (induction rcs arbitrary: cpus h)
  case Nil
  then show ?case by (simp add: extends_def)
next
  case (Cons rc rcs)
  obtain h1 h2 where s: "MoveCpuIDs (r_env r) (r_vars r) SharedPool (rs_Cores rc) h = (h1, Ok ())"
    "if rs_PowerProfile rc \<noteq> [] then createReservedPool r rc nodeName h1 = (h2, Ok ())
     else MoveCpuIDs (r_env r) (r_vars r) ReservedPool (rs_Cores rc) h1 = (h2, Ok ())"
    "reserve_groups r nodeName rcs (cpus @ [group_status rc]) errs h2 = (h', Ok (cs, []))"
    by (rule reserve_groups_Cons[OF Cons.prems(3)])
  note g = reserve_group_Ok[OF Cons.prems(1) s(1,2)]
  have i2: "lib_inv (r_vars r) h2" "allCpus h2 = allCpus h" using g by (simp_all add: extends_def)
  have dis: "distinct (concat (map rs_Cores rcs))" "set (concat (map rs_Cores rcs)) \<inter> set (rs_Cores rc) = {}"
    using Cons.prems(2) by auto
  note IH = Cons.IH[OF i2(1) dis(1) s(3)]
  have "group_done nodeName h' rc"
    by (rule group_done_extends[of nodeName h2 rc]) (use g IH dis(2) i2 in auto)
  moreover have "extends (r_vars r) (set (concat (map rs_Cores (rc # rcs)))) h h'"
    using extends_trans[of "r_vars r" "set (rs_Cores rc)" h h2] g IH by simp
  moreover have "\<exists>x \<in> set (rc # rcs). pool_name h' p = reserved_name nodeName (rs_Cores x)"
    if p: "p \<in> set (exclusivePools h')" "p \<notin> set (exclusivePools h)" for p
  proof (cases "p \<in> set (exclusivePools h2)")
    case True
    then have "pool_name h' p = pool_name h2 p" using IH by (simp add: extends_def)
    then show ?thesis using g True p by auto
  next
    case False
    then show ?thesis using IH p by auto
  qed
  ultimately show ?case using IH by auto
qed

section \<open>Safety\<close>

text \<open>The outcome of a call that started in host \<open>h\<close> is fine.\<close>

definition ok_at :: "pkgvars \<Rightarrow> host \<Rightarrow> host \<times> 'a res \<Rightarrow> bool" where
  "ok_at g h x = (lib_inv g (fst x) \<and> allCpus (fst x) = allCpus h \<and> \<not> is_panic (snd x))"

lemma safe_ok_at: "safe_on g P f \<longleftrightarrow> (\<forall>h. lib_inv g h \<and> P h \<longrightarrow> ok_at g h (f h))"
  by (simp add: safe_on_def ok_at_def)

lemma ok_at_safe: "safe_on g P f \<Longrightarrow> lib_inv g h \<Longrightarrow> P h \<Longrightarrow> allCpus h = allCpus h0 \<Longrightarrow> ok_at g h0 (f h)"
  by (simp add: safe_on_def ok_at_def)

lemma ok_at_catch_err:
  assumes "ok_at g h x"
    and "\<And>e h'. x = (h', Error e) \<Longrightarrow> lib_inv g h' \<Longrightarrow> allCpus h' = allCpus h \<Longrightarrow> ok_at g h (handle e h')"
    and "\<And>a h'. x = (h', Ok a) \<Longrightarrow> lib_inv g h' \<Longrightarrow> allCpus h' = allCpus h \<Longrightarrow> ok_at g h (k a h')"
  shows "ok_at g h (catch_err x handle k)"
proof (cases x)
  case (Pair h' r)
  then show ?thesis using assms by (cases r) (auto simp: ok_at_def)
qed

lemma ok_at_return: "lib_inv g h' \<Longrightarrow> allCpus h' = allCpus h \<Longrightarrow> \<not> is_panic x \<Longrightarrow> ok_at g h (h', x)"
  by (simp add: ok_at_def)

lemma remove_quietly_safe: "safe (r_vars r) (remove_quietly r p e)"
  unfolding remove_quietly_def by (intro safe_ops) simp_all

lemma createReservedPool_safe:
  assumes small: "\<forall>i \<in> set (rs_Cores rc). i < 2 ^ 63"
  shows "safe (r_vars r) (createReservedPool r rc nodeName)"
  unfolding safe_ok_at
proof (intro allI impI)
  fix h assume "lib_inv (r_vars r) h \<and> True"
  then have h: "lib_inv (r_vars r) h" by simp
  let ?g = "r_vars r"
  obtain h1 p e where add: "AddExclusivePool (reserved_name nodeName (rs_Cores rc)) h = (h1, p, e)"
    by (cases "AddExclusivePool (reserved_name nodeName (rs_Cores rc)) h") auto
  show "ok_at ?g h (createReservedPool r rc nodeName h)"
  proof (cases e)
    case (Some x)
    then show ?thesis using AddExclusivePool_old[OF add[unfolded Some]] h add
      by (simp add: createReservedPool_def ok_at_def)
  next
    case None
    note a = AddExclusivePool_new[OF h add[unfolded None]]
    show ?thesis
    proof (cases "GetExclusivePool h1 (rs_PowerProfile rc)")
      case no: None
      then show ?thesis using add None ok_at_safe[OF remove_quietly_safe a(1) TrueI a(2)]
        by (simp add: createReservedPool_def)
    next
      case (Some q)
      let ?prof = "p_profile (pools h1 q)"
      have s: "ok_at ?g h (SetPowerProfile (r_env r) ?g p ?prof h1)"
        by (rule ok_at_safe[OF SetPowerProfile_safe a(1) TrueI a(2)])
      have "ok_at ?g h (catch_err (SetPowerProfile (r_env r) ?g p ?prof h1)
             (\<lambda>e. remove_quietly r p (Wrapf ''failed to set profile for reserved cores'' e))
             (\<lambda>_ h. catch_err (SetCpuIDs (r_env r) ?g p (rs_Cores rc) h)
                (\<lambda>e. remove_quietly r p (Wrapf ''failed to move cores to reserved pool'' e)) (\<lambda>_ h. (h, Ok ()))))"
      proof (rule ok_at_catch_err[OF s])
        fix x h2 assume "lib_inv ?g h2" "allCpus h2 = allCpus h"
        then show "ok_at ?g h (remove_quietly r p (Wrapf ''failed to set profile for reserved cores'' x) h2)"
          by (intro ok_at_safe[OF remove_quietly_safe]) simp_all
      next
        fix u h2 assume sp: "SetPowerProfile (r_env r) ?g p ?prof h1 = (h2, Ok u)"
          and h2: "lib_inv ?g h2" "allCpus h2 = allCpus h"
        have "usable p h2" using SetPowerProfile_frame(2)[of "r_env r" ?g p ?prof h1] sp a(4) by simp
        then have "ok_at ?g h (SetCpuIDs (r_env r) ?g p (rs_Cores rc) h2)"
          by (rule ok_at_safe[OF SetCpuIDs_safe[OF small] h2(1) _ h2(2)])
        then show "ok_at ?g h (catch_err (SetCpuIDs (r_env r) ?g p (rs_Cores rc) h2)
            (\<lambda>e. remove_quietly r p (Wrapf ''failed to move cores to reserved pool'' e)) (\<lambda>_ h. (h, Ok ())))"
          by (rule ok_at_catch_err) (auto intro: ok_at_safe[OF remove_quietly_safe] ok_at_return)
      qed
      then show ?thesis using add None Some by (simp add: createReservedPool_def)
    qed
  qed
qed

lemma MoveCpuIDs_plain_safe:
  "\<forall>i \<in> set ids. i < 2 ^ 63 \<Longrightarrow> \<not> isExclusive p \<Longrightarrow> safe g (MoveCpuIDs env g p ids)"
  using MoveCpuIDs_safe[of ids g p env] by (simp add: safe_on_def)

lemma reserve_groups_safe:
  assumes "\<forall>rc \<in> set rcs. \<forall>i \<in> set (rs_Cores rc). i < 2 ^ 63"
  shows "safe (r_vars r) (reserve_groups r nodeName rcs cpus errs)"
  using assms
proof (induction rcs arbitrary: cpus errs)
  case Nil
  then show ?case by (simp add: safe_on_def)
next
  case (Cons rc rcs)
  then have m: "\<not> isExclusive p \<Longrightarrow> safe (r_vars r) (MoveCpuIDs (r_env r) (r_vars r) p (rs_Cores rc))" for p
    by (intro MoveCpuIDs_plain_safe) simp_all
  have c: "safe (r_vars r) (createReservedPool r rc nodeName)" using Cons.prems by (intro createReservedPool_safe) simp
  have IH: "safe (r_vars r) (reserve_groups r nodeName rcs cpus errs)" for cpus errs using Cons by simp
  show ?case unfolding reserve_groups.simps Let_def
    by (intro safe_catch_err safe_if m c IH safe_return) simp_all
qed

lemma SetCpuIDs_reserved_safe: "safe g (SetCpuIDs env g ReservedPool [])"
  using SetCpuIDs_safe[of "[]" g ReservedPool env] by (simp add: safe_on_def)

lemma configureSharedPool_safe: "safe (r_vars r) (configureSharedPool r config)"
proof -
  let ?f = "\<lambda>prof h. then_do (wrap_err ''failed to set shared pool profile''
      (SetPowerProfile (r_env r) (r_vars r) SharedPool (Some prof) h))
      (\<lambda>_ h. wrap_err ''failed to clear reserved pool'' (SetCpuIDs (r_env r) (r_vars r) ReservedPool [] h))"
  have "safe (r_vars r) (?f prof)" for prof
    by (intro safe_then_do safe_wrap_err SetPowerProfile_safe SetCpuIDs_reserved_safe)
  then have "ok_at (r_vars r) h (?f prof h)" if "lib_inv (r_vars r) h" for prof h
    using that by (simp add: safe_ok_at)
  then show ?thesis
    unfolding safe_ok_at configureSharedPool_def Let_def by (auto simp: ok_at_return split: option.split)
qed

lemma configureReservedPools_safe:
  assumes "\<forall>rc \<in> set (ReservedCPUs (pnc_Spec config)). \<forall>i \<in> set (rs_Cores rc). i < 2 ^ 63"
  shows "safe (r_vars r) (configureReservedPools r config nodeName)"
  unfolding configureReservedPools_def
  by (intro safe_catch_err remove_reserved_pools_safe reserve_groups_safe[OF assms] safe_return) simp

section \<open>Validation and status\<close>

lemma first_duplicate_None: "first_duplicate seen cs = None \<longleftrightarrow> distinct cs \<and> set cs \<inter> set seen = {}"
  by (induction seen cs rule: first_duplicate.induct) auto

lemma validate_step_kept:
  "host_kept (\<lambda>w. then_do (validateProfileAvailabilityOnNode r name nodeName (Some (w_host w)) w)
     (\<lambda>available w. if \<not> available then (w, Error e) else (w, Ok ())))"
proof -
  have "host_kept (\<lambda>w. then_do (validateProfileAvailabilityOnNode r name nodeName (Some h) w)
     (\<lambda>available w. if \<not> available then (w, Error e) else (w, Ok ())))" for h
    by (intro host_kepts) simp_all
  then show ?thesis unfolding host_kept_def by blast
qed

lemma validate_kept [host_kepts]: "host_kept (validatePowerNodeConfigProfiles r config nodeName)"
  unfolding validatePowerNodeConfigProfiles_def Let_def
  by (intro host_kepts host_kept_foreach validate_step_kept) simp_all

lemma validate_distinct:
  assumes "validatePowerNodeConfigProfiles r config nodeName w = (w', Ok ())"
  shows "distinct (concat (map rs_Cores (ReservedCPUs (pnc_Spec config))))"
proof -
  have "first_duplicate [] (concat (map rs_Cores (ReservedCPUs (pnc_Spec config)))) = None"
    using assms by (auto simp: validatePowerNodeConfigProfiles_def Let_def catch_err_Ok_iff split: if_splits option.splits)
  then show ?thesis by (simp add: first_duplicate_None)
qed

text \<open>What the status of the pools says.\<close>

definition pools_report :: "PowerNodeConfig \<Rightarrow> string \<Rightarrow> PowerProfileCPUs list \<Rightarrow> string list \<Rightarrow> PowerNodeStateStatus" where
  "pools_report config ids cpus errs =
     pools_status \<lparr>cps_Shared = Some \<lparr>ss_PowerProfile = SharedPowerProfile (pnc_Spec config),
           ss_PowerNodeConfig = om_Name (pnc_Meta config), ss_CPUIDs = ids, ss_Errors = errs\<rparr>,
         cps_Reserved = (if cpus = [] then None
           else Some [\<lparr>rst_PowerProfileCPUs = cpus, rst_PowerNodeConfig = om_Name (pnc_Meta config)\<rparr>]),
         cps_Exclusive = None\<rparr>"

lemma update_kept [host_kepts]: "host_kept (updatePowerNodeStatusPools r n c p i x e)"
  unfolding updatePowerNodeStatusPools_def Let_def by (intro host_kepts) simp_all

lemma update_requests:
  assumes "updatePowerNodeStatusPools r nodeName (om_Name (pnc_Meta config)) (SharedPowerProfile (pnc_Spec config)) ids cpus errs w = (w', res)"
  shows "w_host w' = w_host w \<and> (\<exists>e. w_requests w' = w_requests w @
    [(StatusApply (pns_name nodeName) (pools_report config ids cpus errs) FieldOwnerPowerNodeConfigController, e)] \<and>
    (res = Ok () \<longleftrightarrow> e = None))"
  using assms
  by (auto simp: updatePowerNodeStatusPools_def Let_def api_send_def pools_report_def split: option.splits)

lemma configureSharedPool_Ok:
  assumes "lib_inv (r_vars r) h" and "configureSharedPool r config h = (h', Ok ())"
  shows "lib_inv (r_vars r) h'" and "allCpus h' = allCpus h" and "exclusivePools h' = exclusivePools h"
    and "pool_name h' = pool_name h"
    and "\<exists>p prof. GetExclusivePool h (SharedPowerProfile (pnc_Spec config)) = Some p \<and> pool_profile h p = Some prof \<and>
           pool_profile h' = (pool_profile h)(SharedPool := Some prof)"
    and "\<forall>c \<in> set (allCpus h). cpu_pool h' c = (if cpu_pool h c = ReservedPool then SharedPool else cpu_pool h c)"
proof -
  obtain p prof h1 where p: "GetExclusivePool h (SharedPowerProfile (pnc_Spec config)) = Some p"
      "p_profile (pools h p) = Some prof"
      and h1: "SetPowerProfile (r_env r) (r_vars r) SharedPool (Some prof) h = (h1, Ok ())"
      "SetCpuIDs (r_env r) (r_vars r) ReservedPool [] h1 = (h', Ok ())"
    using assms(2) by (auto simp: configureSharedPool_def Let_def then_do_Ok_iff split: option.splits)
  note f = SetPowerProfile_frame[of "r_env r" "r_vars r" SharedPool "Some prof" h, unfolded h1(1) fst_conv]
  have i1: "lib_inv (r_vars r) h1"
    using safe_onD(1)[OF SetPowerProfile_safe assms(1) TrueI, of "r_env r" SharedPool "Some prof"] h1(1) by simp
  note s = SetCpuIDs_Ok[OF i1 _ h1(2)]
  show "lib_inv (r_vars r) h'" "allCpus h' = allCpus h" "exclusivePools h' = exclusivePools h" "pool_name h' = pool_name h"
    using s(1-3) f by (simp_all add: host_rest_iff)
  show "\<exists>p prof. GetExclusivePool h (SharedPowerProfile (pnc_Spec config)) = Some p \<and> pool_profile h p = Some prof \<and>
           pool_profile h' = (pool_profile h)(SharedPool := Some prof)"
    using s(3) f p by (auto simp: host_rest_iff pool_profile_def)
  show "\<forall>c \<in> set (allCpus h). cpu_pool h' c = (if cpu_pool h c = ReservedPool then SharedPool else cpu_pool h c)"
    using s(5) f by simp
qed

section \<open>Applying a configuration\<close>

definition group_cores :: "PowerNodeConfig \<Rightarrow> nat list" where
  "group_cores config = concat (map rs_Cores (ReservedCPUs (pnc_Spec config)))"

lemma configureReservedPools_Ok:
  assumes "lib_inv (r_vars r) h" and "distinct (group_cores config)"
    and "configureReservedPools r config nodeName h = (h', Ok (cpus, []))"
  shows "lib_inv (r_vars r) h'" and "allCpus h' = allCpus h" and "cpus = map group_status (ReservedCPUs (pnc_Spec config))"
    and "\<forall>rc \<in> set (ReservedCPUs (pnc_Spec config)). group_done nodeName h' rc"
    and "pool_profile h' SharedPool = pool_profile h SharedPool"
    and "\<forall>c \<in> set (allCpus h) - set (group_cores config). cpu_pool h' c =
       (if isExclusive (cpu_pool h c) \<and> is_reserved_pool nodeName h (cpu_pool h c) then SharedPool else cpu_pool h c)"
    and "\<forall>p \<in> set (exclusivePools h'). is_reserved_pool nodeName h' p \<longrightarrow>
       (\<exists>rc \<in> set (ReservedCPUs (pnc_Spec config)). pool_name h' p = reserved_name nodeName (rs_Cores rc))"
proof -
  obtain h1 where h1: "remove_reserved_pools r nodeName h = (h1, Ok ())"
      "reserve_groups r nodeName (ReservedCPUs (pnc_Spec config)) [] [] h1 = (h', Ok (cpus, []))"
    using assms(3) by (auto simp: configureReservedPools_def catch_err_Ok_iff)
  note m = remove_reserved_pools_Ok[OF assms(1) h1(1)]
  note g = reserve_groups_Ok[OF m(1) assms(2)[unfolded group_cores_def] h1(2), folded group_cores_def]
  show "lib_inv (r_vars r) h'" "allCpus h' = allCpus h" "cpus = map group_status (ReservedCPUs (pnc_Spec config))"
    "\<forall>rc \<in> set (ReservedCPUs (pnc_Spec config)). group_done nodeName h' rc"
    "pool_profile h' SharedPool = pool_profile h SharedPool"
    using g m(2,4) by (simp_all add: extends_def)
  show "\<forall>c \<in> set (allCpus h) - set (group_cores config). cpu_pool h' c =
       (if isExclusive (cpu_pool h c) \<and> is_reserved_pool nodeName h (cpu_pool h c) then SharedPool else cpu_pool h c)"
    using g m(2,6) by (simp add: extends_def)
  show "\<forall>p \<in> set (exclusivePools h'). is_reserved_pool nodeName h' p \<longrightarrow>
       (\<exists>rc \<in> set (ReservedCPUs (pnc_Spec config)). pool_name h' p = reserved_name nodeName (rs_Cores rc))"
  proof (intro ballI impI)
    fix p assume p: "p \<in> set (exclusivePools h')" "is_reserved_pool nodeName h' p"
    have "p \<notin> set (exclusivePools h1)"
    proof
      assume "p \<in> set (exclusivePools h1)"
      then have "is_reserved_pool nodeName h p"
        using p(2) g m(3) by (simp add: extends_def is_reserved_pool_name)
      then show False using \<open>p \<in> set (exclusivePools h1)\<close> m(5) by simp
    qed
    then show "\<exists>rc \<in> set (ReservedCPUs (pnc_Spec config)). pool_name h' p = reserved_name nodeName (rs_Cores rc)"
      using g p(1) by blast
  qed
qed

lemma applyPowerNodeConfig_Done:
  assumes "applyPowerNodeConfig r config nodeName conflicts w = (w', Ok Done)"
  obtains w1 h1 h2 cpus w2 where "validatePowerNodeConfigProfiles r config nodeName w = (w1, Ok ())"
    and "configureSharedPool r config (w_host w1) = (h1, Ok ())"
    and "configureReservedPools r config nodeName h1 = (h2, Ok (cpus, []))"
    and "updatePowerNodeStatusPools r nodeName (om_Name (pnc_Meta config)) (SharedPowerProfile (pnc_Spec config))
           (prettifyCoreList (p_cpus (pools h2 SharedPool))) cpus conflicts (w1\<lparr>w_host := h2\<rparr>) = (w', Ok ())"
  using assms
  by (auto simp: applyPowerNodeConfig_def Let_def catch_err_Ok_iff then_do_Ok_iff on_host_Ok_iff split: if_splits prod.splits)

section \<open>Giving the pools up\<close>

text \<open>While the reserved pools are removed, \<open>movedCores\<close> lists the CPUs of the shared pool.\<close>

abbreviation shared_cpus :: "host \<Rightarrow> nat list" where
  "shared_cpus h \<equiv> p_cpus (pools h SharedPool)"

definition collecting :: "pkgvars \<Rightarrow> host \<times> nat list \<times> bool \<Rightarrow> bool" where
  "collecting g = (\<lambda>(h, m, a). lib_inv g h \<and> set m = set (shared_cpus h) \<and> (a \<longrightarrow> m = shared_cpus h))"

lemma collect_reserved_host:
  "fst (fst (collect_reserved r room nodeName p (h, m, a))) = fst (remove_body r nodeName p h)"
  "snd (collect_reserved r room nodeName p (h, m, a)) = snd (remove_body r nodeName p h)"
  by (auto simp: collect_reserved_def remove_body_def wrap_err_def Let_def split: prod.split res.split)

lemma collect_reserved_Ok:
  assumes "collecting (r_vars r) (h, m, a)" and "p \<in> set (exclusivePools h)"
    and "collect_reserved r room nodeName p (h, m, a) = ((h', m', a'), Ok ())"
  shows "collecting (r_vars r) (h', m', a')" and "remove_body r nodeName p h = (h', Ok ())"
proof -
  have inv: "lib_inv (r_vars r) h" using assms(1) by (simp add: collecting_def)
  show rb: "remove_body r nodeName p h = (h', Ok ())"
    using collect_reserved_host[of r room nodeName p h m a] assms(3) by (simp add: prod_eq_iff)
  note b = remove_body_Ok[OF inv assms(2) rb]
  show "collecting (r_vars r) (h', m', a')"
  proof (cases "is_reserved_pool nodeName h p")
    case True
    have "set (shared_cpus h') = set (shared_cpus h) \<union> set (p_cpus (pools h p))"
      using b(6) True b(3) lib_invD(5)[OF inv] lib_invD(5)[OF b(1)] lib_invD(4)[OF inv assms(2)] by auto
    moreover have "m' = (if a' then shared_cpus h' else m @ p_cpus (pools h p))"
      using assms(3) True by (auto simp: collect_reserved_def Let_def split: prod.splits)
    ultimately show ?thesis using assms(1) b(1) by (auto simp: collecting_def)
  next
    case False
    then show ?thesis using assms(1,3) by (simp add: collect_reserved_def)
  qed
qed

interpretation reserved_collector:
  shrinking_body "\<lambda>(h, m, a). exclusivePools h" "collect_reserved r room nodeName" "collecting (r_vars r)" for r room nodeName
proof (standard, goal_cases)
  case (1 s) then show ?case by (auto simp: collecting_def dest: lib_invD)
next
  case (2 s p s') then show ?case using collect_reserved_Ok(1) by (cases s; cases s') auto
next
  case (3 s p s')
  obtain h m a h' m' a' where s: "s = (h, m, a)" "s' = (h', m', a')" by (cases s; cases s') auto
  have "lib_inv (r_vars r) h" using 3(1) by (simp add: s collecting_def)
  from remove_body_Ok(2)[OF this _ collect_reserved_Ok(2)[OF 3[unfolded s prod.case]]] 3(2)
  show ?case by (auto simp: s)
qed

text \<open>Moving CPUs out of the shared pool while ranging over its list.\<close>

lemma SetPool_shared_view:
  assumes "lib_inv g h" and "c \<in> set (shared_cpus h)" and "SetPool env g c (Some ReservedPool) h = (h', Ok ())"
  shows "swap_remove (shared_cpus h) c = Some (shared_cpus h')"
proof -
  have c: "c \<in> set (allCpus h)" "cpu_pool h c = SharedPool" using assms(1,2) lib_invD(5) by auto
  have i: "host_inv g h" by (rule lib_invD[OF assms(1)])
  then have k: "pool_inv h" "lib_ok g c" using c by (simp_all add: host_inv_def)
  have ne: "cpu_pool h c \<noteq> ReservedPool" using c by simp
  show ?thesis
    by (cases rule: doSetPool_cases[OF k(1) c(1) ne k(2), of env])
       (use assms(3) c in \<open>auto simp: SetPool_def\<close>)
qed

interpretation shared_drain:
  shrinking_body shared_cpus "\<lambda>c. SetPool env g c (Some ReservedPool)" "lib_inv g" for env g
proof (standard, goal_cases)
  case (1 h) then show ?case by (rule lib_invD)
next
  case (2 h c h') then show ?case using SetPool_keeps(1)[of g h c ReservedPool env] lib_invD(5) by fastforce
next
  case (3 h c h') then show ?case using SetPool_shared_view by blast
qed

lemma move_collected_eq:
  "collecting (r_vars r) (h, m, a) \<Longrightarrow> move_collected r m a h = MoveCpus (r_env r) (r_vars r) ReservedPool m h"
  using shared_drain.range_slice_foreach[of "r_vars r" h "r_env r"]
  by (auto simp: move_collected_def collecting_def MoveCpus_def)

lemma collect_loop:
  assumes "collecting (r_vars r) (h, m, a)" and "distinct ps" and "set ps \<subseteq> set (exclusivePools h)"
  shows "\<exists>h' m' a' res. foreach (collect_reserved r room nodeName) ps (h, m, a) = ((h', m', a'), res) \<and>
    foreach (remove_body r nodeName) ps h = (h', res) \<and> (res = Ok () \<longrightarrow> collecting (r_vars r) (h', m', a'))"
  using assms
proof (induction ps arbitrary: h m a)
  case (Cons p ps)
  obtain h1 m1 a1 res where c: "collect_reserved r room nodeName p (h, m, a) = ((h1, m1, a1), res)"
    by (cases "collect_reserved r room nodeName p (h, m, a)") auto
  then have b: "remove_body r nodeName p h = (h1, res)"
    using collect_reserved_host[of r room nodeName p h m a] by (simp add: prod_eq_iff)
  show ?case
  proof (cases res)
    case (Ok u)
    have p: "p \<in> set (exclusivePools h)" and inv: "lib_inv (r_vars r) h"
      using Cons.prems(1,3) by (simp_all add: collecting_def)
    note k = collect_reserved_Ok(1)[OF Cons.prems(1) p, of room nodeName h1 m1 a1]
    have "set (exclusivePools h) - {p} \<subseteq> set (exclusivePools h1)"
      using remove_body_Ok(2)[OF inv p, of nodeName h1] b Ok
        swap_remove_distinct[OF _ lib_invD(2)[OF inv], of p] by auto
    then have "set ps \<subseteq> set (exclusivePools h1)" using Cons.prems(2,3) by auto
    with Cons.IH[of h1 m1 a1] k c b Ok Cons.prems(2) show ?thesis by simp
  qed (use b c in simp_all)
qed simp

lemma release_pools_eq:
  assumes "lib_inv (r_vars r) h"
  obtains h1 res m where "remove_reserved_pools r nodeName h = (h1, res)"
    and "res = Ok () \<longrightarrow> set m = set (shared_cpus h1)"
    and "release_pools r room nodeName h =
      then_do (h1, res) (\<lambda>_ h. wrap_err ''failed to move cores to reserved'' (MoveCpus (r_env r) (r_vars r) ReservedPool m h))"
proof -
  have c: "collecting (r_vars r) (h, shared_cpus h, True)" using assms by (simp add: collecting_def)
  obtain h1 m a res where l: "foreach (collect_reserved r room nodeName) (exclusivePools h) (h, shared_cpus h, True) = ((h1, m, a), res)"
      "foreach (remove_body r nodeName) (exclusivePools h) h = (h1, res)" "res = Ok () \<longrightarrow> collecting (r_vars r) (h1, m, a)"
    using collect_loop[OF c lib_invD(2)[OF assms] subset_refl] by blast
  have "release_pools r room nodeName h =
      then_do (h1, res) (\<lambda>_ h. wrap_err ''failed to move cores to reserved'' (move_collected r m a h))"
    using reserved_collector.range_slice_foreach[OF c, of room nodeName] l by (simp add: release_pools_def)
  moreover have "then_do (h1, res) (\<lambda>_ h. wrap_err ''failed to move cores to reserved'' (move_collected r m a h)) =
      then_do (h1, res) (\<lambda>_ h. wrap_err ''failed to move cores to reserved'' (MoveCpus (r_env r) (r_vars r) ReservedPool m h))"
    using move_collected_eq[of r h1 m a] l(3) by (cases res) simp_all
  moreover have "remove_reserved_pools r nodeName h = (h1, res)" using l(2) remove_reserved_pools_foreach[OF assms] by simp
  ultimately show ?thesis using that[of h1 res m] l(3) by (auto simp: collecting_def)
qed

lemma release_pools_safe: "safe (r_vars r) (release_pools r room nodeName)"
  unfolding safe_ok_at
proof (intro allI impI)
  fix h assume "lib_inv (r_vars r) h \<and> True"
  then have h: "lib_inv (r_vars r) h" by simp
  obtain h1 res m where e: "remove_reserved_pools r nodeName h = (h1, res)" "res = Ok () \<longrightarrow> set m = set (shared_cpus h1)"
    "release_pools r room nodeName h =
      then_do (h1, res) (\<lambda>_ h. wrap_err ''failed to move cores to reserved'' (MoveCpus (r_env r) (r_vars r) ReservedPool m h))"
    by (rule release_pools_eq[OF h, of nodeName room])
  have i1: "lib_inv (r_vars r) h1" "allCpus h1 = allCpus h" "\<not> is_panic res"
    using safe_onD[OF remove_reserved_pools_safe h TrueI, of nodeName] e(1) by simp_all
  show "ok_at (r_vars r) h (release_pools r room nodeName h)"
  proof (cases res)
    case (Ok u)
    have "set m \<subseteq> set (allCpus h1)" using e(2) Ok lib_invD(5)[OF i1(1)] by auto
    note mv = MoveCpus_safe[OF i1(1) this, of ReservedPool "r_env r"]
    show ?thesis using mv i1 e(3) Ok by (simp add: ok_at_def)
  qed (use e(3) i1 in \<open>simp_all add: ok_at_def\<close>)
qed

lemma release_pools_Ok:
  assumes "lib_inv (r_vars r) h" and "release_pools r room nodeName h = (h', Ok ())"
  shows "lib_inv (r_vars r) h'" and "allCpus h' = allCpus h"
    and "set (exclusivePools h') = {p \<in> set (exclusivePools h). \<not> is_reserved_pool nodeName h p}"
    and "\<forall>c \<in> set (allCpus h). cpu_pool h' c =
       (if cpu_pool h c = SharedPool \<or> isExclusive (cpu_pool h c) \<and> is_reserved_pool nodeName h (cpu_pool h c)
        then ReservedPool else cpu_pool h c)"
proof -
  obtain h1 res m where e: "remove_reserved_pools r nodeName h = (h1, res)" "res = Ok () \<longrightarrow> set m = set (shared_cpus h1)"
    "release_pools r room nodeName h =
      then_do (h1, res) (\<lambda>_ h. wrap_err ''failed to move cores to reserved'' (MoveCpus (r_env r) (r_vars r) ReservedPool m h))"
    by (rule release_pools_eq[OF assms(1), of nodeName room])
  have ok: "res = Ok ()" using assms(2) e(3) by (cases res) auto
  then have mv: "MoveCpus (r_env r) (r_vars r) ReservedPool m h1 = (h', Ok ())" using assms(2) e(3) by simp
  note q = remove_reserved_pools_Ok[OF assms(1) e(1)[unfolded ok]]
  have m: "set m = {c \<in> set (allCpus h). cpu_pool h1 c = SharedPool}" using e(2) ok lib_invD(5)[OF q(1)] q(2) by auto
  then have sub: "set m \<subseteq> set (allCpus h1)" using q(2) by auto
  note s = MoveCpus_safe[OF q(1) sub, of ReservedPool "r_env r", unfolded mv fst_conv]
  show "lib_inv (r_vars r) h'" "allCpus h' = allCpus h" using s q(2) by simp_all
  show "set (exclusivePools h') = {p \<in> set (exclusivePools h). \<not> is_reserved_pool nodeName h p}"
    using s(3) q(5) by (simp add: host_rest_iff)
  show "\<forall>c \<in> set (allCpus h). cpu_pool h' c =
       (if cpu_pool h c = SharedPool \<or> isExclusive (cpu_pool h c) \<and> is_reserved_pool nodeName h (cpu_pool h c)
        then ReservedPool else cpu_pool h c)"
    using MoveCpus_Ok[OF q(1) sub mv] q(6) m by auto
qed

section \<open>The whole reconciliation is sound\<close>

lemma conflict_errors_kept [host_kepts]: "host_kept (conflict_errors r selected ms)"
proof (induction ms)
  case (Cons m ms)
  have "host_kept (describeConflictingConfig r m)"
    unfolding describeConflictingConfig_def Let_def by (intro host_kepts) simp_all
  then show ?case unfolding conflict_errors.simps by (intro host_kepts Cons.IH) simp_all
qed (simp add: host_kept_def)

lemma getMatching_kept: "host_kept (getMatchingPowerNodeConfigs r n)"
  unfolding getMatchingPowerNodeConfigs_def by (intro host_kepts) simp

lemma removeStatus_kept: "host_kept (removePowerNodeStatusPools r n)"
  unfolding removePowerNodeStatusPools_def by (intro host_kepts) simp_all

definition small_cores :: "PowerNodeConfig \<Rightarrow> bool" where
  "small_cores config = (\<forall>rc \<in> set (ReservedCPUs (pnc_Spec config)). \<forall>i \<in> set (rs_Cores rc). i < 2 ^ 63)"

lemma cleanup_sound: "sound (r_vars r) (cleanupPowerNodeConfigPools r room nodeName)"
  unfolding cleanupPowerNodeConfigPools_def
  by (intro sound_then_do sound_on_host_safe release_pools_safe host_kept_sound removeStatus_kept)

lemma applyPowerNodeConfig_sound:
  assumes "small_cores config"
  shows "sound (r_vars r) (applyPowerNodeConfig r config nodeName conflicts)"
proof -
  have u: "sound (r_vars r) (\<lambda>w. then_do
      (updatePowerNodeStatusPools r nodeName name shared (prettifyCoreList (shared_cpus (w_host w))) cpus msgs w)
      (\<lambda>_ w. if 0 < length errs then (w, Error e) else (w, Ok Done)))" for name shared cpus msgs and errs :: "err list" and e
  proof -
    have "host_kept (\<lambda>w. then_do (updatePowerNodeStatusPools r nodeName name shared (prettifyCoreList l) cpus msgs w)
      (\<lambda>_ w. if 0 < length errs then (w, Error e) else (w, Ok Done)))" for l
      by (intro host_kepts) simp_all
    then show ?thesis by (intro host_kept_sound) (simp add: host_kept_def)
  qed
  show ?thesis unfolding applyPowerNodeConfig_def Let_def
    by (intro sound_catch_err sound_then_do host_kept_sound[OF validate_kept] host_kept_sound[OF update_kept]
        sound_return sound_on_host_safe configureSharedPool_safe configureReservedPools_safe)
       (use assms u in \<open>auto simp: small_cores_def split: prod.split\<close>)
qed

text \<open>A continuation that is sound for the values the first call can return.\<close>

lemma sound_then_do_for:
  assumes "sound g f" and "\<And>w w' a. f w = (w', Ok a) \<Longrightarrow> Q a" and "\<And>a. Q a \<Longrightarrow> sound g (k a)"
  shows "sound g (\<lambda>w. then_do (f w) k)"
proof (rule sound_onI)
  fix w :: world assume w: "lib_inv g (w_host w)"
  obtain v x where x: "f w = (v, x)" by (cases "f w")
  show "lib_inv g (w_host (fst (then_do (f w) k))) \<and>
      allCpus (w_host (fst (then_do (f w) k))) = allCpus (w_host w) \<and> \<not> is_panic (snd (then_do (f w) k))"
    using sound_onD[OF assms(1) w TrueI] sound_onD[OF assms(3), of _ v] assms(2)[of w v] x by (cases x) simp_all
qed

lemma selected_in: "selectActiveOrOldest getMeta ms name = (ms', Some m) \<Longrightarrow> m \<in> set ms"
proof -
  have "sort_key k ms ! 0 \<in> set ms" if "ms \<noteq> []" for k :: "'a \<Rightarrow> int \<times> string"
    using nth_mem[of 0 "sort_key k ms"] that by simp
  then show "selectActiveOrOldest getMeta ms name = (ms', Some m) \<Longrightarrow> m \<in> set ms"
    by (auto simp: selectActiveOrOldest_def Let_def dest: find_SomeD split: if_splits option.splits)
qed

lemma getMatching_listed:
  assumes "getMatchingPowerNodeConfigs r n w = (w', Ok ms)"
  shows "\<exists>k cs. list_configs (r_api r) k = Inr cs \<and> set ms \<subseteq> set cs"
proof -
  obtain cs k where "reply (list_configs (r_api r) k) = Ok cs" "set ms \<subseteq> set cs"
    using assms by (auto simp: getMatchingPowerNodeConfigs_def then_do_Ok_iff api_get_def filterByNodeSelector_eq)
  then show ?thesis by (cases "list_configs (r_api r) k") auto
qed

section \<open>Properties\<close>


definition one_reserved :: PowerNodeConfig where
  "one_reserved = \<lparr>pnc_Meta = meta0 ''config'' 1, pnc_Spec = \<lparr>SharedPowerProfile = ''perf'', pncs_NodeSelector = every_node,
     ReservedCPUs = [\<lparr>rs_Cores = [2], rs_PowerProfile = []\<rparr>]\<rparr>\<rparr>"

abbreviation all_shared :: "nat \<Rightarrow> pool_ref" where
  "all_shared \<equiv> \<lambda>_. SharedPool"

lemma one_reserved_validate:
  "validatePowerNodeConfigProfiles plain_reconciler one_reserved ''node'' (plain_world all_shared) =
     ((plain_world all_shared)\<lparr>w_calls := 2\<rparr>, Ok ())"
  by (simp add: validatePowerNodeConfigProfiles_def one_reserved_def profile_names_def plain_simps
      plain_world_def api_get_def plain_api_def perf_profile_def validateProfileAvailabilityOnNode_def
      GetExclusivePool_def PoolList_ByName_def plain_host_def nodeMatchesPowerProfile_def empty_selector_def every_node_def)

definition shared_host :: host where
  "shared_host = (let h = plain_host all_shared in
     h\<lparr>pools := (pools h)(SharedPool := (pools h SharedPool)\<lparr>p_profile := Some perf_prof\<rparr>)\<rparr>)"

lemma one_reserved_shared: "configureSharedPool plain_reconciler one_reserved (plain_host all_shared) = (shared_host, Ok ())"
proof -
  have "GetExclusivePool (plain_host all_shared) ''perf'' = Some (ExclusivePool 0)"
    by (simp add: GetExclusivePool_def PoolList_ByName_def plain_host_def)
  moreover have "p_profile (pools (plain_host all_shared) (ExclusivePool 0)) = Some perf_prof" by (simp add: plain_host_def)
  moreover have "SetCpuIDs env0 plain_vars ReservedPool [] shared_host = (shared_host, Ok ())"
    by (simp add: SetCpuIDs_def SetCpus_def reservedPool_SetCpus_def shared_host_def plain_host_def CpuList_Contains_def)
  ultimately show ?thesis
    by (simp add: configureSharedPool_def one_reserved_def plain_SetPowerProfile plain_reconciler_def shared_host_def Let_def)
qed

lemma one_reserved_groups:
  "\<exists>h. configureReservedPools plain_reconciler one_reserved ''node'' shared_host =
     (h, Ok ([\<lparr>ppc_PowerProfile = [], ppc_CPUIDs = prettifyCoreList [2], ppc_Errors = []\<rparr>], []))"
proof -
  have "is_reserved_pool ''node'' shared_host (ExclusivePool 0) = False"
    by (simp add: is_reserved_pool_def HasPrefix_def reserved_prefix_def shared_host_def plain_host_def)
  moreover have "exclusivePools shared_host = [ExclusivePool 0]" by (simp add: shared_host_def Let_def)
  ultimately have r: "remove_reserved_pools plain_reconciler ''node'' shared_host = (shared_host, Ok ())"
    by (simp add: remove_reserved_pools_def range_slice_def range_alias.simps)
  have ids: "allCpus shared_host = [0, 1, 2]" "ManyByIDs [0, 1, 2] [2] = Ok [2]"
    by (simp_all add: shared_host_def Let_def ByID_def to_int64_def)
  have m: "MoveCpuIDs env0 plain_vars SharedPool [2] shared_host = (shared_host, Ok ())"
    using ids by (simp add: MoveCpuIDs_def MoveCpus_def SetPool_def shared_host_def Let_def)
  have "CpuList_remove [0, 1, 2] 2 = Ok [0, 1]" by (simp add: CpuList_remove_def swap_remove_def IndexOf_def Let_def)
  then have "\<exists>h. MoveCpuIDs env0 plain_vars ReservedPool [2] shared_host = (h, Ok ())"
    using ids by (simp add: MoveCpuIDs_def MoveCpus_def SetPool_def doSetPool_def shared_host_def plain_host_def Let_def)
  then show ?thesis using r m
    by (auto simp: configureReservedPools_def one_reserved_def plain_reconciler_def Let_def)
qed


text \<open>
  A configuration that fails validation (a profile that is missing, not shared, or not
  available on the node, or a core listed twice) leaves all pools as they are; the controller
  reports the reason in the status of the node and asks to be called again.
\<close>
theorem invalid_config_not_applied:
  assumes "validatePowerNodeConfigProfiles r config nodeName w = (w1, Error e)"
    and "applyPowerNodeConfig r config nodeName conflicts w = (w', res)"
  shows "w_host w' = w_host w \<and> res = Ok (RequeueAfter queuetime) \<and>
    (\<exists>x. last (w_requests w') = (StatusApply (pns_name nodeName)
       (pools_report config [] [] [err_msg e]) FieldOwnerPowerNodeConfigController, x))"
proof -
  let ?u = "updatePowerNodeStatusPools r nodeName (om_Name (pnc_Meta config)) (SharedPowerProfile (pnc_Spec config)) [] [] [err_msg e] w1"
  obtain w2 x where u: "?u = (w2, x)" by (cases ?u)
  have "\<not> is_panic x" using host_keptD(2)[OF update_kept, of r nodeName _ _ _ _ _ w1] u by (metis snd_conv)
  then have "w' = w2 \<and> res = Ok (RequeueAfter queuetime)"
    using assms u by (cases x) (auto simp: applyPowerNodeConfig_def Let_def)
  moreover have "w_host w1 = w_host w" using host_keptD(1)[OF validate_kept, of r config nodeName w] assms(1) by simp
  ultimately show ?thesis using update_requests[OF u] by auto
qed

theorem invalid_config_not_applied_witness:
  "\<exists>w'. applyPowerNodeConfig plain_reconciler (one_reserved\<lparr>pnc_Spec := (pnc_Spec one_reserved)\<lparr>SharedPowerProfile := ''eco''\<rparr>\<rparr>)
     ''node'' [] (plain_world all_shared) = (w', Ok (RequeueAfter queuetime)) \<and> w_host w' = plain_host all_shared"
proof -
  let ?c = "one_reserved\<lparr>pnc_Spec := (pnc_Spec one_reserved)\<lparr>SharedPowerProfile := ''eco''\<rparr>\<rparr>"
  let ?a = "applyPowerNodeConfig plain_reconciler ?c ''node'' [] (plain_world all_shared)"
  have v: "validatePowerNodeConfigProfiles plain_reconciler ?c ''node'' (plain_world all_shared) =
      ((plain_world all_shared)\<lparr>w_calls := 1\<rparr>, Error (Errorf (''PowerProfile '' @ squote ''eco'' @ '' not found'')))"
    by (simp add: validatePowerNodeConfigProfiles_def one_reserved_def api_get_def plain_api_def plain_world_def)
  have "?a = (fst ?a, snd ?a)" by simp
  from invalid_config_not_applied[OF v this] show ?thesis by (metis plain_simps(4) prod.collapse)
qed

text \<open>
  \<open>Reconcile\<close> of the PowerNodeConfig controller never panics and keeps the invariant of the library
  (every CPU in exactly one pool, the two directions of the relation in step, the pools listed
  once), whatever the API server answers, in whatever order other clients change the cluster,
  and whichever file operations fail, as long as the core ids in the configurations fit an
  \<open>int\<close>.
\<close>
theorem PowerNodeConfig_Reconcile_sound:
  assumes "\<forall>n cs. list_configs (r_api r) n = Inr cs \<longrightarrow> (\<forall>c \<in> set cs. small_cores c)"
  shows "sound (r_vars r) (PowerNodeConfig_Reconcile r room namespace)"
proof -
  have k: "sound (r_vars r) (\<lambda>w. case selectActiveOrOldest pnc_Meta ms active of
      (matches, None) \<Rightarrow>
        if active \<noteq> [] then then_do (cleanupPowerNodeConfigPools r room (r_node r) w) (\<lambda>_ w. (w, Ok Done)) else (w, Ok Done)
    | (matches, Some selected) \<Rightarrow>
        then_do (if 1 < length matches then conflict_errors r (om_Name (pnc_Meta selected)) matches w else (w, Ok []))
          (applyPowerNodeConfig r selected (r_node r)))" if ms: "\<forall>c \<in> set ms. small_cores c" for ms active
  proof (cases "selectActiveOrOldest pnc_Meta ms active")
    case (Pair matches sel)
    show ?thesis
    proof (cases sel)
      case None
      have "sound (r_vars r) (\<lambda>w. if active \<noteq> [] then then_do (cleanupPowerNodeConfigPools r room (r_node r) w) (\<lambda>_ w. (w, Ok Done))
          else (w, Ok Done))" by (intro sound_if sound_then_do cleanup_sound sound_return) simp_all
      then show ?thesis unfolding Pair None by simp
    next
      case (Some c)
      have "small_cores c" using selected_in[OF Pair[unfolded Some]] ms by blast
      then have "sound (r_vars r) (\<lambda>w. then_do (if 1 < length matches then conflict_errors r (om_Name (pnc_Meta c)) matches w
          else (w, Ok [])) (applyPowerNodeConfig r c (r_node r)))"
        by (intro sound_then_do sound_if applyPowerNodeConfig_sound host_kept_sound[OF conflict_errors_kept] sound_return) simp_all
      then show ?thesis unfolding Pair Some by simp
    qed
  qed
  have "\<forall>c \<in> set ms. small_cores c" if "getMatchingPowerNodeConfigs r (r_node r) w = (w', Ok ms)" for w w' ms
    using getMatching_listed[OF that] assms by blast
  then show ?thesis unfolding PowerNodeConfig_Reconcile_def Let_def
    by (intro sound_if sound_return sound_then_do_for[where Q = "\<lambda>ms. \<forall>c \<in> set ms. small_cores c"] sound_catch_err
        host_kept_sound[OF getMatching_kept] host_kept_sound[OF getActiveResourceName_kept] k) simp_all
qed

theorem PowerNodeConfig_Reconcile_sound_witness:
  "\<not> is_panic (snd (PowerNodeConfig_Reconcile
     (plain_reconciler\<lparr>r_api := plain_api\<lparr>list_configs := \<lambda>n. Inr [one_reserved]\<rparr>\<rparr>)
     (\<lambda>_. True) PowerNamespace (plain_world all_shared)))"
proof -
  let ?r = "plain_reconciler\<lparr>r_api := plain_api\<lparr>list_configs := \<lambda>n. Inr [one_reserved]\<rparr>\<rparr>"
  have "sound plain_vars (PowerNodeConfig_Reconcile ?r (\<lambda>_. True) PowerNamespace)"
    using PowerNodeConfig_Reconcile_sound[of ?r "\<lambda>_. True" PowerNamespace] by (simp add: one_reserved_def small_cores_def)
  moreover have "lib_inv plain_vars (plain_host all_shared)" by (rule plain_host_inv) simp
  ultimately show ?thesis by (simp add: sound_on_def)
qed

text \<open>
  C24. When no configuration is left for the node and the clean-up succeeds, every CPU of the shared
  pool and of the reserved pools of the node is back in the library's reserved pool, CPUs of pods
  stay where they are, and exactly the reserved pools of the node are gone.
\<close>
theorem cleanupPowerNodeConfigPools_correct:
  assumes "lib_inv (r_vars r) (w_host w)" and "cleanupPowerNodeConfigPools r room nodeName w = (w', Ok ())"
  shows "lib_inv (r_vars r) (w_host w') \<and> allCpus (w_host w') = allCpus (w_host w) \<and>
    set (exclusivePools (w_host w')) = {p \<in> set (exclusivePools (w_host w)). \<not> is_reserved_pool nodeName (w_host w) p} \<and>
    (\<forall>c \<in> set (allCpus (w_host w)). cpu_pool (w_host w') c =
       (if cpu_pool (w_host w) c = SharedPool \<or>
           isExclusive (cpu_pool (w_host w) c) \<and> is_reserved_pool nodeName (w_host w) (cpu_pool (w_host w) c)
        then ReservedPool else cpu_pool (w_host w) c))"
proof -
  obtain h where h: "release_pools r room nodeName (w_host w) = (h, Ok ())"
      and rm: "removePowerNodeStatusPools r nodeName (w\<lparr>w_host := h\<rparr>) = (w', Ok ())"
    using assms(2) by (auto simp: cleanupPowerNodeConfigPools_def then_do_Ok_iff on_host_Ok_iff)
  have "w_host w' = h" using host_keptD(1)[OF removeStatus_kept, of r nodeName "w\<lparr>w_host := h\<rparr>"] rm by simp
  then show ?thesis using release_pools_Ok[OF assms(1) h] by simp
qed

theorem cleanupPowerNodeConfigPools_correct_witness:
  "\<exists>w'. cleanupPowerNodeConfigPools plain_reconciler (\<lambda>_. True) ''node''
      (plain_world (\<lambda>c. if c = 0 then SharedPool else ExclusivePool 0)) = (w', Ok ()) \<and>
     cpu_pool (w_host w') 0 = ReservedPool \<and> cpu_pool (w_host w') 1 = ExclusivePool 0"
proof -
  let ?place = "\<lambda>c. if c = 0 then SharedPool else ExclusivePool 0 :: pool_ref"
  let ?h = "plain_host ?place"
  have inv: "lib_inv plain_vars ?h" by (rule plain_host_inv) (simp split: if_splits)
  have no: "\<not> is_reserved_pool ''node'' ?h (ExclusivePool 0)"
    by (simp add: is_reserved_pool_def HasPrefix_def reserved_prefix_def plain_host_def)
  have sh: "shared_cpus ?h = [0]" by (simp add: plain_host_def)
  have "\<exists>h'. MoveCpus env0 plain_vars ReservedPool [0] ?h = (h', Ok ())"
    using sh by (simp add: MoveCpus_def SetPool_def doSetPool_def CpuList_remove_def swap_remove_def IndexOf_def Let_def)
  then have "\<exists>h'. release_pools plain_reconciler (\<lambda>_. True) ''node'' ?h = (h', Ok ())"
    using no sh by (simp add: release_pools_def range_slice_def range_alias.simps collect_reserved_def move_collected_def
        plain_reconciler_def MoveCpus_def)
  then have "\<exists>w'. cleanupPowerNodeConfigPools plain_reconciler (\<lambda>_. True) ''node'' (plain_world ?place) = (w', Ok ())"
    by (auto simp: cleanupPowerNodeConfigPools_def on_host_def removePowerNodeStatusPools_def api_send_def plain_api_def Let_def)
  then obtain w' where w': "cleanupPowerNodeConfigPools plain_reconciler (\<lambda>_. True) ''node'' (plain_world ?place) = (w', Ok ())" ..
  show ?thesis using cleanupPowerNodeConfigPools_correct[OF _ w'] inv no w' by simp
qed

end
