(* ===== verification/Profile_Controller.thy ===== *)
theory Profile_Controller
  imports Controllers_Common
begin

text \<open>
  \<open>controllers/powerprofile_controller.go\<close>: a PowerProfile becomes a pool of the library, and an
  extended resource of the node unless it is shared. \<open>Reconcile\<close> ends with a deferred call that
  writes the entry of the profile into the status of the node; it reads the variable \<open>err\<close> of the
  function, so that variable is part of the state of \<open>apply_profile\<close>, and calls whose error is
  assigned to a shadowing \<open>err\<close> leave it alone.
\<close>

section \<open>Extended resources\<close>

definition ExtendedResourcePrefix :: string where
  "ExtendedResourcePrefix = ''power.cluster-power-manager.github.io/''"

text \<open>The number of units of the resource, out of \<open>totalCPUs\<close>.\<close>

definition numExtendedResources :: "env \<Rightarrow> IntOrString \<Rightarrow> int \<Rightarrow> int" where
  "numExtendedResources env cap totalCPUs =
     (if IntOrString_String cap \<noteq> [] then
        (case GetScaledValueFromIntOrPercent (float_oor env) cap totalCPUs False of
           Ok absoluteCPUs \<Rightarrow> if 0 < absoluteCPUs then absoluteCPUs else totalCPUs
         | _ \<Rightarrow> totalCPUs)
      else totalCPUs)"

text \<open>Assigning to an entry of a nil map panics.\<close>

definition ensureExtendedResources :: "reconciler \<Rightarrow> string \<Rightarrow> PowerProfile \<Rightarrow> world \<Rightarrow> world \<times> unit res" where
  "ensureExtendedResources r nodeName p w =
     then_do (api_get (\<lambda>n. get_node (r_api r) n nodeName) w) (\<lambda>node w.
       (let totalCPUs = int (length (allCpus (w_host w)));
            n = numExtendedResources (r_env r) (CPUCapacity (pp_Spec p)) totalCPUs;
            name = ExtendedResourcePrefix @ om_Name (pp_Meta p)
        in case nd_Capacity node of
             None \<Rightarrow> (w, Panic ''assignment to entry in nil map'')
           | Some cap \<Rightarrow>
               api_send r (UpdateNodeStatus (node\<lparr>nd_Capacity := Some (AList.update name (NewQuantity n) cap)\<rparr>)) w))"

definition removeExtendedResources :: "reconciler \<Rightarrow> string \<Rightarrow> string \<Rightarrow> world \<Rightarrow> world \<times> unit res" where
  "removeExtendedResources r nodeName profileName w =
     then_do (api_get (\<lambda>n. get_node (r_api r) n nodeName) w) (\<lambda>node w.
       (let name = ExtendedResourcePrefix @ profileName;
            cap = filter (\<lambda>(resourceFromNode, q). resourceFromNode \<noteq> name) (the_default [] (nd_Capacity node))
        in api_send r (UpdateNodeStatus (node\<lparr>nd_Capacity := Some cap\<rparr>)) w))"

definition cleanupProfileFromNode :: "reconciler \<Rightarrow> PowerProfile \<Rightarrow> string \<Rightarrow> world \<Rightarrow> world \<times> unit res" where
  "cleanupProfileFromNode r p nodeName w =
     then_do (removeExtendedResources r nodeName (om_Name (pp_Meta p)) w)
       (\<lambda>_. removePowerNodeStatusProfileEntry r nodeName (om_Name (pp_Meta p)))"

section \<open>The pools of a profile\<close>

definition has_profile :: "host \<Rightarrow> pool_ref \<Rightarrow> string \<Rightarrow> bool" where
  "has_profile h p name = (case p_profile (pools h p) of None \<Rightarrow> False | Some prof \<Rightarrow> prof_name prof = name)"

text \<open>The profile is new: a pool is created for it.\<close>

definition create_profile_pool :: "reconciler \<Rightarrow> string \<Rightarrow> profile \<Rightarrow> host \<Rightarrow> host \<times> unit res" where
  "create_profile_pool r name prof h =
     (case AddExclusivePool name h of
        (h, p, Some e) \<Rightarrow> (h, Error e)
      | (h, p, None) \<Rightarrow> SetPowerProfile (r_env r) (r_vars r) p (Some prof) h)"

text \<open>
  The profile was there before: the shared pool and the reserved pools that use it follow its own
  pool. The loop ranges over the list of pools, which \<open>SetPowerProfile\<close> does not change.
\<close>

definition update_shared_pool :: "reconciler \<Rightarrow> string \<Rightarrow> string \<Rightarrow> profile \<Rightarrow> host \<Rightarrow> host \<times> unit res" where
  "update_shared_pool r nodeName name prof h =
     (if has_profile h SharedPool name then
        wrap_err (''error updating shared pool in power library with updated profile '' @ squote name @ '' for node '' @ squote nodeName)
          (SetPowerProfile (r_env r) (r_vars r) SharedPool (Some prof) h)
      else (h, Ok ()))"

definition update_reserved_pools :: "reconciler \<Rightarrow> string \<Rightarrow> string \<Rightarrow> profile \<Rightarrow> host \<Rightarrow> host \<times> unit res" where
  "update_reserved_pools r nodeName name prof h =
     foreach (\<lambda>p h.
       if strings_Contains (p_name (pools h p)) (nodeName @ ''-reserved-'') \<and> has_profile h p name then
         wrap_err (''error updating special reserved pool '' @ squote (p_name (pools h p)) @
                   '' in power library with updated profile '' @ squote name @ '' for node '' @ squote nodeName)
           (SetPowerProfile (r_env r) (r_vars r) p (Some prof) h)
       else (h, Ok ())) (exclusivePools h) h"

section \<open>Reconcile\<close>

text \<open>
  The part that runs for a profile that selects this node. The state is the world and the
  variable \<open>err\<close>: \<open>record_err\<close> is \<open>err = f()\<close>, \<open>shadow_err\<close> a call whose error goes to another variable.
\<close>

definition record_err :: "(world \<Rightarrow> world \<times> 'a res) \<Rightarrow> world \<times> err option \<Rightarrow> (world \<times> err option) \<times> 'a res" where
  "record_err f = (\<lambda>(w, er).
     case f w of
       (w, Ok a) \<Rightarrow> ((w, None), Ok a)
     | (w, Error e) \<Rightarrow> ((w, Some e), Error e)
     | (w, Panic m) \<Rightarrow> ((w, er), Panic m))"

definition shadow_err :: "(world \<Rightarrow> world \<times> 'a res) \<Rightarrow> world \<times> err option \<Rightarrow> (world \<times> err option) \<times> 'a res" where
  "shadow_err f = (\<lambda>(w, er). case f w of (w, x) \<Rightarrow> ((w, er), x))"

definition actual_epp :: "pkgvars \<Rightarrow> string \<Rightarrow> string" where
  "actual_epp g e = (if \<not> IsFeatureSupported g [EPPFeature] \<and> e \<noteq> [] then [] else e)"

definition check_epp :: "string \<Rightarrow> unit res" where
  "check_epp e =
     (if e \<noteq> [] \<and> \<not> isValidEpp e then Error (ServiceUnavailable (''EPP value not allowed: '' @ e)) else Ok ())"

definition note_epp :: "pkgvars \<Rightarrow> PowerProfile \<Rightarrow> world \<times> err option \<Rightarrow> world \<times> err option" where
  "note_epp g p = (\<lambda>(w, er).
     (w, if \<not> IsFeatureSupported g [EPPFeature] \<and> Epp (PStates (pp_Spec p)) \<noteq> []
         then Some (Errorf (''EPP is not supported but '' @ om_Name (pp_Meta p) @ '' provides one, setting EPP to '' @ squote []))
         else er))"

definition library_profile :: "pkgvars \<Rightarrow> PowerProfile \<Rightarrow> profile res" where
  "library_profile g p =
     NewPowerProfile g (om_Name (pp_Meta p)) (Min (PStates (pp_Spec p))) (Max (PStates (pp_Spec p)))
       (Governor (PStates (pp_Spec p))) (actual_epp g (Epp (PStates (pp_Spec p))))
       (Names (CStates (pp_Spec p))) (MaxLatencyUs (CStates (pp_Spec p)))"

definition place_profile ::
  "reconciler \<Rightarrow> string \<Rightarrow> string \<Rightarrow> profile \<Rightarrow> world \<times> err option \<Rightarrow> (world \<times> err option) \<times> unit res" where
  "place_profile r nodeName name prof s =
     (case GetExclusivePool (w_host (fst s)) name of
        None \<Rightarrow> shadow_err (on_host (create_profile_pool r name prof)) s
      | Some p \<Rightarrow>
          then_do (wrap_err (''error updating the power profile '' @ squote name @ '' to the power library for node '' @ squote nodeName)
                     (record_err (on_host (SetPowerProfile (r_env r) (r_vars r) p (Some prof))) s)) (\<lambda>_ s.
            then_do (shadow_err (on_host (update_shared_pool r nodeName name prof)) s)
              (\<lambda>_. shadow_err (on_host (update_reserved_pools r nodeName name prof)))))"

definition apply_profile ::
  "reconciler \<Rightarrow> string \<Rightarrow> PowerProfile \<Rightarrow> world \<times> err option \<Rightarrow> (world \<times> err option) \<times> Result res" where
  "apply_profile r nodeName p s =
     then_do (record_err (\<lambda>w. (w, check_epp (Epp (PStates (pp_Spec p))))) s) (\<lambda>_ s.
       then_do (record_err (\<lambda>w. (w, library_profile (r_vars r) p)) (note_epp (r_vars r) p s)) (\<lambda>prof s.
         then_do (place_profile r nodeName (om_Name (pp_Meta p)) prof s) (\<lambda>_ s.
           if Shared (pp_Spec p) then (s, Ok Done)
           else then_do (wrap_err ''error creating or updating the extended resources for the base profile''
                           (record_err (ensureExtendedResources r nodeName p) s))
                  (\<lambda>_ s. (s, Ok Done)))))"

text \<open>The deferred call. It also runs when the function panics, and the panic goes on after it.\<close>

definition report_profile ::
  "reconciler \<Rightarrow> string \<Rightarrow> PowerProfile \<Rightarrow> (world \<times> err option) \<times> Result res \<Rightarrow> world \<times> Result res" where
  "report_profile r nodeName p = (\<lambda>((w, er), x).
     case addPowerNodeStatusProfileEntry r nodeName p er w of
       (w, Panic m) \<Rightarrow> (w, Panic m)
     | (w, Error e) \<Rightarrow> (w, case x of Ok _ \<Rightarrow> Ok (RequeueAfter queuetime) | _ \<Rightarrow> x)
     | (w, Ok _) \<Rightarrow> (w, x))"

text \<open>The profile was deleted.\<close>

definition delete_shared_profile :: "reconciler \<Rightarrow> string \<Rightarrow> host \<Rightarrow> host \<times> unit res" where
  "delete_shared_profile r name h =
     then_do (SetPowerProfile (r_env r) (r_vars r) SharedPool None h) (\<lambda>_ h.
       (case GetExclusivePool h name of
          None \<Rightarrow> (h, Error (Errorf ''pool not found''))
        | Some p \<Rightarrow> Pool_Remove (r_env r) (r_vars r) p h))"

definition delete_profile :: "reconciler \<Rightarrow> string \<Rightarrow> string \<Rightarrow> world \<Rightarrow> world \<times> Result res" where
  "delete_profile r nodeName name w =
     then_do (if has_profile (w_host w) SharedPool name then on_host (delete_shared_profile r name) w
              else removeExtendedResources r nodeName name w)
       (\<lambda>_ w. catch_err (removePowerNodeStatusProfileEntry r nodeName name w)
          (\<lambda>_ w. (w, Ok (RequeueAfter queuetime))) (\<lambda>_ w. (w, Ok Done)))"

definition PowerProfile_Reconcile :: "reconciler \<Rightarrow> string \<Rightarrow> string \<Rightarrow> world \<Rightarrow> world \<times> Result res" where
  "PowerProfile_Reconcile r req_namespace req_name w =
     (if req_namespace \<noteq> PowerNamespace then (w, Error (Errorf ''incorrect namespace''))
      else
        (let nodeName = r_node r in
         catch_err (api_get (\<lambda>n. get_profile (r_api r) n req_name) w)
           (\<lambda>e w. if IsNotFound e then delete_profile r nodeName req_name w else (w, Error e))
           (\<lambda>p w. then_do (nodeMatchesPowerProfile r p nodeName w) (\<lambda>match w.
              if \<not> match then
                catch_err (cleanupProfileFromNode r p nodeName w)
                  (\<lambda>_ w. (w, Ok (RequeueAfter queuetime))) (\<lambda>_ w. (w, Ok Done))
              else report_profile r nodeName p (apply_profile r nodeName p (w, None))))))"

definition nodeToProfileRequests :: "reconciler \<Rightarrow> world \<Rightarrow> world \<times> (string \<times> string) list res" where
  "nodeToProfileRequests r w =
     catch_err (api_get (list_profiles (r_api r)) w) (\<lambda>_ w. (w, Ok []))
       (\<lambda>items w. (w, Ok (map (\<lambda>p. (om_Namespace (pp_Meta p), om_Name (pp_Meta p))) items)))"

end
