(* ===== verification/Profile_Controller_Props.thy ===== *)
theory Profile_Controller_Props
  imports Profile_Controller Example_Node
begin

text \<open>
  What the PowerProfile controller does to the pools, to the extended resources of the node and to
  the status.
\<close>

section \<open>Calls that change profiles only\<close>

definition profiles_only :: "host \<Rightarrow> host \<Rightarrow> bool" where
  "profiles_only h h' =
     (cpu_pool h' = cpu_pool h \<and> allCpus h' = allCpus h \<and> exclusivePools h' = exclusivePools h \<and>
      pool_name h' = pool_name h)"

lemma profiles_only_refl [simp]: "profiles_only h h"
  by (simp add: profiles_only_def)

lemma profiles_only_trans: "profiles_only h h1 \<Longrightarrow> profiles_only h1 h2 \<Longrightarrow> profiles_only h h2"
  by (simp add: profiles_only_def)

lemma SetPowerProfile_only:
  assumes "SetPowerProfile env g p prof h = (h', Ok ())"
  shows "profiles_only h h'" and "pool_profile h' = (pool_profile h)(p := prof)"
proof -
  have "p \<noteq> ReservedPool" using assms by (auto simp: SetPowerProfile_def)
  then show "profiles_only h h'" "pool_profile h' = (pool_profile h)(p := prof)"
    using SetPowerProfile_frame[of env g p prof h] assms by (simp_all add: profiles_only_def)
qed

lemma has_profile_pool: "has_profile h p name \<longleftrightarrow> (\<exists>prof. pool_profile h p = Some prof \<and> prof_name prof = name)"
  by (auto simp: has_profile_def pool_profile_def split: option.split)

lemma update_shared_pool_Ok:
  assumes "update_shared_pool r nodeName name prof h = (h', Ok ())"
  shows "profiles_only h h' \<and> pool_profile h' =
    (\<lambda>q. if q = SharedPool \<and> has_profile h q name then Some prof else pool_profile h q)"
proof (cases "has_profile h SharedPool name")
  case True
  then have "SetPowerProfile (r_env r) (r_vars r) SharedPool (Some prof) h = (h', Ok ())"
    using assms by (simp add: update_shared_pool_def)
  from SetPowerProfile_only[OF this] True show ?thesis by (auto simp: fun_eq_iff)
next
  case False
  then show ?thesis using assms by (auto simp: update_shared_pool_def)
qed

definition reserved_user :: "string \<Rightarrow> string \<Rightarrow> host \<Rightarrow> pool_ref \<Rightarrow> bool" where
  "reserved_user nodeName name h p =
     (strings_Contains (pool_name h p) (nodeName @ ''-reserved-'') \<and> has_profile h p name)"

lemma update_reserved_loop:
  assumes "foreach (\<lambda>p h.
       if strings_Contains (p_name (pools h p)) (nodeName @ ''-reserved-'') \<and> has_profile h p name then
         wrap_err (m h p) (SetPowerProfile (r_env r) (r_vars r) p (Some prof) h)
       else (h, Ok ())) ps h = (h', Ok ())" and "distinct ps"
  shows "profiles_only h h' \<and> pool_profile h' =
    (\<lambda>q. if q \<in> set ps \<and> reserved_user nodeName name h q then Some prof else pool_profile h q)"
  using assms
proof (induction ps arbitrary: h)
  case (Cons p ps)
  let ?f = "\<lambda>p h. if strings_Contains (p_name (pools h p)) (nodeName @ ''-reserved-'') \<and> has_profile h p name then
         wrap_err (m h p) (SetPowerProfile (r_env r) (r_vars r) p (Some prof) h) else (h, Ok ())"
  obtain t where t: "?f p h = (t, Ok ())" "foreach ?f ps t = (h', Ok ())"
    using Cons.prems(1) by (auto split: prod.splits res.splits)
  have u: "profiles_only h t" "pool_profile t = (if reserved_user nodeName name h p then (pool_profile h)(p := Some prof) else pool_profile h)"
    using t(1) SetPowerProfile_only[of "r_env r" "r_vars r" p "Some prof" h t]
    by (auto simp: reserved_user_def pool_name_def split: if_splits)
  have "reserved_user nodeName name t q = reserved_user nodeName name h q" if "q \<noteq> p" for q
    using u that by (auto simp: reserved_user_def has_profile_pool profiles_only_def)
  then have "\<forall>q \<in> set ps. reserved_user nodeName name t q = reserved_user nodeName name h q"
    using Cons.prems(2) by (metis distinct.simps(2))
  then show ?case using Cons.IH[OF t(2)] Cons.prems(2) u profiles_only_trans[OF u(1)] by (auto simp: fun_eq_iff)
qed simp

lemma update_reserved_pools_Ok:
  assumes "update_reserved_pools r nodeName name prof h = (h', Ok ())" and "distinct (exclusivePools h)"
  shows "profiles_only h h' \<and> pool_profile h' =
    (\<lambda>q. if q \<in> set (exclusivePools h) \<and> reserved_user nodeName name h q then Some prof else pool_profile h q)"
  using update_reserved_loop[OF assms(1)[unfolded update_reserved_pools_def] assms(2)] .

section \<open>Placing a profile\<close>

lemma record_err_Ok_iff: "record_err f s = (s', Ok a) \<longleftrightarrow> (\<exists>w. f (fst s) = (w, Ok a) \<and> s' = (w, None))"
  by (cases s) (auto simp: record_err_def split: prod.splits res.splits)

lemma shadow_err_Ok_iff: "shadow_err f s = (s', Ok a) \<longleftrightarrow> (\<exists>w. f (fst s) = (w, Ok a) \<and> s' = (w, snd s))"
  by (cases s) (auto simp: shadow_err_def split: prod.splits)

lemma create_profile_pool_Ok:
  assumes "lib_inv (r_vars r) h" and "create_profile_pool r name prof h = (h', Ok ())"
  obtains p where "p \<notin> set (exclusivePools h)" and "exclusivePools h' = exclusivePools h @ [p]" and "isExclusive p"
    and "pool_name h' = (pool_name h)(p := name)" and "pool_profile h' = (pool_profile h)(p := Some prof)"
    and "cpu_pool h' = cpu_pool h" and "allCpus h' = allCpus h"
proof -
  obtain h1 p e where add: "AddExclusivePool name h = (h1, p, e)" by (cases "AddExclusivePool name h") auto
  then have e: "e = None" and sp: "SetPowerProfile (r_env r) (r_vars r) p (Some prof) h1 = (h', Ok ())"
    using assms(2) by (auto simp: create_profile_pool_def split: option.splits)
  note a = AddExclusivePool_new[OF assms(1) add[unfolded e]] and o = SetPowerProfile_only[OF sp]
  show ?thesis by (rule that[of p]) (use a o in \<open>auto simp: profiles_only_def\<close>)
qed

text \<open>The pools that follow a profile when it changes.\<close>

definition profile_users :: "string \<Rightarrow> string \<Rightarrow> host \<Rightarrow> pool_ref set" where
  "profile_users nodeName name h =
     {q. q = SharedPool \<and> has_profile h q name \<or> q \<in> set (exclusivePools h) \<and> reserved_user nodeName name h q}"

lemma place_profile_new:
  assumes "lib_inv (r_vars r) (w_host w)" and "GetExclusivePool (w_host w) name = None"
    and "place_profile r nodeName name prof (w, er) = ((w', er'), Ok ())"
  obtains p h' where "p \<notin> set (exclusivePools (w_host w))" and "isExclusive p" and "w' = w\<lparr>w_host := h'\<rparr>" and "er' = er"
    and "exclusivePools h' = exclusivePools (w_host w) @ [p]" and "pool_name h' = (pool_name (w_host w))(p := name)"
    and "pool_profile h' = (pool_profile (w_host w))(p := Some prof)"
    and "cpu_pool h' = cpu_pool (w_host w)" and "allCpus h' = allCpus (w_host w)"
proof -
  obtain h' where h': "create_profile_pool r name prof (w_host w) = (h', Ok ())" "w' = w\<lparr>w_host := h'\<rparr>" "er' = er"
    using assms(2,3) by (auto simp: place_profile_def shadow_err_Ok_iff on_host_Ok_iff)
  from create_profile_pool_Ok[OF assms(1) h'(1)] obtain p where
    "p \<notin> set (exclusivePools (w_host w))" "exclusivePools h' = exclusivePools (w_host w) @ [p]" "isExclusive p"
    "pool_name h' = (pool_name (w_host w))(p := name)" "pool_profile h' = (pool_profile (w_host w))(p := Some prof)"
    "cpu_pool h' = cpu_pool (w_host w)" "allCpus h' = allCpus (w_host w)" .
  with h' show ?thesis by (intro that[of p h'])
qed

lemma place_profile_old:
  assumes "lib_inv (r_vars r) (w_host w)" and "GetExclusivePool (w_host w) name = Some p" and "prof_name prof = name"
    and "place_profile r nodeName name prof (w, er) = ((w', er'), Ok ())"
  obtains h' where "w' = w\<lparr>w_host := h'\<rparr>" and "er' = None" and "profiles_only (w_host w) h'"
    and "pool_profile h' = (\<lambda>q. if q = p \<or> q \<in> profile_users nodeName name (w_host w) then Some prof else pool_profile (w_host w) q)"
proof -
  let ?h = "w_host w"
  obtain h1 h2 h' where 1: "SetPowerProfile (r_env r) (r_vars r) p (Some prof) ?h = (h1, Ok ())"
      and 2: "update_shared_pool r nodeName name prof h1 = (h2, Ok ())"
      and 3: "update_reserved_pools r nodeName name prof h2 = (h', Ok ())"
      and w': "w' = w\<lparr>w_host := h'\<rparr>" "er' = None"
    using assms(2,4)
    by (auto simp: place_profile_def then_do_Ok_iff record_err_Ok_iff shadow_err_Ok_iff on_host_Ok_iff)
  note o1 = SetPowerProfile_only[OF 1] and o2 = update_shared_pool_Ok[OF 2]
  have ex: "exclusivePools h2 = exclusivePools ?h" using o1 o2 by (simp add: profiles_only_def)
  note o3 = update_reserved_pools_Ok[OF 3, unfolded ex, OF lib_invD(2)[OF assms(1)]]
  have only: "profiles_only ?h h'" using o1 o2 o3 profiles_only_trans by blast
  have hp: "has_profile h1 q name \<longleftrightarrow> q = p \<or> has_profile ?h q name"
    "has_profile h2 q name \<longleftrightarrow> q = p \<or> has_profile ?h q name" for q
    using o1(2) o2 assms(3) by (auto simp: has_profile_pool)
  have ru: "reserved_user nodeName name h2 q \<longleftrightarrow>
      strings_Contains (pool_name ?h q) (nodeName @ ''-reserved-'') \<and> (q = p \<or> has_profile ?h q name)" for q
    using hp(2)[of q] o1(1) o2 by (auto simp: reserved_user_def profiles_only_def)
  show ?thesis
  proof (rule that[OF w' only])
    show "pool_profile h' = (\<lambda>q. if q = p \<or> q \<in> profile_users nodeName name ?h then Some prof else pool_profile ?h q)"
      using o1(2) o2 o3 hp(1) ru by (auto simp: fun_eq_iff profile_users_def reserved_user_def)
  qed
qed

text \<open>The pools after a profile was placed, as a specification.\<close>

definition profile_placed :: "string \<Rightarrow> string \<Rightarrow> profile \<Rightarrow> host \<Rightarrow> host \<Rightarrow> bool" where
  "profile_placed nodeName name prof h h' =
     ((case GetExclusivePool h name of
         None \<Rightarrow> \<exists>q. isExclusive q \<and> q \<notin> set (exclusivePools h) \<and> exclusivePools h' = exclusivePools h @ [q] \<and>
           pool_name h' = (pool_name h)(q := name) \<and> pool_profile h' = (pool_profile h)(q := Some prof)
       | Some q \<Rightarrow> exclusivePools h' = exclusivePools h \<and> pool_name h' = pool_name h \<and>
           pool_profile h' =
             (\<lambda>u. if u = q \<or> u \<in> profile_users nodeName name h then Some prof else pool_profile h u)) \<and>
      cpu_pool h' = cpu_pool h \<and> allCpus h' = allCpus h)"

lemma place_profile_Ok:
  assumes "lib_inv (r_vars r) (w_host w)" and "prof_name prof = name"
    and "place_profile r nodeName name prof (w, er) = ((w', er'), Ok ())"
  shows "profile_placed nodeName name prof (w_host w) (w_host w')"
proof (cases "GetExclusivePool (w_host w) name")
  case None
  from place_profile_new[OF assms(1) None assms(3)] obtain p h' where
    "p \<notin> set (exclusivePools (w_host w))" "isExclusive p" "w' = w\<lparr>w_host := h'\<rparr>"
    "exclusivePools h' = exclusivePools (w_host w) @ [p]" "pool_name h' = (pool_name (w_host w))(p := name)"
    "pool_profile h' = (pool_profile (w_host w))(p := Some prof)"
    "cpu_pool h' = cpu_pool (w_host w)" "allCpus h' = allCpus (w_host w)" .
  then show ?thesis unfolding profile_placed_def None by (simp add: exI[of _ p])
next
  case (Some q)
  from place_profile_old[OF assms(1) Some assms(2,3)] obtain h' where
    "w' = w\<lparr>w_host := h'\<rparr>" "profiles_only (w_host w) h'"
    "pool_profile h' = (\<lambda>u. if u = q \<or> u \<in> profile_users nodeName name (w_host w) then Some prof else pool_profile (w_host w) u)" .
  then show ?thesis unfolding profile_placed_def Some by (simp add: profiles_only_def)
qed

section \<open>The whole of it\<close>

lemma library_profile_name: "library_profile g p = Ok prof \<Longrightarrow> prof_name prof = om_Name (pp_Meta p)"
  by (auto simp: library_profile_def NewPowerProfile_def split: if_splits res.splits)

lemma ensure_kept_host: "w_host (fst (ensureExtendedResources r n p w)) = w_host w"
  by (auto simp: ensureExtendedResources_def then_do_def api_get_def api_send_def Let_def split: prod.split res.split option.split)

lemma ensure_Ok:
  assumes "ensureExtendedResources r n p w = (w', Ok ())"
  obtains node cap where "w_host w' = w_host w" and "nd_Capacity node = Some cap"
    and "w_requests w' = w_requests w @ [(UpdateNodeStatus (node\<lparr>nd_Capacity := Some (AList.update
       (ExtendedResourcePrefix @ om_Name (pp_Meta p))
       (NewQuantity (numExtendedResources (r_env r) (CPUCapacity (pp_Spec p)) (int (length (allCpus (w_host w)))))) cap)\<rparr>), None)]"
  using assms
  by (auto simp: ensureExtendedResources_def then_do_Ok_iff api_get_def api_send_def Let_def split: option.splits)

lemma apply_profile_Ok:
  assumes "apply_profile r nodeName p (w, er) = ((w', er'), Ok x)"
  obtains prof w1 er1 where "library_profile (r_vars r) p = Ok prof"
    and "place_profile r nodeName (om_Name (pp_Meta p)) prof (w, None) = ((w1, er1), Ok ())"
    and "Shared (pp_Spec p) \<Longrightarrow> w' = w1 \<and> er' = er1"
    and "\<not> Shared (pp_Spec p) \<Longrightarrow> ensureExtendedResources r nodeName p w1 = (w', Ok ()) \<and> er' = None"
proof -
  obtain prof w1 er1 where "library_profile (r_vars r) p = Ok prof"
    "place_profile r nodeName (om_Name (pp_Meta p)) prof (w, None) = ((w1, er1), Ok ())"
    "if Shared (pp_Spec p) then w' = w1 \<and> er' = er1 else ensureExtendedResources r nodeName p w1 = (w', Ok ()) \<and> er' = None"
    using assms
    by (cases "Shared (pp_Spec p)") (auto simp: apply_profile_def then_do_Ok_iff record_err_Ok_iff note_epp_def)
  then show ?thesis by (intro that[of prof w1 er1]) auto
qed

lemma addEntry_requests:
  "\<exists>qs. w_requests (fst (addPowerNodeStatusProfileEntry r n p er w)) = w_requests w @ qs \<and>
     w_host (fst (addPowerNodeStatusProfileEntry r n p er w)) = w_host w"
  by (auto simp: addPowerNodeStatusProfileEntry_def applyPowerNodeStateProfilesStatus_def api_send_def Let_def
      then_do_def split: prod.split res.split option.split)

lemma addEntry_sent:
  assumes "n \<noteq> []" and "formatCPUScalingPolicy (r_api r) (pps_CPUScalingPolicy (pp_Spec p)) = Ok text"
  shows "\<exists>cfg x. w_requests (fst (addPowerNodeStatusProfileEntry r n p er w)) = w_requests w @
     [(StatusApply (pns_name n) (empty_status\<lparr>st_PowerProfiles := Some [\<lparr>pnps_Name = om_Name (pp_Meta p),
        pnps_Config = cfg, pnps_Errors = UnpackErrsToStrings er\<rparr>]\<rparr>) (powerProfileFieldManager (om_Name (pp_Meta p))), x)]"
  using assms by (simp add: addPowerNodeStatusProfileEntry_def applyPowerNodeStateProfilesStatus_def api_send_def Let_def) blast

lemma report_profile_eq:
  assumes "report_profile r n p ((w, er), x) = (w', y)"
  shows "w' = fst (addPowerNodeStatusProfileEntry r n p er w)"
    and "y = x \<or> y = Ok (RequeueAfter queuetime) \<and> (\<exists>z. x = Ok z)"
proof -
  obtain v z where v: "addPowerNodeStatusProfileEntry r n p er w = (v, z)" by (cases "addPowerNodeStatusProfileEntry r n p er w")
  then have "\<not> is_panic z" using host_keptD(2)[OF addProfileEntry_kept] by (metis snd_conv)
  then show "w' = fst (addPowerNodeStatusProfileEntry r n p er w)" "y = x \<or> y = Ok (RequeueAfter queuetime) \<and> (\<exists>z. x = Ok z)"
    using assms v by (auto simp: report_profile_def is_panic_iff split: res.splits)
qed

lemma Reconcile_matching:
  assumes "get_profile (r_api r) (w_calls w) name = Inr p"
    and "nodeMatchesPowerProfile r p (r_node r) (w\<lparr>w_calls := Suc (w_calls w)\<rparr>) = (w1, Ok True)"
  shows "PowerProfile_Reconcile r PowerNamespace name w =
     report_profile r (r_node r) p (apply_profile r (r_node r) p (w1, None))"
  using assms by (simp add: PowerProfile_Reconcile_def Let_def api_get_def)

section \<open>Soundness\<close>

lemma create_profile_pool_safe: "safe (r_vars r) (create_profile_pool r name prof)"
proof (rule safe_onI)
  fix h assume h: "lib_inv (r_vars r) h"
  obtain h1 p e where add: "AddExclusivePool name h = (h1, p, e)" by (cases "AddExclusivePool name h") auto
  show "lib_inv (r_vars r) (fst (create_profile_pool r name prof h)) \<and>
      allCpus (fst (create_profile_pool r name prof h)) = allCpus h \<and> \<not> is_panic (snd (create_profile_pool r name prof h))"
  proof (cases e)
    case None
    note a = AddExclusivePool_new[OF h add[unfolded None]]
    show ?thesis using safe_onD[OF SetPowerProfile_safe a(1) TrueI, of "r_env r" p "Some prof"] a(2) add None
      by (simp add: create_profile_pool_def)
  next
    case (Some x)
    then show ?thesis using AddExclusivePool_old[OF add[unfolded Some]] add h by (simp add: create_profile_pool_def)
  qed
qed

lemma safe_if_host:
  "safe_on g P f \<Longrightarrow> safe_on g P k \<Longrightarrow> safe_on g P (\<lambda>h. if b h then f h else k h)"
  by (simp add: safe_on_def)

lemma safe_wrap_err_host: "safe_on g P f \<Longrightarrow> safe_on g P (\<lambda>h. wrap_err (m h) (f h))"
  by (simp add: safe_on_def)

lemma update_pools_safe:
  "safe (r_vars r) (update_shared_pool r nodeName name prof)" "safe (r_vars r) (update_reserved_pools r nodeName name prof)"
proof -
  show "safe (r_vars r) (update_shared_pool r nodeName name prof)"
    unfolding update_shared_pool_def by (intro safe_if_host safe_wrap_err SetPowerProfile_safe safe_return) simp
  have "safe (r_vars r) (foreach (\<lambda>p h.
       if strings_Contains (p_name (pools h p)) (nodeName @ ''-reserved-'') \<and> has_profile h p name then
         wrap_err (''error updating special reserved pool '' @ squote (p_name (pools h p)) @
                   '' in power library with updated profile '' @ squote name @ '' for node '' @ squote nodeName)
           (SetPowerProfile (r_env r) (r_vars r) p (Some prof) h)
       else (h, Ok ())) ps)" for ps
    by (intro safe_foreach safe_if_host safe_wrap_err_host SetPowerProfile_safe safe_return) simp
  then show "safe (r_vars r) (update_reserved_pools r nodeName name prof)"
    unfolding update_reserved_pools_def safe_on_def by blast
qed

text \<open>\<open>sound\<close> for steps that carry the variable \<open>err\<close>.\<close>

definition sound2 :: "pkgvars \<Rightarrow> (world \<times> err option \<Rightarrow> (world \<times> err option) \<times> 'a res) \<Rightarrow> bool" where
  "sound2 g f = (\<forall>w er. lib_inv g (w_host w) \<longrightarrow>
     lib_inv g (w_host (fst (fst (f (w, er))))) \<and> allCpus (w_host (fst (fst (f (w, er))))) = allCpus (w_host w) \<and>
     \<not> is_panic (snd (f (w, er))))"

lemma sound2_basics:
  "sound g f \<Longrightarrow> sound2 g (record_err f)" "sound g f \<Longrightarrow> sound2 g (shadow_err f)"
  "sound2 g k \<Longrightarrow> sound2 g (\<lambda>s. wrap_err m (k s))" "\<not> is_panic x \<Longrightarrow> sound2 g (\<lambda>s. (s, x))"
  by (force simp: sound2_def sound_on_def record_err_def shadow_err_def split: prod.split res.split)+

lemma sound2_then_do:
  assumes "sound2 g f" and "\<And>a. sound2 g (k a)"
  shows "sound2 g (\<lambda>s. then_do (f s) k)"
  unfolding sound2_def
proof (intro allI impI)
  fix w :: world and er assume w: "lib_inv g (w_host w)"
  obtain v er' x where x: "f (w, er) = ((v, er'), x)" by (cases "f (w, er)") auto
  have v: "lib_inv g (w_host v)" "allCpus (w_host v) = allCpus (w_host w)" "\<not> is_panic x"
    using assms(1) w x unfolding sound2_def by (metis fst_conv, metis fst_conv, metis snd_conv)
  show "lib_inv g (w_host (fst (fst (then_do (f (w, er)) k)))) \<and>
      allCpus (w_host (fst (fst (then_do (f (w, er)) k)))) = allCpus (w_host w) \<and> \<not> is_panic (snd (then_do (f (w, er)) k))"
    using v assms(2)[unfolded sound2_def, rule_format, of v _ er'] x by (cases x) simp_all
qed

lemma place_profile_sound: "sound2 (r_vars r) (place_profile r nodeName name prof)"
proof -
  have "sound2 (r_vars r) (\<lambda>s. then_do (wrap_err m (record_err (on_host (SetPowerProfile (r_env r) (r_vars r) p (Some prof))) s))
      (\<lambda>_ s. then_do (shadow_err (on_host (update_shared_pool r nodeName name prof)) s)
              (\<lambda>_. shadow_err (on_host (update_reserved_pools r nodeName name prof)))))" for p m
    by (intro sound2_then_do sound2_basics sound_on_host_safe SetPowerProfile_safe update_pools_safe)
  moreover have "sound2 (r_vars r) (shadow_err (on_host (create_profile_pool r name prof)))"
    by (intro sound2_basics sound_on_host_safe create_profile_pool_safe)
  ultimately show ?thesis unfolding sound2_def place_profile_def by (simp split: option.split)
qed

lemma AdjustMinMaxFreq_no_panic: "coreTypes g \<noteq> [] \<Longrightarrow> \<not> is_panic (AdjustMinMaxFreq g a b)"
  by (simp add: AdjustMinMaxFreq_def getAbsMinMaxFreq_Ok Let_def split: prod.split)

lemma library_profile_no_panic:
  assumes "isFeatureIdSupported g FrequencyScalingFeature \<longrightarrow> coreTypes g \<noteq> []"
  shows "\<not> is_panic (library_profile g p)"
proof -
  have c: "\<not> is_panic (ValidateCStates g sts l)" for sts l
    by (simp add: ValidateCStates_def split: option.split)
  have f: "\<not> is_panic (check_freqs x y a b)" for x y a b
    by (cases "(x, y, a, b)" rule: check_freqs.cases) (simp_all split: option.split)
  have "\<not> is_panic (ValidatePStates g a b c d)" if "coreTypes g \<noteq> []" for a b c d
    using f that by (simp add: ValidatePStates_def getAbsMinMaxFreq_Ok Let_def is_panic_iff split: res.split prod.split)
  with c assms AdjustMinMaxFreq_no_panic[of g] show ?thesis
    by (auto simp: library_profile_def NewPowerProfile_def is_panic_iff split: res.split)
qed

lemma ensure_sound:
  assumes "\<forall>n x node. get_node (r_api r) n x = Inr node \<longrightarrow> nd_Capacity node \<noteq> None"
  shows "sound g (ensureExtendedResources r nodeName p)"
proof (rule sound_onI)
  fix w :: world assume "lib_inv g (w_host w)"
  moreover have "\<not> is_panic (snd (ensureExtendedResources r nodeName p w))"
  proof (cases "get_node (r_api r) (w_calls w) nodeName")
    case (Inr node)
    then obtain cap where "nd_Capacity node = Some cap" using assms by blast
    then show ?thesis using Inr
      by (simp add: ensureExtendedResources_def api_get_def api_send_def Let_def split: option.split)
  qed (simp add: ensureExtendedResources_def api_get_def)
  ultimately show "lib_inv g (w_host (fst (ensureExtendedResources r nodeName p w))) \<and>
      allCpus (w_host (fst (ensureExtendedResources r nodeName p w))) = allCpus (w_host w) \<and>
      \<not> is_panic (snd (ensureExtendedResources r nodeName p w))" by (simp add: ensure_kept_host)
qed

lemma apply_profile_sound:
  assumes "\<forall>n x node. get_node (r_api r) n x = Inr node \<longrightarrow> nd_Capacity node \<noteq> None"
    and "isFeatureIdSupported (r_vars r) FrequencyScalingFeature \<longrightarrow> coreTypes (r_vars r) \<noteq> []"
  shows "sound2 (r_vars r) (apply_profile r nodeName p)"
proof -
  have n: "sound2 g f \<Longrightarrow> sound2 g (\<lambda>s. f (note_epp g' p s))" for g g' and f :: "_ \<Rightarrow> _ \<times> 'b res"
    by (simp add: sound2_def note_epp_def)
  have i: "sound2 g f \<Longrightarrow> sound2 g k \<Longrightarrow> sound2 g (\<lambda>s. if b then f s else k s)" for g b and f k :: "_ \<Rightarrow> _ \<times> 'b res"
    by (cases b) simp_all
  show ?thesis unfolding apply_profile_def
    by (intro sound2_then_do n i place_profile_sound sound2_basics sound_return ensure_sound[OF assms(1)])
       (simp_all add: check_epp_def library_profile_no_panic[OF assms(2)])
qed

lemma report_profile_sound:
  assumes "sound2 g f"
  shows "sound g (\<lambda>w. report_profile r nodeName p (f (w, er)))"
proof (rule sound_onI)
  fix w :: world assume w: "lib_inv g (w_host w)"
  obtain v er' x where x: "f (w, er) = ((v, er'), x)" by (cases "f (w, er)") auto
  have v: "lib_inv g (w_host v)" "allCpus (w_host v) = allCpus (w_host w)" "\<not> is_panic x"
    using assms w x unfolding sound2_def by (metis fst_conv, metis fst_conv, metis snd_conv)
  obtain w' y where y: "report_profile r nodeName p ((v, er'), x) = (w', y)" by (cases "report_profile r nodeName p ((v, er'), x)")
  note e = report_profile_eq[OF y]
  have "w_host w' = w_host v" using e(1) host_keptD(1)[OF addProfileEntry_kept] by metis
  moreover have "\<not> is_panic y" using e(2) v(3) by auto
  ultimately show "lib_inv g (w_host (fst (report_profile r nodeName p (f (w, er))))) \<and>
      allCpus (w_host (fst (report_profile r nodeName p (f (w, er))))) = allCpus (w_host w) \<and>
      \<not> is_panic (snd (report_profile r nodeName p (f (w, er))))" using v x y by simp
qed

lemma removeExtended_kept [host_kepts]: "host_kept (removeExtendedResources r n p)"
  unfolding removeExtendedResources_def Let_def by (intro host_kepts)

lemma cleanupProfile_kept [host_kepts]: "host_kept (cleanupProfileFromNode r p n)"
  unfolding cleanupProfileFromNode_def by (intro host_kepts)

lemma delete_profile_sound: "sound (r_vars r) (delete_profile r nodeName name)"
proof -
  have "safe (r_vars r) (\<lambda>h. case GetExclusivePool h name of None \<Rightarrow> (h, Error e)
      | Some p \<Rightarrow> Pool_Remove (r_env r) (r_vars r) p h)" for e
    using Pool_Remove_safe[of "r_vars r" "r_env r"] by (auto simp: safe_on_def split: option.split)
  then have "safe (r_vars r) (delete_shared_profile r name)"
    unfolding delete_shared_profile_def by (intro safe_then_do SetPowerProfile_safe)
  then have "sound (r_vars r) (\<lambda>w. if has_profile (w_host w) SharedPool name then on_host (delete_shared_profile r name) w
      else removeExtendedResources r nodeName name w)"
    using sound_on_host_safe[of "r_vars r" "delete_shared_profile r name" "\<lambda>_. True"]
      host_kept_sound[OF removeExtended_kept, of "r_vars r" "\<lambda>_. True" r nodeName name]
    by (simp add: sound_on_def)
  then show ?thesis unfolding delete_profile_def
    by (intro sound_then_do sound_catch_err host_kept_sound[OF removeProfileEntry_kept] sound_return) simp_all
qed

text \<open>
  Deleting a profile that the shared pool does not use leaves its pool, and every CPU in it, as they
  are (the comment in the code says that the pool is removed and its cores move back).
\<close>

lemma deleted_profile_keeps_pool:
  assumes "get_profile (r_api r) (w_calls w) name = Inl e" and "IsNotFound e"
    and "\<not> has_profile (w_host w) SharedPool name"
  shows "w_host (fst (PowerProfile_Reconcile r PowerNamespace name w)) = w_host w"
proof -
  have "host_kept (\<lambda>w. then_do (removeExtendedResources r (r_node r) name w)
      (\<lambda>_ w. catch_err (removePowerNodeStatusProfileEntry r (r_node r) name w)
         (\<lambda>_ w. (w, Ok (RequeueAfter queuetime))) (\<lambda>_ w. (w, Ok Done))))"
    by (intro host_kepts) simp_all
  from host_keptD(1)[OF this, of "w\<lparr>w_calls := Suc (w_calls w)\<rparr>"] assms show ?thesis
    by (simp add: PowerProfile_Reconcile_def Let_def api_get_def delete_profile_def)
qed

section \<open>Properties\<close>

text \<open>
  C10. When \<open>Reconcile\<close> of a PowerProfile that selects this node returns without error, the library
  accepted the profile, and its pool carries it: a new pool of that name when there was none (and
  nothing else changes), the existing one otherwise, and then the shared pool and every reserved
  pool of the node that used a profile of this name carry the new version too. No CPU changes its
  pool. Unless the profile is shared, an accepted update of the node advertises its extended
  resource with the number of units that \<open>cpuCapacity\<close> asks for.
\<close>
theorem PowerProfile_Reconcile_correct:
  assumes "lib_inv (r_vars r) (w_host w)" and "get_profile (r_api r) (w_calls w) name = Inr p"
    and "nodeMatchesPowerProfile r p (r_node r) (w\<lparr>w_calls := Suc (w_calls w)\<rparr>) = (w1, Ok True)"
    and "PowerProfile_Reconcile r PowerNamespace name w = (w', Ok x)"
  shows "\<exists>prof. library_profile (r_vars r) p = Ok prof \<and>
    profile_placed (r_node r) (om_Name (pp_Meta p)) prof (w_host w) (w_host w') \<and>
    (\<not> Shared (pp_Spec p) \<longrightarrow> (\<exists>node. (UpdateNodeStatus node, None) \<in> set (w_requests w') \<and>
       map_of (the (nd_Capacity node)) (ExtendedResourcePrefix @ om_Name (pp_Meta p)) =
         Some (NewQuantity (numExtendedResources (r_env r) (CPUCapacity (pp_Spec p)) (int (length (allCpus (w_host w))))))))"
proof -
  let ?name = "om_Name (pp_Meta p)" and ?h = "w_host w"
  have h1: "w_host w1 = ?h"
    using host_keptD(1)[OF nodeMatchesPowerProfile_kept, of r p "r_node r" "w\<lparr>w_calls := Suc (w_calls w)\<rparr>"] assms(3) by simp
  obtain v er y where a: "apply_profile r (r_node r) p (w1, None) = ((v, er), y)"
    by (cases "apply_profile r (r_node r) p (w1, None)") auto
  have rep: "report_profile r (r_node r) p ((v, er), y) = (w', Ok x)"
    using assms(4) Reconcile_matching[OF assms(2,3)] a by simp
  note e = report_profile_eq[OF rep]
  then obtain z where "y = Ok z" by auto
  with a obtain prof w2 er2 where l: "library_profile (r_vars r) p = Ok prof"
      and pl: "place_profile r (r_node r) ?name prof (w1, None) = ((w2, er2), Ok ())"
      and sh: "Shared (pp_Spec p) \<Longrightarrow> v = w2"
      and ns: "\<not> Shared (pp_Spec p) \<Longrightarrow> ensureExtendedResources r (r_node r) p w2 = (v, Ok ())"
    using apply_profile_Ok[of r "r_node r" p w1 None v er z] by metis
  have v2: "w_host v = w_host w2" using sh ns ensure_kept_host[of r "r_node r" p w2] by (cases "Shared (pp_Spec p)") auto
  have w': "w_host w' = w_host w2" "set (w_requests v) \<subseteq> set (w_requests w')"
    using addEntry_requests[of r "r_node r" p er v] e(1) v2 by auto
  have inv1: "lib_inv (r_vars r) (w_host w1)" using assms(1) h1 by simp
  have pools: "profile_placed (r_node r) ?name prof ?h (w_host w2)"
    using place_profile_Ok[OF inv1 library_profile_name[OF l] pl] h1 by simp
  then have all: "allCpus (w_host w2) = allCpus ?h" by (simp add: profile_placed_def)
  have "\<exists>node. (UpdateNodeStatus node, None) \<in> set (w_requests w') \<and>
       map_of (the (nd_Capacity node)) (ExtendedResourcePrefix @ ?name) =
         Some (NewQuantity (numExtendedResources (r_env r) (CPUCapacity (pp_Spec p)) (int (length (allCpus ?h)))))"
    if "\<not> Shared (pp_Spec p)"
  proof -
    from ensure_Ok[OF ns[OF that]] obtain node cap where "w_requests v = w_requests w2 @ [(UpdateNodeStatus (node\<lparr>nd_Capacity := Some (AList.update
       (ExtendedResourcePrefix @ ?name)
       (NewQuantity (numExtendedResources (r_env r) (CPUCapacity (pp_Spec p)) (int (length (allCpus (w_host w2)))))) cap)\<rparr>), None)]" .
    then show ?thesis using w'(2) all
      by (intro exI[of _ "node\<lparr>nd_Capacity := Some (AList.update (ExtendedResourcePrefix @ ?name)
         (NewQuantity (numExtendedResources (r_env r) (CPUCapacity (pp_Spec p)) (int (length (allCpus (w_host w2)))))) cap)\<rparr>"])
         (simp add: update_conv)
  qed
  then show ?thesis using l pools w'(1) by (intro exI[of _ prof]) simp
qed

definition gold_reconciler :: reconciler where
  "gold_reconciler = \<lparr>r_env = env0, r_vars = gold_vars,
     r_api = plain_api\<lparr>get_profile := \<lambda>n x. if x = ''gold'' then Inr gold_profile else Inl (NotFound x)\<rparr>, r_node = ''node''\<rparr>"

lemma gold_library: "library_profile gold_vars gold_profile = Ok gold"
  using gold_vars_new by (simp add: library_profile_def gold_profile_def actual_epp_def meta0_def)

lemma gold_matches: "nodeMatchesPowerProfile r gold_profile n w = (w, Ok True)"
  by (simp add: nodeMatchesPowerProfile_def gold_profile_def empty_selector_def)

theorem PowerProfile_Reconcile_correct_witness:
  "\<exists>w' q. PowerProfile_Reconcile gold_reconciler PowerNamespace ''gold'' (plain_world (\<lambda>_. ReservedPool)) = (w', Ok Done) \<and>
     exclusivePools (w_host w') = [ExclusivePool 0, q] \<and> pool_profile (w_host w') q = Some gold \<and>
     (\<exists>node. (UpdateNodeStatus node, None) \<in> set (w_requests w') \<and>
        map_of (the (nd_Capacity node)) (ExtendedResourcePrefix @ ''gold'') = Some (NewQuantity 3))"
proof -
  let ?w = "plain_world (\<lambda>_. ReservedPool)" and ?w1 = "(plain_world (\<lambda>_. ReservedPool))\<lparr>w_calls := 1\<rparr>"
  let ?r = gold_reconciler
  have g: "get_profile (r_api ?r) (w_calls ?w) ''gold'' = Inr gold_profile" by (simp add: gold_reconciler_def)
  have m: "nodeMatchesPowerProfile ?r gold_profile (r_node ?r) (?w\<lparr>w_calls := Suc (w_calls ?w)\<rparr>) = (?w1, Ok True)"
    by (simp add: gold_matches plain_world_def)
  have no: "GetExclusivePool (plain_host (\<lambda>_. ReservedPool)) ''gold'' = None"
    by (simp add: GetExclusivePool_def PoolList_ByName_def plain_host_def)
  have "\<exists>h. create_profile_pool ?r ''gold'' gold (plain_host (\<lambda>_. ReservedPool)) = (h, Ok ())"
    by (simp add: create_profile_pool_def AddExclusivePool_def plain_host_def SetPowerProfile_def Let_def)
  then obtain h where h: "create_profile_pool ?r ''gold'' gold (plain_host (\<lambda>_. ReservedPool)) = (h, Ok ())" ..
  have name: "om_Name (pp_Meta gold_profile) = ''gold''" by (simp add: gold_profile_def meta0_def)
  have "place_profile ?r ''node'' ''gold'' gold (?w1, None) = ((?w1\<lparr>w_host := h\<rparr>, None), Ok ())"
    using no h by (simp add: place_profile_def shadow_err_def on_host_def)
  moreover have "\<exists>w2. ensureExtendedResources ?r ''node'' gold_profile (?w1\<lparr>w_host := h\<rparr>) = (w2, Ok ())"
    by (simp add: ensureExtendedResources_def gold_reconciler_def plain_api_def api_get_def api_send_def Let_def)
  ultimately obtain w2 er where ap: "apply_profile ?r ''node'' gold_profile (?w1, None) = ((w2, er), Ok Done)"
    using gold_library name
    by (auto simp: apply_profile_def record_err_def note_epp_def check_epp_def gold_profile_def gold_reconciler_def)
  have "\<exists>v'. addPowerNodeStatusProfileEntry ?r ''node'' gold_profile er w2 = (v', Ok ())"
    by (simp add: addPowerNodeStatusProfileEntry_def formatCPUScalingPolicy_def gold_profile_def
        applyPowerNodeStateProfilesStatus_def api_send_def gold_reconciler_def plain_api_def Let_def)
  then have "\<exists>w'. report_profile ?r ''node'' gold_profile (apply_profile ?r ''node'' gold_profile (?w1, None)) = (w', Ok Done)"
    unfolding ap report_profile_def by auto
  then obtain w' where w': "PowerProfile_Reconcile ?r PowerNamespace ''gold'' ?w = (w', Ok Done)"
    using Reconcile_matching[OF g m] by (auto simp: gold_reconciler_def)
  have inv: "lib_inv (r_vars ?r) (w_host ?w)" using gold_host_inv[of "\<lambda>_. ReservedPool"] by (simp add: gold_reconciler_def)
  have n: "\<not> Shared (pp_Spec gold_profile)" "numExtendedResources e (CPUCapacity (pp_Spec gold_profile)) k = k" for e k
    by (simp_all add: gold_profile_def numExtendedResources_def IntOrString_String_def)
  from PowerProfile_Reconcile_correct[OF inv g m w'] show ?thesis
    using gold_library no n w' unfolding name profile_placed_def by (auto simp: gold_reconciler_def)
qed

text \<open>
  \<open>Reconcile\<close> of the PowerProfile controller keeps the invariant of the library and does not
  panic, whatever the API server answers and whichever file operations fail, provided that the
  nodes it is given have a capacity map and that discovery found a core type (both are
  needed: the code assigns to an entry of the map without a check).
\<close>
theorem PowerProfile_Reconcile_sound:
  assumes "\<forall>n x node. get_node (r_api r) n x = Inr node \<longrightarrow> nd_Capacity node \<noteq> None"
    and "isFeatureIdSupported (r_vars r) FrequencyScalingFeature \<longrightarrow> coreTypes (r_vars r) \<noteq> []"
  shows "sound (r_vars r) (PowerProfile_Reconcile r namespace name)"
  unfolding PowerProfile_Reconcile_def Let_def
  by (intro sound_if sound_catch_err sound_then_do sound_api_get sound_return delete_profile_sound
      report_profile_sound[OF apply_profile_sound[OF assms]]
      host_kept_sound[OF nodeMatchesPowerProfile_kept] host_kept_sound[OF cleanupProfile_kept]) simp_all

theorem PowerProfile_Reconcile_sound_witness:
  "\<not> is_panic (snd (PowerProfile_Reconcile gold_reconciler PowerNamespace ''gold'' (plain_world (\<lambda>_. ReservedPool))))"
proof -
  have "sound gold_vars (PowerProfile_Reconcile gold_reconciler PowerNamespace ''gold'')"
    using PowerProfile_Reconcile_sound[of gold_reconciler PowerNamespace "''gold''"]
    by (simp add: gold_reconciler_def plain_api_def gold_vars_def)
  then show ?thesis using gold_host_inv[of "\<lambda>_. ReservedPool"] by (simp add: sound_on_def)
qed

text \<open>
  The number of units of the extended resource: a percentage of the CPUs is rounded down, through
  float64 exactly, and a percentage that rounds to zero advertises all CPUs, as does an empty
  capacity; a positive number is taken as it is, whether the node has that many CPUs or not.
\<close>
theorem extended_resource_count:
  assumes "p \<le> 100" and "n < 2 ^ 32"
  shows "numExtendedResources env (StrV (nat_str p @ ''%'')) (int n) =
      int (if p * n < 100 then n else p * n div 100) \<and>
    numExtendedResources env (StrV []) (int n) = int n \<and>
    numExtendedResources env (IntV i) (int n) = (if 0 < i then i else int n)"
proof -
  have "p * n \<le> 100 * 2 ^ 32" using assms by (intro mult_mono) simp_all
  then have b: "\<bar>int p * int n\<bar> < 2 ^ 46" by (simp add: abs_mult flip: of_nat_mult)
  have "\<lfloor>of_int (int p * int n) / 100 :: rat\<rfloor> = int (p * n div 100)"
    by (simp add: floor_divide_of_int_eq[of "int p * int n" 100, simplified] zdiv_int)
  then have s: "GetScaledValueFromIntOrPercent (float_oor env) (StrV (nat_str p @ ''%'')) (int n) False = Ok (int (p * n div 100))"
    using GetScaled_percent(2)[of "nat_str p" "int p" "int n" "float_oor env"] b assms
    by (simp add: max_int64_def)
  have "0 < p * n div 100 \<longleftrightarrow> 100 \<le> p * n" by (simp add: div_greater_zero_iff)
  moreover have "GetScaledValueFromIntOrPercent (float_oor env) (IntV i) (int n) False = Ok i"
    by (simp add: GetScaledValueFromIntOrPercent_def)
  ultimately show ?thesis by (simp add: numExtendedResources_def IntOrString_String_def s Itoa_def)
qed

theorem extended_resource_count_witness:
  "numExtendedResources env0 (StrV (nat_str 1 @ ''%'')) 64 = 64 \<and> numExtendedResources env0 (StrV (nat_str 50 @ ''%'')) 64 = 32"
  using extended_resource_count[of 1 64 env0] extended_resource_count[of 50 64 env0] by simp

text \<open>
  When the update of the profile's own pool succeeds and that of the shared pool, which uses the
  same profile, fails, \<open>Reconcile\<close> returns the error but the status it writes lists none: the error
  is assigned to a variable that shadows the one the deferred call reads.
\<close>
theorem shared_update_failure_unreported:
  assumes "get_profile (r_api r) (w_calls w) name = Inr p"
    and "nodeMatchesPowerProfile r p (r_node r) (w\<lparr>w_calls := Suc (w_calls w)\<rparr>) = (w1, Ok True)"
    and "check_epp (Epp (PStates (pp_Spec p))) = Ok ()" and "library_profile (r_vars r) p = Ok prof"
    and "GetExclusivePool (w_host w) (om_Name (pp_Meta p)) = Some q"
    and "SetPowerProfile (r_env r) (r_vars r) q (Some prof) (w_host w) = (h1, Ok ())"
    and "update_shared_pool r (r_node r) (om_Name (pp_Meta p)) prof h1 = (h2, Error e)"
    and "r_node r \<noteq> []" and "formatCPUScalingPolicy (r_api r) (pps_CPUScalingPolicy (pp_Spec p)) = Ok text"
  shows "\<exists>w' cfg x. PowerProfile_Reconcile r PowerNamespace name w = (w', Error e) \<and> w_host w' = h2 \<and>
    last (w_requests w') = (StatusApply (pns_name (r_node r))
      (empty_status\<lparr>st_PowerProfiles := Some [\<lparr>pnps_Name = om_Name (pp_Meta p), pnps_Config = cfg, pnps_Errors = []\<rparr>]\<rparr>)
      (powerProfileFieldManager (om_Name (pp_Meta p))), x)"
proof -
  have h1: "w_host w1 = w_host w"
    using host_keptD(1)[OF nodeMatchesPowerProfile_kept, of r p "r_node r" "w\<lparr>w_calls := Suc (w_calls w)\<rparr>"] assms(2) by simp
  have "place_profile r (r_node r) (om_Name (pp_Meta p)) prof (w1, None) = ((w1\<lparr>w_host := h2\<rparr>, None), Error e)"
    using h1 assms(5-7) by (simp add: place_profile_def record_err_def shadow_err_def on_host_def)
  then have "apply_profile r (r_node r) p (w1, None) = ((w1\<lparr>w_host := h2\<rparr>, None), Error e)"
    using assms(3,4) by (simp add: apply_profile_def record_err_def note_epp_def)
  moreover obtain w' y where y: "report_profile r (r_node r) p ((w1\<lparr>w_host := h2\<rparr>, None), Error e) = (w', y)"
    by (cases "report_profile r (r_node r) p ((w1\<lparr>w_host := h2\<rparr>, None), Error e)")
  ultimately have "PowerProfile_Reconcile r PowerNamespace name w = (w', Error e)"
    using Reconcile_matching[OF assms(1,2)] report_profile_eq(2)[OF y] by auto
  moreover have "UnpackErrsToStrings None = []" by (simp add: UnpackErrsToStrings_def)
  ultimately show ?thesis
    using report_profile_eq(1)[OF y] addEntry_sent[OF assms(8,9), of None "w1\<lparr>w_host := h2\<rparr>"]
      addEntry_requests[of r "r_node r" p None "w1\<lparr>w_host := h2\<rparr>"] by fastforce
qed

definition broken_disk :: env where
  "broken_disk = env0\<lparr>write_fault := \<lambda>n p c. Some (Errorf ''EIO'')\<rparr>"

definition gold_host :: host where
  "gold_host = (let h = plain_host (\<lambda>c. if c = 0 then SharedPool else ReservedPool) in
     h\<lparr>pools := (\<lambda>p. (pools h p)\<lparr>p_name := (if p = ExclusivePool 0 then ''gold'' else p_name (pools h p)), p_profile := Some gold\<rparr>)\<rparr>)"

theorem shared_update_failure_unreported_witness:
  "\<exists>w' cfg x e. PowerProfile_Reconcile (gold_reconciler\<lparr>r_env := broken_disk\<rparr>) PowerNamespace ''gold''
      ((plain_world (\<lambda>_. ReservedPool))\<lparr>w_host := gold_host\<rparr>) = (w', Error e) \<and>
    last (w_requests w') = (StatusApply (pns_name ''node'')
      (empty_status\<lparr>st_PowerProfiles := Some [\<lparr>pnps_Name = ''gold'', pnps_Config = cfg, pnps_Errors = []\<rparr>]\<rparr>)
      (powerProfileFieldManager ''gold''), x)"
proof -
  let ?r = "gold_reconciler\<lparr>r_env := broken_disk\<rparr>" and ?w = "(plain_world (\<lambda>_. ReservedPool))\<lparr>w_host := gold_host\<rparr>"
  have r: "r_env ?r = broken_disk" "r_vars ?r = gold_vars" "r_node ?r = ''node''" by (simp_all add: gold_reconciler_def)
  have g: "get_profile (r_api ?r) (w_calls ?w) ''gold'' = Inr gold_profile" by (simp add: gold_reconciler_def)
  note m = gold_matches[of ?r "r_node ?r" "?w\<lparr>w_calls := Suc (w_calls ?w)\<rparr>"]
  have name: "om_Name (pp_Meta gold_profile) = ''gold''" by (simp add: gold_profile_def meta0_def)
  have q: "GetExclusivePool (w_host ?w) ''gold'' = Some (ExclusivePool 0)"
    by (simp add: GetExclusivePool_def PoolList_ByName_def gold_host_def plain_host_def)
  have sp: "SetPowerProfile broken_disk gold_vars (ExclusivePool 0) (Some gold) gold_host = (gold_host, Ok ())"
    by (simp add: SetPowerProfile_def gold_host_def plain_host_def Let_def fun_eq_iff)
  have c: "\<exists>h' e. consolidate broken_disk gold_vars 0 h = (h', Error e)" if "p_profile (pools h (cpu_pool h 0)) = Some gold" for h
    using that by (simp add: consolidate_def on_sys_def consolidate_unsafe_def updateFrequencies_def setDriverValues_def
        writeGovernorValue_def WriteFile_def broken_disk_def)
  have "\<exists>h e. SetPowerProfile broken_disk gold_vars SharedPool (Some gold) gold_host = (h, Error e)"
  proof -
    have "p_cpus (pools gold_host SharedPool) = [0]" "cpu_pool gold_host 0 = SharedPool"
      by (simp_all add: gold_host_def plain_host_def)
    then show ?thesis
      using c[of "gold_host\<lparr>pools := (pools gold_host)(SharedPool := (pools gold_host SharedPool)\<lparr>p_profile := Some gold\<rparr>)\<rparr>"]
      by (auto simp: SetPowerProfile_def)
  qed
  then have "\<exists>h e. update_shared_pool ?r ''node'' ''gold'' gold gold_host = (h, Error e)"
    by (auto simp: update_shared_pool_def gold_reconciler_def has_profile_def gold_host_def Let_def gold_def)
  then obtain h e where u: "update_shared_pool ?r ''node'' ''gold'' gold gold_host = (h, Error e)" by blast
  show ?thesis
    using shared_update_failure_unreported[OF g m, unfolded name r, OF _ gold_library q, of gold_host h e "[]"] sp u
    by (fastforce simp: check_epp_def gold_profile_def formatCPUScalingPolicy_def)
qed

end
