(* ===== verification/Pod_Resources.thy ===== *)
theory Pod_Resources
  imports Cluster Core_Lists Cpuset
begin

text \<open>
  \<open>pkg/podresourcesclient\<close>: the CPUs the kubelet, or the CPU control plane, assigned to a container.
  The two gRPC clients are parameters: a call returns a response or an error, and then no
  response.
\<close>

record ContainerResources =
  cr_Name :: string
  cr_CpuIds :: "int list"

record PodResources =
  pr_Name :: string
  pr_Namespace :: string
  pr_Containers :: "ContainerResources list"

type_synonym lister = "nat \<Rightarrow> err + PodResources list"

record PodResourcesClient =
  prc_Client :: lister
  CPUControlPlaneClient :: "lister option"

definition cPlaneRetries :: nat where
  "cPlaneRetries = 3"

definition maxMessage :: nat where
  "maxMessage = 1024 * 1024 * 4"

definition socket_path :: string where
  "socket_path = ''unix:///var/lib/kubelet/pod-resources/kubelet.sock''"

definition cPlaneSocket :: string where
  "cPlaneSocket = ''unix:///var/lib/kubelet/pod-resources/cci-dra-driver-podrsc.sock''"

section \<open>The clients\<close>

text \<open>
  \<open>dial\<close> is \<open>grpc.NewClient\<close> for a target and a limit on the size of messages, with the lister client on
  the connection it returns.
\<close>

type_synonym dialer = "string \<Rightarrow> nat \<Rightarrow> err + lister"

definition getV1Client :: "dialer \<Rightarrow> string \<Rightarrow> nat \<Rightarrow> lister res" where
  "getV1Client dial target maxMsgSize =
     (case dial target maxMsgSize of
        Inl e \<Rightarrow> Error (Wrapf (''error creating client for socket '' @ target) e)
      | Inr client \<Rightarrow> Ok client)"

definition newClient :: "dialer \<Rightarrow> string \<Rightarrow> PodResourcesClient res" where
  "newClient dial target =
     (case getV1Client dial target maxMessage of
        Panic m \<Rightarrow> Panic m
      | Error e \<Rightarrow> Error (ServiceUnavailable (''failed to create podresources client: '' @ err_msg e))
      | Ok client \<Rightarrow> Ok \<lparr>prc_Client = client, CPUControlPlaneClient = None\<rparr>)"

definition NewPodResourcesClient :: "dialer \<Rightarrow> PodResourcesClient res" where
  "NewPodResourcesClient dial = newClient dial socket_path"

definition NewControlPlaneClient :: "dialer \<Rightarrow> PodResourcesClient res" where
  "NewControlPlaneClient dial = newClient dial cPlaneSocket"

text \<open>The field of the second client is read before its error is looked at.\<close>

definition NewDualSocketPodClient :: "dialer \<Rightarrow> PodResourcesClient res" where
  "NewDualSocketPodClient dial =
     (case NewPodResourcesClient dial of
        Panic m \<Rightarrow> Panic m
      | Error e \<Rightarrow> Error e
      | Ok client \<Rightarrow>
          (case NewControlPlaneClient dial of
             Ok cPlane \<Rightarrow> Ok (client\<lparr>CPUControlPlaneClient := Some (prc_Client cPlane)\<rparr>)
           | Error e \<Rightarrow> Panic ''nil pointer dereference''
           | Panic m \<Rightarrow> Panic m))"

section \<open>Queries\<close>

text \<open>\<open>None\<close> is the nil response that is returned, without an error, when the control plane fails.\<close>

definition listResources ::
  "PodResourcesClient \<Rightarrow> bool \<Rightarrow> world \<Rightarrow> world \<times> PodResources list option res" where
  "listResources p controlPlaneClient w =
     (case (controlPlaneClient, CPUControlPlaneClient p) of
        (True, Some client) \<Rightarrow>
          catch_err (api_get client w) (\<lambda>_ w. (w, Ok None)) (\<lambda>resp w. (w, Ok (Some resp)))
      | _ \<Rightarrow>
          then_do (wrap_err ''can't receive response from default client'' (api_get (prc_Client p) w))
            (\<lambda>resp w. (w, Ok (Some resp))))"

definition cpuIDsToString :: "int list \<Rightarrow> string" where
  "cpuIDsToString cpuIDs = CPUSet_String (NewCPUSet cpuIDs)"

fun find_container :: "ContainerResources list \<Rightarrow> string \<Rightarrow> string option" where
  "find_container [] containerName = None"
| "find_container (c # cs) containerName =
     (if cr_Name c = containerName then Some (cpuIDsToString (cr_CpuIds c)) else find_container cs containerName)"

fun parseContainers :: "PodResources list \<Rightarrow> string \<Rightarrow> string \<Rightarrow> string res" where
  "parseContainers [] podName containerName =
     Error (ServiceUnavailable (''resources for Pod:'' @ podName @ '' Container:'' @ containerName @ '' not found''))"
| "parseContainers (r # rs) podName containerName =
     (if pr_Name r = podName then
        (case find_container (pr_Containers r) containerName of
           Some s \<Rightarrow> Ok s
         | None \<Rightarrow> parseContainers rs podName containerName)
      else parseContainers rs podName containerName)"

text \<open>A field of a nil response is read: a nil pointer dereference.\<close>

definition parse_response :: "PodResources list option \<Rightarrow> string \<Rightarrow> string \<Rightarrow> string res" where
  "parse_response resp podName containerName =
     (case resp of
        None \<Rightarrow> Panic ''nil pointer dereference''
      | Some rs \<Rightarrow> parseContainers rs podName containerName)"

text \<open>The retries; \<open>prev\<close> is what the variables hold when the loop ends.\<close>

fun cplane_loop ::
  "PodResourcesClient \<Rightarrow> string \<Rightarrow> string \<Rightarrow> nat \<Rightarrow> string res \<Rightarrow> world \<Rightarrow> world \<times> string res" where
  "cplane_loop p podName containerName 0 prev w = (w, prev)"
| "cplane_loop p podName containerName (Suc n) prev w =
     then_do (listResources p True w) (\<lambda>resp w.
       (case parse_response resp podName containerName of
          Panic m \<Rightarrow> (w, Panic m)
        | Error e \<Rightarrow> cplane_loop p podName containerName n (Error e) w
        | Ok s \<Rightarrow> if s \<noteq> [] then (w, Ok s) else cplane_loop p podName containerName n (Ok s) w))"

definition GetContainerCPUs ::
  "PodResourcesClient \<Rightarrow> string \<Rightarrow> string \<Rightarrow> world \<Rightarrow> world \<times> string res" where
  "GetContainerCPUs p podName containerName w =
     then_do (listResources p False w) (\<lambda>resp w.
       then_do (w, parse_response resp podName containerName) (\<lambda>cpuSetString w.
         if cpuSetString = [] then cplane_loop p podName containerName cPlaneRetries (Ok cpuSetString) w
         else (w, Ok cpuSetString)))"

section \<open>Facts\<close>

text \<open>Every call leaves the library alone and adds no request.\<close>

definition quiet :: "(world \<Rightarrow> world \<times> 'a res) \<Rightarrow> bool" where
  "quiet f = (\<forall>w. w_host (fst (f w)) = w_host w \<and> w_requests (fst (f w)) = w_requests w)"

lemma quiet_return: "quiet (\<lambda>w. (w, x))"
  by (simp add: quiet_def)

lemma quiet_api_get: "quiet (api_get f)"
  by (simp add: quiet_def api_get_def)

lemma quiet_wrap_err: "quiet f \<Longrightarrow> quiet (\<lambda>w. wrap_err m (f w))"
  by (simp add: quiet_def)

lemma quiet_then_do:
  assumes "quiet f" and "\<And>a. quiet (k a)"
  shows "quiet (\<lambda>w. then_do (f w) k)"
  unfolding quiet_def
proof
  fix w
  obtain v x where x: "f w = (v, x)" by (cases "f w")
  then have "w_host v = w_host w" "w_requests v = w_requests w" using assms(1) by (metis fst_conv quiet_def)+
  then show "w_host (fst (then_do (f w) k)) = w_host w \<and> w_requests (fst (then_do (f w) k)) = w_requests w"
    using x assms(2) by (cases x) (simp_all add: quiet_def)
qed

lemma quiet_catch_err:
  assumes "quiet f" and "\<And>a. quiet (h a)" and "\<And>a. quiet (k a)"
  shows "quiet (\<lambda>w. catch_err (f w) h k)"
  unfolding quiet_def
proof
  fix w
  obtain v x where x: "f w = (v, x)" by (cases "f w")
  then have "w_host v = w_host w" "w_requests v = w_requests w" using assms(1) by (metis fst_conv quiet_def)+
  then show "w_host (fst (catch_err (f w) h k)) = w_host w \<and> w_requests (fst (catch_err (f w) h k)) = w_requests w"
    using x assms(2,3) by (cases x) (simp_all add: quiet_def)
qed

lemma quiet_cases: "quiet f \<Longrightarrow> quiet g \<Longrightarrow> quiet (\<lambda>w. if b then f w else g w)"
  by (cases b) simp_all

lemma listResources_quiet: "quiet (listResources p b)"
proof (cases "b \<and> CPUControlPlaneClient p \<noteq> None")
  case True
  then obtain c where "CPUControlPlaneClient p = Some c" "b" by auto
  then show ?thesis unfolding listResources_def
    by (simp add: quiet_catch_err quiet_api_get quiet_return)
next
  case False
  then have "listResources p b = (\<lambda>w. then_do (wrap_err ''can't receive response from default client'' (api_get (prc_Client p) w))
            (\<lambda>resp w. (w, Ok (Some resp))))"
    by (auto simp: listResources_def fun_eq_iff split: bool.split option.split)
  then show ?thesis by (simp add: quiet_then_do quiet_wrap_err quiet_api_get quiet_return)
qed

lemma cplane_loop_quiet: "quiet (cplane_loop p pod ctr n prev)"
proof (induction n arbitrary: prev)
  case (Suc n)
  have "quiet (\<lambda>w. case parse_response resp pod ctr of
          Panic m \<Rightarrow> (w, Panic m)
        | Error e \<Rightarrow> cplane_loop p pod ctr n (Error e) w
        | Ok s \<Rightarrow> if s \<noteq> [] then (w, Ok s) else cplane_loop p pod ctr n (Ok s) w)" for resp
    by (cases "parse_response resp pod ctr") (simp_all add: Suc quiet_return quiet_cases)
  then show ?case unfolding cplane_loop.simps by (intro quiet_then_do listResources_quiet)
qed (simp add: quiet_def)

lemma GetContainerCPUs_quiet: "quiet (GetContainerCPUs p pod ctr)"
  unfolding GetContainerCPUs_def
  by (intro quiet_then_do quiet_cases listResources_quiet cplane_loop_quiet quiet_return)

text \<open>What the client prints, the controller reads.\<close>

interpretation container_codec: cpulist_codec CPUSet_String "\<lambda>s. map nat (ToSlice s)" "\<lambda>s. nonneg_cpuset s"
  getCleanCoreList "\<lambda>r cs. r = Some cs" "2 ^ 32"
  by (rule cpulist_codec.intro[OF cpuset_codec.cpulist_printer_axioms core_list_codec.cpulist_parser_axioms])

lemma ToSlice_NewCPUSet: "map nat (ToSlice (NewCPUSet (map int ids))) = sorted_list_of_set (set ids)"
proof -
  let ?s = "NewCPUSet (map int ids)"
  have "set (ToSlice ?s) = int ` set ids" "distinct (ToSlice ?s)" "sorted (ToSlice ?s)"
    using cpus_ops(1)[of "map int ids"] cpuset_ok_ops(1)[of "map int ids"]
    by (simp_all add: ToSlice_def cpus_def cpuset_ok_def)
  moreover have "sorted (map nat xs)" if "sorted xs" for xs :: "int list"
    using that by (induction xs) (auto simp: nat_le_iff intro: nat_mono)
  moreover have "distinct (map nat (ToSlice ?s))"
    using calculation(1,2) by (auto simp: distinct_map inj_on_def)
  moreover have "nat ` int ` set ids = set ids" by (simp add: image_image)
  ultimately show ?thesis by (metis list.set_map sorted_distinct_set_unique sorted_list_of_set.distinct_sorted_key_list_of_set
      sorted_list_of_set.sorted_sorted_key_list_of_set sorted_list_of_set.set_sorted_key_list_of_set List.finite_set)
qed

section \<open>Properties\<close>


definition two_core_lister :: PodResourcesClient where
  "two_core_lister = \<lparr>prc_Client = \<lambda>n. Inr [\<lparr>pr_Name = ''pod'', pr_Namespace = ''default'',
     pr_Containers = [\<lparr>cr_Name = ''app'', cr_CpuIds = map int [2, 7, 2]\<rparr>]\<rparr>], CPUControlPlaneClient = None\<rparr>"


text \<open>
  When the kubelet lists no CPU for the container and the socket of the control plane does not
  answer, as it does not where there is no such plane, \<open>GetContainerCPUs\<close> panics: the response is
  nil, its error was dropped, and a field of it is read.
\<close>
theorem control_plane_failure_panics:
  assumes "prc_Client p (w_calls w) = Inr rs" and "parseContainers rs podName containerName = Ok []"
    and "CPUControlPlaneClient p = Some plane" and "plane (Suc (w_calls w)) = Inl e"
  shows "is_panic (snd (GetContainerCPUs p podName containerName w))"
  using assms
  by (simp add: GetContainerCPUs_def listResources_def api_get_def parse_response_def cPlaneRetries_def numeral_3_eq_3)

theorem control_plane_failure_panics_witness:
  "\<forall>w. is_panic (snd (GetContainerCPUs \<lparr>prc_Client = \<lambda>n. Inr [\<lparr>pr_Name = ''pod'', pr_Namespace = ''default'',
     pr_Containers = [\<lparr>cr_Name = ''app'', cr_CpuIds = []\<rparr>]\<rparr>], CPUControlPlaneClient = Some (\<lambda>n. Inl (Errorf ''refused''))\<rparr>
     ''pod'' ''app'' w))"
proof
  fix w :: world
  let ?rs = "[\<lparr>pr_Name = ''pod'', pr_Namespace = ''default'', pr_Containers = [\<lparr>cr_Name = ''app'', cr_CpuIds = []\<rparr>]\<rparr>]"
  have "parseContainers ?rs ''pod'' ''app'' = Ok []" by code_simp
  then show "is_panic (snd (GetContainerCPUs \<lparr>prc_Client = \<lambda>n. Inr ?rs, CPUControlPlaneClient = Some (\<lambda>n. Inl (Errorf ''refused''))\<rparr>
     ''pod'' ''app'' w))"
    by (rule control_plane_failure_panics[of _ _ ?rs "''pod''" "''app''" "\<lambda>n. Inl (Errorf ''refused'')" "Errorf ''refused''", rotated])
      simp_all
qed

end
