(* ===== verification/Dpdk_Client.thy ===== *)
theory Dpdk_Client
  imports Go_Strings "HOL-Library.Word" "HOL-Library.AList"
begin

text \<open>
  \<open>internal/scaling/dpdk_client.go\<close>: the client of the DPDK telemetry sockets of the pods. The
  client keeps a connection per pod and, shared by all connections, the latest usage of every
  watched CPU. The goroutine of a connection is a machine that reacts to what the socket does
  (\<open>conn_event\<close>); \<open>client_step\<close> interleaves the goroutines with the calls of the client's interface.
  The socket and \<open>json.Unmarshal\<close> are parameters: what they return is part of an event.
\<close>

section \<open>State\<close>

type_synonym uint64 = "64 word"

record initialMessage =
  Version :: string
  PID :: int
  MaxOutputLength :: int

record usageData =
  LcoreIDs :: "nat list"
  TotalCycles :: "uint64 list"
  BusyCycles :: "uint64 list"

record cycleCounters =
  cc_total :: uint64
  cc_busy :: uint64

record telemetryResult =
  tr_percent :: int
  tr_err :: "err option"

definition ErrDPDKMetricMissing :: err where
  "ErrDPDKMetricMissing = Errorf ''no entry found for this cpu''"

definition ErrDPDKMetricNotProvided :: err where
  "ErrDPDKMetricNotProvided = Errorf ''dpdk telemetry did not provide a reading for this cpu''"

text \<open>\<open>Dialing\<close> is \<open>connectLoop\<close>, \<open>Polling\<close> the loop of \<open>ioLoop\<close>.\<close>

datatype phase = Dialing | Polling

record connection =
  c_podUID :: string
  watchedCPUs :: "nat list"
  prevUsageCycles :: "nat \<rightharpoonup> cycleCounters"
  c_buffer :: nat
  c_phase :: phase

record dpdk_client =
  connections :: "(string \<times> connection) list"
  deltaUsage :: "nat \<rightharpoonup> telemetryResult"

definition NewDPDKTelemetryClient :: dpdk_client where
  "NewDPDKTelemetryClient = \<lparr>connections = [], deltaUsage = Map.empty\<rparr>"

section \<open>Reading from the socket\<close>

text \<open>What the calls on the socket return; a message is cut to the length of the buffer.\<close>

record socket =
  SetWriteDeadline :: "err option"
  so_Write :: "err option"
  SetReadDeadline :: "err option"
  so_Read :: "err + string"

definition io_err :: "string \<Rightarrow> err option \<Rightarrow> unit res" where
  "io_err m e = (case e of None \<Rightarrow> Ok () | Some e \<Rightarrow> Error (Wrapf m e))"

definition and_then :: "'a res \<Rightarrow> ('a \<Rightarrow> 'b res) \<Rightarrow> 'b res" where
  "and_then r f = (case r of Ok a \<Rightarrow> f a | Error e \<Rightarrow> Error e | Panic m \<Rightarrow> Panic m)"

definition processCommand :: "(string \<Rightarrow> err + 'a) \<Rightarrow> nat \<Rightarrow> socket \<Rightarrow> string \<Rightarrow> 'a res" where
  "processCommand unmarshal buflen so cmd =
     and_then (if cmd \<noteq> [] then
                 and_then (io_err ''error setting write deadline'' (SetWriteDeadline so))
                   (\<lambda>_. io_err ''write error'' (so_Write so))
               else Ok ()) (\<lambda>_.
     and_then (io_err ''error setting read deadline'' (SetReadDeadline so)) (\<lambda>_.
       (case so_Read so of
          Inl e \<Rightarrow> Error (Wrapf ''read error'' e)
        | Inr msg \<Rightarrow> (case unmarshal (take buflen msg) of Inl e \<Rightarrow> Error e | Inr v \<Rightarrow> Ok v))))"

definition usageCommand :: string where
  "usageCommand = ''/eal/lcore/usage''"

text \<open>\<open>make\<close> panics for a negative length (the length comes from the socket).\<close>

definition handleInitialMessage ::
  "(string \<Rightarrow> err + initialMessage) \<Rightarrow> socket \<Rightarrow> connection \<Rightarrow> connection res" where
  "handleInitialMessage unmarshal so c =
     (case processCommand unmarshal 1024 so [] of
        Panic m \<Rightarrow> Panic m
      | Error e \<Rightarrow> Error (Wrapf ''initial message error'' e)
      | Ok initMsg \<Rightarrow>
          if MaxOutputLength initMsg < 0 then Panic ''makeslice: len out of range''
          else Ok (c\<lparr>c_buffer := nat (MaxOutputLength initMsg)\<rparr>))"

section \<open>Usage\<close>

text \<open>The map from lcore to its index: later entries win.\<close>

fun lcore_index :: "nat \<Rightarrow> nat list \<Rightarrow> nat \<rightharpoonup> nat" where
  "lcore_index i [] = Map.empty"
| "lcore_index i (c # cs) = (\<lambda>x. case lcore_index (Suc i) cs x of Some j \<Rightarrow> Some j | None \<Rightarrow> if x = c then Some i else None)"

text \<open>The usage between two readings of the counters; \<open>*\<close>, \<open>-\<close> and \<open>div\<close> are those of \<open>uint64\<close>.\<close>

definition window_usage :: "cycleCounters option \<Rightarrow> uint64 \<Rightarrow> uint64 \<Rightarrow> telemetryResult" where
  "window_usage prev currTotal currBusy =
     (case prev of
        None \<Rightarrow> \<lparr>tr_percent = 0, tr_err = Some ErrDPDKMetricNotProvided\<rparr>
      | Some p \<Rightarrow>
          if cc_total p \<le> currTotal \<and> cc_busy p \<le> currBusy then
            (let deltaTotal = currTotal - cc_total p; deltaBusy = currBusy - cc_busy p in
             if deltaTotal = 0 then \<lparr>tr_percent = 0, tr_err = None\<rparr>
             else
               (let percent = (deltaBusy * 100) div deltaTotal in
                \<lparr>tr_percent = to_int64 (uint percent),
                 tr_err = (if 100 < percent then Some ErrDPDKMetricNotProvided else None)\<rparr>))
          else \<lparr>tr_percent = 0, tr_err = Some ErrDPDKMetricNotProvided\<rparr>)"

fun usage_loop ::
  "usageData \<Rightarrow> nat list \<Rightarrow> (nat \<rightharpoonup> cycleCounters) \<times> (nat \<rightharpoonup> telemetryResult) \<Rightarrow>
   ((nat \<rightharpoonup> cycleCounters) \<times> (nat \<rightharpoonup> telemetryResult)) res" where
  "usage_loop u [] (prev, delta) = Ok (prev, delta)"
| "usage_loop u (cpuID # cpus) (prev, delta) =
     (case lcore_index 0 (LcoreIDs u) cpuID of
        None \<Rightarrow>
          usage_loop u cpus (prev, delta(cpuID \<mapsto> \<lparr>tr_percent = 0, tr_err = Some ErrDPDKMetricNotProvided\<rparr>))
      | Some index \<Rightarrow>
          if length (TotalCycles u) \<le> index \<or> length (BusyCycles u) \<le> index
          then Panic ''index out of range''
          else
            (let currTotal = TotalCycles u ! index; currBusy = BusyCycles u ! index in
             usage_loop u cpus
               (prev(cpuID \<mapsto> \<lparr>cc_total = currTotal, cc_busy = currBusy\<rparr>),
                delta(cpuID \<mapsto> window_usage (prev cpuID) currTotal currBusy))))"

definition handleUsage ::
  "(string \<Rightarrow> err + usageData) \<Rightarrow> socket \<Rightarrow> connection \<times> (nat \<rightharpoonup> telemetryResult) \<Rightarrow>
   (connection \<times> (nat \<rightharpoonup> telemetryResult)) res" where
  "handleUsage unmarshal so = (\<lambda>(c, delta).
     case processCommand unmarshal (c_buffer c) so usageCommand of
       Panic m \<Rightarrow> Panic m
     | Error e \<Rightarrow> Error (Wrapf ''usage error'' e)
     | Ok u \<Rightarrow>
         (case usage_loop u (watchedCPUs c) (prevUsageCycles c, delta) of
            Panic m \<Rightarrow> Panic m
          | Error e \<Rightarrow> Error e
          | Ok (prev, delta) \<Rightarrow> Ok (c\<lparr>prevUsageCycles := prev\<rparr>, delta)))"

definition clearMetrics ::
  "nat list \<Rightarrow> connection \<times> (nat \<rightharpoonup> telemetryResult) \<Rightarrow> connection \<times> (nat \<rightharpoonup> telemetryResult)" where
  "clearMetrics cpuList = (\<lambda>(c, delta).
     (c\<lparr>prevUsageCycles := (prevUsageCycles c) |` (- set cpuList)\<rparr>, delta |` (- set cpuList)))"

section \<open>The goroutine of a connection\<close>

text \<open>
  \<open>connect\<close>, \<open>connectLoop\<close> and \<open>ioLoop\<close>, one reaction per event. An error in the loop over the ticks
  clears the metrics and the connection is dialed again. The two functions on strings are
  \<open>json.Unmarshal\<close> into the two kinds of messages.
\<close>

datatype conn_event = DialFailed | Dialed socket | Tick socket

record decoders =
  unmarshalInit :: "string \<Rightarrow> err + initialMessage"
  unmarshalUsage :: "string \<Rightarrow> err + usageData"

definition redial :: "connection \<times> (nat \<rightharpoonup> telemetryResult) \<Rightarrow> connection \<times> (nat \<rightharpoonup> telemetryResult)" where
  "redial = (\<lambda>(c, delta). clearMetrics (watchedCPUs c) (c\<lparr>c_phase := Dialing\<rparr>, delta))"

fun conn_handle ::
  "decoders \<Rightarrow> conn_event \<Rightarrow> connection \<times> (nat \<rightharpoonup> telemetryResult) \<Rightarrow> (connection \<times> (nat \<rightharpoonup> telemetryResult)) res" where
  "conn_handle d DialFailed (c, delta) = Ok (c, delta)"
| "conn_handle d (Dialed so) (c, delta) =
     (if c_phase c = Dialing then
        (case handleInitialMessage (unmarshalInit d) so c of
           Panic m \<Rightarrow> Panic m
         | Error e \<Rightarrow> Ok (redial (c, delta))
         | Ok c' \<Rightarrow> Ok (c'\<lparr>c_phase := Polling\<rparr>, delta))
      else Ok (c, delta))"
| "conn_handle d (Tick so) (c, delta) =
     (if c_phase c = Polling then
        (case handleUsage (unmarshalUsage d) so (c, delta) of
           Panic m \<Rightarrow> Panic m
         | Error e \<Rightarrow> Ok (redial (c, delta))
         | Ok s \<Rightarrow> Ok s)
      else Ok (c, delta))"

fun conn_run ::
  "decoders \<Rightarrow> conn_event list \<Rightarrow> connection \<times> (nat \<rightharpoonup> telemetryResult) \<Rightarrow> (connection \<times> (nat \<rightharpoonup> telemetryResult)) res" where
  "conn_run d [] s = Ok s"
| "conn_run d (e # es) s = and_then (conn_handle d e s) (conn_run d es)"

section \<open>The interface of the client\<close>

definition new_connection :: "string \<Rightarrow> nat list \<Rightarrow> connection" where
  "new_connection podUID cpus =
     \<lparr>c_podUID = podUID, watchedCPUs = cpus, prevUsageCycles = Map.empty, c_buffer = 0, c_phase = Dialing\<rparr>"

definition EnsureConnection :: "string \<Rightarrow> nat list \<Rightarrow> dpdk_client \<Rightarrow> dpdk_client" where
  "EnsureConnection podUID cpus cl =
     (case map_of (connections cl) podUID of
        Some _ \<Rightarrow> cl
      | None \<Rightarrow> cl\<lparr>connections := AList.update podUID (new_connection podUID cpus) (connections cl)\<rparr>)"

definition ListConnections :: "dpdk_client \<Rightarrow> (string \<times> nat list) list" where
  "ListConnections cl = map (\<lambda>(k, c). (c_podUID c, watchedCPUs c)) (connections cl)"

text \<open>
  \<open>close\<close> waits until the goroutine has ended and then clears the metrics; what the goroutine does
  before it notices is cleared too (\<open>close_absorbs_events\<close> below).
\<close>

definition close_connection :: "connection \<Rightarrow> (nat \<rightharpoonup> telemetryResult) \<Rightarrow> nat \<rightharpoonup> telemetryResult" where
  "close_connection c delta = snd (clearMetrics (watchedCPUs c) (c, delta))"

definition CloseConnection :: "string \<Rightarrow> dpdk_client \<Rightarrow> dpdk_client" where
  "CloseConnection podUID cl =
     (case map_of (connections cl) podUID of
        None \<Rightarrow> cl
      | Some c \<Rightarrow> cl\<lparr>connections := AList.delete podUID (connections cl),
                    deltaUsage := close_connection c (deltaUsage cl)\<rparr>)"

definition GetUsagePercent :: "dpdk_client \<Rightarrow> nat \<Rightarrow> int res" where
  "GetUsagePercent cl cpuID =
     (case deltaUsage cl cpuID of
        Some r \<Rightarrow> (case tr_err r of None \<Rightarrow> Ok (tr_percent r) | Some e \<Rightarrow> Error e)
      | None \<Rightarrow> Error ErrDPDKMetricMissing)"

definition Client_Close :: "dpdk_client \<Rightarrow> dpdk_client" where
  "Client_Close cl = fold (\<lambda>(k, c). CloseConnection k) (connections cl) cl"

text \<open>The client with its goroutines: calls and events in any order.\<close>

definition on_connection ::
  "string \<Rightarrow> connection \<times> (nat \<rightharpoonup> telemetryResult) \<Rightarrow> dpdk_client \<Rightarrow> dpdk_client" where
  "on_connection podUID = (\<lambda>(c, delta) cl.
     cl\<lparr>connections := AList.update podUID c (connections cl), deltaUsage := delta\<rparr>)"

inductive client_step :: "decoders \<Rightarrow> dpdk_client \<Rightarrow> dpdk_client \<Rightarrow> bool" for d where
  ensure: "client_step d cl (EnsureConnection podUID cpus cl)"
| close: "client_step d cl (CloseConnection podUID cl)"
| close_all: "client_step d cl (Client_Close cl)"
| event: "map_of (connections cl) podUID = Some c \<Longrightarrow> conn_handle d e (c, deltaUsage cl) = Ok s \<Longrightarrow>
    client_step d cl (on_connection podUID s cl)"

inductive client_reachable :: "decoders \<Rightarrow> dpdk_client \<Rightarrow> bool" for d where
  init: "client_reachable d NewDPDKTelemetryClient"
| step: "client_reachable d cl \<Longrightarrow> client_step d cl cl' \<Longrightarrow> client_reachable d cl'"

section \<open>Facts\<close>

inductive_cases client_stepE [elim]: "client_step d cl cl'"

lemma percent_le:
  assumes "\<not> 100 < (p :: uint64)"
  shows "0 \<le> to_int64 (uint p)" and "to_int64 (uint p) \<le> 100"
proof -
  have "uint p \<le> uint (100 :: uint64)" using assms by (simp add: not_less word_le_def)
  then have "uint p \<le> 100" by simp
  moreover have "0 \<le> uint p" by simp
  moreover have "0 \<le> v \<Longrightarrow> v \<le> 100 \<Longrightarrow> to_int64 v = v" for v by simp
  ultimately have "to_int64 (uint p) = uint p" by blast
  then show "0 \<le> to_int64 (uint p)" "to_int64 (uint p) \<le> 100" using \<open>uint p \<le> 100\<close> by simp_all
qed

definition in_range :: "telemetryResult \<Rightarrow> bool" where
  "in_range r = (tr_err r = None \<longrightarrow> 0 \<le> tr_percent r \<and> tr_percent r \<le> 100)"

lemma window_usage_range: "in_range (window_usage prev t b)"
  using percent_le[of "((b - cc_busy (the prev)) * 100) div (t - cc_total (the prev))"]
  by (auto simp: window_usage_def in_range_def Let_def split: option.split)

lemma usage_loop_Ok:
  assumes "usage_loop u cpus (prev, delta) = Ok (prev', delta')" and "\<forall>c r. delta c = Some r \<longrightarrow> in_range r"
  shows "(\<forall>c r. delta' c = Some r \<longrightarrow> in_range r) \<and> dom delta' = dom delta \<union> set cpus \<and>
    (\<forall>c. c \<notin> set cpus \<longrightarrow> delta' c = delta c \<and> prev' c = prev c)"
  using assms
proof (induction cpus arbitrary: prev delta)
  case (Cons c cpus)
  obtain q r where s: "usage_loop u cpus (q, delta(c \<mapsto> r)) = Ok (prev', delta')" "in_range r" "\<forall>x. x \<noteq> c \<longrightarrow> q x = prev x"
  proof (cases "lcore_index 0 (LcoreIDs u) c")
    case None
    then show ?thesis using that[of prev "\<lparr>tr_percent = 0, tr_err = Some ErrDPDKMetricNotProvided\<rparr>"] Cons.prems(1)
      by (simp add: in_range_def)
  next
    case (Some i)
    then show ?thesis
      using that[of "prev(c \<mapsto> \<lparr>cc_total = TotalCycles u ! i, cc_busy = BusyCycles u ! i\<rparr>)"
          "window_usage (prev c) (TotalCycles u ! i) (BusyCycles u ! i)"] Cons.prems(1) window_usage_range
      by (auto simp: Let_def split: if_splits)
  qed
  have "\<forall>x y. (delta(c \<mapsto> r)) x = Some y \<longrightarrow> in_range y" using Cons.prems(2) s(2) by auto
  with Cons.IH[OF s(1)] s(3) show ?case by auto
qed simp

text \<open>What an event changes: readings of watched CPUs only, and they are in range.\<close>

lemma conn_handle_Ok:
  assumes "conn_handle d e (c, delta) = Ok (c', delta')" and "\<forall>x r. delta x = Some r \<longrightarrow> in_range r"
  shows "(\<forall>x r. delta' x = Some r \<longrightarrow> in_range r) \<and> dom delta' \<subseteq> dom delta \<union> set (watchedCPUs c) \<and>
    watchedCPUs c' = watchedCPUs c \<and> c_podUID c' = c_podUID c \<and> (\<forall>x. x \<notin> set (watchedCPUs c) \<longrightarrow> delta' x = delta x)"
proof -
  have rd: "snd (redial (c, delta)) = delta |` (- set (watchedCPUs c))" "watchedCPUs (fst (redial (c, delta))) = watchedCPUs c"
    "c_podUID (fst (redial (c, delta))) = c_podUID c"
    by (simp_all add: redial_def clearMetrics_def)
  have r: ?thesis if "(c', delta') = redial (c, delta)"
    using that[symmetric] rd assms(2) by (auto simp: restrict_map_def split: if_splits)
  show ?thesis
  proof (cases e)
    case DialFailed
    then show ?thesis using assms by auto
  next
    case (Dialed so)
    show ?thesis
    proof (cases "c_phase c = Dialing")
      case True
      then show ?thesis using assms r unfolding Dialed
        by (auto simp: handleInitialMessage_def split: res.splits if_splits)
    qed (use assms Dialed in auto)
  next
    case (Tick so)
    show ?thesis
    proof (cases "c_phase c = Polling")
      case True
      then have "handleUsage (unmarshalUsage d) so (c, delta) = Ok (c', delta') \<or> (c', delta') = redial (c, delta)"
        using assms(1) Tick by (auto split: res.splits)
      then show ?thesis
      proof
        assume "handleUsage (unmarshalUsage d) so (c, delta) = Ok (c', delta')"
        then obtain u prev where l: "usage_loop u (watchedCPUs c) (prevUsageCycles c, delta) = Ok (prev, delta')"
            "c' = c\<lparr>prevUsageCycles := prev\<rparr>"
          by (auto simp: handleUsage_def split: res.splits prod.splits)
        from usage_loop_Ok[OF l(1) assms(2)] l(2) show ?thesis by auto
      qed (rule r)
    qed (use assms Tick in auto)
  qed
qed

text \<open>Closing a connection makes no difference between doing it now or after some more events.\<close>

lemma close_absorbs_events:
  assumes "conn_run d es (c, delta) = Ok (c', delta')" and "\<forall>x r. delta x = Some r \<longrightarrow> in_range r"
  shows "close_connection c' delta' = close_connection c delta"
  using assms
proof (induction es arbitrary: c delta)
  case (Cons e es)
  obtain c1 delta1 where h: "conn_handle d e (c, delta) = Ok (c1, delta1)" "conn_run d es (c1, delta1) = Ok (c', delta')"
    using Cons.prems(1) by (auto simp: and_then_def split: res.splits)
  note k = conn_handle_Ok[OF h(1) Cons.prems(2)]
  have "close_connection c1 delta1 = close_connection c delta"
    using k by (auto simp: close_connection_def clearMetrics_def fun_eq_iff restrict_map_def)
  then show ?case using Cons.IH[OF h(2)] k by simp
qed simp

section \<open>The invariant\<close>

text \<open>
  Every reading is in range and belongs to a CPU that some connection watches, and a connection is
  kept under its pod.
\<close>

definition watched :: "dpdk_client \<Rightarrow> nat set" where
  "watched cl = {x. \<exists>k c. map_of (connections cl) k = Some c \<and> x \<in> set (watchedCPUs c)}"

definition client_inv :: "dpdk_client \<Rightarrow> bool" where
  "client_inv cl =
     ((\<forall>k c. map_of (connections cl) k = Some c \<longrightarrow> c_podUID c = k) \<and>
      (\<forall>x r. deltaUsage cl x = Some r \<longrightarrow> in_range r) \<and> dom (deltaUsage cl) \<subseteq> watched cl)"

lemma CloseConnection_Some:
  assumes "map_of (connections cl) podUID = Some c"
  shows "map_of (connections (CloseConnection podUID cl)) = (map_of (connections cl))(podUID := None)"
    and "deltaUsage (CloseConnection podUID cl) = (\<lambda>x. if x \<in> set (watchedCPUs c) then None else deltaUsage cl x)"
  using assms
  by (simp_all add: CloseConnection_def close_connection_def clearMetrics_def restrict_map_def fun_eq_iff delete_conv)

lemma client_inv_close:
  assumes "client_inv cl"
  shows "client_inv (CloseConnection podUID cl)"
proof (cases "map_of (connections cl) podUID")
  case (Some c)
  let ?cl = "CloseConnection podUID cl"
  have "dom (deltaUsage ?cl) \<subseteq> watched ?cl"
  proof
    fix x assume x: "x \<in> dom (deltaUsage ?cl)"
    then have "x \<in> watched cl" "x \<notin> set (watchedCPUs c)"
      using assms CloseConnection_Some[OF Some] by (auto simp: client_inv_def split: if_splits)
    then obtain k c' where k: "map_of (connections cl) k = Some c'" "x \<in> set (watchedCPUs c')"
      by (auto simp: watched_def)
    moreover have "k \<noteq> podUID" using k Some \<open>x \<notin> set (watchedCPUs c)\<close> by auto
    ultimately show "x \<in> watched ?cl" using CloseConnection_Some[OF Some] by (auto simp: watched_def)
  qed
  then show ?thesis using assms CloseConnection_Some[OF Some] by (simp add: client_inv_def)
qed (use assms in \<open>simp add: CloseConnection_def\<close>)

lemma client_inv_close_all: "client_inv cl \<Longrightarrow> client_inv (Client_Close cl)"
proof -
  have "client_inv x \<Longrightarrow> client_inv (fold (\<lambda>(k, c). CloseConnection k) ys x)" for ys :: "(string \<times> connection) list" and x
  proof (induction ys arbitrary: x)
    case (Cons y ys)
    then show ?case by (cases y) (simp add: client_inv_close)
  qed simp
  then show "client_inv cl \<Longrightarrow> client_inv (Client_Close cl)" by (simp add: Client_Close_def)
qed

lemma client_inv_put:
  assumes "client_inv cl" and "c_podUID c' = podUID" and "\<forall>x r. delta' x = Some r \<longrightarrow> in_range r"
    and "dom delta' \<subseteq> watched cl \<union> set (watchedCPUs c')"
    and "\<And>c. map_of (connections cl) podUID = Some c \<Longrightarrow> watchedCPUs c' = watchedCPUs c"
  shows "client_inv (on_connection podUID (c', delta') cl)"
proof -
  let ?cl = "on_connection podUID (c', delta') cl"
  have m: "map_of (connections ?cl) = (map_of (connections cl))(podUID \<mapsto> c')" by (simp add: on_connection_def update_conv')
  have d: "deltaUsage ?cl = delta'" by (simp add: on_connection_def)
  have "watched cl \<union> set (watchedCPUs c') \<subseteq> watched ?cl"
  proof
    fix x assume "x \<in> watched cl \<union> set (watchedCPUs c')"
    then consider "x \<in> set (watchedCPUs c')" | k c where "map_of (connections cl) k = Some c" "x \<in> set (watchedCPUs c)"
      by (auto simp: watched_def)
    then show "x \<in> watched ?cl"
    proof cases
      case 1
      then show ?thesis unfolding watched_def m by (metis (mono_tags, lifting) fun_upd_same mem_Collect_eq)
    next
      case (2 k c)
      show ?thesis
      proof (cases "k = podUID")
        case True
        then have "x \<in> set (watchedCPUs c')" using assms(5)[of c] 2 by simp
        then show ?thesis unfolding watched_def m by (metis (mono_tags, lifting) fun_upd_same mem_Collect_eq)
      next
        case False
        then have "((map_of (connections cl))(podUID \<mapsto> c')) k = Some c" using 2 by simp
        then show ?thesis using 2(2) unfolding watched_def m by blast
      qed
    qed
  qed
  then show ?thesis using assms(1-4) unfolding client_inv_def m d by (auto split: if_splits)
qed

lemma client_inv_ensure: "client_inv cl \<Longrightarrow> client_inv (EnsureConnection podUID cpus cl)"
proof (cases "map_of (connections cl) podUID")
  case None
  assume inv: "client_inv cl"
  have "EnsureConnection podUID cpus cl = on_connection podUID (new_connection podUID cpus, deltaUsage cl) cl"
    using None by (simp add: EnsureConnection_def on_connection_def)
  moreover have "client_inv (on_connection podUID (new_connection podUID cpus, deltaUsage cl) cl)"
    by (rule client_inv_put[OF inv]) (use inv None in \<open>auto simp: new_connection_def client_inv_def\<close>)
  ultimately show ?thesis by simp
qed (simp add: EnsureConnection_def)

lemma client_inv_event:
  assumes "client_inv cl" and "map_of (connections cl) podUID = Some c" and "conn_handle d e (c, deltaUsage cl) = Ok s"
  shows "client_inv (on_connection podUID s cl)"
proof -
  obtain c' delta' where s: "s = (c', delta')" by (cases s)
  have r: "\<forall>x r. deltaUsage cl x = Some r \<longrightarrow> in_range r" using assms(1) by (simp add: client_inv_def)
  note k = conn_handle_Ok[OF assms(3)[unfolded s] r]
  have "c_podUID c = podUID" "dom (deltaUsage cl) \<subseteq> watched cl" using assms(1,2) by (simp_all add: client_inv_def)
  then show ?thesis unfolding s by (intro client_inv_put[OF assms(1)]) (use k assms(2) in auto)
qed

lemma client_reachable_inv: "client_reachable d cl \<Longrightarrow> client_inv cl"
proof (induction rule: client_reachable.induct)
  case init
  then show ?case by (simp add: client_inv_def NewDPDKTelemetryClient_def)
next
  case (step cl cl')
  from step(2) show ?case
  proof cases
    case (ensure podUID cpus)
    then show ?thesis using client_inv_ensure step(3) by simp
  next
    case (close podUID)
    then show ?thesis using client_inv_close step(3) by simp
  next
    case close_all
    then show ?thesis using client_inv_close_all step(3) by simp
  next
    case (event podUID c e s)
    then show ?thesis using client_inv_event[OF step(3)] by simp
  qed
qed

lemma percent_word:
  fixes db dt :: uint64
  assumes "unat db * 100 < 2 ^ 64"
  shows "uint (db * 100 div dt) = int (unat db * 100 div unat dt)"
    and "100 < db * 100 div dt \<longleftrightarrow> 100 < unat db * 100 div unat dt"
proof -
  have "unat (db * 100) = unat db * 100" using assms unat_mult_lem[of db 100] by simp
  then have n: "unat (db * 100 div dt) = unat db * 100 div unat dt" by (simp add: unat_div)
  then show "uint (db * 100 div dt) = int (unat db * 100 div unat dt)" by (simp add: uint_nat)
  show "100 < db * 100 div dt \<longleftrightarrow> 100 < unat db * 100 div unat dt" by (simp add: word_less_nat_alt n)
qed

section \<open>Properties\<close>

text \<open>
  C31. In every state that calls and socket events can lead to, in any order and with any
  interleaving of the connections: a usage that \<open>GetUsagePercent\<close> returns lies between 0 and 100; a
  CPU that no connection watches has no reading; and after \<open>CloseConnection\<close> the CPUs of that pod
  have none, even if the goroutine handled more events before it noticed.
\<close>
theorem dpdk_readings_sound:
  assumes "client_reachable d cl"
  shows "(\<forall>cpu p. GetUsagePercent cl cpu = Ok p \<longrightarrow> 0 \<le> p \<and> p \<le> 100) \<and>
    (\<forall>cpu. cpu \<notin> watched cl \<longrightarrow> GetUsagePercent cl cpu = Error ErrDPDKMetricMissing) \<and>
    (\<forall>podUID c cpu. map_of (connections cl) podUID = Some c \<longrightarrow> cpu \<in> set (watchedCPUs c) \<longrightarrow>
       GetUsagePercent (CloseConnection podUID cl) cpu = Error ErrDPDKMetricMissing) \<and>
    (\<forall>podUID c es c' delta'. map_of (connections cl) podUID = Some c \<longrightarrow>
       conn_run d es (c, deltaUsage cl) = Ok (c', delta') \<longrightarrow>
       close_connection c' delta' = close_connection c (deltaUsage cl))"
proof -
  have inv: "client_inv cl" by (rule client_reachable_inv[OF assms])
  have "GetUsagePercent cl cpu = Error ErrDPDKMetricMissing" if "cpu \<notin> watched cl" for cpu
  proof -
    have "cpu \<notin> dom (deltaUsage cl)" using that inv by (auto simp: client_inv_def)
    then show ?thesis by (simp add: GetUsagePercent_def domIff)
  qed
  moreover have "GetUsagePercent (CloseConnection podUID cl) cpu = Error ErrDPDKMetricMissing"
    if "map_of (connections cl) podUID = Some c" "cpu \<in> set (watchedCPUs c)" for podUID c cpu
    using CloseConnection_Some(2)[OF that(1)] that(2) by (simp add: GetUsagePercent_def)
  moreover have "0 \<le> p \<and> p \<le> 100" if "GetUsagePercent cl cpu = Ok p" for cpu p
    using inv that by (auto simp: client_inv_def in_range_def GetUsagePercent_def split: option.splits)
  moreover have "close_connection c' delta' = close_connection c (deltaUsage cl)"
    if "conn_run d es (c, deltaUsage cl) = Ok (c', delta')" for es c c' delta'
    using close_absorbs_events[OF that] inv by (simp add: client_inv_def)
  ultimately show ?thesis by blast
qed

theorem dpdk_readings_sound_witness:
  "GetUsagePercent (CloseConnection ''pod'' (EnsureConnection ''pod'' [3] NewDPDKTelemetryClient)) 3 = Error ErrDPDKMetricMissing"
proof -
  let ?d = "\<lparr>unmarshalInit = \<lambda>_. Inl (Errorf []), unmarshalUsage = \<lambda>_. Inl (Errorf [])\<rparr>"
  have "client_reachable ?d (EnsureConnection ''pod'' [3] NewDPDKTelemetryClient)"
    by (intro client_reachable.step[OF client_reachable.init] client_step.ensure)
  from dpdk_readings_sound[OF this] show ?thesis
    by (simp add: EnsureConnection_def NewDPDKTelemetryClient_def new_connection_def)
qed

text \<open>
  Between two readings of monotone counters whose busy cycles grew by less than \<open>2 ^ 64 / 100\<close>, the
  usage is the exact percentage of busy cycles, rounded down; when it exceeds 100 the reading is
  an error, and when no cycle has passed it is 0.
\<close>
theorem window_usage_exact:
  assumes "unat (cc_total p) \<le> unat t" and "unat (cc_busy p) \<le> unat b" and "(unat b - unat (cc_busy p)) * 100 < 2 ^ 64"
  shows "window_usage (Some p) t b =
    (let dt = unat t - unat (cc_total p); pc = (unat b - unat (cc_busy p)) * 100 div dt in
     if dt = 0 then \<lparr>tr_percent = 0, tr_err = None\<rparr>
     else if pc \<le> 100 then \<lparr>tr_percent = int pc, tr_err = None\<rparr>
     else \<lparr>tr_percent = to_int64 (int pc), tr_err = Some ErrDPDKMetricNotProvided\<rparr>)"
proof -
  obtain dt db where d: "t - cc_total p = dt" "b - cc_busy p = db" by blast
  have le: "cc_total p \<le> t" "cc_busy p \<le> b" using assms(1,2) by (simp_all add: word_le_nat_alt)
  have n: "unat t - unat (cc_total p) = unat dt" "unat b - unat (cc_busy p) = unat db"
    using unat_sub[OF le(1)] unat_sub[OF le(2)] d by simp_all
  have "unat db * 100 < 2 ^ 64" using assms(3) n by simp
  note w = percent_word[OF this, of dt]
  have "dt = 0 \<longleftrightarrow> unat dt = 0" by (simp add: unat_eq_zero)
  moreover have "to_int64 (int k) = int k" if "k \<le> 100" for k using that by simp
  ultimately show ?thesis using le w by (auto simp: window_usage_def Let_def n d not_less)
qed

theorem window_usage_exact_witness:
  "window_usage (Some \<lparr>cc_total = 1000, cc_busy = 100\<rparr>) 4000 1600 = \<lparr>tr_percent = 50, tr_err = None\<rparr>"
  using window_usage_exact[of "\<lparr>cc_total = 1000, cc_busy = 100\<rparr>" 4000 1600] by simp

text \<open>
  The telemetry socket belongs to the pod, and two kinds of replies make the node agent panic: an
  initial message with a negative \<open>max_output_len\<close>, and a usage reply that lists a watched lcore
  but whose cycle arrays are too short for its index.
\<close>
theorem malformed_reply_panics:
  assumes "processCommand (unmarshalInit d) 1024 so [] = Ok msg" and "MaxOutputLength msg < 0" and "c_phase c = Dialing"
    and "processCommand (unmarshalUsage d) (c_buffer c') so' usageCommand = Ok u" and "c_phase c' = Polling"
    and "watchedCPUs c' = cpu # cpus" and "lcore_index 0 (LcoreIDs u) cpu = Some i" and "length (TotalCycles u) \<le> i"
  shows "is_panic (conn_handle d (Dialed so) (c, delta)) \<and> is_panic (conn_handle d (Tick so') (c', delta))"
  using assms by (simp add: handleInitialMessage_def handleUsage_def)

theorem malformed_reply_panics_witness:
  "\<exists>d so c c' delta. is_panic (conn_handle d (Dialed so) (c, delta)) \<and> is_panic (conn_handle d (Tick so) (c', delta))"
proof -
  let ?d = "\<lparr>unmarshalInit = \<lambda>_. Inr \<lparr>Version = [], PID = 1, MaxOutputLength = - 1\<rparr>,
     unmarshalUsage = \<lambda>_. Inr \<lparr>LcoreIDs = [3], TotalCycles = [], BusyCycles = []\<rparr>\<rparr>"
  let ?so = "\<lparr>SetWriteDeadline = None, so_Write = None, SetReadDeadline = None, so_Read = Inr []\<rparr>"
  let ?c = "new_connection ''pod'' [3]"
  have "is_panic (conn_handle ?d (Dialed ?so) (?c, Map.empty)) \<and> is_panic (conn_handle ?d (Tick ?so) (?c\<lparr>c_phase := Polling\<rparr>, Map.empty))"
    by (rule malformed_reply_panics[of ?d ?so "\<lparr>Version = [], PID = 1, MaxOutputLength = - 1\<rparr>" ?c "?c\<lparr>c_phase := Polling\<rparr>" ?so
        "\<lparr>LcoreIDs = [3], TotalCycles = [], BusyCycles = []\<rparr>" 3 "[]" 0 Map.empty])
       (simp_all add: new_connection_def processCommand_def and_then_def io_err_def)
  then show ?thesis by blast
qed

end
