(* ===== verification/Scaling.thy ===== *)
theory Scaling
  imports Dpdk_Client PStates
begin

text \<open>
  \<open>internal/scaling\<close>: the updater, which reads the usage of a CPU and sets its frequency, the worker,
  a goroutine that calls the updater for one CPU, and the manager, which keeps the workers.
  Durations are numbers of nanoseconds. The options of a worker are an object that the loop
  changes through a pointer, while \<open>UpdateOpts\<close> stores another pointer; the model keeps the
  objects of a worker in a list and pointers as indices.
\<close>

section \<open>Options\<close>

definition FrequencyNotYetSet :: int where
  "FrequencyNotYetSet = - 1"

record CPUScalingOpts =
  so_CPU :: nat
  so_SamplePeriod :: int
  so_CooldownPeriod :: int
  so_TargetUsage :: int
  so_AllowedUsageDifference :: int
  so_AllowedFrequencyDifference :: int
  HWMaxFrequency :: int
  HWMinFrequency :: int
  CurrentTargetFrequency :: int
  ScaleFactor :: float64
  FallbackFreq :: int

section \<open>The updater\<close>

definition frequencyInAllowedDifference :: "int \<Rightarrow> CPUScalingOpts \<Rightarrow> bool" where
  "frequencyInAllowedDifference frequency opts =
     (CurrentTargetFrequency opts \<noteq> FrequencyNotYetSet \<and>
      to_int64 (CurrentTargetFrequency opts - so_AllowedFrequencyDifference opts) \<le> frequency \<and>
      frequency \<le> to_int64 (CurrentTargetFrequency opts + so_AllowedFrequencyDifference opts))"

text \<open>Setting a frequency, and remembering it when that worked.\<close>

definition set_target ::
  "env \<Rightarrow> pkgvars \<Rightarrow> int \<Rightarrow> int \<Rightarrow> CPUScalingOpts \<Rightarrow> sys \<Rightarrow> sys \<times> CPUScalingOpts \<times> int" where
  "set_target env g frequency waitFor opts sy =
     (case SetCPUFrequency env g (so_CPU opts) (to_uint64 frequency) sy of
        (sy, Ok _) \<Rightarrow> (sy, opts\<lparr>CurrentTargetFrequency := frequency\<rparr>, waitFor)
      | (sy, _) \<Rightarrow> (sy, opts, so_SamplePeriod opts))"

definition set_fallback :: "env \<Rightarrow> pkgvars \<Rightarrow> CPUScalingOpts \<Rightarrow> sys \<Rightarrow> sys \<times> CPUScalingOpts \<times> int" where
  "set_fallback env g opts sy =
     (if frequencyInAllowedDifference (FallbackFreq opts) opts then (sy, opts, so_SamplePeriod opts)
      else set_target env g (FallbackFreq opts) (so_SamplePeriod opts) opts sy)"

definition scaled_frequency :: "int \<Rightarrow> int \<Rightarrow> CPUScalingOpts \<Rightarrow> float64" where
  "scaled_frequency currentFrequency currentUsage opts =
     fmul (float_of_int currentFrequency)
       (fadd (Fin 1)
          (fmul (fsub (fdiv (float_of_int currentUsage) (float_of_int (so_TargetUsage opts))) (Fin 1))
             (ScaleFactor opts)))"

definition next_frequency :: "(float64 \<Rightarrow> int) \<Rightarrow> int \<Rightarrow> int \<Rightarrow> CPUScalingOpts \<Rightarrow> int" where
  "next_frequency oor currentFrequency currentUsage opts =
     (let nextFrequency = float_to_int oor (scaled_frequency currentFrequency currentUsage opts);
          nextFrequency = (if nextFrequency < HWMinFrequency opts then HWMinFrequency opts else nextFrequency)
      in if HWMaxFrequency opts < nextFrequency then HWMaxFrequency opts else nextFrequency)"

definition in_target :: "int \<Rightarrow> CPUScalingOpts \<Rightarrow> bool" where
  "in_target currentUsage opts =
     (to_int64 (so_TargetUsage opts - so_AllowedUsageDifference opts) \<le> currentUsage \<and>
      currentUsage \<le> to_int64 (so_TargetUsage opts + so_AllowedUsageDifference opts))"

text \<open>The result is the files, the options, which \<open>Update\<close> changes in place, and the time to wait.\<close>

definition Update ::
  "env \<Rightarrow> pkgvars \<Rightarrow> (nat \<Rightarrow> int res) \<Rightarrow> CPUScalingOpts \<Rightarrow> sys \<Rightarrow> sys \<times> CPUScalingOpts \<times> int" where
  "Update env g usage opts sy =
     (case usage (so_CPU opts) of
        Ok currentUsage \<Rightarrow>
          if in_target currentUsage opts then (sy, opts, so_SamplePeriod opts)
          else
            (case GetCurrentCPUFrequency env g (so_CPU opts) sy of
               (sy, Ok cur) \<Rightarrow>
                 (let nextFrequency = next_frequency (float_oor env) (to_int64 (int cur)) currentUsage opts in
                  if frequencyInAllowedDifference nextFrequency opts then (sy, opts, so_SamplePeriod opts)
                  else set_target env g nextFrequency (so_CooldownPeriod opts) opts sy)
             | (sy, _) \<Rightarrow> set_fallback env g opts sy)
      | _ \<Rightarrow> set_fallback env g opts sy)"

section \<open>The worker\<close>

text \<open>\<open>w_ptr\<close> is the atomic pointer, \<open>w_local\<close> the variable \<open>opts\<close> of the loop once it has started.\<close>

record worker =
  w_cpuID :: nat
  w_objs :: "CPUScalingOpts list"
  w_ptr :: nat
  w_local :: "nat option"
  w_waitFor :: int
  w_running :: bool

definition NewCPUScalingWorker :: "nat \<Rightarrow> CPUScalingOpts \<Rightarrow> worker" where
  "NewCPUScalingWorker cpuID opts =
     \<lparr>w_cpuID = cpuID, w_objs = [opts], w_ptr = 0, w_local = None, w_waitFor = so_SamplePeriod opts, w_running = True\<rparr>"

definition UpdateOpts :: "CPUScalingOpts \<Rightarrow> worker \<Rightarrow> worker" where
  "UpdateOpts opts w = w\<lparr>w_objs := w_objs w @ [opts], w_ptr := length (w_objs w)\<rparr>"

definition Worker_Stop :: "worker \<Rightarrow> worker" where
  "Worker_Stop w = w\<lparr>w_running := False\<rparr>"

text \<open>The start of the loop, and one round of it: the timer fires, and the pointer is read again.\<close>

definition loop_start :: "worker \<Rightarrow> worker" where
  "loop_start w = w\<lparr>w_local := Some (w_ptr w), w_waitFor := so_SamplePeriod (w_objs w ! w_ptr w)\<rparr>"

definition loop_tick :: "env \<Rightarrow> pkgvars \<Rightarrow> (nat \<Rightarrow> int res) \<Rightarrow> nat \<Rightarrow> worker \<times> sys \<Rightarrow> worker \<times> sys" where
  "loop_tick env g usage i = (\<lambda>(w, sy).
     case Update env g usage (w_objs w ! i) sy of
       (sy, opts, waitFor) \<Rightarrow>
         (w\<lparr>w_objs := (w_objs w)[i := opts], w_waitFor := waitFor, w_local := Some (w_ptr w)\<rparr>, sy))"

text \<open>
  Other goroutines change files at any time (\<open>others\<close>); the client's readings change too, so that every
  tick has its own \<open>usage\<close>, drawn from the set \<open>U\<close> of readings the client can give. The options come
  from a set \<open>A\<close>.
\<close>

inductive worker_step ::
  "env \<Rightarrow> pkgvars \<Rightarrow> (nat \<Rightarrow> int res) set \<Rightarrow> CPUScalingOpts set \<Rightarrow> worker \<times> sys \<Rightarrow> worker \<times> sys \<Rightarrow> bool"
  for env g U A where
  start: "w_running w \<Longrightarrow> w_local w = None \<Longrightarrow> worker_step env g U A (w, sy) (loop_start w, sy)"
| tick: "w_running w \<Longrightarrow> w_local w = Some i \<Longrightarrow> usage \<in> U \<Longrightarrow> worker_step env g U A (w, sy) (loop_tick env g usage i (w, sy))"
| update: "opts \<in> A \<Longrightarrow> worker_step env g U A (w, sy) (UpdateOpts opts w, sy)"
| stop: "worker_step env g U A (w, sy) (Worker_Stop w, sy)"
| others: "worker_step env g U A (w, sy) (w, sy')"

inductive worker_reachable ::
  "env \<Rightarrow> pkgvars \<Rightarrow> (nat \<Rightarrow> int res) set \<Rightarrow> CPUScalingOpts set \<Rightarrow> nat \<Rightarrow> worker \<times> sys \<Rightarrow> bool"
  for env g U A cpuID where
  new: "opts \<in> A \<Longrightarrow> worker_reachable env g U A cpuID (NewCPUScalingWorker cpuID opts, sy)"
| step: "worker_reachable env g U A cpuID s \<Longrightarrow> worker_step env g U A s s' \<Longrightarrow> worker_reachable env g U A cpuID s'"

section \<open>The manager\<close>

record manager =
  workers :: "(nat \<times> worker) list"

definition NewCPUScalingManager :: manager where
  "NewCPUScalingManager = \<lparr>workers = []\<rparr>"

definition getCPUScalingWorker :: "nat \<Rightarrow> manager \<Rightarrow> worker option" where
  "getCPUScalingWorker cpuID m = map_of (workers m) cpuID"

definition add_scaling :: "CPUScalingOpts \<Rightarrow> manager \<Rightarrow> manager" where
  "add_scaling opts m =
     (case getCPUScalingWorker (so_CPU opts) m of
        None \<Rightarrow> m\<lparr>workers := AList.update (so_CPU opts) (NewCPUScalingWorker (so_CPU opts) opts) (workers m)\<rparr>
      | Some w \<Rightarrow> m\<lparr>workers := AList.update (so_CPU opts) (UpdateOpts opts w) (workers m)\<rparr>)"

definition AddCPUScaling :: "CPUScalingOpts list \<Rightarrow> manager \<Rightarrow> manager" where
  "AddCPUScaling optsList m = fold add_scaling optsList m"

text \<open>\<open>LoadAndDelete\<close>, and \<open>Stop\<close> of what was there: the workers stopped are returned.\<close>

fun RemoveCPUScaling :: "nat list \<Rightarrow> manager \<Rightarrow> manager \<times> worker list" where
  "RemoveCPUScaling [] m = (m, [])"
| "RemoveCPUScaling (cpuID # cpuIDs) m =
     (case map_of (workers m) cpuID of
        None \<Rightarrow> RemoveCPUScaling cpuIDs m
      | Some w \<Rightarrow>
          (case RemoveCPUScaling cpuIDs (m\<lparr>workers := AList.delete cpuID (workers m)\<rparr>) of
             (m', ws) \<Rightarrow> (m', Worker_Stop w # ws)))"

definition getManagedCPUIDs :: "manager \<Rightarrow> nat list" where
  "getManagedCPUIDs m = map fst (workers m)"

definition Manager_stop :: "manager \<Rightarrow> manager \<times> worker list" where
  "Manager_stop m = RemoveCPUScaling (getManagedCPUIDs m) m"

section \<open>Facts about the updater\<close>

lemma fl_between_fin:
  assumes "of_int a \<le> q" and "q \<le> of_int b" and "\<bar>a\<bar> < 2 ^ 53" and "\<bar>b\<bar> < 2 ^ 53"
  shows "\<exists>v. fl q = Fin v \<and> of_int a \<le> v \<and> v \<le> of_int b"
  using fl_between[OF assms] by metis

text \<open>The factor by which the frequency is scaled lies on the right side of 1.\<close>

lemma scale_factor_up:
  assumes "0 < t" and "t \<le> u" and "u \<le> 100" and "0 \<le> sf" and "sf \<le> 100"
  obtains v where "fadd (Fin 1) (fmul (fsub (fdiv (float_of_int u) (float_of_int t)) (Fin 1)) (Fin sf)) = Fin v"
    and "1 \<le> v" and "v \<le> 10001"
proof -
  have f: "float_of_int u = Fin (of_int u)" "float_of_int t = Fin (of_int t)"
    using assms by (simp_all add: float_of_int_def)
  have "(of_int 1 :: rat) \<le> of_int u / of_int t" using assms by (simp add: pos_le_divide_eq)
  moreover have "(of_int u / of_int t :: rat) \<le> of_int 100"
  proof -
    have "(of_int u :: rat) \<le> of_int (100 * t)" using assms by (simp only: of_int_le_iff)
    then show ?thesis using assms(1) by (simp add: pos_divide_le_eq)
  qed
  ultimately obtain a where a: "fl (of_int u / of_int t) = Fin a" "1 \<le> a" "a \<le> 100"
    using fl_between_fin[of 1 "of_int u / of_int t" 100] by auto
  obtain b where b: "fl (a + - 1) = Fin b" "0 \<le> b" "b \<le> 100" using fl_between_fin[of 0 "a + - 1" 100] a by auto
  have "b * sf \<le> 100 * 100" using b assms by (intro mult_mono) simp_all
  then obtain c where c: "fl (b * sf) = Fin c" "0 \<le> c" "c \<le> 10000"
    using fl_between_fin[of 0 "b * sf" 10000] b assms by auto
  obtain v where v: "fl (1 + c) = Fin v" "1 \<le> v" "v \<le> 10001" using fl_between_fin[of 1 "1 + c" 10001] c by auto
  have "fdiv (float_of_int u) (float_of_int t) = Fin a" using f a assms by simp
  then show ?thesis using that[of v] b c v by (simp add: fsub_def)
qed

lemma scale_factor_down:
  assumes "0 < t" and "0 \<le> u" and "u \<le> t" and "t \<le> 100" and "0 \<le> sf" and "sf \<le> 100"
  obtains v where "fadd (Fin 1) (fmul (fsub (fdiv (float_of_int u) (float_of_int t)) (Fin 1)) (Fin sf)) = Fin v"
    and "- 100 \<le> v" and "v \<le> 1"
proof -
  have f: "float_of_int u = Fin (of_int u)" "float_of_int t = Fin (of_int t)"
    using assms by (simp_all add: float_of_int_def)
  have "(of_int 0 :: rat) \<le> of_int u / of_int t" "(of_int u / of_int t :: rat) \<le> of_int 1"
    using assms by (simp_all add: pos_divide_le_eq)
  then obtain a where a: "fl (of_int u / of_int t) = Fin a" "0 \<le> a" "a \<le> 1"
    using fl_between_fin[of 0 "of_int u / of_int t" 1] by auto
  obtain b where b: "fl (a + - 1) = Fin b" "- 1 \<le> b" "b \<le> 0" using fl_between_fin[of "- 1" "a + - 1" 0] a by auto
  have "- b * sf \<le> 1 * 100" using b assms by (intro mult_mono) simp_all
  moreover have "b * sf \<le> 0" using b assms by (simp add: mult_le_0_iff)
  ultimately obtain c where c: "fl (b * sf) = Fin c" "- 100 \<le> c" "c \<le> 0"
    using fl_between_fin[of "- 100" "b * sf" 0] by auto
  obtain v where v: "fl (1 + c) = Fin v" "- 99 \<le> v" "v \<le> 1" using fl_between_fin[of "- 99" "1 + c" 1] c by auto
  have "fdiv (float_of_int u) (float_of_int t) = Fin a" using f a assms by simp
  then show ?thesis using that[of v] b c v by (simp add: fsub_def)
qed

definition scale_ok :: "CPUScalingOpts \<Rightarrow> bool" where
  "scale_ok opts = (0 < so_TargetUsage opts \<and> so_TargetUsage opts \<le> 100 \<and>
     (\<exists>sf. ScaleFactor opts = Fin sf \<and> 0 \<le> sf \<and> sf \<le> 100))"

lemma trunc_ge: "0 \<le> i \<Longrightarrow> of_int i \<le> v \<Longrightarrow> i \<le> trunc v"
  by (auto simp: trunc_def le_floor_iff intro: order_trans[of 0 "of_int i" v] split: if_splits)

lemma trunc_le: "0 \<le> i \<Longrightarrow> v \<le> of_int i \<Longrightarrow> trunc v \<le> i"
  by (auto simp: trunc_def ceiling_le_iff) (metis floor_mono floor_of_int)

lemma float_to_int_Fin:
  assumes "of_int a \<le> v" and "v \<le> of_int b" and "- (2 ^ 62) \<le> a" and "b \<le> 2 ^ 62"
  shows "float_to_int oor (Fin v) = trunc v"
proof -
  have "a - 1 \<le> trunc v" "trunc v \<le> b + 1"
    using assms(1,2) by (auto simp: trunc_def) linarith+
  then have "- (2 ^ 63) \<le> trunc v" "trunc v < 2 ^ 63" using assms(3,4) by simp_all
  then show ?thesis by (simp add: float_to_int_def)
qed

text \<open>The frequency before it is cut to the limits of the hardware moves the right way.\<close>

lemma scaled_direction:
  assumes "scale_ok opts" and "0 \<le> cur" and "cur < 2 ^ 39" and "0 \<le> u" and "u \<le> 100"
  shows "so_TargetUsage opts \<le> u \<Longrightarrow> cur \<le> float_to_int oor (scaled_frequency cur u opts)"
    and "u \<le> so_TargetUsage opts \<Longrightarrow> float_to_int oor (scaled_frequency cur u opts) \<le> cur"
proof -
  obtain sf where sf: "ScaleFactor opts = Fin sf" "0 \<le> sf" "sf \<le> 100" and t: "0 < so_TargetUsage opts" "so_TargetUsage opts \<le> 100"
    using assms(1) by (auto simp: scale_ok_def)
  have c: "float_of_int cur = Fin (of_int cur)" using assms(2,3) by (simp add: float_of_int_def)
  have c0: "(0 :: rat) \<le> of_int cur" using assms(2) by simp
  show "cur \<le> float_to_int oor (scaled_frequency cur u opts)" if up: "so_TargetUsage opts \<le> u"
  proof -
    obtain v where v: "fadd (Fin 1) (fmul (fsub (fdiv (float_of_int u) (float_of_int (so_TargetUsage opts))) (Fin 1)) (Fin sf)) = Fin v"
      "1 \<le> v" "v \<le> 10001" using scale_factor_up[OF t(1) up assms(5) sf(2,3)] by metis
    have "of_int cur \<le> of_int cur * v" "of_int cur * v \<le> of_int (cur * 10001)"
      using v c0 mult_left_mono[of 1 v "of_int cur"] mult_left_mono[of v 10001 "of_int cur"] by simp_all
    then obtain x where x: "fl (of_int cur * v) = Fin x" "of_int cur \<le> x" "x \<le> of_int (cur * 10001)"
      using fl_between_fin[of cur "of_int cur * v" "cur * 10001"] assms(2,3) by auto
    have "scaled_frequency cur u opts = Fin x" by (simp add: scaled_frequency_def sf(1) v(1) c x(1))
    then show ?thesis using float_to_int_Fin[OF x(2,3)] trunc_ge[OF assms(2) x(2)] assms(2,3) by simp
  qed
  show "float_to_int oor (scaled_frequency cur u opts) \<le> cur" if dn: "u \<le> so_TargetUsage opts"
  proof -
    obtain v where v: "fadd (Fin 1) (fmul (fsub (fdiv (float_of_int u) (float_of_int (so_TargetUsage opts))) (Fin 1)) (Fin sf)) = Fin v"
      "- 100 \<le> v" "v \<le> 1" using scale_factor_down[OF t(1) assms(4) dn t(2) sf(2,3)] by metis
    have "of_int (cur * - 100) \<le> of_int cur * v" "of_int cur * v \<le> of_int cur"
      using v c0 mult_left_mono[of v 1 "of_int cur"] mult_left_mono[of "- 100" v "of_int cur"] by simp_all
    then obtain x where x: "fl (of_int cur * v) = Fin x" "of_int (cur * - 100) \<le> x" "x \<le> of_int cur"
      using fl_between_fin[of "cur * - 100" "of_int cur * v" cur] assms(2,3) by auto
    have "scaled_frequency cur u opts = Fin x" by (simp add: scaled_frequency_def sf(1) v(1) c x(1))
    then show ?thesis using float_to_int_Fin[OF x(2,3)] trunc_le[OF assms(2) x(3)] assms(2,3) by simp
  qed
qed

definition opts_ok :: "CPUScalingOpts \<Rightarrow> bool" where
  "opts_ok opts = (0 \<le> HWMinFrequency opts \<and> HWMinFrequency opts \<le> FallbackFreq opts \<and>
     FallbackFreq opts \<le> HWMaxFrequency opts \<and> HWMaxFrequency opts < 2 ^ 63)"

lemma next_frequency_bounds:
  "HWMinFrequency opts \<le> HWMaxFrequency opts \<Longrightarrow>
   HWMinFrequency opts \<le> next_frequency oor cur u opts \<and> next_frequency oor cur u opts \<le> HWMaxFrequency opts"
  by (simp add: next_frequency_def Let_def)

abbreviation speed_file :: "pkgvars \<Rightarrow> nat \<Rightarrow> string" where
  "speed_file g cpu \<equiv> cpu_path g cpu scalingSetSpeedFile"

text \<open>\<open>took_effect\<close>: frequency \<open>f\<close> was written for the CPU and is the new target.\<close>

definition took_effect ::
  "pkgvars \<Rightarrow> int \<Rightarrow> CPUScalingOpts \<Rightarrow> sys \<Rightarrow> CPUScalingOpts \<Rightarrow> sys \<Rightarrow> bool" where
  "took_effect g f opts sy opts' sy' =
     (files sy' = (files sy)(speed_file g (so_CPU opts) \<mapsto> nat_str (nat f)) \<and> opts' = opts\<lparr>CurrentTargetFrequency := f\<rparr>)"

lemma set_target_cases:
  assumes "set_target env g f wait opts sy = (sy', opts', d)" and "0 \<le> f" and "f < 2 ^ 63"
  obtains "files sy' = files sy" and "opts' = opts" and "d = so_SamplePeriod opts"
  | "took_effect g f opts sy opts' sy'" and "d = wait"
proof -
  have u: "to_uint64 f = nat f" using assms(2,3) by (simp add: to_uint64_def)
  obtain t r where w: "SetCPUFrequency env g (so_CPU opts) (nat f) sy = (t, r)" by (cases "SetCPUFrequency env g (so_CPU opts) (nat f) sy")
  show ?thesis
  proof (cases r)
    case (Ok x)
    have "files t = (files sy)(speed_file g (so_CPU opts) \<mapsto> nat_str (nat f))"
      using w Ok by (auto simp: SetCPUFrequency_def WriteFile_def Let_def wrap_err_def split: option.splits)
    then show ?thesis using that(2) assms(1) w Ok by (simp add: set_target_def u took_effect_def)
  next
    case (Error e)
    have "files t = files sy"
      using w Error by (auto simp: SetCPUFrequency_def WriteFile_def Let_def wrap_err_def split: option.splits)
    then show ?thesis using that(1) assms(1) w Error by (auto simp: set_target_def u)
  next
    case (Panic m)
    then show ?thesis using w by (simp add: SetCPUFrequency_def WriteFile_def wrap_err_def Let_def split: option.splits)
  qed
qed

lemma GetCurrentCPUFrequency_files: "files (fst (GetCurrentCPUFrequency env g cpu sy)) = files sy"
  by (simp add: GetCurrentCPUFrequency_def readCpuUintProperty_def readUintFromFile_def readStringFromFile_def
      then_do_def split: res.split prod.split)

lemma Update_fallback:
  assumes "opts_ok opts" and "set_fallback env g opts sy = (sy', opts', d)"
  obtains "files sy' = files sy" and "opts' = opts" and "d = so_SamplePeriod opts"
  | "took_effect g (FallbackFreq opts) opts sy opts' sy'" and "d = so_SamplePeriod opts"
      and "\<not> frequencyInAllowedDifference (FallbackFreq opts) opts"
proof (cases "frequencyInAllowedDifference (FallbackFreq opts) opts")
  case True
  then show ?thesis using assms(2) that(1) by (auto simp: set_fallback_def)
next
  case False
  then have st: "set_target env g (FallbackFreq opts) (so_SamplePeriod opts) opts sy = (sy', opts', d)"
    using assms(2) by (simp add: set_fallback_def)
  have f: "0 \<le> FallbackFreq opts" "FallbackFreq opts < 2 ^ 63" using assms(1) by (auto simp: opts_ok_def)
  show ?thesis by (cases rule: set_target_cases[OF st f]) (use False that in blast)+
qed

text \<open>Every outcome of \<open>Update\<close>: nothing, the fallback frequency, or the next frequency.\<close>

lemma Update_cases:
  assumes "opts_ok opts" and "Update env g usage opts sy = (sy', opts', d)"
  obtains (skipped) "files sy' = files sy" and "opts' = opts" and "d = so_SamplePeriod opts"
  | (fallback) "took_effect g (FallbackFreq opts) opts sy opts' sy'" and "d = so_SamplePeriod opts"
      and "\<not> frequencyInAllowedDifference (FallbackFreq opts) opts"
      and "(\<forall>u. usage (so_CPU opts) \<noteq> Ok u) \<or> (\<forall>cur. snd (GetCurrentCPUFrequency env g (so_CPU opts) sy) \<noteq> Ok cur)"
  | (scaled) u cur where "usage (so_CPU opts) = Ok u" and "\<not> in_target u opts"
      and "snd (GetCurrentCPUFrequency env g (so_CPU opts) sy) = Ok cur"
      and "\<not> frequencyInAllowedDifference (next_frequency (float_oor env) (to_int64 (int cur)) u opts) opts"
      and "took_effect g (next_frequency (float_oor env) (to_int64 (int cur)) u opts) opts sy opts' sy'"
      and "d = so_CooldownPeriod opts"
proof -
  have fb: thesis if "set_fallback env g opts t = (sy', opts', d)" "files t = files sy"
      "(\<forall>u. usage (so_CPU opts) \<noteq> Ok u) \<or> (\<forall>cur. snd (GetCurrentCPUFrequency env g (so_CPU opts) sy) \<noteq> Ok cur)" for t
  proof (cases rule: Update_fallback[OF assms(1) that(1)])
    case 1
    show ?thesis by (rule skipped) (use 1 that(2) in simp_all)
  next
    case 2
    show ?thesis by (rule fallback) (use 2 that(2,3) in \<open>simp_all add: took_effect_def\<close>)
  qed
  show ?thesis
  proof (cases "\<exists>u. usage (so_CPU opts) = Ok u")
    case False
    then have "set_fallback env g opts sy = (sy', opts', d)"
      using assms(2) by (cases "usage (so_CPU opts)") (auto simp: Update_def)
    then show ?thesis using fb False by blast
  next
    case True
    then obtain u where u: "usage (so_CPU opts) = Ok u" by blast
    obtain t r where t: "GetCurrentCPUFrequency env g (so_CPU opts) sy = (t, r)" by (cases "GetCurrentCPUFrequency env g (so_CPU opts) sy")
    then have ft: "files t = files sy" using GetCurrentCPUFrequency_files by (metis fst_conv)
    show ?thesis
    proof (cases "in_target u opts")
      case True
      then have "sy' = sy \<and> opts' = opts \<and> d = so_SamplePeriod opts" using assms(2) u by (auto simp: Update_def)
      then show ?thesis using skipped by simp
    next
      case out: False
      show ?thesis
      proof (cases "\<exists>cur. r = Ok cur")
        case False
        then have "set_fallback env g opts t = (sy', opts', d)" using assms(2) u t out by (cases r) (auto simp: Update_def)
        then show ?thesis using fb ft t False by simp
      next
        case True
        then obtain cur where cur: "r = Ok cur" by blast
        let ?f = "next_frequency (float_oor env) (to_int64 (int cur)) u opts"
        have f: "0 \<le> ?f" "?f < 2 ^ 63"
          using next_frequency_bounds[of opts "float_oor env" "to_int64 (int cur)" u] assms(1) by (auto simp: opts_ok_def)
        show ?thesis
        proof (cases "frequencyInAllowedDifference ?f opts")
          case True
          then have "sy' = t \<and> opts' = opts \<and> d = so_SamplePeriod opts" using assms(2) u t out cur by (auto simp: Update_def)
          then show ?thesis using ft skipped by simp
        next
          case False
          then have st: "set_target env g ?f (so_CooldownPeriod opts) opts t = (sy', opts', d)"
            using assms(2) u t out cur by (simp add: Update_def)
          show ?thesis
          proof (cases rule: set_target_cases[OF st f])
            case 1
            show ?thesis by (rule skipped) (use 1 ft in simp_all)
          next
            case 2
            show ?thesis by (rule scaled[OF u out _ False]) (use 2 ft t cur in \<open>simp_all add: took_effect_def\<close>)
          qed
        qed
      qed
    qed
  qed
qed

section \<open>Sources of readings\<close>

text \<open>What the updater relies on: a reading is a percentage.\<close>

locale usage_source =
  fixes usage :: "'s \<Rightarrow> nat \<Rightarrow> int res" and ok :: "'s \<Rightarrow> bool"
  assumes usage_range: "ok s \<Longrightarrow> usage s c = Ok p \<Longrightarrow> 0 \<le> p \<and> p \<le> 100"
begin

lemma direction:
  assumes "ok s" and "scale_ok opts" and "HWMinFrequency opts \<le> HWMaxFrequency opts" and "usage s c = Ok u" and "cur < 2 ^ 39"
  shows "so_TargetUsage opts \<le> u \<Longrightarrow> min (int cur) (HWMaxFrequency opts) \<le> next_frequency oor (to_int64 (int cur)) u opts"
    and "u \<le> so_TargetUsage opts \<Longrightarrow> next_frequency oor (to_int64 (int cur)) u opts \<le> max (int cur) (HWMinFrequency opts)"
proof -
  have c: "to_int64 (int cur) = int cur" using assms(5) by simp
  have cur: "int cur < 2 ^ 39" using assms(5) by simp
  note d = scaled_direction[OF assms(2) _ cur, of u oor] and r = usage_range[OF assms(1,4)]
  show "min (int cur) (HWMaxFrequency opts) \<le> next_frequency oor (to_int64 (int cur)) u opts" if "so_TargetUsage opts \<le> u"
    using d(1) r that by (auto simp: next_frequency_def Let_def c)
  show "next_frequency oor (to_int64 (int cur)) u opts \<le> max (int cur) (HWMinFrequency opts)" if "u \<le> so_TargetUsage opts"
    using d(2) r that assms(3) by (auto simp: next_frequency_def Let_def c)
qed

end

lemma reachable_usage_range: "client_reachable d cl \<Longrightarrow> GetUsagePercent cl c = Ok p \<Longrightarrow> 0 \<le> p \<and> p \<le> 100"
  using client_reachable_inv[of d cl]
  by (auto simp: client_inv_def in_range_def GetUsagePercent_def split: option.splits)

interpretation dpdk: usage_source GetUsagePercent "client_reachable d" for d
  by unfold_locales (rule reachable_usage_range)

text \<open>
  A target of 0 percent, which the CRD admits, makes the quotient infinite for a CPU in use, and
  what \<open>int\<close> makes of it is left to the implementation.
\<close>

lemma target_zero_unspecified:
  assumes "so_TargetUsage opts = 0" and "ScaleFactor opts = Fin sf" and "0 < sf"
    and "0 < u" and "u < 2 ^ 53" and "0 < cur" and "cur < 2 ^ 53"
  shows "float_to_int oor (scaled_frequency cur u opts) = oor PosInf"
proof -
  have "fl 0 = Fin 0" using fl_of_int[of 0] by simp
  then show ?thesis
    using assms by (simp add: scaled_frequency_def float_of_int_def fsub_def inf_times_def float_to_int_def)
qed

section \<open>Facts about workers and the manager\<close>

definition target_ok :: "CPUScalingOpts \<Rightarrow> bool" where
  "target_ok opts = (CurrentTargetFrequency opts = FrequencyNotYetSet \<or>
     HWMinFrequency opts \<le> CurrentTargetFrequency opts \<and> CurrentTargetFrequency opts \<le> HWMaxFrequency opts)"

definition good_opts :: "nat \<Rightarrow> CPUScalingOpts set" where
  "good_opts cpuID = {opts. opts_ok opts \<and> target_ok opts \<and> so_CPU opts = cpuID}"

definition worker_inv :: "nat \<Rightarrow> worker \<Rightarrow> bool" where
  "worker_inv cpuID w =
     (set (w_objs w) \<subseteq> good_opts cpuID \<and> w_ptr w < length (w_objs w) \<and>
      (\<forall>i. w_local w = Some i \<longrightarrow> i < length (w_objs w)))"

lemma Update_good:
  assumes "opts \<in> good_opts cpuID" and "Update env g usage opts sy = (sy', opts', d)"
  shows "opts' \<in> good_opts cpuID"
    and "files sy' = files sy \<or> (\<exists>f. HWMinFrequency opts \<le> f \<and> f \<le> HWMaxFrequency opts \<and>
       files sy' = (files sy)(speed_file g cpuID \<mapsto> nat_str (nat f)))"
proof -
  have ok: "opts_ok opts" and o: "target_ok opts" "so_CPU opts = cpuID" using assms(1) by (simp_all add: good_opts_def)
  have b: "HWMinFrequency opts \<le> HWMaxFrequency opts" using ok by (auto simp: opts_ok_def)
  have "opts' \<in> good_opts cpuID \<and> (files sy' = files sy \<or> (\<exists>f. HWMinFrequency opts \<le> f \<and> f \<le> HWMaxFrequency opts \<and>
       files sy' = (files sy)(speed_file g cpuID \<mapsto> nat_str (nat f))))"
  proof (cases rule: Update_cases[OF ok assms(2)])
    case 1
    then show ?thesis using assms(1) by simp
  next
    case 2
    then show ?thesis using ok o by (auto simp: took_effect_def good_opts_def opts_ok_def target_ok_def)
  next
    case (3 u cur)
    then show ?thesis using ok o next_frequency_bounds[OF b, of "float_oor env" "to_int64 (int cur)" u]
      by (auto simp: took_effect_def good_opts_def opts_ok_def target_ok_def)
  qed
  then show "opts' \<in> good_opts cpuID"
    "files sy' = files sy \<or> (\<exists>f. HWMinFrequency opts \<le> f \<and> f \<le> HWMaxFrequency opts \<and>
       files sy' = (files sy)(speed_file g cpuID \<mapsto> nat_str (nat f)))" by simp_all
qed

lemma worker_inv_tick:
  assumes "worker_inv cpuID w" and "w_local w = Some i" and "loop_tick env g usage i (w, sy) = (w', sy')"
  shows "worker_inv cpuID w'"
    and "files sy' = files sy \<or> (\<exists>f. HWMinFrequency (w_objs w ! i) \<le> f \<and> f \<le> HWMaxFrequency (w_objs w ! i) \<and>
       files sy' = (files sy)(speed_file g cpuID \<mapsto> nat_str (nat f)))"
proof -
  obtain t opts d where u: "Update env g usage (w_objs w ! i) sy = (t, opts, d)" by (cases "Update env g usage (w_objs w ! i) sy") auto
  have i: "i < length (w_objs w)" and sub: "set (w_objs w) \<subseteq> good_opts cpuID" and ptr: "w_ptr w < length (w_objs w)"
    using assms(1,2) by (simp_all add: worker_inv_def)
  then have "w_objs w ! i \<in> good_opts cpuID" using nth_mem by blast
  note g = Update_good[OF this u]
  have w': "w' = w\<lparr>w_objs := (w_objs w)[i := opts], w_waitFor := d, w_local := Some (w_ptr w)\<rparr>" "sy' = t"
    using assms(3) u by (simp_all add: loop_tick_def)
  have "set ((w_objs w)[i := opts]) \<subseteq> good_opts cpuID" using set_update_subset_insert[of "w_objs w" i opts] sub g(1) by blast
  then show "worker_inv cpuID w'" using ptr by (simp add: worker_inv_def w')
  show "files sy' = files sy \<or> (\<exists>f. HWMinFrequency (w_objs w ! i) \<le> f \<and> f \<le> HWMaxFrequency (w_objs w ! i) \<and>
       files sy' = (files sy)(speed_file g cpuID \<mapsto> nat_str (nat f)))" using g(2) w'(2) by simp
qed

lemma worker_reachable_inv:
  assumes "worker_reachable env g U A cpuID s" and "A \<subseteq> good_opts cpuID"
  shows "worker_inv cpuID (fst s)"
  using assms(1)
proof (induction rule: worker_reachable.induct)
  case (new opts sy)
  then show ?case using assms(2) by (auto simp: worker_inv_def NewCPUScalingWorker_def)
next
  case (step s s')
  from step(2,3) show ?case
  proof cases
    case (tick w i usage sy)
    then show ?thesis using worker_inv_tick(1)[of cpuID w i env g usage sy "fst s'" "snd s'"] step(3) by simp
  next
    case (update opts w sy)
    then show ?thesis using step(3) assms(2) by (fastforce simp: worker_inv_def UpdateOpts_def)
  qed (auto simp: worker_inv_def loop_start_def Worker_Stop_def)
qed

text \<open>The manager as a map from CPUs to the options their workers will use next.\<close>

definition managed :: "manager \<Rightarrow> nat \<rightharpoonup> CPUScalingOpts" where
  "managed m cpu = map_option (\<lambda>w. w_objs w ! w_ptr w) (map_of (workers m) cpu)"

lemma managed_add: "managed (add_scaling opts m) = (managed m)(so_CPU opts \<mapsto> opts)"
  by (auto simp: managed_def add_scaling_def getCPUScalingWorker_def fun_eq_iff update_conv NewCPUScalingWorker_def
      UpdateOpts_def split: option.split)

lemma managed_AddCPUScaling: "managed (AddCPUScaling os m) = fold (\<lambda>opts M. M(so_CPU opts \<mapsto> opts)) os (managed m)"
  unfolding AddCPUScaling_def by (induction os arbitrary: m) (simp_all add: managed_add)

lemma managed_RemoveCPUScaling:
  "managed (fst (RemoveCPUScaling ids m)) = managed m |` (- set ids) \<and>
   (\<forall>w \<in> set (snd (RemoveCPUScaling ids m)). \<not> w_running w)"
proof (induction ids m rule: RemoveCPUScaling.induct)
  case (2 cpuID cpuIDs m)
  show ?case
  proof (cases "map_of (workers m) cpuID")
    case None
    then have "managed m |` (- set (cpuID # cpuIDs)) = managed m |` (- set cpuIDs)"
      by (auto simp: fun_eq_iff restrict_map_def managed_def)
    then show ?thesis using 2(1)[OF None] None by simp
  next
    case (Some w)
    have "managed (m\<lparr>workers := AList.delete cpuID (workers m)\<rparr>) |` (- set cpuIDs) = managed m |` (- set (cpuID # cpuIDs))"
      by (auto simp: fun_eq_iff restrict_map_def managed_def delete_conv)
    then show ?thesis using 2(2)[OF Some] Some by (auto simp: Worker_Stop_def split: prod.splits)
  qed
qed simp

section \<open>Properties\<close>


definition opts0 :: CPUScalingOpts where
  "opts0 = \<lparr>so_CPU = 0, so_SamplePeriod = 10, so_CooldownPeriod = 30, so_TargetUsage = 80, so_AllowedUsageDifference = 5,
     so_AllowedFrequencyDifference = 25000, HWMaxFrequency = 3200000, HWMinFrequency = 800000,
     CurrentTargetFrequency = FrequencyNotYetSet, ScaleFactor = Fin (1 / 2), FallbackFreq = 2000000\<rparr>"


text \<open>
  C28. A worker, in every state that its loop, \<open>UpdateOpts\<close>, \<open>Stop\<close> and changes of files by others can
  lead to: its options are about its CPU, and every target they remember is within their limits;
  and what a round of the loop writes goes to the \<open>scaling_setspeed\<close> file of its CPU and lies within
  the limits of the options the round started with.
\<close>
theorem worker_stays_in_limits:
  assumes "worker_reachable env g U A cpuID (w, sy)" and "A \<subseteq> good_opts cpuID"
  shows "worker_inv cpuID w \<and>
    (\<forall>i usage w' sy'. w_local w = Some i \<longrightarrow> loop_tick env g usage i (w, sy) = (w', sy') \<longrightarrow>
       files sy' = files sy \<or> (\<exists>f. HWMinFrequency (w_objs w ! i) \<le> f \<and> f \<le> HWMaxFrequency (w_objs w ! i) \<and>
         files sy' = (files sy)(speed_file g cpuID \<mapsto> nat_str (nat f))))"
proof -
  have inv: "worker_inv cpuID w" using worker_reachable_inv[OF assms] by simp
  show ?thesis using inv worker_inv_tick(2)[OF inv] by blast
qed

theorem worker_stays_in_limits_witness:
  "worker_inv 0 (NewCPUScalingWorker 0 opts0)"
proof -
  have "opts0 \<in> good_opts 0" by (simp add: good_opts_def opts_ok_def target_ok_def opts0_def FrequencyNotYetSet_def)
  moreover have "worker_reachable env0 hetero {} {opts0} 0 (NewCPUScalingWorker 0 opts0, sys0)"
    by (rule worker_reachable.new) simp
  ultimately show ?thesis using worker_stays_in_limits[of env0 hetero "{}" "{opts0}" 0] by blast
qed

text \<open>
  C30. The manager implements a map from CPUs to options: \<open>AddCPUScaling\<close> stores the options one after
  the other, \<open>RemoveCPUScaling\<close> forgets the CPUs and stops exactly workers that are no longer
  running, and \<open>stop\<close> leaves nothing managed.
\<close>
theorem manager_is_a_map:
  "managed (AddCPUScaling os m) = fold (\<lambda>opts M. M(so_CPU opts \<mapsto> opts)) os (managed m) \<and>
   managed (fst (RemoveCPUScaling ids m)) = managed m |` (- set ids) \<and>
   (\<forall>w \<in> set (snd (RemoveCPUScaling ids m)). \<not> w_running w) \<and>
   managed (fst (Manager_stop m)) = Map.empty"
proof -
  have "managed m |` (- set (getManagedCPUIDs m)) = Map.empty"
    by (auto simp: fun_eq_iff restrict_map_def managed_def getManagedCPUIDs_def map_of_eq_None_iff)
  then show ?thesis using managed_AddCPUScaling managed_RemoveCPUScaling by (simp add: Manager_stop_def)
qed

theorem manager_is_a_map_witness:
  "managed (fst (RemoveCPUScaling [0] (AddCPUScaling [opts0] NewCPUScalingManager))) = Map.empty"
  using manager_is_a_map[of "[opts0]" NewCPUScalingManager "[]"] manager_is_a_map[of "[]" "AddCPUScaling [opts0] NewCPUScalingManager" "[0]"]
  by (simp add: managed_def NewCPUScalingManager_def opts0_def restrict_map_def fun_eq_iff)

end
