(* ===== verification/PowerPod_Controller.thy ===== *)
theory PowerPod_Controller
  imports Controllers_Common Pod_Resources Scaling
begin

text \<open>
  \<open>controllers/powerpod_controller.go\<close>: the CPUs the kubelet gave to the containers of a pod move from
  the shared pool to the pools of the profiles the containers ask for, and back when the pod is gone.
  The controller's state is the world, the pods it remembers, and the telemetry client and the
  scaling manager, which may both be nil. Maps of resources are association lists; the loops over
  them run in the order of the list.
\<close>

record pod_world =
  pw_world :: world
  pw_state :: State
  pw_dpdk :: "dpdk_client option"
  pw_manager :: "manager option"

abbreviation pw_host :: "pod_world \<Rightarrow> host" where
  "pw_host s \<equiv> w_host (pw_world s)"

definition on_world :: "(world \<Rightarrow> world \<times> 'a res) \<Rightarrow> pod_world \<Rightarrow> pod_world \<times> 'a res" where
  "on_world f s = (case f (pw_world s) of (w, x) \<Rightarrow> (s\<lparr>pw_world := w\<rparr>, x))"

definition ResourcePrefix :: string where
  "ResourcePrefix = ''power.cluster-power-manager.github.io/''"

definition CPUResource :: string where
  "CPUResource = ''cpu''"

definition WorkloadTypePollingDPDK :: string where
  "WorkloadTypePollingDPDK = ''polling-dpdk''"

section \<open>What the containers ask for\<close>

text \<open>A missing entry of a map of resources reads as the zero quantity.\<close>

definition resource :: "(string \<times> Quantity) list \<Rightarrow> string \<Rightarrow> Quantity" where
  "resource rl name = the_default 0 (map_of rl name)"

definition checkResource :: "PodContainer \<Rightarrow> string \<Rightarrow> int \<Rightarrow> int \<Rightarrow> int \<times> int" where
  "checkResource c name numRequestsCPU numLimitsCPU =
     (to_int64 (numRequestsCPU + Quantity_Value (resource (ctr_Requests c) name)),
      to_int64 (numLimitsCPU + Quantity_Value (resource (ctr_Limits c) name)))"

text \<open>\<open>None\<close>: more than one profile.\<close>

fun profile_loop :: "string list \<Rightarrow> string \<Rightarrow> string option" where
  "profile_loop [] profileName = Some profileName"
| "profile_loop (rn # rs) profileName =
     (if HasPrefix rn ResourcePrefix then
        (if profileName = [] then profile_loop rs (drop (length ResourcePrefix) rn) else None)
      else profile_loop rs profileName)"

definition getContainerProfileFromRequests :: "PodContainer \<Rightarrow> err + string \<times> int" where
  "getContainerProfileFromRequests c =
     (case profile_loop (map fst (ctr_Requests c)) [] of
        None \<Rightarrow> Inl (ServiceUnavailable ''cannot have more than one power profile per container'')
      | Some profileName \<Rightarrow>
          if profileName = [] then Inr ([], 0)
          else
            (let name = ResourcePrefix @ profileName;
                 intProfileRequests = Quantity_Value (resource (ctr_Requests c) name);
                 intProfileLimits = Quantity_Value (resource (ctr_Limits c) name);
                 (numRequestsCPU, numLimitsCPU) = checkResource c CPUResource 0 0
             in if numRequestsCPU = 0 \<and> ctr_Claims c \<noteq> [] then Inr (profileName, intProfileRequests)
                else if numRequestsCPU \<noteq> intProfileRequests \<or> numLimitsCPU \<noteq> intProfileLimits then
                  Inl (ServiceUnavailable ''mismatch between CPU requests and the power profile requests'')
                else Inr (profileName, intProfileRequests)))"

definition allPodContainers :: "Pod \<Rightarrow> PodContainer list" where
  "allPodContainers pod = pod_InitContainers pod @ pod_Containers pod"

definition doesContainerRequireExclusiveCPUs :: "Pod \<Rightarrow> PodContainer \<Rightarrow> bool" where
  "doesContainerRequireExclusiveCPUs pod c =
     (if pod_QOSClass pod \<noteq> ''Guaranteed'' then False
      else (let cpuQuantity = resource (ctr_Requests c) CPUResource
            in to_int64 (Quantity_Value cpuQuantity * 1000) = Quantity_MilliValue cpuQuantity))"

text \<open>A call on a nil client panics.\<close>

definition pingControlPlane :: "PodResourcesClient \<Rightarrow> world \<Rightarrow> world \<times> bool res" where
  "pingControlPlane client w =
     (case CPUControlPlaneClient client of
        None \<Rightarrow> (w, Panic ''nil pointer dereference'')
      | Some plane \<Rightarrow> catch_err (api_get plane w) (\<lambda>_ w. (w, Ok False)) (\<lambda>_ w. (w, Ok True)))"

definition getAdmissibleContainers ::
  "Pod \<Rightarrow> PodResourcesClient \<Rightarrow> world \<Rightarrow> world \<times> PodContainer list res" where
  "getAdmissibleContainers pod resourceClient w =
     then_do (pingControlPlane resourceClient w) (\<lambda>controlPlaneAvailable w.
       (w, Ok (filter (\<lambda>c. doesContainerRequireExclusiveCPUs pod c \<or> controlPlaneAvailable) (allPodContainers pod))))"

definition getContainerID :: "Pod \<Rightarrow> string \<Rightarrow> string" where
  "getContainerID pod containerName =
     the_default [] (map_of (pod_InitStatuses pod @ pod_Statuses pod) containerName)"

definition unavailable :: "string \<Rightarrow> string \<Rightarrow> string" where
  "unavailable profileName nodeName =
     ''power profile '' @ squote profileName @ '' is not available on node '' @ nodeName"

text \<open>
  One container: the entry for it, if any, and the error to report, if any. A core list that is
  never returned (a range up to the largest integer) is a panic here: nothing follows it either.
\<close>

definition container_request ::
  "reconciler \<Rightarrow> PodResourcesClient \<Rightarrow> Pod \<Rightarrow> PodContainer \<Rightarrow> world \<Rightarrow>
   world \<times> (PowerContainer option \<times> err option) res" where
  "container_request r prc pod c w =
     (let entry = \<lparr>pc_Name = ctr_Name c, pc_ID = TrimPrefix (getContainerID pod (ctr_Name c)) ''docker://'',
                   pc_PowerProfile = [], pc_CPUIDs = [], pc_Errors = []\<rparr>
      in case getContainerProfileFromRequests c of
           Inl e \<Rightarrow> (w, Ok (Some (entry\<lparr>pc_Errors := [err_msg e]\<rparr>), None))
         | Inr (profileName, requestNum) \<Rightarrow>
             if profileName = [] then (w, Ok (None, None))
             else catch_err (validateProfileAvailabilityOnNode r profileName (pod_NodeName pod) (Some (w_host w)) w)
               (\<lambda>_ w. (w, Ok (None, None)))
               (\<lambda>profileAvailable w.
                  if \<not> profileAvailable then
                    (let errMsg = unavailable profileName (pod_NodeName pod)
                     in (w, Ok (Some (entry\<lparr>pc_PowerProfile := profileName, pc_Errors := [errMsg]\<rparr>),
                                Some (ServiceUnavailable errMsg))))
                  else catch_err (GetContainerCPUs prc (pod_Name pod) (ctr_Name c) w)
                    (\<lambda>e w. (w, Ok (None, Some e)))
                    (\<lambda>coreIDs w.
                       (case getCleanCoreList coreIDs of
                          None \<Rightarrow> (w, Panic ''out of memory'')
                        | Some cleanCoreList \<Rightarrow>
                            if int (length cleanCoreList) \<noteq> requestNum then
                              (w, Ok (None, Some (Errorf (''assigned cores did not match requested profiles. cores:'' @
                                 nat_str (length cleanCoreList) @ '', profiles '' @ Itoa requestNum))))
                            else (w, Ok (Some (entry\<lparr>pc_CPUIDs := cleanCoreList, pc_PowerProfile := profileName\<rparr>), None))))))"

fun getPowerProfileRequestsFromContainers ::
  "reconciler \<Rightarrow> PodResourcesClient \<Rightarrow> Pod \<Rightarrow> PodContainer list \<Rightarrow> world \<Rightarrow>
   world \<times> (PowerContainer list \<times> err list) res" where
  "getPowerProfileRequestsFromContainers r prc pod [] w = (w, Ok ([], []))"
| "getPowerProfileRequestsFromContainers r prc pod (c # cs) w =
     then_do (container_request r prc pod c w) (\<lambda>(entry, e) w.
       then_do (getPowerProfileRequestsFromContainers r prc pod cs w) (\<lambda>(powerContainers, errs) w.
         (w, Ok (somes [entry] @ powerContainers, somes [e] @ errs))))"

section \<open>Moving the CPUs of a container\<close>

fun detectCoresAdded :: "nat list \<Rightarrow> nat list \<Rightarrow> nat list" where
  "detectCoresAdded originalCoreList [] = []"
| "detectCoresAdded originalCoreList (core # cs) =
     (if core \<notin> set originalCoreList then core # detectCoresAdded originalCoreList cs
      else detectCoresAdded originalCoreList cs)"

fun areCPUsInSharedPool :: "host \<Rightarrow> nat list \<Rightarrow> bool" where
  "areCPUsInSharedPool h [] = True"
| "areCPUsInSharedPool h (cpuID # ids) =
     (if cpuID \<notin> set (p_cpus (pools h SharedPool)) then False else areCPUsInSharedPool h ids)"

text \<open>The options of one CPU; a nil field of the policy panics.\<close>

definition fallback_freq :: "nat \<Rightarrow> nat \<Rightarrow> int \<Rightarrow> nat" where
  "fallback_freq lo hi pct =
     to_uint64 (int lo +
       int (to_uint64 (int (to_uint64 (int hi - int lo)) * int (to_uint64 pct)) div 100))"

definition scaling_opts :: "CPUScalingPolicy \<Rightarrow> nat \<Rightarrow> nat \<times> nat \<Rightarrow> CPUScalingOpts res" where
  "scaling_opts pol cpu = (\<lambda>(lo, hi).
     case (FallbackFreqPercent pol, SamplePeriod pol, CooldownPeriod pol, TargetUsage pol,
           AllowedUsageDifference pol, AllowedFrequencyDifference pol, ScalePercentage pol) of
       (Some pct, Some sample, Some cool, Some target, Some usageDiff, Some freqDiff, Some scale) \<Rightarrow>
         Ok \<lparr>so_CPU = cpu, so_SamplePeriod = sample, so_CooldownPeriod = cool, so_TargetUsage = target,
            so_AllowedUsageDifference = usageDiff, so_AllowedFrequencyDifference = to_int64 (freqDiff * 1000),
            HWMaxFrequency = to_int64 (int hi), HWMinFrequency = to_int64 (int lo),
            CurrentTargetFrequency = FrequencyNotYetSet,
            ScaleFactor = fdiv (float_of_int scale) (Fin 100),
            FallbackFreq = to_int64 (int (fallback_freq lo hi pct))\<rparr>
     | _ \<Rightarrow> Panic ''nil pointer dereference'')"

text \<open>The loop returns the options and the CPUs that are missing.\<close>

fun opts_loop :: "pkgvars \<Rightarrow> nat list \<Rightarrow> CPUScalingPolicy \<Rightarrow> nat list \<Rightarrow> (CPUScalingOpts list \<times> nat list) res" where
  "opts_loop g allcpus pol [] = Ok ([], [])"
| "opts_loop g allcpus pol (i # ids) =
     (case ByID allcpus i of
        Panic m \<Rightarrow> Panic m
      | Error e \<Rightarrow> Error e
      | Ok None \<Rightarrow> map_res (\<lambda>(os, missingCPUs). (os, i # missingCPUs)) (opts_loop g allcpus pol ids)
      | Ok (Some cpu) \<Rightarrow>
          (case GetAbsMinMax g cpu of
             Panic m \<Rightarrow> Panic m
           | Error e \<Rightarrow> Error e
           | Ok minmax \<Rightarrow>
               (case scaling_opts pol cpu minmax of
                  Panic m \<Rightarrow> Panic m
                | Error e \<Rightarrow> Error e
                | Ok opts \<Rightarrow> map_res (\<lambda>(os, missingCPUs). (opts # os, missingCPUs)) (opts_loop g allcpus pol ids))))"

definition generateCPUScalingOpts ::
  "pkgvars \<Rightarrow> host \<Rightarrow> CPUScalingPolicy \<Rightarrow> nat list \<Rightarrow> (CPUScalingOpts list \<times> err option) res" where
  "generateCPUScalingOpts g h pol cpuIDs =
     map_res (\<lambda>(optsList, missingCPUs).
        (optsList, if missingCPUs = [] then None
                   else Some (Errorf (''CPUs ['' @ intercalate '' '' (map nat_str missingCPUs) @ ''] not found in power library''))))
       (opts_loop g (allCpus h) pol cpuIDs)"

section \<open>One container\<close>

text \<open>
  A step of the loop over the containers: \<open>Inl\<close> is an early return from \<open>Reconcile\<close>; otherwise the entry
  with the errors added to it, the errors that cause a new attempt, and whether a container of the
  pod has its scaling set up.
\<close>

type_synonym step_result = "Result + PowerContainer \<times> err list \<times> bool"

definition add_error :: "string \<Rightarrow> PowerContainer \<Rightarrow> PowerContainer" where
  "add_error m c = c\<lparr>pc_Errors := pc_Errors c @ [m]\<rparr>"

definition start_scaling ::
  "reconciler \<Rightarrow> string \<Rightarrow> CPUScalingPolicy \<Rightarrow> PowerContainer \<Rightarrow> pod_world \<Rightarrow> pod_world \<times> step_result res" where
  "start_scaling r podUID pol c s =
     (let s = s\<lparr>pw_dpdk := map_option (EnsureConnection podUID (pc_CPUIDs c)) (pw_dpdk s)\<rparr>
      in case generateCPUScalingOpts (r_vars r) (pw_host s) pol (pc_CPUIDs c) of
           Panic m \<Rightarrow> (s, Panic m)
         | Error e \<Rightarrow> (s, Error e)
         | Ok (scalingOpts, e) \<Rightarrow>
             (let c = (case e of
                         None \<Rightarrow> c
                       | Some e \<Rightarrow> add_error (''some CPUs could not be configured for DPDK scaling: '' @ err_msg e) c);
                  s = (if scalingOpts \<noteq> [] then s\<lparr>pw_manager := map_option (AddCPUScaling scalingOpts) (pw_manager s)\<rparr>
                       else s)
              in (s, Ok (Inr (c, [], True)))))"

definition setup_scaling ::
  "reconciler \<Rightarrow> string \<Rightarrow> bool \<Rightarrow> PowerContainer \<Rightarrow> pod_world \<Rightarrow> pod_world \<times> step_result res" where
  "setup_scaling r podUID assigned c s =
     (if pw_dpdk s = None \<or> pw_manager s = None then (s, Ok (Inr (c, [], assigned)))
      else catch_err (on_world (api_get (\<lambda>n. get_profile (r_api r) n (pc_PowerProfile c))) s)
        (\<lambda>e s. if IsNotFound e then
                 (let errMsg = ''PowerProfile '' @ squote (pc_PowerProfile c) @ '' not found''
                  in (s, Ok (Inr (add_error errMsg c, [ServiceUnavailable errMsg], assigned))))
               else (s, Error (Wrapf ''failed to get PowerProfile'' e)))
        (\<lambda>profile s.
           (case pps_CPUScalingPolicy (pp_Spec profile) of
              None \<Rightarrow> (s, Ok (Inr (c, [], assigned)))
            | Some pol \<Rightarrow>
                if WorkloadType pol \<noteq> WorkloadTypePollingDPDK then (s, Ok (Inr (c, [], assigned)))
                else if assigned then
                  (s, Ok (Inr (add_error (''DPDK dynamic frequency scaling is only supported for a single container per pod; '' @
                     ''this container is skipped'') c, [], assigned)))
                else start_scaling r podUID pol c s)))"

definition container_step ::
  "reconciler \<Rightarrow> string \<Rightarrow> bool \<Rightarrow> PowerContainer \<Rightarrow> pod_world \<Rightarrow> pod_world \<times> step_result res" where
  "container_step r podUID assigned c s =
     (if pc_Errors c \<noteq> [] then (s, Ok (Inr (c, [], assigned)))
      else
        (case GetExclusivePool (pw_host s) (pc_PowerProfile c) of
           None \<Rightarrow>
             (let e = Errorf (''exclusive pool for profile '' @ pc_PowerProfile c @ '' not found'')
              in (s, Ok (Inr (add_error (err_msg e) c, [e], assigned))))
         | Some exclusivePool \<Rightarrow>
             (let actualCPUs = p_cpus (pools (pw_host s) exclusivePool);
                  coresToAdd = detectCoresAdded actualCPUs (pc_CPUIDs c)
              in if coresToAdd \<noteq> [] \<and> \<not> areCPUsInSharedPool (pw_host s) coresToAdd then
                   (s, Ok (Inl (RequeueAfter queuetime)))
                 else catch_err
                   (if coresToAdd \<noteq> [] then
                      on_world (on_host (MoveCpuIDs (r_env r) (r_vars r) exclusivePool coresToAdd)) s
                    else (s, Ok ()))
                   (\<lambda>e s. (s, Ok (Inr (add_error (err_msg e) c, [e], assigned))))
                   (\<lambda>_. setup_scaling r podUID assigned c))))"

fun container_loop ::
  "reconciler \<Rightarrow> string \<Rightarrow> bool \<Rightarrow> PowerContainer list \<Rightarrow> pod_world \<Rightarrow>
   pod_world \<times> (Result + PowerContainer list \<times> err list) res" where
  "container_loop r podUID assigned [] s = (s, Ok (Inr ([], [])))"
| "container_loop r podUID assigned (c # cs) s =
     then_do (container_step r podUID assigned c s) (\<lambda>x s.
       (case x of
          Inl res \<Rightarrow> (s, Ok (Inl res))
        | Inr (c, es, assigned) \<Rightarrow>
            then_do (container_loop r podUID assigned cs s) (\<lambda>y s.
              (case y of
                 Inl res \<Rightarrow> (s, Ok (Inl res))
               | Inr (cs, es') \<Rightarrow> (s, Ok (Inr (c # cs, es @ es')))))))"

section \<open>The entry of the pod in the status of the node\<close>

definition pod_field_manager :: "string \<Rightarrow> string" where
  "pod_field_manager podUID = ''powerpod-controller.'' @ podUID"

definition applyPowerNodeStateExclusiveStatus ::
  "reconciler \<Rightarrow> string \<Rightarrow> ExclusiveCPUPoolStatus list \<Rightarrow> string \<Rightarrow> world \<Rightarrow> world \<times> unit res" where
  "applyPowerNodeStateExclusiveStatus r powerNodeStateName exclusive fieldManager =
     api_send r (StatusApply powerNodeStateName
       (empty_status\<lparr>st_CPUPools := Some \<lparr>cps_Shared = None, cps_Reserved = None, cps_Exclusive = Some exclusive\<rparr>\<rparr>) fieldManager)"

definition addPowerNodeStatusExclusiveEntry ::
  "reconciler \<Rightarrow> string \<Rightarrow> string \<Rightarrow> string \<Rightarrow> PowerContainer list \<Rightarrow> world \<Rightarrow> world \<times> unit res" where
  "addPowerNodeStatusExclusiveEntry r nodeName podUID podName powerContainers =
     applyPowerNodeStateExclusiveStatus r (pns_name nodeName)
       [\<lparr>es_PodUID = podUID, es_Pod = podName, es_PowerContainers = powerContainers\<rparr>] (pod_field_manager podUID)"

definition removePowerNodeStatusExclusiveEntry :: "reconciler \<Rightarrow> string \<Rightarrow> string \<Rightarrow> world \<Rightarrow> world \<times> unit res" where
  "removePowerNodeStatusExclusiveEntry r nodeName podUID w =
     catch_err (applyPowerNodeStateExclusiveStatus r (pns_name nodeName) [] (pod_field_manager podUID) w)
       (\<lambda>e w. if IsNotFound e then (w, Ok ()) else (w, Error e)) (\<lambda>_ w. (w, Ok ()))"

section \<open>Reconcile\<close>

text \<open>The error of \<open>DeletePodFromState\<close> is dropped; its panic is not.\<close>

definition forget_pod :: "string \<Rightarrow> string \<Rightarrow> pod_world \<Rightarrow> pod_world \<times> unit res" where
  "forget_pod name namespace s =
     (case DeletePodFromState name namespace (pw_state s) of
        None \<Rightarrow> (s, Panic ''slice bounds out of range'')
      | Some st \<Rightarrow> (s\<lparr>pw_state := st\<rparr>, Ok ()))"

text \<open>The containers of the pod's entry in the status: the first entry with its UID.\<close>

definition pod_containers :: "CPUPoolsStatus \<Rightarrow> string \<Rightarrow> PowerContainer list" where
  "pod_containers cp podUID =
     (case find (\<lambda>ex. es_PodUID ex = podUID) (the_default [] (cps_Exclusive cp)) of
        None \<Rightarrow> []
      | Some ex \<Rightarrow> es_PowerContainers ex)"

definition stop_scaling :: "string \<Rightarrow> nat list \<Rightarrow> pod_world \<Rightarrow> pod_world" where
  "stop_scaling podUID deletedCPUIDs s =
     (if pw_dpdk s \<noteq> None \<and> pw_manager s \<noteq> None then
        s\<lparr>pw_dpdk := map_option (CloseConnection podUID) (pw_dpdk s),
          pw_manager := map_option (\<lambda>m. fst (RemoveCPUScaling deletedCPUIDs m)) (pw_manager s)\<rparr>
      else s)"

definition release_cpus :: "reconciler \<Rightarrow> string \<Rightarrow> PowerNodeStateStatus \<Rightarrow> pod_world \<Rightarrow> pod_world \<times> unit res" where
  "release_cpus r podUID pns s =
     (case st_CPUPools pns of
        None \<Rightarrow> (s, Ok ())
      | Some cp \<Rightarrow>
          (let cs = pod_containers cp podUID
           in then_do (on_world (on_host (foreach (\<lambda>c. MoveCpuIDs (r_env r) (r_vars r) SharedPool (pc_CPUIDs c)) cs)) s)
                (\<lambda>_ s. (stop_scaling podUID (concat (map pc_CPUIDs cs)) s, Ok ()))))"

definition release_pod :: "reconciler \<Rightarrow> Pod \<Rightarrow> pod_world \<Rightarrow> pod_world \<times> Result res" where
  "release_pod r pod s =
     then_do (forget_pod (pod_Name pod) (pod_Namespace pod) s) (\<lambda>_ s.
       then_do (catch_err (on_world (api_get (\<lambda>n. get_pns (r_api r) n (pns_name (r_node r)))) s)
                  (\<lambda>e s. if IsNotFound e then (s, Ok ()) else (s, Error e))
                  (release_cpus r (pod_UID pod)))
         (\<lambda>_ s. then_do (on_world (removePowerNodeStatusExclusiveEntry r (r_node r) (pod_UID pod)) s)
            (\<lambda>_ s. (s, Ok Done))))"

definition guaranteed_pod :: "Pod \<Rightarrow> PowerContainer list \<Rightarrow> GuaranteedPod" where
  "guaranteed_pod pod powerContainers =
     \<lparr>Gp_Node = pod_NodeName pod, Gp_Name = pod_Name pod, Gp_Namespace = pod_Namespace pod, Gp_UID = pod_UID pod,
      Gp_Containers = map (\<lambda>pc. \<lparr>Ct_Name = pc_Name pc, Ct_ID = pc_ID pc, Ct_Pod = [], Ct_PodUID = [],
        ExclusiveCPUs = pc_CPUIDs pc, Ct_PowerProfile = pc_PowerProfile pc\<rparr>) powerContainers\<rparr>"

definition admit_pod ::
  "reconciler \<Rightarrow> Pod \<Rightarrow> PowerContainer list \<Rightarrow> err list \<Rightarrow> pod_world \<Rightarrow> pod_world \<times> Result res" where
  "admit_pod r pod powerContainers recoveryErrs s =
     then_do (container_loop r (pod_UID pod) False powerContainers s) (\<lambda>x s.
       (case x of
          Inl res \<Rightarrow> (s, Ok res)
        | Inr (powerContainers, es) \<Rightarrow>
            then_do (on_world (addPowerNodeStatusExclusiveEntry r (r_node r) (pod_UID pod) (pod_Name pod) powerContainers) s)
              (\<lambda>_ s.
                 (let s = s\<lparr>pw_state := UpdateStateGuaranteedPods (guaranteed_pod pod powerContainers) (pw_state s)\<rparr>
                  in case errors_Join (map Some (recoveryErrs @ es)) of
                       None \<Rightarrow> (s, Ok Done)
                     | Some e \<Rightarrow> (s, Error (Wrapf ''recoverable errors encountered'' e))))))"

definition reconcile_pod :: "reconciler \<Rightarrow> PodResourcesClient \<Rightarrow> Pod \<Rightarrow> pod_world \<Rightarrow> pod_world \<times> Result res" where
  "reconcile_pod r prc pod s =
     (if pod_Deleted pod \<or> pod_Phase pod = ''Succeeded'' then release_pod r pod s
      else if pod_Phase pod \<noteq> ''Running'' then
        (s, Error (ServiceUnavailable ''the pod is not in the running phase''))
      else then_do (on_world (getAdmissibleContainers pod prc) s) (\<lambda>admissibleContainers s.
        if admissibleContainers = [] then (s, Ok Done)
        else if pod_UID pod = [] then (s, Error (ServiceUnavailable ''pod UID not found''))
        else then_do (on_world (getPowerProfileRequestsFromContainers r prc pod admissibleContainers) s)
          (\<lambda>(powerContainers, recoveryErrs). admit_pod r pod powerContainers recoveryErrs)))"

definition PowerPod_Reconcile ::
  "reconciler \<Rightarrow> PodResourcesClient \<Rightarrow> string \<Rightarrow> string \<Rightarrow> pod_world \<Rightarrow> pod_world \<times> Result res" where
  "PowerPod_Reconcile r prc namespace name s =
     catch_err (on_world (api_get (\<lambda>n. get_pod (r_api r) n (namespace, name))) s)
       (\<lambda>e s. if IsNotFound e then then_do (forget_pod name namespace s) (\<lambda>_ s. (s, Ok Done)) else (s, Error e))
       (reconcile_pod r prc)"

section \<open>Which pods are reconciled\<close>

definition requests_profile :: "PodContainer \<Rightarrow> bool" where
  "requests_profile c = list_ex (\<lambda>(rn, q). HasPrefix rn ResourcePrefix) (ctr_Requests c)"

text \<open>\<open>None\<close> is an object that is not a pod.\<close>

definition PowerReleventPodPredicate :: "string \<Rightarrow> Pod option \<Rightarrow> bool" where
  "PowerReleventPodPredicate nodeName obj =
     (case obj of
        None \<Rightarrow> False
      | Some pod \<Rightarrow> if pod_NodeName pod \<noteq> nodeName then False else list_ex requests_profile (allPodContainers pod))"

definition scaling_policy_changed :: "PowerProfile \<Rightarrow> PowerProfile \<Rightarrow> bool" where
  "scaling_policy_changed oldProfile newProfile =
     (if Shared (pp_Spec newProfile) then False
      else pps_CPUScalingPolicy (pp_Spec oldProfile) \<noteq> pps_CPUScalingPolicy (pp_Spec newProfile))"

text \<open>One request for every matching entry of a container's requests.\<close>

definition powerProfileToPodRequests :: "reconciler \<Rightarrow> string \<Rightarrow> world \<Rightarrow> world \<times> (string \<times> string) list res" where
  "powerProfileToPodRequests r profileName w =
     (if r_node r = [] then (w, Ok [])
      else catch_err (api_get (\<lambda>n. list_pods (r_api r) n (r_node r)) w) (\<lambda>_ w. (w, Ok []))
        (\<lambda>pods w. (w, Ok (concat (map (\<lambda>pod. concat (map (\<lambda>c.
            map (\<lambda>_. (pod_Namespace pod, pod_Name pod))
              (filter (\<lambda>(rn, q). rn = ResourcePrefix @ profileName) (ctr_Requests c)))
           (allPodContainers pod))) pods)))))"

end
