(* ===== verification/PowerPod_Props.thy ===== *)
theory PowerPod_Props
  imports PowerPod_Controller Example_Node
begin

text \<open>
  What the pod controller does to the pools: a pod takes CPUs from the shared pool only, its
  containers end up in the pools of their profiles, and a deleted pod gives its CPUs back.
\<close>

section \<open>Moves out of the shared pool\<close>

text \<open>\<open>taken g S h h'\<close>: from \<open>h\<close> to \<open>h'\<close> some CPUs in \<open>S\<close> left the shared pool, and that is all.\<close>

definition taken :: "pkgvars \<Rightarrow> nat set \<Rightarrow> host \<Rightarrow> host \<Rightarrow> bool" where
  "taken g S h h' =
     (lib_inv g h' \<and> allCpus h' = allCpus h \<and> host_rest h' = host_rest h \<and>
      (\<forall>c. cpu_pool h' c \<noteq> cpu_pool h c \<longrightarrow> cpu_pool h c = SharedPool \<and> c \<in> set (allCpus h) \<inter> S))"

lemma taken_refl [simp]: "lib_inv g h \<Longrightarrow> taken g S h h"
  by (simp add: taken_def)

lemma taken_trans: "taken g S h h1 \<Longrightarrow> taken g S h1 h2 \<Longrightarrow> taken g S h h2"
  unfolding taken_def by metis

lemma taken_inv: "taken g S h h' \<Longrightarrow> lib_inv g h'"
  by (simp add: taken_def)

lemma taken_mono: "taken g S h h' \<Longrightarrow> S \<subseteq> T \<Longrightarrow> taken g T h h'"
  unfolding taken_def by blast

lemma MoveCpus_frame:
  assumes "lib_inv g h" and "set cs \<subseteq> set (allCpus h)" and "c \<notin> set cs"
  shows "cpu_pool (fst (MoveCpus env g p cs h)) c = cpu_pool h c"
proof -
  let ?I = "\<lambda>t. host_inv g t \<and> allCpus t = allCpus h \<and> cpu_pool t c = cpu_pool h c"
  have "?I (fst (foreach (\<lambda>c. SetPool env g c (Some p)) cs h))"
  proof (rule foreach_inv[where I = ?I])
    fix d t assume d: "d \<in> set cs" and t: "?I t"
    then have "d \<in> set (allCpus t)" "d \<noteq> c" using assms(2,3) by auto
    then show "?I (fst (SetPool env g d (Some p) t))"
      using t SetPool_inv(1,2)[of g t d env p] SetPool_where[of g t d env p] by simp
  qed (use lib_invD(1)[OF assms(1)] in simp)
  then show ?thesis by (simp add: MoveCpus_def)
qed

lemma MoveCpuIDs_taken:
  assumes "lib_inv g h" and "usable p h" and "set ids \<subseteq> set (p_cpus (pools h SharedPool))"
  shows "taken g (set ids) h (fst (MoveCpuIDs env g p ids h))"
proof -
  have ids: "\<And>i. i \<in> set ids \<Longrightarrow> i \<in> set (allCpus h) \<and> cpu_pool h i = SharedPool"
    using assms(3) lib_invD(5)[OF assms(1)] by auto
  then have sub: "set ids \<subseteq> set (allCpus h)" by auto
  have m: "taken g (set ids) h (fst (MoveCpus env g p ids h))"
    using MoveCpus_safe(1-3)[OF assms(1) sub assms(2)] MoveCpus_frame[OF assms(1) sub, of _ env p] ids
    unfolding taken_def by (metis IntI)
  show ?thesis
  proof (cases "ManyByIDs (allCpus h) ids")
    case (Ok l)
    then have "l = ids" using ManyByIDs_Ok by blast
    then show ?thesis using m Ok by (simp add: MoveCpuIDs_def)
  qed (use assms(1) in \<open>simp_all add: MoveCpuIDs_def\<close>)
qed

lemma detectCoresAdded_eq: "detectCoresAdded old new = filter (\<lambda>c. c \<notin> set old) new"
  by (induction new) auto

lemma areCPUsInSharedPool_iff: "areCPUsInSharedPool h ids \<longleftrightarrow> set ids \<subseteq> set (p_cpus (pools h SharedPool))"
  by (induction ids) auto

section \<open>One container\<close>

lemma on_world_fst: "pw_world (fst (on_world f s)) = fst (f (pw_world s))" "snd (on_world f s) = snd (f (pw_world s))"
  by (simp_all add: on_world_def split: prod.split)

lemma on_world_Ok_iff:
  "on_world f s = (s', Ok a) \<longleftrightarrow> (\<exists>w. f (pw_world s) = (w, Ok a) \<and> s' = s\<lparr>pw_world := w\<rparr>)"
  by (auto simp: on_world_def split: prod.splits)

lemma start_scaling_host: "pw_world (fst (start_scaling r uid pol c s)) = pw_world s"
  by (simp add: start_scaling_def Let_def split: res.split prod.split)

lemma setup_scaling_host: "pw_host (fst (setup_scaling r uid a c s)) = pw_host s"
proof (cases "pw_dpdk s = None \<or> pw_manager s = None")
  case False
  let ?g = "on_world (api_get (\<lambda>n. get_profile (r_api r) n (pc_PowerProfile c))) s"
  have h: "pw_host (fst ?g) = pw_host s" by (simp add: on_world_fst api_get_def)
  obtain t x where x: "?g = (t, x)" by (cases ?g)
  with h have t: "pw_host t = pw_host s" by simp
  show ?thesis
  proof (cases x)
    case (Ok profile)
    then show ?thesis using False x t start_scaling_host[of r uid _ c t]
      by (auto simp: setup_scaling_def split: option.split)
  qed (use False x t in \<open>simp_all add: setup_scaling_def Let_def\<close>)
qed (simp add: setup_scaling_def)

text \<open>The cases of a step.\<close>

lemma container_step_cases:
  obtains "container_step r uid a c s = (s, Ok (Inr (c, [], a)))" and "pc_Errors c \<noteq> []"
  | e where "container_step r uid a c s = (s, Ok (Inr (add_error (err_msg e) c, [e], a)))" and "pc_Errors c = []"
  | "container_step r uid a c s = (s, Ok (Inl (RequeueAfter queuetime)))"
  | p ids s' x where "pc_Errors c = []" and "GetExclusivePool (pw_host s) (pc_PowerProfile c) = Some p"
      and "ids = detectCoresAdded (p_cpus (pools (pw_host s) p)) (pc_CPUIDs c)"
      and "set ids \<subseteq> set (p_cpus (pools (pw_host s) SharedPool))"
      and "(if ids \<noteq> [] then on_world (on_host (MoveCpuIDs (r_env r) (r_vars r) p ids)) s else (s, Ok ())) = (s', x)"
      and "container_step r uid a c s =
        catch_err (s', x) (\<lambda>e s. (s, Ok (Inr (add_error (err_msg e) c, [e], a)))) (\<lambda>_. setup_scaling r uid a c)"
proof (cases "pc_Errors c = []")
  case False
  then show ?thesis using that(1) by (simp add: container_step_def)
next
  case no: True
  show ?thesis
  proof (cases "GetExclusivePool (pw_host s) (pc_PowerProfile c)")
    case None
    then show ?thesis using that(2) no by (simp add: container_step_def Let_def)
  next
    case (Some p)
    let ?ids = "detectCoresAdded (p_cpus (pools (pw_host s) p)) (pc_CPUIDs c)"
    let ?m = "if ?ids \<noteq> [] then on_world (on_host (MoveCpuIDs (r_env r) (r_vars r) p ?ids)) s else (s, Ok ())"
    obtain s' x where m: "?m = (s', x)" by (cases ?m)
    show ?thesis
    proof (cases "?ids \<noteq> [] \<and> \<not> areCPUsInSharedPool (pw_host s) ?ids")
      case True
      then show ?thesis using that(3) no Some by (simp add: container_step_def Let_def)
    next
      case False
      then have "set ?ids \<subseteq> set (p_cpus (pools (pw_host s) SharedPool))" by (auto simp: areCPUsInSharedPool_iff)
      moreover have "container_step r uid a c s =
        catch_err ?m (\<lambda>e s. (s, Ok (Inr (add_error (err_msg e) c, [e], a)))) (\<lambda>_. setup_scaling r uid a c)"
        using False no Some by (simp only: container_step_def Let_def option.case if_False simp_thms)
      ultimately show ?thesis using that(4)[OF no Some refl _ m] m by simp
    qed
  qed
qed

lemma move_step_taken:
  assumes "lib_inv g (pw_host s)" and "GetExclusivePool (pw_host s) name = Some p"
    and "set ids \<subseteq> set (p_cpus (pools (pw_host s) SharedPool))"
    and "(if ids \<noteq> [] then on_world (on_host (MoveCpuIDs env g p ids)) s else (s, Ok ())) = (s', x)"
  shows "taken g (set ids) (pw_host s) (pw_host s')"
proof (cases "ids = []")
  case False
  then have "pw_host s' = fst (MoveCpuIDs env g p ids (pw_host s))"
    using assms(4) by (auto simp: on_world_def on_host_def split: prod.splits)
  then show ?thesis using MoveCpuIDs_taken[OF assms(1) usable_GetExclusivePool[OF assms(2)] assms(3)] by simp
qed (use assms in simp)

lemma container_step_taken:
  assumes "lib_inv (r_vars r) (pw_host s)"
  shows "taken (r_vars r) (set (pc_CPUIDs c)) (pw_host s) (pw_host (fst (container_step r uid a c s)))"
proof (cases rule: container_step_cases[of r uid a c s])
  case (4 p ids s' x)
  have "set ids \<subseteq> set (pc_CPUIDs c)" using 4(3) by (auto simp: detectCoresAdded_eq)
  then have t: "taken (r_vars r) (set (pc_CPUIDs c)) (pw_host s) (pw_host s')"
    using taken_mono[OF move_step_taken[OF assms 4(2,4,5)]] by blast
  then show ?thesis unfolding 4(6) by (cases x) (simp_all add: setup_scaling_host)
qed (use assms in simp_all)

text \<open>The containers that have no error are in the pool of their profile, and stay there.\<close>

definition placed :: "host \<Rightarrow> PowerContainer \<Rightarrow> bool" where
  "placed h c =
     (\<exists>p. GetExclusivePool h (pc_PowerProfile c) = Some p \<and> (\<forall>i \<in> set (pc_CPUIDs c). cpu_pool h i = p))"

lemma GetExclusivePool_rest: "host_rest h' = host_rest h \<Longrightarrow> GetExclusivePool h' = GetExclusivePool h"
proof
  fix name assume "host_rest h' = host_rest h"
  then have r: "exclusivePools h' = exclusivePools h" "\<And>p. p_name (pools h' p) = p_name (pools h p)"
    by (auto simp: host_rest_def fun_eq_iff)
  have "IndexOfName (pools h') xs name i = IndexOfName (pools h) xs name i" for xs i
    by (induction "pools h" xs name i rule: IndexOfName.induct) (simp_all add: r(2))
  then show "GetExclusivePool h' name = GetExclusivePool h name"
    by (simp add: GetExclusivePool_def PoolList_ByName_def r(1) Let_def)
qed

lemma placed_taken:
  assumes "placed h c" and "taken g S h h'" and "lib_inv g h"
  shows "placed h' c"
proof -
  obtain p where p: "GetExclusivePool h (pc_PowerProfile c) = Some p" "\<forall>i \<in> set (pc_CPUIDs c). cpu_pool h i = p"
    using assms(1) by (auto simp: placed_def)
  then have "p \<noteq> SharedPool" using GetExclusivePool_Some(1) lib_invD(4)[OF assms(3)] by fastforce
  then have "\<forall>i \<in> set (pc_CPUIDs c). cpu_pool h' i = p" using p(2) assms(2) unfolding taken_def by metis
  then show ?thesis using p(1) assms(2) GetExclusivePool_rest[of h' h] by (auto simp: placed_def taken_def)
qed

definition extended :: "PowerContainer \<Rightarrow> PowerContainer \<Rightarrow> bool" where
  "extended c c' = (\<exists>ms. c' = c\<lparr>pc_Errors := pc_Errors c @ ms\<rparr>)"

lemma extended_refl [simp]: "extended c c"
  unfolding extended_def by (rule exI[of _ "[]"]) simp

lemma extended_add [simp]: "extended c (add_error m c)"
  unfolding extended_def add_error_def by blast

lemma add_error_errs [simp]: "pc_Errors (add_error m c) \<noteq> []"
  by (simp add: add_error_def)

lemma extendedD:
  assumes "extended c c'"
  shows "pc_Name c' = pc_Name c" "pc_ID c' = pc_ID c" "pc_PowerProfile c' = pc_PowerProfile c" "pc_CPUIDs c' = pc_CPUIDs c"
    and "pc_Errors c' = [] \<Longrightarrow> c' = c"
  using assms by (auto simp: extended_def)

lemma start_scaling_shape:
  assumes "start_scaling r uid pol c s = (s', Ok y)"
  shows "\<exists>c' es a'. y = Inr (c', es, a') \<and> extended c c'"
  using assms by (auto simp: start_scaling_def Let_def split: res.splits prod.splits option.splits)

lemma setup_scaling_shape:
  assumes "setup_scaling r uid a c s = (s', Ok y)"
  shows "\<exists>c' es a'. y = Inr (c', es, a') \<and> extended c c'"
  using assms start_scaling_shape[of r uid _ c]
  by (auto simp: setup_scaling_def Let_def catch_err_Ok_iff split: if_splits option.splits)

lemma container_step_placed:
  assumes "lib_inv (r_vars r) (pw_host s)" and "container_step r uid a c s = (s', Ok (Inr (c', es, a')))"
  shows "extended c c' \<and> (pc_Errors c' = [] \<longrightarrow> placed (pw_host s') c')"
proof (cases rule: container_step_cases[of r uid a c s])
  case (4 p ids t x)
  show ?thesis
  proof (cases x)
    case (Ok u)
    then have su: "setup_scaling r uid a c t = (s', Ok (Inr (c', es, a')))" using 4(6) assms(2) by simp
    have h: "pw_host s' = pw_host t" using setup_scaling_host[of r uid a c t] su by simp
    have ext: "extended c c'" using setup_scaling_shape[OF su] by auto
    have t: "taken (r_vars r) (set ids) (pw_host s) (pw_host t)" by (rule move_step_taken[OF assms(1) 4(2,4,5)])
    have "cpu_pool (pw_host t) i = p" if i: "i \<in> set (pc_CPUIDs c)" for i
    proof (cases "i \<in> set ids")
      case True
      then have "ids \<noteq> []" by auto
      then have "on_world (on_host (MoveCpuIDs (r_env r) (r_vars r) p ids)) s = (t, Ok ())" using 4(5) Ok by simp
      then have "MoveCpuIDs (r_env r) (r_vars r) p ids (pw_host s) = (pw_host t, Ok ())"
        by (auto simp: on_world_Ok_iff on_host_Ok_iff)
      then show ?thesis using MoveCpuIDs_Ok(5)[OF assms(1) usable_GetExclusivePool[OF 4(2)]] True by simp
    next
      case False
      then have "i \<in> set (p_cpus (pools (pw_host s) p))" using i 4(3) by (auto simp: detectCoresAdded_eq)
      then have p: "cpu_pool (pw_host s) i = p" using lib_invD(5)[OF assms(1)] by blast
      moreover have "p \<noteq> SharedPool" using GetExclusivePool_Some(1)[OF 4(2)] lib_invD(4)[OF assms(1)] by fastforce
      ultimately show ?thesis using t unfolding taken_def by metis
    qed
    moreover have "GetExclusivePool (pw_host t) (pc_PowerProfile c) = Some p"
      using GetExclusivePool_rest[of "pw_host t" "pw_host s"] t 4(2) by (simp add: taken_def)
    ultimately have "placed (pw_host s') c'" by (simp add: placed_def h extendedD(3,4)[OF ext])
    then show ?thesis using ext by simp
  qed (use 4(6) assms(2) extended_add add_error_errs in auto)
next
  case 1
  then show ?thesis using assms(2) by auto
next
  case (2 e)
  then show ?thesis using assms(2) extended_add add_error_errs by auto
next
  case 3
  then show ?thesis using assms(2) by simp
qed

definition cpus_of :: "PowerContainer list \<Rightarrow> nat set" where
  "cpus_of cs = (\<Union>c \<in> set cs. set (pc_CPUIDs c))"

lemma cpus_of_Cons: "set (pc_CPUIDs c) \<subseteq> cpus_of (c # cs)" "cpus_of cs \<subseteq> cpus_of (c # cs)"
  by (auto simp: cpus_of_def)

lemma container_loop_taken:
  assumes "lib_inv (r_vars r) (pw_host s)"
  shows "taken (r_vars r) (cpus_of cs) (pw_host s) (pw_host (fst (container_loop r uid a cs s)))"
  using assms
proof (induction cs arbitrary: a s)
  case (Cons c cs)
  obtain s1 x where st: "container_step r uid a c s = (s1, x)" by (cases "container_step r uid a c s")
  have t: "taken (r_vars r) (cpus_of (c # cs)) (pw_host s) (pw_host s1)"
    using taken_mono[OF container_step_taken[OF Cons.prems, of c uid a] cpus_of_Cons(1)] st by simp
  show ?case
  proof (cases x)
    case (Ok y)
    show ?thesis
    proof (cases y)
      case (Inr z)
      then obtain c' es a' where z: "y = Inr (c', es, a')" by (cases z) blast
      obtain s2 x2 where l: "container_loop r uid a' cs s1 = (s2, x2)" by (cases "container_loop r uid a' cs s1")
      have "taken (r_vars r) (cpus_of (c # cs)) (pw_host s) (pw_host s2)"
        using taken_trans[OF t taken_mono[OF Cons.IH[OF taken_inv[OF t], of a'] cpus_of_Cons(2)]] l by simp
      then show ?thesis using st Ok z l by (cases x2) (simp_all split: sum.split prod.split)
    qed (use st Ok t in simp)
  qed (use st t in simp_all)
qed simp

lemma container_loop_placed:
  assumes "lib_inv (r_vars r) (pw_host s)" and "container_loop r uid a cs s = (s', Ok (Inr (cs', es)))"
  shows "list_all2 extended cs cs' \<and> (\<forall>c \<in> set cs'. pc_Errors c = [] \<longrightarrow> placed (pw_host s') c)"
  using assms
proof (induction cs arbitrary: a s cs' es)
  case (Cons c cs)
  obtain s1 y where st: "container_step r uid a c s = (s1, Ok y)"
    using Cons.prems(2) by (auto simp: then_do_Ok_iff)
  have t: "taken (r_vars r) (set (pc_CPUIDs c)) (pw_host s) (pw_host s1)"
    using container_step_taken[OF Cons.prems(1), of c uid a] st by simp
  obtain c' es1 a' where y: "y = Inr (c', es1, a')" using Cons.prems(2) st by (cases y) auto
  obtain v z where v: "container_loop r uid a' cs s1 = (v, Ok z)"
    using Cons.prems(2) st y by (auto simp: then_do_Ok_iff)
  obtain ds es2 where l: "container_loop r uid a' cs s1 = (s', Ok (Inr (ds, es2)))" "cs' = c' # ds"
    using Cons.prems(2) st y v by (cases z) auto
  have p: "extended c c'" "pc_Errors c' = [] \<longrightarrow> placed (pw_host s1) c'"
    using container_step_placed[OF Cons.prems(1)] st y by blast+
  have "taken (r_vars r) (cpus_of cs) (pw_host s1) (pw_host s')"
    using container_loop_taken[OF taken_inv[OF t], of cs uid a'] l(1) by simp
  then have "pc_Errors c' = [] \<longrightarrow> placed (pw_host s') c'" using p(2) placed_taken taken_inv[OF t] by blast
  then show ?case using p(1) Cons.IH[OF taken_inv[OF t] l(1)] l(2) by simp
qed simp

section \<open>What the containers asked for\<close>

lemma quiet_host: "quiet f \<Longrightarrow> w_host (fst (f w)) = w_host w"
  by (simp add: quiet_def)

lemma quiet_if: "(b \<Longrightarrow> quiet f) \<Longrightarrow> (\<not> b \<Longrightarrow> quiet k) \<Longrightarrow> quiet (\<lambda>w. if b then f w else k w)"
  by (cases b) simp_all

lemma quiet_option:
  "quiet f \<Longrightarrow> (\<And>a. quiet (k a)) \<Longrightarrow> quiet (\<lambda>w. case x of None \<Rightarrow> f w | Some a \<Rightarrow> k a w)"
  by (cases x) simp_all

lemmas quiet_ops = quiet_return quiet_api_get quiet_then_do quiet_catch_err quiet_if quiet_option

lemma validateProfile_quiet: "quiet (\<lambda>w. validateProfileAvailabilityOnNode r p n (h w) w)"
proof -
  have "quiet (nodeMatchesPowerProfile r prof n)" for prof
    unfolding nodeMatchesPowerProfile_def Let_def by (intro quiet_ops)
  then have "quiet (validateProfileAvailabilityOnNode r p n h')" for h'
    unfolding validateProfileAvailabilityOnNode_def by (intro quiet_ops)
  then show ?thesis by (simp add: quiet_def)
qed

lemma container_request_quiet: "quiet (container_request r prc pod c)"
proof (cases "getContainerProfileFromRequests c")
  case (Inr x)
  then obtain p n where "getContainerProfileFromRequests c = Inr (p, n)" by (cases x) simp
  then show ?thesis unfolding container_request_def Let_def
    by simp (intro quiet_ops validateProfile_quiet GetContainerCPUs_quiet)
qed (simp add: container_request_def Let_def quiet_def)

lemma requests_quiet: "quiet (getPowerProfileRequestsFromContainers r prc pod cs)"
proof (induction cs)
  case (Cons c cs)
  have "quiet (\<lambda>w. case x of (entry, e) \<Rightarrow> then_do (getPowerProfileRequestsFromContainers r prc pod cs w)
      (\<lambda>(powerContainers, errs) w. (w, Ok (somes [entry] @ powerContainers, somes [e] @ errs))))" for x
    by (cases x) (auto intro!: quiet_then_do Cons quiet_return)
  then show ?case unfolding getPowerProfileRequestsFromContainers.simps
    by (auto intro!: quiet_then_do[OF container_request_quiet] simp: split_def)
qed (simp add: quiet_def)

lemma admissible_quiet: "quiet (getAdmissibleContainers pod prc)"
  unfolding getAdmissibleContainers_def pingControlPlane_def
  by (intro quiet_ops)

text \<open>An entry without an error has the profile and as many CPUs as the container asked for.\<close>

definition as_requested :: "PodContainer \<Rightarrow> PowerContainer \<Rightarrow> bool" where
  "as_requested c pc =
     (pc_Name pc = ctr_Name c \<and>
      getContainerProfileFromRequests c = Inr (pc_PowerProfile pc, int (length (pc_CPUIDs pc))))"

lemma container_request_entry:
  assumes "container_request r prc pod c w = (w', Ok (Some pc, e))" and "pc_Errors pc = []"
  shows "as_requested c pc"
proof (cases "getContainerProfileFromRequests c")
  case (Inl x)
  then show ?thesis using assms by (auto simp: container_request_def Let_def)
next
  case (Inr x)
  then obtain p n where p: "getContainerProfileFromRequests c = Inr (p, n)" by (cases x) simp
  then show ?thesis using assms
    by (auto simp: container_request_def Let_def catch_err_Ok_iff as_requested_def split: if_splits option.splits)
qed

lemma requests_entries:
  assumes "getPowerProfileRequestsFromContainers r prc pod cs w = (w', Ok (pcs, es))"
    and "pc \<in> set pcs" and "pc_Errors pc = []"
  shows "\<exists>c \<in> set cs. as_requested c pc"
  using assms(1,2)
proof (induction cs arbitrary: w pcs es)
  case (Cons c cs)
  obtain w1 entry e where c: "container_request r prc pod c w = (w1, Ok (entry, e))"
    using Cons.prems(1) by (auto simp: then_do_Ok_iff)
  obtain qs fs where l: "getPowerProfileRequestsFromContainers r prc pod cs w1 = (w', Ok (qs, fs))" "pcs = somes [entry] @ qs"
    using Cons.prems(1) c by (auto simp: then_do_Ok_iff)
  show ?case
  proof (cases "pc \<in> set qs")
    case True
    then show ?thesis using Cons.IH[OF l(1)] by auto
  next
    case False
    then have "entry = Some pc" using Cons.prems(2) l(2) by (cases entry) auto
    then show ?thesis using container_request_entry[of r prc pod c w w1 pc e] c assms(3) by auto
  qed
qed simp

section \<open>Reconcile of a live pod\<close>

abbreviation next_call :: "world \<Rightarrow> world" where
  "next_call w \<equiv> w\<lparr>w_calls := Suc (w_calls w)\<rparr>"

lemma Reconcile_found:
  assumes "get_pod (r_api r) (w_calls (pw_world s)) (namespace, name) = Inr pod"
  shows "PowerPod_Reconcile r prc namespace name s = reconcile_pod r prc pod (s\<lparr>pw_world := next_call (pw_world s)\<rparr>)"
  using assms by (simp add: PowerPod_Reconcile_def on_world_def api_get_def)

lemma admit_pod_taken:
  assumes "lib_inv (r_vars r) (pw_host s)"
  shows "taken (r_vars r) (cpus_of pcs) (pw_host s) (pw_host (fst (admit_pod r pod pcs errs s)))"
proof -
  obtain s1 x where l: "container_loop r (pod_UID pod) False pcs s = (s1, x)"
    by (cases "container_loop r (pod_UID pod) False pcs s")
  have t: "taken (r_vars r) (cpus_of pcs) (pw_host s) (pw_host s1)"
    using container_loop_taken[OF assms, of pcs "pod_UID pod" False] l by simp
  show ?thesis
  proof (cases x)
    case (Ok y)
    show ?thesis
    proof (cases y)
      case (Inr z)
      obtain qs es where z: "z = (qs, es)" by (cases z)
      let ?w = "on_world (addPowerNodeStatusExclusiveEntry r (r_node r) (pod_UID pod) (pod_Name pod) qs) s1"
      obtain s2 x2 where w: "?w = (s2, x2)" by (cases ?w)
      have "pw_host (fst ?w) = pw_host s1"
        by (simp add: on_world_fst addPowerNodeStatusExclusiveEntry_def applyPowerNodeStateExclusiveStatus_def api_send_def Let_def)
      then have "pw_host s2 = pw_host s1" using w by simp
      then show ?thesis using t l Ok Inr z w
        by (cases x2) (simp_all add: admit_pod_def Let_def split: option.split)
    qed (use t l Ok in \<open>simp add: admit_pod_def\<close>)
  qed (use t l in \<open>simp_all add: admit_pod_def\<close>)
qed

lemma quiet_step:
  assumes "quiet f" and "on_world f s = (s', x)"
  shows "pw_host s' = pw_host s" and "pw_state s' = pw_state s" and "snd (f (pw_world s)) = x"
  using assms quiet_host[OF assms(1), of "pw_world s"] by (auto simp: on_world_def split: prod.splits)

lemma reconcile_pod_taken:
  assumes "lib_inv (r_vars r) (pw_host s)" and "\<not> pod_Deleted pod" and "pod_Phase pod \<noteq> ''Succeeded''"
  shows "taken (r_vars r) UNIV (pw_host s) (pw_host (fst (reconcile_pod r prc pod s)))"
proof (cases "pod_Phase pod = ''Running''")
  case True
  obtain s1 x where ad: "on_world (getAdmissibleContainers pod prc) s = (s1, x)"
    by (cases "on_world (getAdmissibleContainers pod prc) s")
  note h1 = quiet_step(1)[OF admissible_quiet ad]
  show ?thesis
  proof (cases x)
    case (Ok cs)
    obtain s2 y where rq: "on_world (getPowerProfileRequestsFromContainers r prc pod cs) s1 = (s2, y)"
      by (cases "on_world (getPowerProfileRequestsFromContainers r prc pod cs) s1")
    note h2 = quiet_step(1)[OF requests_quiet rq]
    have "taken (r_vars r) UNIV (pw_host s) (pw_host (fst (admit_pod r pod pcs es s2)))" for pcs es
      using taken_mono[OF admit_pod_taken[of r s2 pcs pod es] subset_UNIV] assms(1) h1 h2 by simp
    then show ?thesis using assms True ad Ok rq h1 h2
      by (cases y) (auto simp: reconcile_pod_def)
  qed (use assms True ad h1 in \<open>simp_all add: reconcile_pod_def\<close>)
qed (use assms in \<open>simp add: reconcile_pod_def\<close>)

definition exclusive_entry :: "string \<Rightarrow> Pod \<Rightarrow> PowerContainer list \<Rightarrow> api_request" where
  "exclusive_entry nodeName pod pcs =
     StatusApply (pns_name nodeName)
       (empty_status\<lparr>st_CPUPools := Some \<lparr>cps_Shared = None, cps_Reserved = None,
          cps_Exclusive = Some [\<lparr>es_PodUID = pod_UID pod, es_Pod = pod_Name pod, es_PowerContainers = pcs\<rparr>]\<rparr>\<rparr>)
       (pod_field_manager (pod_UID pod))"

lemma container_step_Inl:
  assumes "container_step r uid a c s = (s', Ok (Inl x))" shows "x = RequeueAfter queuetime"
proof (cases rule: container_step_cases[of r uid a c s])
  case (4 p ids t y)
  show ?thesis
  proof (cases y)
    case (Ok u)
    then have "setup_scaling r uid a c t = (s', Ok (Inl x))" using 4(6) assms by simp
    from setup_scaling_shape[OF this] show ?thesis by simp
  qed (use 4(6) assms in simp_all)
qed (use assms in simp_all)

lemma container_loop_Inl:
  assumes "container_loop r uid a cs s = (s', Ok (Inl x))" shows "x = RequeueAfter queuetime"
  using assms
proof (induction cs arbitrary: a s)
  case (Cons c cs)
  obtain s1 y where st: "container_step r uid a c s = (s1, Ok y)"
    using Cons.prems by (auto simp: then_do_Ok_iff)
  show ?case
  proof (cases y)
    case (Inl z)
    then show ?thesis using Cons.prems st container_step_Inl[of r uid a c s s1 z] by simp
  next
    case (Inr z)
    obtain c' es a' where z: "z = (c', es, a')" by (cases z)
    obtain v t where v: "container_loop r uid a' cs s1 = (v, Ok t)"
      using Cons.prems st Inr z by (auto simp: then_do_Ok_iff)
    then show ?thesis using Cons.prems Cons.IH[of a' s1] st Inr z by (cases t) auto
  qed
qed simp

lemma addEntry_Ok:
  assumes "on_world (addPowerNodeStatusExclusiveEntry r nodeName (pod_UID pod) (pod_Name pod) qs) s = (s', Ok ())"
  shows "pw_host s' = pw_host s" and "pw_state s' = pw_state s"
    and "w_requests (pw_world s') = w_requests (pw_world s) @ [(exclusive_entry nodeName pod qs, None)]"
  using assms
  by (auto simp: on_world_def addPowerNodeStatusExclusiveEntry_def applyPowerNodeStateExclusiveStatus_def
      exclusive_entry_def api_send_def Let_def split: option.splits)

lemma admit_pod_Done:
  assumes "lib_inv (r_vars r) (pw_host s)" and "admit_pod r pod pcs errs s = (s', Ok Done)"
  shows "\<exists>qs. list_all2 extended pcs qs \<and> (\<forall>c \<in> set qs. pc_Errors c = [] \<longrightarrow> placed (pw_host s') c) \<and>
    last (w_requests (pw_world s')) = (exclusive_entry (r_node r) pod qs, None) \<and>
    GetPodFromState (pod_Name pod) (pod_Namespace pod) (pw_state s') = guaranteed_pod pod qs"
proof -
  obtain s1 y where l: "container_loop r (pod_UID pod) False pcs s = (s1, Ok y)"
    using assms(2) by (auto simp: admit_pod_def then_do_Ok_iff)
  obtain qs es where y: "y = Inr (qs, es)"
    using assms(2) l container_loop_Inl[of r "pod_UID pod" False pcs s s1]
    by (cases y) (auto simp: admit_pod_def)
  obtain s2 where w: "on_world (addPowerNodeStatusExclusiveEntry r (r_node r) (pod_UID pod) (pod_Name pod) qs) s1 = (s2, Ok ())"
      "s' = s2\<lparr>pw_state := UpdateStateGuaranteedPods (guaranteed_pod pod qs) (pw_state s2)\<rparr>"
    using assms(2) l y by (auto simp: admit_pod_def then_do_Ok_iff Let_def split: option.splits)
  have "GetPodFromState (pod_Name pod) (pod_Namespace pod) (pw_state s') = guaranteed_pod pod qs"
    using pods.lookup_update[of "(pod_Name pod, pod_Namespace pod)" "guaranteed_pod pod qs" "pw_state s2"] w(2)
    by (simp add: guaranteed_pod_def)
  then show ?thesis
    using container_loop_placed[OF assms(1)] l y addEntry_Ok(1,3)[OF w(1)] w(2) by (intro exI[of _ qs]) simp
qed

lemma cpus_of_extended: "list_all2 extended pcs qs \<Longrightarrow> cpus_of qs = cpus_of pcs"
  by (induction rule: list_all2_induct) (simp_all add: cpus_of_def extendedD)

lemma Reconcile_admits:
  assumes "lib_inv (r_vars r) (pw_host s)"
    and "get_pod (r_api r) (w_calls (pw_world s)) (namespace, name) = Inr pod"
    and "\<not> pod_Deleted pod" and "pod_Phase pod = ''Running''"
    and "getAdmissibleContainers pod prc (next_call (pw_world s)) = (w1, Ok cs)" and "cs \<noteq> []"
    and "PowerPod_Reconcile r prc namespace name s = (s', Ok Done)"
  shows "\<exists>pcs. last (w_requests (pw_world s')) = (exclusive_entry (r_node r) pod pcs, None) \<and>
    GetPodFromState (pod_Name pod) (pod_Namespace pod) (pw_state s') = guaranteed_pod pod pcs \<and>
    taken (r_vars r) (cpus_of pcs) (pw_host s) (pw_host s') \<and>
    (\<forall>pc \<in> set pcs. pc_Errors pc = [] \<longrightarrow> placed (pw_host s') pc \<and> (\<exists>c \<in> set cs. as_requested c pc))"
proof -
  let ?s = "s\<lparr>pw_world := next_call (pw_world s)\<rparr>" and ?s1 = "s\<lparr>pw_world := w1\<rparr>"
  have r: "reconcile_pod r prc pod ?s = (s', Ok Done)" using assms(7) Reconcile_found[OF assms(2)] by simp
  have ad: "on_world (getAdmissibleContainers pod prc) ?s = (?s1, Ok cs)" using assms(5) by (simp add: on_world_def)
  obtain s2 pcs errs where q: "on_world (getPowerProfileRequestsFromContainers r prc pod cs) ?s1 = (s2, Ok (pcs, errs))"
      "admit_pod r pod pcs errs s2 = (s', Ok Done)"
    using r assms(3,4,6) ad by (auto simp: reconcile_pod_def then_do_Ok_iff split: if_splits)
  have h2: "pw_host s2 = pw_host s"
    using quiet_step(1)[OF admissible_quiet ad] quiet_step(1)[OF requests_quiet q(1)] by simp
  then have inv: "lib_inv (r_vars r) (pw_host s2)" using assms(1) by simp
  from admit_pod_Done[OF this q(2)] obtain qs where qs: "list_all2 extended pcs qs"
      "\<forall>c \<in> set qs. pc_Errors c = [] \<longrightarrow> placed (pw_host s') c"
      "last (w_requests (pw_world s')) = (exclusive_entry (r_node r) pod qs, None)"
      "GetPodFromState (pod_Name pod) (pod_Namespace pod) (pw_state s') = guaranteed_pod pod qs" by blast
  have t: "taken (r_vars r) (cpus_of qs) (pw_host s) (pw_host s')"
    using admit_pod_taken[OF inv, of pcs pod errs] q(2) h2 cpus_of_extended[OF qs(1)] by simp
  obtain w2 where rq: "getPowerProfileRequestsFromContainers r prc pod cs w1 = (w2, Ok (pcs, errs))"
    using q(1) by (auto simp: on_world_Ok_iff)
  have "\<exists>c \<in> set cs. as_requested c pc" if pc: "pc \<in> set qs" "pc_Errors pc = []" for pc
  proof -
    obtain i where i: "i < length qs" "qs ! i = pc" using pc(1) by (auto simp: in_set_conv_nth)
    then have c: "pcs ! i \<in> set pcs" "extended (pcs ! i) pc"
      using list_all2_nthD2[OF qs(1) i(1)] list_all2_lengthD[OF qs(1)] by simp_all
    have "pc \<in> set pcs" using c(1) extendedD(5)[OF c(2) pc(2)] by simp
    then show ?thesis using requests_entries[OF rq _ pc(2)] by blast
  qed
  then show ?thesis using t qs(2-4) by blast
qed

section \<open>Reconcile of a deleted pod\<close>

lemma release_loop:
  assumes "lib_inv g h" and "foreach (\<lambda>c. MoveCpuIDs env g SharedPool (pc_CPUIDs c)) cs h = (h', Ok ())"
  shows "lib_inv g h' \<and> allCpus h' = allCpus h \<and> host_rest h' = host_rest h \<and>
    cpu_pool h' = (\<lambda>i. if i \<in> cpus_of cs then SharedPool else cpu_pool h i)"
  using assms
proof (induction cs arbitrary: h)
  case Nil
  then show ?case by (simp add: cpus_of_def)
next
  case (Cons c cs)
  then obtain h1 where h1: "MoveCpuIDs env g SharedPool (pc_CPUIDs c) h = (h1, Ok ())"
      "foreach (\<lambda>c. MoveCpuIDs env g SharedPool (pc_CPUIDs c)) cs h1 = (h', Ok ())"
    by (auto split: prod.splits res.splits)
  note m = MoveCpuIDs_Ok[OF Cons.prems(1) _ h1(1), simplified]
  from Cons.IH[OF m(1) h1(2)] m show ?case by (auto simp: cpus_of_def fun_eq_iff)
qed

text \<open>What becomes of the telemetry and the workers.\<close>

definition scaling_stopped :: "string \<Rightarrow> nat set \<Rightarrow> pod_world \<Rightarrow> pod_world \<Rightarrow> bool" where
  "scaling_stopped uid S s s' =
     (\<forall>cl m. pw_dpdk s = Some cl \<and> pw_manager s = Some m \<longrightarrow>
        (\<exists>cl' m'. pw_dpdk s' = Some cl' \<and> pw_manager s' = Some m' \<and>
           map_of (connections cl') = (map_of (connections cl))(uid := None) \<and> managed m' = managed m |` (- S)))"

lemma stop_scaling_stopped: "scaling_stopped uid (set ids) s (stop_scaling uid ids s)"
proof -
  have "map_of (connections (CloseConnection uid cl)) = (map_of (connections cl))(uid := None)" for cl
    by (cases "map_of (connections cl) uid")
      (simp_all add: CloseConnection_Some, auto simp: CloseConnection_def fun_eq_iff)
  then show ?thesis using managed_RemoveCPUScaling by (auto simp: scaling_stopped_def stop_scaling_def)
qed

lemma stop_scaling_rest: "pw_world (stop_scaling uid ids s) = pw_world s" "pw_state (stop_scaling uid ids s) = pw_state s"
  by (simp_all add: stop_scaling_def)

definition removal_entry :: "string \<Rightarrow> string \<Rightarrow> api_request" where
  "removal_entry nodeName uid =
     StatusApply (pns_name nodeName)
       (empty_status\<lparr>st_CPUPools := Some \<lparr>cps_Shared = None, cps_Reserved = None, cps_Exclusive = Some []\<rparr>\<rparr>)
       (pod_field_manager uid)"

lemma removeEntry_Ok:
  assumes "on_world (removePowerNodeStatusExclusiveEntry r nodeName uid) s = (s', Ok ())"
  shows "pw_host s' = pw_host s" and "pw_state s' = pw_state s"
    and "pw_dpdk s' = pw_dpdk s" and "pw_manager s' = pw_manager s"
    and "\<exists>x. last (w_requests (pw_world s')) = (removal_entry nodeName uid, x) \<and> (\<forall>e. x = Some e \<longrightarrow> IsNotFound e)"
  using assms
  by (auto simp: on_world_def removePowerNodeStatusExclusiveEntry_def applyPowerNodeStateExclusiveStatus_def
      removal_entry_def api_send_def Let_def split: option.splits if_splits)

lemma release_cpus_Ok:
  assumes "lib_inv (r_vars r) (pw_host s)" and "st_CPUPools pns = Some cp"
    and "release_cpus r uid pns s = (s', Ok ())"
  shows "lib_inv (r_vars r) (pw_host s') \<and> host_rest (pw_host s') = host_rest (pw_host s) \<and>
    cpu_pool (pw_host s') = (\<lambda>i. if i \<in> cpus_of (pod_containers cp uid) then SharedPool else cpu_pool (pw_host s) i) \<and>
    pw_state s' = pw_state s \<and> scaling_stopped uid (cpus_of (pod_containers cp uid)) s s'"
proof -
  let ?cs = "pod_containers cp uid"
  obtain s1 where s1: "on_world (on_host (foreach (\<lambda>c. MoveCpuIDs (r_env r) (r_vars r) SharedPool (pc_CPUIDs c)) ?cs)) s = (s1, Ok ())"
      "s' = stop_scaling uid (concat (map pc_CPUIDs ?cs)) s1"
    using assms(2,3) by (auto simp: release_cpus_def Let_def then_do_Ok_iff)
  then obtain h1 where h1: "foreach (\<lambda>c. MoveCpuIDs (r_env r) (r_vars r) SharedPool (pc_CPUIDs c)) ?cs (pw_host s) = (h1, Ok ())"
      "s1 = s\<lparr>pw_world := (pw_world s)\<lparr>w_host := h1\<rparr>\<rparr>"
    by (auto simp: on_world_Ok_iff on_host_Ok_iff)
  have "set (concat (map pc_CPUIDs ?cs)) = cpus_of ?cs" by (simp add: cpus_of_def)
  then have "scaling_stopped uid (cpus_of ?cs) s s'"
    using stop_scaling_stopped[of uid "concat (map pc_CPUIDs ?cs)" s1] s1(2) h1(2) by (simp add: scaling_stopped_def)
  then show ?thesis using release_loop[OF assms(1) h1(1)] s1(2) h1(2) by (simp add: stop_scaling_rest)
qed

lemma Reconcile_releases:
  assumes "lib_inv (r_vars r) (pw_host s)" and "podstate_ok (pw_state s)"
    and "get_pod (r_api r) (w_calls (pw_world s)) (namespace, name) = Inr pod"
    and "pod_Deleted pod \<or> pod_Phase pod = ''Succeeded''"
    and "get_pns (r_api r) (Suc (w_calls (pw_world s))) (pns_name (r_node r)) = Inr pns"
    and "st_CPUPools pns = Some cp"
    and "PowerPod_Reconcile r prc namespace name s = (s', Ok Done)"
  shows "lib_inv (r_vars r) (pw_host s') \<and> host_rest (pw_host s') = host_rest (pw_host s) \<and>
    cpu_pool (pw_host s') =
      (\<lambda>i. if i \<in> cpus_of (pod_containers cp (pod_UID pod)) then SharedPool else cpu_pool (pw_host s) i) \<and>
    GetPodFromState (pod_Name pod) (pod_Namespace pod) (pw_state s') = zero_pod \<and>
    scaling_stopped (pod_UID pod) (cpus_of (pod_containers cp (pod_UID pod))) s s' \<and>
    (\<exists>x. last (w_requests (pw_world s')) = (removal_entry (r_node r) (pod_UID pod), x) \<and> (\<forall>e. x = Some e \<longrightarrow> IsNotFound e))"
proof -
  let ?s = "s\<lparr>pw_world := next_call (pw_world s)\<rparr>"
  have r: "release_pod r pod ?s = (s', Ok Done)"
    using assms(7) Reconcile_found[OF assms(3)] assms(4) by (auto simp: reconcile_pod_def)
  obtain st where st: "DeletePodFromState (pod_Name pod) (pod_Namespace pod) (pw_state s) = Some st"
      "GetPodFromState (pod_Name pod) (pod_Namespace pod) st = zero_pod"
    using pods.delete_ok[OF assms(2), of "(pod_Name pod, pod_Namespace pod)"] by force
  let ?s1 = "?s\<lparr>pw_state := st, pw_world := next_call (next_call (pw_world s))\<rparr>"
  have "forget_pod (pod_Name pod) (pod_Namespace pod) ?s = (?s\<lparr>pw_state := st\<rparr>, Ok ())"
    using st(1) by (simp add: forget_pod_def)
  moreover have "on_world (api_get (\<lambda>n. get_pns (r_api r) n (pns_name (r_node r)))) (?s\<lparr>pw_state := st\<rparr>) = (?s1, Ok pns)"
    using assms(5) by (simp add: on_world_def api_get_def)
  ultimately obtain s2 where s2: "release_cpus r (pod_UID pod) pns ?s1 = (s2, Ok ())"
      "on_world (removePowerNodeStatusExclusiveEntry r (r_node r) (pod_UID pod)) s2 = (s', Ok ())"
    using r by (auto simp: release_pod_def then_do_Ok_iff)
  have h: "pw_host ?s1 = pw_host s" by simp
  then have "lib_inv (r_vars r) (pw_host ?s1)" using assms(1) by simp
  from release_cpus_Ok[OF this assms(6) s2(1), unfolded h] removeEntry_Ok[OF s2(2)] show ?thesis
    using st(2) by (simp add: scaling_stopped_def)
qed

lemma pod_entry_inj: "exclusive_entry n pod pcs = exclusive_entry n pod qs \<Longrightarrow> pcs = qs"
  by (simp add: exclusive_entry_def empty_status_def)

section \<open>Scaling options\<close>

lemma fallback_between:
  assumes "lo \<le> hi" and "hi < 2 ^ 57" and "0 \<le> pct" and "pct \<le> (100 :: int)"
  shows "lo \<le> fallback_freq lo hi pct \<and> fallback_freq lo hi pct \<le> hi"
proof -
  define p where "p = nat pct"
  have p: "p \<le> 100" "pct = int p" using assms(3,4) by (simp_all add: p_def)
  have m: "(hi - lo) * p \<le> (hi - lo) * 100" by (rule mult_le_mono2[OF p(1)])
  from div_le_mono[OF m, of 100] have d: "(hi - lo) * p div 100 \<le> hi - lo" by simp
  have "(hi - lo) * p < 2 ^ 64" by (rule order_le_less_trans[OF m]) (use assms(2) in simp)
  then have "to_uint64 (int (hi - lo) * int p) = (hi - lo) * p"
    unfolding of_nat_mult[symmetric] by (rule to_uint64_of_nat)
  moreover have "to_uint64 (int hi - int lo) = hi - lo" "to_uint64 pct = p"
    using assms(1,2) p to_uint64_of_nat[of "hi - lo"] to_uint64_of_nat[of p] by (simp_all add: of_nat_diff)
  ultimately have "fallback_freq lo hi pct = to_uint64 (int (lo + (hi - lo) * p div 100))"
    unfolding fallback_freq_def by simp
  also have "\<dots> = lo + (hi - lo) * p div 100"
    by (rule to_uint64_of_nat) (use d assms(1,2) in simp)
  finally show ?thesis using d assms(1) by simp
qed

lemma ByID_lookup: "ByID cs i = Ok x \<Longrightarrow> x = (if i \<in> set cs then Some i else None)"
proof -
  have "find (\<lambda>c. c = i) cs = (if i \<in> set cs then Some i else None)" by (induction cs) auto
  moreover have "i \<in> set cs" if "0 \<le> k" "k < int (length cs)" "cs ! nat k = i" for k :: int
    using that nth_mem[of "nat k" cs] by simp
  ultimately show "ByID cs i = Ok x \<Longrightarrow> x = (if i \<in> set cs then Some i else None)"
    by (auto simp: ByID_def Let_def not_less split: if_splits)
qed

lemma scaling_opts_ok:
  assumes "scaling_opts pol cpu (lo, hi) = Ok opts" and "FallbackFreqPercent pol = Some pct" and "0 \<le> pct" and "pct \<le> 100"
    and "lo \<le> hi" and "hi < 2 ^ 57"
  shows "opts_ok opts \<and> target_ok opts \<and> so_CPU opts = cpu"
proof -
  have f: "lo \<le> fallback_freq lo hi pct" "fallback_freq lo hi pct \<le> hi"
    using fallback_between[OF assms(5,6,3,4)] by simp_all
  have i: "to_int64 (int n) = int n" if "n \<le> hi" for n using that assms(6) by (simp add: to_int64_def)
  show ?thesis using assms(1,2,5,6) f i[of lo] i[of hi] i[of "fallback_freq lo hi pct"]
    by (auto simp: scaling_opts_def opts_ok_def target_ok_def split: option.splits)
qed

lemma opts_loop_ok:
  assumes "opts_loop g cs pol ids = Ok (opts, missing)"
    and "FallbackFreqPercent pol = Some pct" and "0 \<le> pct" and "pct \<le> 100"
    and "\<forall>c \<in> set cs. \<forall>lo hi. GetAbsMinMax g c = Ok (lo, hi) \<longrightarrow> lo \<le> hi \<and> hi < 2 ^ 57"
  shows "(\<forall>o' \<in> set opts. opts_ok o' \<and> target_ok o' \<and> so_CPU o' \<in> set ids \<inter> set cs) \<and>
    map so_CPU opts = filter (\<lambda>i. i \<in> set cs) ids \<and> missing = filter (\<lambda>i. i \<notin> set cs) ids"
  using assms(1)
proof (induction ids arbitrary: opts missing)
  case (Cons i ids)
  obtain x where x: "ByID cs i = Ok x" using Cons.prems by (cases "ByID cs i") auto
  show ?case
  proof (cases "i \<in> set cs")
    case False
    then have "ByID cs i = Ok None" using ByID_lookup[OF x] x by simp
    then obtain ms where "opts_loop g cs pol ids = Ok (opts, ms)" "missing = i # ms"
      using Cons.prems by (cases "opts_loop g cs pol ids") auto
    then show ?thesis using Cons.IH[of opts ms] False by auto
  next
    case True
    then have b: "ByID cs i = Ok (Some i)" using ByID_lookup[OF x] x by simp
    obtain lo hi where m: "GetAbsMinMax g i = Ok (lo, hi)" using Cons.prems b by (cases "GetAbsMinMax g i") auto
    obtain o1 where o1: "scaling_opts pol i (lo, hi) = Ok o1"
      using Cons.prems b m by (cases "scaling_opts pol i (lo, hi)") auto
    obtain os where l: "opts_loop g cs pol ids = Ok (os, missing)" "opts = o1 # os"
      using Cons.prems b m o1 by (cases "opts_loop g cs pol ids") auto
    have "lo \<le> hi" "hi < 2 ^ 57" using assms(5) True m by blast+
    note k = scaling_opts_ok[OF o1 assms(2-4) this]
    show ?thesis using Cons.IH[OF l(1)] k True l(2) by auto
  qed
qed simp

section \<open>An example\<close>

text \<open>
  A pod with one container that asks for one CPU under the profile \<open>perf\<close>; the kubelet gave it CPU 1.
  The pod is found alive at first and deleted when its entry is in the status.
\<close>

definition app_container :: PodContainer where
  "app_container = \<lparr>ctr_Name = ''main'', ctr_Requests = [(''cpu'', 10 ^ 9), (ResourcePrefix @ ''perf'', 10 ^ 9)],
     ctr_Limits = [(''cpu'', 10 ^ 9), (ResourcePrefix @ ''perf'', 10 ^ 9)], ctr_Claims = []\<rparr>"

definition app_pod :: Pod where
  "app_pod = \<lparr>pod_Name = ''app'', pod_Namespace = ''default'', pod_UID = ''u1'', pod_Deleted = False,
     pod_Phase = ''Running'', pod_QOSClass = ''Guaranteed'', pod_NodeName = ''node'', pod_InitContainers = [],
     pod_Containers = [app_container], pod_InitStatuses = [], pod_Statuses = [(''main'', ''docker://c1'')]\<rparr>"

definition app_entry :: PowerContainer where
  "app_entry = \<lparr>pc_Name = ''main'', pc_ID = ''c1'', pc_PowerProfile = ''perf'', pc_CPUIDs = [1], pc_Errors = []\<rparr>"

definition app_prc :: PodResourcesClient where
  "app_prc = \<lparr>prc_Client = \<lambda>n. Inr [\<lparr>pr_Name = ''app'', pr_Namespace = ''default'',
     pr_Containers = [\<lparr>cr_Name = ''main'', cr_CpuIds = [1]\<rparr>]\<rparr>],
     CPUControlPlaneClient = Some (\<lambda>n. Inl (Errorf ''refused''))\<rparr>"

definition app_pools :: CPUPoolsStatus where
  "app_pools = \<lparr>cps_Shared = None, cps_Reserved = None,
     cps_Exclusive = Some [\<lparr>es_PodUID = ''u1'', es_Pod = ''app'', es_PowerContainers = [app_entry]\<rparr>]\<rparr>"

definition app_reconciler :: reconciler where
  "app_reconciler = plain_reconciler\<lparr>r_api := plain_api\<lparr>
     get_pod := \<lambda>n k. Inr (if n = 0 then app_pod else app_pod\<lparr>pod_Deleted := True\<rparr>),
     get_pns := \<lambda>n k. Inr (empty_status\<lparr>st_CPUPools := Some app_pools\<rparr>)\<rparr>\<rparr>"

definition shared_node :: "nat \<Rightarrow> pool_ref" where
  "shared_node = (\<lambda>_. SharedPool)"

definition app_world :: pod_world where
  "app_world = \<lparr>pw_world = plain_world shared_node, pw_state = NewState, pw_dpdk = None, pw_manager = None\<rparr>"

lemma app_simps [simp]:
  "r_vars app_reconciler = plain_vars" "r_node app_reconciler = ''node''" "r_env app_reconciler = env0"
  "get_pod (r_api app_reconciler) n k = Inr (if n = 0 then app_pod else app_pod\<lparr>pod_Deleted := True\<rparr>)"
  "get_pns (r_api app_reconciler) n x = Inr (empty_status\<lparr>st_CPUPools := Some app_pools\<rparr>)"
  "send (r_api app_reconciler) n q = None"
  "get_profile (r_api app_reconciler) n ''perf'' = Inr perf_profile"
  "pw_world app_world = plain_world shared_node" "pw_state app_world = NewState"
  "w_calls (plain_world p) = 0" "w_requests (plain_world p) = []"
  by (simp_all add: app_reconciler_def plain_reconciler_def plain_api_def app_world_def plain_world_def)

lemma app_pod_simps [simp]:
  "pod_Name app_pod = ''app''" "pod_Namespace app_pod = ''default''" "pod_UID app_pod = ''u1''" "\<not> pod_Deleted app_pod"
  "pod_Phase app_pod = ''Running''" "pod_NodeName app_pod = ''node''"
  by (simp_all add: app_pod_def)

lemma app_host_inv: "lib_inv plain_vars (plain_host shared_node)"
  by (rule plain_host_inv) (simp add: shared_node_def)

lemma plain_move_one:
  assumes "lib_inv plain_vars h" and "c \<in> set (allCpus h)" and "c < 2 ^ 63" and "legal (cpu_pool h c) p"
  shows "\<exists>h'. MoveCpuIDs env plain_vars p [c] h = (h', Ok ())"
proof -
  have "ManyByIDs (allCpus h) [c] = Ok [c]" using ManyByIDs_small[of "[c]" "allCpus h"] assms(2,3) by simp
  moreover have "c \<in> set (p_cpus (pools h (cpu_pool h c)))" using lib_invD(5)[OF assms(1)] assms(2) by blast
  then obtain cs where "swap_remove (p_cpus (pools h (cpu_pool h c))) c = Some cs" using swap_remove_Some by fast
  then have "\<exists>h'. SetPool env plain_vars c (Some p) h = (h', Ok ())"
    using assms(4) by (auto simp: SetPool_legal doSetPool_def CpuList_remove_def Let_def)
  ultimately show ?thesis by (auto simp: MoveCpuIDs_def MoveCpus_def)
qed

lemma app_perf: "GetExclusivePool (plain_host shared_node) ''perf'' = Some (ExclusivePool 0)"
  by (simp add: GetExclusivePool_def PoolList_ByName_def plain_host_def)

lemma app_admissible: "getAdmissibleContainers app_pod app_prc w = (next_call w, Ok [app_container])"
proof -
  have "doesContainerRequireExclusiveCPUs app_pod app_container"
    by (simp add: doesContainerRequireExclusiveCPUs_def app_pod_def app_container_def resource_def CPUResource_def
        Quantity_Value_def Quantity_MilliValue_def to_int64_def)
  then show ?thesis
    by (simp add: getAdmissibleContainers_def pingControlPlane_def app_prc_def api_get_def allPodContainers_def app_pod_def)
qed

lemma app_request_profile: "getContainerProfileFromRequests app_container = Inr (''perf'', 1)"
  by (simp add: getContainerProfileFromRequests_def app_container_def checkResource_def resource_def CPUResource_def
      HasPrefix_def ResourcePrefix_def Quantity_Value_def to_int64_def)

lemma app_cpus: "GetContainerCPUs app_prc ''app'' ''main'' w = (next_call w, Ok ''1'')"
proof -
  have "find_container [\<lparr>cr_Name = ''main'', cr_CpuIds = [1]\<rparr>] ''main'' = Some ''1''" by code_simp
  then show ?thesis
    by (simp add: GetContainerCPUs_def listResources_def app_prc_def api_get_def parse_response_def del: find_container.simps)
qed

lemma app_requests:
  assumes "w_host w = plain_host shared_node"
  shows "getPowerProfileRequestsFromContainers app_reconciler app_prc app_pod [app_container] w =
    (w\<lparr>w_calls := w_calls w + 2\<rparr>, Ok ([app_entry], []))"
proof -
  have "prettifyCoreList [1] = ''1''" by code_simp
  then have "getCleanCoreList ''1'' = Some [1]" using core_list_codec.round_trip[of "[1]"] by simp
  moreover have "TrimPrefix (getContainerID app_pod ''main'') ''docker://'' = ''c1''"
    by (simp add: getContainerID_def app_pod_def TrimPrefix_def HasPrefix_def)
  ultimately have "container_request app_reconciler app_prc app_pod app_container w = (w\<lparr>w_calls := w_calls w + 2\<rparr>, Ok (Some app_entry, None))"
    using app_cpus app_request_profile assms app_perf
    by (simp add: container_request_def validateProfileAvailabilityOnNode_def api_get_def nodeMatchesPowerProfile_def perf_profile_def
        every_node_def empty_selector_def app_container_def app_entry_def)
  then show ?thesis by simp
qed

lemma app_admitted:
  "\<exists>s1. PowerPod_Reconcile app_reconciler app_prc ''default'' ''app'' app_world = (s1, Ok Done) \<and>
     last (w_requests (pw_world s1)) = (exclusive_entry ''node'' app_pod [app_entry], None) \<and> pw_dpdk s1 = None \<and> podstate_ok (pw_state s1)"
proof -
  let ?w = "(plain_world shared_node)\<lparr>w_calls := 4\<rparr>"
  let ?s = "app_world\<lparr>pw_world := ?w\<rparr>"
  obtain h where h: "MoveCpuIDs env0 plain_vars (ExclusivePool 0) [1] (plain_host shared_node) = (h, Ok ())"
    using plain_move_one[OF app_host_inv, of 1 "ExclusivePool 0" env0] by (auto simp: shared_node_def legal_def)
  have "Suc 0 \<notin> set (p_cpus (pools (plain_host shared_node) (ExclusivePool 0)))"
    "Suc 0 \<in> set (p_cpus (pools (plain_host shared_node) SharedPool))" by (simp_all add: plain_host_def shared_node_def)
  then have "container_step app_reconciler ''u1'' False app_entry ?s = (?s\<lparr>pw_world := ?w\<lparr>w_host := h\<rparr>\<rparr>, Ok (Inr (app_entry, [], False)))"
    using h app_perf by (simp add: container_step_def app_entry_def on_world_def on_host_def setup_scaling_def app_world_def)
  then have "\<exists>s1. admit_pod app_reconciler app_pod [app_entry] [] ?s = (s1, Ok Done) \<and>
      last (w_requests (pw_world s1)) = (exclusive_entry ''node'' app_pod [app_entry], None) \<and> pw_dpdk s1 = None \<and> podstate_ok (pw_state s1)"
    by (simp add: admit_pod_def on_world_def addPowerNodeStatusExclusiveEntry_def applyPowerNodeStateExclusiveStatus_def
        api_send_def errors_Join_def exclusive_entry_def Let_def podstate_ok_update pods.ok_init app_world_def)
  moreover have "PowerPod_Reconcile app_reconciler app_prc ''default'' ''app'' app_world =
      admit_pod app_reconciler app_pod [app_entry] [] ?s"
  proof -
    let ?u = "app_world\<lparr>pw_world := (plain_world shared_node)\<lparr>w_calls := 1\<rparr>\<rparr>"
    have "PowerPod_Reconcile app_reconciler app_prc ''default'' ''app'' app_world = reconcile_pod app_reconciler app_prc app_pod ?u"
      by (simp add: Reconcile_found)
    moreover have "on_world (getAdmissibleContainers app_pod app_prc) ?u =
        (app_world\<lparr>pw_world := (plain_world shared_node)\<lparr>w_calls := 2\<rparr>\<rparr>, Ok [app_container])"
      by (simp add: on_world_def app_admissible)
    moreover have "on_world (getPowerProfileRequestsFromContainers app_reconciler app_prc app_pod [app_container])
        (app_world\<lparr>pw_world := (plain_world shared_node)\<lparr>w_calls := 2\<rparr>\<rparr>) = (?s, Ok ([app_entry], []))"
      using app_requests[of "(plain_world shared_node)\<lparr>w_calls := 2\<rparr>"] by (simp add: on_world_def del: getPowerProfileRequestsFromContainers.simps)
    ultimately show ?thesis by (simp add: reconcile_pod_def del: getPowerProfileRequestsFromContainers.simps)
  qed
  ultimately show ?thesis by simp
qed

lemma app_deleted:
  assumes "lib_inv plain_vars (pw_host t)" and "1 \<in> set (allCpus (pw_host t))" and "podstate_ok (pw_state t)"
    and "w_calls (pw_world t) \<noteq> 0"
  shows "\<exists>s2. PowerPod_Reconcile app_reconciler app_prc ''default'' ''app'' t = (s2, Ok Done)"
proof -
  let ?t = "t\<lparr>pw_world := next_call (pw_world t)\<rparr>"
  obtain h where h: "MoveCpuIDs env0 plain_vars SharedPool [1] (pw_host t) = (h, Ok ())"
    using plain_move_one[OF assms(1,2), of SharedPool env0] by (auto simp: legal_def)
  obtain st where st: "DeletePodFromState ''app'' ''default'' (pw_state t) = Some st"
    using pods.delete_ok[OF assms(3), of "(''app'', ''default'')"] by auto
  let ?u = "t\<lparr>pw_state := st, pw_world := next_call (next_call (pw_world t))\<rparr>"
  have "pod_containers app_pools ''u1'' = [app_entry]" by (simp add: pod_containers_def app_pools_def)
  then obtain v where v: "release_cpus app_reconciler ''u1'' (empty_status\<lparr>st_CPUPools := Some app_pools\<rparr>) ?u = (v, Ok ())"
    using h by (simp add: release_cpus_def on_world_def on_host_def app_entry_def)
  obtain v' where v': "on_world (removePowerNodeStatusExclusiveEntry app_reconciler ''node'' ''u1'') v = (v', Ok ())"
    by (simp add: on_world_def removePowerNodeStatusExclusiveEntry_def applyPowerNodeStateExclusiveStatus_def api_send_def)
  have "forget_pod ''app'' ''default'' ?t = (?t\<lparr>pw_state := st\<rparr>, Ok ())" using st by (simp add: forget_pod_def)
  moreover have "on_world (api_get (\<lambda>n. get_pns (r_api app_reconciler) n x)) (?t\<lparr>pw_state := st\<rparr>) =
      (?u, Ok (empty_status\<lparr>st_CPUPools := Some app_pools\<rparr>))" for x
    by (simp add: on_world_def api_get_def)
  ultimately have "release_pod app_reconciler (app_pod\<lparr>pod_Deleted := True\<rparr>) ?t = (v', Ok Done)"
    using v v' by (simp add: release_pod_def)
  then show ?thesis using assms(4) by (simp add: Reconcile_found reconcile_pod_def)
qed

section \<open>Properties\<close>



text \<open>
  C7. Whatever the API server, the kubelet and the files of the machine do, and whatever \<open>Reconcile\<close>
  returns (a panic included): reconciling a pod that is neither deleted nor finished keeps the
  invariant of the library, leaves the pools and their profiles alone, and takes no CPU from the
  reserved pool or from the pool of another container.
\<close>
theorem PowerPod_Reconcile_isolated:
  assumes "lib_inv (r_vars r) (pw_host s)"
    and "get_pod (r_api r) (w_calls (pw_world s)) (namespace, name) = Inr pod"
    and "\<not> pod_Deleted pod" and "pod_Phase pod \<noteq> ''Succeeded''"
  shows "taken (r_vars r) UNIV (pw_host s) (pw_host (fst (PowerPod_Reconcile r prc namespace name s)))"
  using reconcile_pod_taken[of r "s\<lparr>pw_world := next_call (pw_world s)\<rparr>" pod prc] Reconcile_found[OF assms(2)] assms
  by simp

theorem PowerPod_Reconcile_isolated_witness:
  "taken plain_vars UNIV (plain_host shared_node)
     (pw_host (fst (PowerPod_Reconcile app_reconciler app_prc ''default'' ''app'' app_world)))"
  using PowerPod_Reconcile_isolated[of app_reconciler app_world "''default''" "''app''" app_pod app_prc] app_host_inv by simp

text \<open>
  C8. A pod that is deleted or finished, when the status of the node has an entry for it: once
  \<open>Reconcile\<close> is done, exactly the CPUs listed for its containers are back in the shared pool, the pod
  is forgotten, its telemetry connection is gone, no worker scales any of its CPUs, and its entry
  was removed from the status.
\<close>
theorem PowerPod_Reconcile_releases:
  assumes "lib_inv (r_vars r) (pw_host s)" and "podstate_ok (pw_state s)"
    and "get_pod (r_api r) (w_calls (pw_world s)) (namespace, name) = Inr pod"
    and "pod_Deleted pod \<or> pod_Phase pod = ''Succeeded''"
    and "get_pns (r_api r) (Suc (w_calls (pw_world s))) (pns_name (r_node r)) = Inr pns"
    and "st_CPUPools pns = Some cp"
    and "PowerPod_Reconcile r prc namespace name s = (s', Ok Done)"
  shows "lib_inv (r_vars r) (pw_host s') \<and> host_rest (pw_host s') = host_rest (pw_host s) \<and>
    cpu_pool (pw_host s') =
      (\<lambda>i. if i \<in> cpus_of (pod_containers cp (pod_UID pod)) then SharedPool else cpu_pool (pw_host s) i) \<and>
    GetPodFromState (pod_Name pod) (pod_Namespace pod) (pw_state s') = zero_pod \<and>
    scaling_stopped (pod_UID pod) (cpus_of (pod_containers cp (pod_UID pod))) s s' \<and>
    (\<exists>x. last (w_requests (pw_world s')) = (removal_entry (r_node r) (pod_UID pod), x) \<and> (\<forall>e. x = Some e \<longrightarrow> IsNotFound e))"
  by (rule Reconcile_releases[OF assms])

definition placed_world :: pod_world where
  "placed_world = app_world\<lparr>pw_world := (plain_world (\<lambda>c. if c = 1 then ExclusivePool 0 else SharedPool))\<lparr>w_calls := 1\<rparr>\<rparr>"

theorem PowerPod_Reconcile_releases_witness:
  "\<exists>s2. PowerPod_Reconcile app_reconciler app_prc ''default'' ''app'' placed_world = (s2, Ok Done) \<and>
     cpu_pool (pw_host placed_world) 1 = ExclusivePool 0 \<and> cpu_pool (pw_host s2) = (\<lambda>_. SharedPool)"
proof -
  have inv: "lib_inv (r_vars app_reconciler) (pw_host placed_world)"
    unfolding placed_world_def by simp (rule plain_host_inv, simp split: if_splits)
  have st: "podstate_ok (pw_state placed_world)" by (simp add: placed_world_def pods.ok_init)
  obtain s2 where s2: "PowerPod_Reconcile app_reconciler app_prc ''default'' ''app'' placed_world = (s2, Ok Done)"
    using app_deleted[of placed_world] inv st by (auto simp: placed_world_def)
  have "cpu_pool (pw_host s2) = (\<lambda>i. if i \<in> cpus_of (pod_containers app_pools ''u1'') then SharedPool else cpu_pool (pw_host placed_world) i)"
    using PowerPod_Reconcile_releases[OF inv st _ _ _ _ s2, of "app_pod\<lparr>pod_Deleted := True\<rparr>"] by (simp add: placed_world_def)
  moreover have "cpus_of (pod_containers app_pools ''u1'') = {1}"
    by (simp add: pod_containers_def app_pools_def cpus_of_def app_entry_def)
  ultimately show ?thesis using s2 by (auto simp: placed_world_def fun_eq_iff)
qed

text \<open>
  C9. The life of a pod is a round trip: when its CPUs were in the shared pool before it was admitted,
  and the node's status still has the entry that was written then when the pod is deleted, every
  CPU of the node is in the end in the pool where it was at first.
\<close>
theorem pod_round_trip:
  assumes "lib_inv (r_vars r) (pw_host s)"
    and "get_pod (r_api r) (w_calls (pw_world s)) (namespace, name) = Inr pod"
    and "\<not> pod_Deleted pod" and "pod_Phase pod = ''Running''"
    and "getAdmissibleContainers pod prc (next_call (pw_world s)) = (w1, Ok cs)" and "cs \<noteq> []"
    and "PowerPod_Reconcile r prc namespace name s = (s1, Ok Done)"
    and "last (w_requests (pw_world s1)) = (exclusive_entry (r_node r) pod pcs, None)"
    and "\<forall>i \<in> cpus_of pcs. cpu_pool (pw_host s) i = SharedPool"
    and "pw_world t = (pw_world s1)\<lparr>w_calls := n\<rparr>" and "podstate_ok (pw_state t)"
    and "get_pod (r_api r) n (namespace, name) = Inr pod'" and "pod_Deleted pod'" and "pod_UID pod' = pod_UID pod"
    and "get_pns (r_api r) (Suc n) (pns_name (r_node r)) = Inr pns" and "st_CPUPools pns = Some cp"
    and "pod_containers cp (pod_UID pod) = pcs"
    and "PowerPod_Reconcile r prc namespace name t = (s2, Ok Done)"
  shows "cpu_pool (pw_host s2) = cpu_pool (pw_host s)"
proof -
  obtain qs where q: "last (w_requests (pw_world s1)) = (exclusive_entry (r_node r) pod qs, None)"
      "taken (r_vars r) (cpus_of qs) (pw_host s) (pw_host s1)"
    using Reconcile_admits[OF assms(1-7)] by blast
  then have "qs = pcs" using assms(8) pod_entry_inj[of "r_node r" pod qs pcs] by simp
  then have t: "taken (r_vars r) (cpus_of pcs) (pw_host s) (pw_host t)" using q(2) assms(10) by simp
  have "cpu_pool (pw_host s2) = (\<lambda>i. if i \<in> cpus_of (pod_containers cp (pod_UID pod')) then SharedPool else cpu_pool (pw_host t) i)"
    using Reconcile_releases[OF taken_inv[OF t] assms(11) _ _ _ assms(16,18), of pod'] assms(10,12,13,15) by simp
  moreover have "cpu_pool (pw_host t) i = cpu_pool (pw_host s) i" if "i \<notin> cpus_of pcs" for i
    using t that unfolding taken_def by blast
  ultimately show ?thesis using assms(9,14,17) by (auto simp: fun_eq_iff)
qed

theorem pod_round_trip_witness:
  "\<exists>s1 s2. PowerPod_Reconcile app_reconciler app_prc ''default'' ''app'' app_world = (s1, Ok Done) \<and>
     PowerPod_Reconcile app_reconciler app_prc ''default'' ''app'' (s1\<lparr>pw_world := (pw_world s1)\<lparr>w_calls := 9\<rparr>\<rparr>) = (s2, Ok Done) \<and>
     cpu_pool (pw_host s2) = cpu_pool (plain_host shared_node)"
proof -
  obtain s1 where s1: "PowerPod_Reconcile app_reconciler app_prc ''default'' ''app'' app_world = (s1, Ok Done)"
      "last (w_requests (pw_world s1)) = (exclusive_entry ''node'' app_pod [app_entry], None)" "podstate_ok (pw_state s1)"
    using app_admitted by blast
  let ?t = "s1\<lparr>pw_world := (pw_world s1)\<lparr>w_calls := 9\<rparr>\<rparr>"
  have inv: "lib_inv (r_vars app_reconciler) (pw_host app_world)" using app_host_inv by simp
  have "taken plain_vars UNIV (plain_host shared_node) (pw_host s1)"
    using reconcile_pod_taken[of app_reconciler "app_world\<lparr>pw_world := next_call (pw_world app_world)\<rparr>" app_pod app_prc]
      s1(1) app_host_inv by (simp add: Reconcile_found)
  then obtain s2 where s2: "PowerPod_Reconcile app_reconciler app_prc ''default'' ''app'' ?t = (s2, Ok Done)"
    using app_deleted[of ?t] s1(3) by (auto simp: taken_def)
  have "cpu_pool (pw_host s2) = cpu_pool (pw_host app_world)"
  proof (rule pod_round_trip[OF inv _ _ _ app_admissible _ s1(1) _ _ _ _ _ _ _ _ _ _ s2, where n = 9 and cp = app_pools and pcs = "[app_entry]"
        and pod' = "app_pod\<lparr>pod_Deleted := True\<rparr>" and pns = "empty_status\<lparr>st_CPUPools := Some app_pools\<rparr>"])
    show "\<forall>i \<in> cpus_of [app_entry]. cpu_pool (pw_host app_world) i = SharedPool" by (simp add: shared_node_def)
    show "pod_containers app_pools (pod_UID app_pod) = [app_entry]" by (simp add: pod_containers_def app_pools_def)
  qed (use s1 in simp_all)
  then show ?thesis using s1(1) s2 by auto
qed


definition dpdk_policy :: CPUScalingPolicy where
  "dpdk_policy = \<lparr>WorkloadType = WorkloadTypePollingDPDK, SamplePeriod = Some (10 ^ 7), CooldownPeriod = Some (3 * 10 ^ 7),
     TargetUsage = Some 80, AllowedUsageDifference = Some 5, AllowedFrequencyDifference = Some 25,
     ScalePercentage = Some 50, FallbackFreqPercent = Some 25\<rparr>"


end
