(* ===== verification/Topology_Frame.thy ===== *)
theory Topology_Frame
  imports Frames NodeConfig_Props Profile_Controller_Props PowerPod_Props
begin

text \<open>
  The operations on pools, and with them the controllers of configurations, profiles and pods, leave
  the discovered topology, with its list of CPUs and its uncore settings, alone. The relation is the same on every kind of
  state the calls run on; each kind is an interpretation of \<open>frame\<close>.
\<close>

section \<open>The relation on the states of the calls\<close>

definition same_topo :: "host \<Rightarrow> host \<Rightarrow> bool" where
  "same_topo h h' = (h_topo h' = h_topo h \<and> allCpus h' = allCpus h)"

definition same_wtopo :: "world \<Rightarrow> world \<Rightarrow> bool" where
  "same_wtopo w w' = same_topo (w_host w) (w_host w')"

definition same_etopo :: "world \<times> err option \<Rightarrow> world \<times> err option \<Rightarrow> bool" where
  "same_etopo s s' = same_wtopo (fst s) (fst s')"

definition same_ctopo :: "host \<times> 'b \<Rightarrow> host \<times> 'b \<Rightarrow> bool" where
  "same_ctopo s s' = same_topo (fst s) (fst s')"

definition same_ptopo :: "pod_world \<Rightarrow> pod_world \<Rightarrow> bool" where
  "same_ptopo s s' = same_wtopo (pw_world s) (pw_world s')"

lemmas same_defs = same_topo_def same_wtopo_def same_etopo_def same_ctopo_def same_ptopo_def

interpretation topo: frame same_topo
  by unfold_locales (simp_all add: same_defs)

interpretation wtopo: frame same_wtopo
  by unfold_locales (simp_all add: same_defs)

interpretation etopo: frame same_etopo
  by unfold_locales (simp_all add: same_defs)

interpretation ctopo: frame same_ctopo
  by unfold_locales (simp_all add: same_defs)

interpretation ptopo: frame same_ptopo
  by unfold_locales (simp_all add: same_defs)

named_theorems topo_keeps \<open>calls that leave the topology alone\<close>

lemmas topo_rules [topo_keeps] =
  topo.return topo.then_do topo.catch_err topo.wrap_err topo.cond topo.opt topo.sum topo.pair topo.foreach topo.range_slice
  wtopo.return wtopo.then_do wtopo.catch_err wtopo.wrap_err wtopo.cond wtopo.opt wtopo.sum wtopo.pair wtopo.foreach
  etopo.return etopo.then_do etopo.wrap_err etopo.cond etopo.opt
  ctopo.range_slice
  ptopo.return ptopo.then_do ptopo.catch_err ptopo.cond ptopo.opt ptopo.sum ptopo.pair ptopo.pair_at

lemma on_sys_topo [topo_keeps]: "steps same_topo (on_sys f)"
  by (simp add: steps_def on_sys_def same_defs split: prod.split)

lemma on_host_topo [topo_keeps]: "steps same_topo f \<Longrightarrow> steps same_wtopo (on_host f)"
  by (simp add: steps_def on_host_def same_defs split_beta)

lemma api_topo [topo_keeps]: "steps same_wtopo (api_get q)" "steps same_wtopo (api_send r m)"
  by (simp_all add: steps_def api_get_def api_send_def same_defs Let_def)

lemma on_world_topo [topo_keeps]: "steps same_wtopo f \<Longrightarrow> steps same_ptopo (on_world f)"
  by (simp add: steps_def on_world_def same_defs split_beta)

lemma err_topo [topo_keeps]:
  "steps same_wtopo f \<Longrightarrow> steps same_etopo (record_err f)" "steps same_wtopo f \<Longrightarrow> steps same_etopo (shadow_err f)"
  by (auto simp: steps_def record_err_def shadow_err_def same_defs split_beta split: res.split)

section \<open>The library\<close>

lemma consolidate_topo [topo_keeps]: "steps same_topo (consolidate env g c)"
  unfolding steps_def consolidate_def using stepsD[OF on_sys_topo] by blast

lemma doSetPool_topo [topo_keeps]: "steps same_topo (doSetPool env g c p)"
proof (rule stepsI)
  fix h
  have c: "h_topo k' = h_topo k \<and> allCpus k' = allCpus k" if "consolidate env g c k = (k', x)" for k k' x
    using stepsD_eq[OF consolidate_topo that] by (simp add: same_topo_def)
  show "same_topo h (fst (doSetPool env g c p h))"
    by (auto simp: doSetPool_def same_topo_def Let_def set_cpus_def set_pool_def dest!: c split: res.split prod.split)
qed

lemma SetPool_topo [topo_keeps]: "steps same_topo (SetPool env g c p)"
  unfolding SetPool_def by (intro topo_keeps)

lemma SetPowerProfile_topo [topo_keeps]: "steps same_topo (SetPowerProfile env g p prof)"
proof (rule stepsI)
  fix h
  show "same_topo h (fst (SetPowerProfile env g p prof h))"
    using stepsD[OF topo.foreach, of "consolidate env g"] consolidate_topo
    by (auto simp: SetPowerProfile_def Let_def same_topo_def)
qed

lemma MoveCpus_topo [topo_keeps]: "steps same_topo (MoveCpus env g p cs)"
  unfolding MoveCpus_def by (intro topo_keeps)

lemma MoveCpuIDs_topo [topo_keeps]: "steps same_topo (MoveCpuIDs env g p ids)"
  unfolding MoveCpuIDs_def by (intro topo_keeps)

lemma SetCpus_topo [topo_keeps]: "steps same_topo (SetCpus env g p req)"
proof (rule stepsI)
  fix h
  have l: "same_topo h (fst (foreach f cs h))" if "\<And>c. steps same_topo (f c)" for f and cs :: "nat list"
    using stepsD[OF topo.foreach[OF that]] .
  show "same_topo h (fst (SetCpus env g p req h))"
    unfolding SetCpus_def sharedPool_SetCpus_def reservedPool_SetCpus_def exclusivePool_SetCpus_def
    by (cases p; simp only: pool_ref.case) (rule l, intro topo_keeps)+
qed

lemma SetCpuIDs_topo [topo_keeps]: "steps same_topo (SetCpuIDs env g p ids)"
  unfolding SetCpuIDs_def by (intro topo_keeps)

lemma Pool_Remove_topo [topo_keeps]: "steps same_topo (Pool_Remove env g p)"
proof -
  have "steps same_topo (PoolList_remove p)"
    by (simp add: steps_def PoolList_remove_def same_topo_def split: option.split)
  then show ?thesis unfolding Pool_Remove_def Clear_def
    by (cases p; simp only: pool_ref.case) (intro topo_keeps)+
qed

lemma AddExclusivePool_topo: "AddExclusivePool name h = (h', p, e) \<Longrightarrow> same_topo h h'"
  by (auto simp: AddExclusivePool_def same_topo_def Let_def split: if_splits)

section \<open>The PowerNodeConfig controller\<close>

lemma configureSharedPool_topo [topo_keeps]: "steps same_topo (configureSharedPool r config)"
  unfolding configureSharedPool_def Let_def by (intro topo_keeps)

lemma remove_quietly_topo [topo_keeps]: "steps same_topo (remove_quietly r p e)"
  unfolding remove_quietly_def by (intro topo_keeps)

lemma createReservedPool_topo [topo_keeps]: "steps same_topo (createReservedPool r rc nodeName)"
proof (rule stepsI)
  fix h
  obtain h1 p e where a: "AddExclusivePool (reserved_name nodeName (rs_Cores rc)) h = (h1, p, e)" by (cases "AddExclusivePool (reserved_name nodeName (rs_Cores rc)) h") auto
  have "steps same_topo (\<lambda>h. case GetExclusivePool h (rs_PowerProfile rc) of
             None \<Rightarrow> remove_quietly r p
                       (Errorf (''profile '' @ squote (rs_PowerProfile rc) @ '' has no existing pool'')) h
           | Some corePool \<Rightarrow>
               catch_err (SetPowerProfile (r_env r) (r_vars r) p (p_profile (pools h corePool)) h)
                 (\<lambda>e. remove_quietly r p (Wrapf ''failed to set profile for reserved cores'' e))
                 (\<lambda>_ h.
                    catch_err (SetCpuIDs (r_env r) (r_vars r) p (rs_Cores rc) h)
                      (\<lambda>e. remove_quietly r p (Wrapf ''failed to move cores to reserved pool'' e))
                      (\<lambda>_ h. (h, Ok ()))))" (is "steps _ ?f")
  proof -
    have "steps same_topo (\<lambda>h. SetPowerProfile (r_env r) (r_vars r) p (x h) h)" for x
      by (rule stepsI) (rule stepsD[OF SetPowerProfile_topo])
    then show ?thesis by (intro topo_keeps)
  qed
  from stepsD[OF this, of h1] show "same_topo h (fst (createReservedPool r rc nodeName h))"
    using topo.trans[OF AddExclusivePool_topo[OF a]] AddExclusivePool_topo[OF a] a
    by (cases e) (simp_all add: createReservedPool_def)
qed

lemma remove_reserved_pools_topo [topo_keeps]: "steps same_topo (remove_reserved_pools r nodeName)"
  unfolding remove_reserved_pools_def by (intro topo_keeps)

lemma reserve_groups_topo [topo_keeps]: "steps same_topo (reserve_groups r nodeName rcs sts errs)"
proof (induction rcs arbitrary: sts errs)
  case (Cons rc rcs)
  show ?case unfolding reserve_groups.simps[abs_def] Let_def by (intro topo_keeps Cons.IH)
qed (simp add: steps_def same_topo_def)

lemma configureReservedPools_topo [topo_keeps]: "steps same_topo (configureReservedPools r config nodeName)"
  unfolding configureReservedPools_def by (intro topo_keeps)

lemma release_pools_topo [topo_keeps]: "steps same_topo (release_pools r room nodeName)"
proof (rule stepsI)
  fix h
  have "steps same_ctopo (collect_reserved r room nodeName p)" for p
    using stepsD_eq[OF Pool_Remove_topo]
    by (auto simp: steps_def collect_reserved_def Let_def same_ctopo_def same_topo_def split: prod.split)
  then have "steps same_ctopo (range_slice (\<lambda>(h, m, a). exclusivePools h) (collect_reserved r room nodeName))"
    by (rule ctopo.range_slice)
  note c = stepsD[OF this, of "(h, p_cpus (pools h SharedPool), True)"]
  obtain h1 m a x where s: "range_slice (\<lambda>(h, m, a). exclusivePools h) (collect_reserved r room nodeName)
      (h, p_cpus (pools h SharedPool), True) = ((h1, m, a), x)" by (metis prod.collapse)
  have "steps same_topo (move_collected r m a)" unfolding move_collected_def by (cases a) (simp_all, (intro topo_keeps)+)
  then have "same_topo h1 (fst (move_collected r m a h1))" by (rule stepsD)
  then show "same_topo h (fst (release_pools r room nodeName h))"
    using c s by (cases x) (simp_all add: release_pools_def same_ctopo_def same_topo_def)
qed

lemma updateStatus_topo [topo_keeps]:
  "steps same_wtopo (updatePowerNodeStatusPools r n c p i x e)" "steps same_wtopo (removePowerNodeStatusPools r n)"
  unfolding updatePowerNodeStatusPools_def removePowerNodeStatusPools_def Let_def by (intro topo_keeps)+

lemma cleanupPools_topo [topo_keeps]: "steps same_wtopo (cleanupPowerNodeConfigPools r room n)"
  unfolding cleanupPowerNodeConfigPools_def by (intro topo_keeps)

lemma host_kept_topo: "host_kept f \<Longrightarrow> steps same_wtopo f"
  by (simp add: host_kept_def steps_def same_defs)

lemma applyPowerNodeConfig_topo [topo_keeps]: "steps same_wtopo (applyPowerNodeConfig r config n errs)"
proof -
  have "steps same_wtopo (\<lambda>w. updatePowerNodeStatusPools r n c p (i w) x e w)" for c p i x e
    using stepsD[OF updateStatus_topo(1)] by (intro stepsI)
  then show ?thesis unfolding applyPowerNodeConfig_def Let_def
    by (intro topo_keeps host_kept_topo[OF validate_kept])
qed

lemma PowerNodeConfig_Reconcile_topo: "steps same_wtopo (PowerNodeConfig_Reconcile r room ns)"
  unfolding PowerNodeConfig_Reconcile_def Let_def
proof (intro topo_keeps host_kept_topo[OF getMatching_kept] host_kept_topo[OF getActiveResourceName_kept])
  fix ms active
  show "steps same_wtopo (\<lambda>w. case selectActiveOrOldest pnc_Meta ms active of
      (matches, None) \<Rightarrow>
        if active \<noteq> [] then then_do (cleanupPowerNodeConfigPools r room (r_node r) w) (\<lambda>_ w. (w, Ok Done)) else (w, Ok Done)
    | (matches, Some selected) \<Rightarrow>
        then_do (if 1 < length matches then conflict_errors r (om_Name (pnc_Meta selected)) matches w else (w, Ok []))
          (applyPowerNodeConfig r selected (r_node r)))"
    by (cases "selectActiveOrOldest pnc_Meta ms active"; cases "snd (selectActiveOrOldest pnc_Meta ms active)";
        simp only: prod.case option.case snd_conv) (intro topo_keeps host_kept_topo[OF conflict_errors_kept])+
qed

section \<open>The PowerProfile controller\<close>

lemma create_profile_pool_topo [topo_keeps]: "steps same_topo (create_profile_pool r name prof)"
proof (rule stepsI)
  fix h
  obtain h1 p e where a: "AddExclusivePool name h = (h1, p, e)" by (cases "AddExclusivePool name h") auto
  show "same_topo h (fst (create_profile_pool r name prof h))"
    using topo.trans[OF AddExclusivePool_topo[OF a] stepsD[OF SetPowerProfile_topo]] AddExclusivePool_topo[OF a] a
    by (cases e) (simp_all add: create_profile_pool_def)
qed

lemma update_pools_topo [topo_keeps]:
  "steps same_topo (update_shared_pool r n name prof)" "steps same_topo (update_reserved_pools r n name prof)"
proof -
  show "steps same_topo (update_shared_pool r n name prof)" unfolding update_shared_pool_def by (intro topo_keeps)
  show "steps same_topo (update_reserved_pools r n name prof)"
    unfolding update_reserved_pools_def steps_def
    by (rule allI, rule stepsD, intro topo_keeps)
qed

lemma ensureExtended_topo [topo_keeps]: "steps same_wtopo (ensureExtendedResources r n p)"
  unfolding ensureExtendedResources_def Let_def
  by (intro topo_keeps stepsI) (auto simp: same_defs api_send_def Let_def split: option.split)

lemma note_epp_topo [topo_keeps]:
  assumes "steps same_wtopo f" shows "steps same_etopo (\<lambda>s. record_err f (note_epp g p s))"
  using stepsD[OF err_topo(1)[OF assms]] by (auto simp: steps_def note_epp_def same_etopo_def split_beta)

lemma apply_profile_topo: "steps same_etopo (apply_profile r n p)"
proof -
  have "steps same_etopo (place_profile r n name prof)" for name prof
    unfolding place_profile_def by (intro topo_keeps)
  then show ?thesis unfolding apply_profile_def by (intro topo_keeps)
qed

lemma PowerProfile_Reconcile_topo: "steps same_wtopo (PowerProfile_Reconcile r ns name)"
proof -
  have "steps same_wtopo (\<lambda>w. report_profile r n p (apply_profile r n p (w, None)))" for n p
  proof (rule stepsI)
    fix w
    obtain w1 er x where a: "apply_profile r n p (w, None) = ((w1, er), x)" by (metis prod.collapse)
    have "same_wtopo w w1" using stepsD_eq[OF apply_profile_topo a] by (simp add: same_etopo_def)
    moreover have "same_wtopo w1 (fst (report_profile r n p ((w1, er), x)))"
      using host_keptD(1)[OF addProfileEntry_kept, of r n p er w1]
      by (auto simp: report_profile_def same_defs split: prod.split res.split)
    ultimately show "same_wtopo w (fst (report_profile r n p (apply_profile r n p (w, None))))"
      unfolding a by (rule wtopo.trans)
  qed
  moreover have "steps same_wtopo (delete_profile r n name)" for n
  proof -
    have "steps same_topo (delete_shared_profile r name)" unfolding delete_shared_profile_def by (intro topo_keeps)
    then show ?thesis unfolding delete_profile_def
      by (intro topo_keeps host_kept_topo[OF removeExtended_kept] host_kept_topo[OF removeProfileEntry_kept])
  qed
  ultimately show ?thesis unfolding PowerProfile_Reconcile_def Let_def
    by (intro topo_keeps host_kept_topo[OF nodeMatchesPowerProfile_kept] host_kept_topo[OF cleanupProfile_kept])
qed

section \<open>The PowerPod controller\<close>

lemma quiet_topo: "quiet f \<Longrightarrow> steps same_wtopo f"
  by (simp add: quiet_def steps_def same_defs)

lemma setup_scaling_topo [topo_keeps]: "steps same_ptopo (setup_scaling r uid a c)"
  using setup_scaling_host by (simp add: steps_def same_defs)

lemma container_step_topo [topo_keeps]: "steps same_ptopo (container_step r uid a c)"
proof -
  have "steps same_ptopo (\<lambda>s. on_world (on_host (MoveCpuIDs (r_env r) (r_vars r) p (ids s))) s)" for p ids
    by (rule stepsI) (rule stepsD[OF on_world_topo[OF on_host_topo[OF MoveCpuIDs_topo]]])
  then show ?thesis unfolding container_step_def Let_def by (intro topo_keeps)
qed

lemma container_loop_topo [topo_keeps]: "steps same_ptopo (container_loop r uid a cs)"
proof (induction cs arbitrary: a)
  case (Cons c cs)
  show ?case unfolding container_loop.simps[abs_def] by (intro topo_keeps Cons.IH)
qed (simp add: steps_def same_defs)

lemma admit_pod_topo [topo_keeps]: "steps same_ptopo (admit_pod r pod pcs es)"
proof -
  have u: "same_ptopo s (s\<lparr>pw_state := x\<rparr>)" for s x by (simp add: same_defs)
  have "steps same_ptopo (\<lambda>s. (let s = s\<lparr>pw_state := UpdateStateGuaranteedPods p (pw_state s)\<rparr>
      in case j of None \<Rightarrow> (s, Ok Done) | Some e \<Rightarrow> (s, Error (Wrapf ''recoverable errors encountered'' e))))" for p j
    by (simp add: steps_def Let_def u split: option.split)
  moreover have "steps same_wtopo (addPowerNodeStatusExclusiveEntry r n u k x)" for n u k x
    unfolding addPowerNodeStatusExclusiveEntry_def applyPowerNodeStateExclusiveStatus_def by (intro topo_keeps)
  ultimately show ?thesis unfolding admit_pod_def by (intro topo_keeps)
qed

lemma forget_pod_topo [topo_keeps]: "steps same_ptopo (forget_pod name ns)"
  by (simp add: steps_def forget_pod_def same_defs split: option.split)

lemma release_cpus_topo [topo_keeps]: "steps same_ptopo (release_cpus r uid pns)"
proof -
  have "steps same_ptopo (\<lambda>s. (stop_scaling uid ids s, Ok ()))" for ids
    by (simp add: steps_def same_defs stop_scaling_rest)
  then show ?thesis unfolding release_cpus_def Let_def by (intro topo_keeps)
qed

lemma release_pod_topo [topo_keeps]: "steps same_ptopo (release_pod r pod)"
  unfolding release_pod_def removePowerNodeStatusExclusiveEntry_def applyPowerNodeStateExclusiveStatus_def
  by (intro topo_keeps)

lemma PowerPod_Reconcile_topo: "steps same_ptopo (PowerPod_Reconcile r prc ns name)"
proof -
  have "steps same_ptopo (reconcile_pod r prc pod)" for pod
    unfolding reconcile_pod_def
    by (intro topo_keeps quiet_topo[OF admissible_quiet] quiet_topo[OF requests_quiet])
  then show ?thesis unfolding PowerPod_Reconcile_def by (intro topo_keeps)
qed

end
