(* ===== verification/Uncore_Controller.thy ===== *)
theory Uncore_Controller
  imports Controllers_Common
begin

text \<open>
  \<open>controllers/uncore_controller.go\<close>: the Uncore resource that applies to the node becomes settings
  of the topology, of packages and of dies. A host that was created has a topology, so the check
  that it has one is left out. Packages and dies are visited in the order of the lists that model
  the maps.
\<close>

definition FieldOwnerUncoreController :: string where
  "FieldOwnerUncoreController = ''uncore-controller''"

definition uncoreActiveName :: "PowerNodeStateStatus \<Rightarrow> string" where
  "uncoreActiveName s = (case st_Uncore s of Some u \<Rightarrow> nus_Name u | None \<Rightarrow> [])"

definition uncoreSelector :: "Uncore \<Rightarrow> LabelSelector" where
  "uncoreSelector u = ns_LabelSelector (us_NodeSelector (un_Spec u))"

definition getMatchingUncores :: "reconciler \<Rightarrow> string \<Rightarrow> world \<Rightarrow> world \<times> Uncore list res" where
  "getMatchingUncores r nodeName w =
     then_do (wrap_err (''failed to get node '' @ nodeName) (api_get (\<lambda>n. get_node (r_api r) n nodeName) w)) (\<lambda>node w.
       then_do (wrap_err ''failed to list Uncores'' (api_get (list_uncores (r_api r)) w)) (\<lambda>items w.
         (w, Ok (filterByNodeSelector (r_api r) uncoreSelector items (nd_Labels node)))))"

section \<open>Settings\<close>

definition on_topo :: "(topology \<times> sys \<Rightarrow> (topology \<times> sys) \<times> 'a res) \<Rightarrow> host \<Rightarrow> host \<times> 'a res" where
  "on_topo f h = (case f (h_topo h, hsys h) of ((t, sy), x) \<Rightarrow> (h\<lparr>h_topo := t, hsys := sy\<rparr>, x))"

definition reset_package :: "env \<Rightarrow> pkgvars \<Rightarrow> nat \<times> package \<Rightarrow> topology \<times> sys \<Rightarrow> (topology \<times> sys) \<times> unit res" where
  "reset_package env g = (\<lambda>(i, pk) ts.
     then_do (package_SetUncore env g i None ts)
       (\<lambda>_. foreach (\<lambda>(j, d). die_SetUncore env g i j None) (pk_dies pk)))"

definition resetUncoreSettings :: "env \<Rightarrow> pkgvars \<Rightarrow> topology \<times> sys \<Rightarrow> (topology \<times> sys) \<times> unit res" where
  "resetUncoreSettings env g ts =
     then_do (topology_SetUncore env g None ts)
       (\<lambda>_ (t, sy). foreach (reset_package env g) (packages t) (t, sy))"

text \<open>
  One setting of a spec either adds a part to the text of the configuration (\<open>Inr\<close>) or an error
  (\<open>Inl\<close>).
\<close>

type_synonym outcome = "string + string"

definition apply_sys ::
  "env \<Rightarrow> pkgvars \<Rightarrow> nat \<Rightarrow> nat \<Rightarrow> topology \<times> sys \<Rightarrow> (topology \<times> sys) \<times> outcome res" where
  "apply_sys env g sysMin sysMax ts =
     catch_err (ts, NewUncore g sysMin sysMax)
       (\<lambda>e ts. (ts, Ok (Inl (''error creating system uncore: '' @ err_msg e))))
       (\<lambda>pUncore ts. catch_err (topology_SetUncore env g (Some pUncore) ts)
          (\<lambda>e ts. (ts, Ok (Inl (''error setting system uncore: '' @ err_msg e))))
          (\<lambda>_ ts. (ts, Ok (Inr (''SysMin: '' @ nat_str sysMin @ '', SysMax: '' @ nat_str sysMax)))))"

definition min_max_text :: "nat \<Rightarrow> nat \<Rightarrow> string" where
  "min_max_text mn mx = '': Min '' @ nat_str mn @ '', Max '' @ nat_str mx"

definition apply_die_selector ::
  "env \<Rightarrow> pkgvars \<Rightarrow> DieSelector \<Rightarrow> topology \<times> sys \<Rightarrow> (topology \<times> sys) \<times> outcome res" where
  "apply_die_selector env g ds ts =
     (case (ds_Max ds, ds_Min ds, ds_Package ds) of
        (Some mx, Some mn, Some p) \<Rightarrow>
          catch_err (ts, NewUncore g mn mx)
            (\<lambda>e ts. (ts, Ok (Inl (''error creating uncore for package '' @ nat_str p @ '': '' @ err_msg e))))
            (\<lambda>pUncore (t, sy).
               (case map_of (packages t) p of
                  None \<Rightarrow> ((t, sy), Ok (Inl (''invalid package: '' @ nat_str p)))
                | Some pkg \<Rightarrow>
                    (case ds_Die ds of
                       None \<Rightarrow>
                         catch_err (package_SetUncore env g p (Some pUncore) (t, sy))
                           (\<lambda>e ts. (ts, Ok (Inl (''error setting uncore for package '' @ nat_str p @ '': '' @ err_msg e))))
                           (\<lambda>_ ts. (ts, Ok (Inr (''Package '' @ nat_str p @ min_max_text mn mx))))
                     | Some d \<Rightarrow>
                         if map_of (pk_dies pkg) d = None then ((t, sy), Ok (Inl (''invalid die: '' @ nat_str d)))
                         else catch_err (die_SetUncore env g p d (Some pUncore) (t, sy))
                           (\<lambda>e ts. (ts, Ok (Inl (''error setting uncore for package '' @ nat_str p @ '' die '' @ nat_str d @
                              '': '' @ err_msg e))))
                           (\<lambda>_ ts. (ts, Ok (Inr (''Package '' @ nat_str p @ '' Die '' @ nat_str d @ min_max_text mn mx)))))))
      | _ \<Rightarrow> (ts, Ok (Inl ''die selector max, min and package fields must not be empty'')))"

fun apply_selectors ::
  "env \<Rightarrow> pkgvars \<Rightarrow> DieSelector list \<Rightarrow> topology \<times> sys \<Rightarrow> (topology \<times> sys) \<times> outcome list res" where
  "apply_selectors env g [] ts = (ts, Ok [])"
| "apply_selectors env g (ds # dss) ts =
     then_do (apply_die_selector env g ds ts) (\<lambda>x ts.
       then_do (apply_selectors env g dss ts) (\<lambda>xs ts. (ts, Ok (x # xs))))"

text \<open>The errors and the parts of the configuration, each in order.\<close>

definition apply_errors :: "outcome list \<Rightarrow> string list" where
  "apply_errors xs = concat (map (\<lambda>x. case x of Inl e \<Rightarrow> [e] | Inr p \<Rightarrow> []) xs)"

definition config_parts :: "outcome list \<Rightarrow> string list" where
  "config_parts xs = concat (map (\<lambda>x. case x of Inl e \<Rightarrow> [] | Inr p \<Rightarrow> [p]) xs)"

definition apply_settings :: "env \<Rightarrow> pkgvars \<Rightarrow> UncoreSpec \<Rightarrow> topology \<times> sys \<Rightarrow> (topology \<times> sys) \<times> outcome list res" where
  "apply_settings env g spec ts =
     then_do (case (SysMax spec, SysMin spec) of
                (Some mx, Some mn) \<Rightarrow> then_do (apply_sys env g mn mx ts) (\<lambda>x ts. (ts, Ok [x]))
              | _ \<Rightarrow> (ts, Ok []))
       (\<lambda>xs ts. then_do (apply_selectors env g (the_default [] (DieSelectors spec)) ts)
          (\<lambda>ys ts. (ts, Ok (xs @ ys))))"

section \<open>Status\<close>

definition updateUncoreInPowerNodeState ::
  "reconciler \<Rightarrow> string \<Rightarrow> string \<Rightarrow> string \<Rightarrow> string list \<Rightarrow> world \<Rightarrow> world \<times> unit res" where
  "updateUncoreInPowerNodeState r nodeName crName configString statusErrors w =
     catch_err (api_send r (StatusApply (pns_name nodeName)
          (empty_status\<lparr>st_Uncore := Some \<lparr>nus_Name = crName, nus_Config = configString, nus_Errors = statusErrors\<rparr>\<rparr>)
          FieldOwnerUncoreController) w)
       (\<lambda>e w. if IsNotFound e then (w, Error (Errorf (''PowerNodeState '' @ pns_name nodeName @ '' not found, requeueing'')))
              else (w, Error (Wrapf ''failed to update PowerNodeState uncore status'' e)))
       (\<lambda>_ w. (w, Ok ()))"

definition removeUncoreFromPowerNodeState :: "reconciler \<Rightarrow> string \<Rightarrow> world \<Rightarrow> world \<times> unit res" where
  "removeUncoreFromPowerNodeState r nodeName w =
     catch_err (api_send r (StatusApply (pns_name nodeName) empty_status FieldOwnerUncoreController) w)
       (\<lambda>e w. if IsNotFound e then (w, Ok ()) else (w, Error (Wrapf ''failed to remove uncore status'' e)))
       (\<lambda>_ w. (w, Ok ()))"

section \<open>Reconcile\<close>

definition no_valid_uncore :: string where
  "no_valid_uncore = ''no valid uncore configuration: requires either both sysMin and sysMax, or non-empty dieSelectors''"

definition applyUncoreConfig ::
  "reconciler \<Rightarrow> Uncore \<Rightarrow> string \<Rightarrow> string list \<Rightarrow> world \<Rightarrow> world \<times> Result res" where
  "applyUncoreConfig r uncore nodeName conflictErrors w =
     (let spec = un_Spec uncore; name = om_Name (un_Meta uncore);
          hasSysWide = (SysMax spec \<noteq> None \<and> SysMin spec \<noteq> None);
          hasDieSelectors = (the_default [] (DieSelectors spec) \<noteq> [])
      in if \<not> hasSysWide \<and> \<not> hasDieSelectors then
           then_do (updateUncoreInPowerNodeState r nodeName name [] [no_valid_uncore] w)
             (\<lambda>_ w. (w, Error (Errorf no_valid_uncore)))
         else
           then_do (on_host (on_topo (resetUncoreSettings (r_env r) (r_vars r))) w) (\<lambda>_ w.
             then_do (on_host (on_topo (apply_settings (r_env r) (r_vars r) spec)) w) (\<lambda>xs w.
               then_do (updateUncoreInPowerNodeState r nodeName name (intercalate ''; '' (config_parts xs))
                          (conflictErrors @ apply_errors xs) w)
                 (\<lambda>_ w. if apply_errors xs \<noteq> [] then
                          (w, Error (Errorf (''errors applying uncore config: '' @ intercalate ''; '' (apply_errors xs))))
                        else (w, Ok Done)))))"

definition uncore_conflicts :: "Uncore \<Rightarrow> Uncore list \<Rightarrow> string list" where
  "uncore_conflicts selected matches =
     (if 1 < length matches then
        map (\<lambda>m. ''conflicting Uncore: '' @ om_Name (un_Meta m))
          (filter (\<lambda>m. om_Name (un_Meta m) \<noteq> om_Name (un_Meta selected)) matches)
      else [])"

definition Uncore_Reconcile :: "reconciler \<Rightarrow> string \<Rightarrow> world \<Rightarrow> world \<times> Result res" where
  "Uncore_Reconcile r req_namespace w =
     (let nodeName = r_node r in
      if req_namespace \<noteq> PowerNamespace then (w, Ok Done)
      else if nodeName = [] then (w, Error (Errorf ''NODE_NAME environment variable not set''))
      else then_do (getMatchingUncores r nodeName w) (\<lambda>matches w.
        catch_err (getActiveResourceName r nodeName uncoreActiveName w)
          (\<lambda>e w. if IsNotFound e then (w, Ok (RequeueAfter queuetime)) else (w, Error e))
          (\<lambda>activeUncoreName w.
             (case selectActiveOrOldest un_Meta matches activeUncoreName of
                (matches, None) \<Rightarrow>
                  if activeUncoreName \<noteq> [] then
                    then_do (on_host (on_topo (resetUncoreSettings (r_env r) (r_vars r))) w)
                      (\<lambda>_ w. then_do (removeUncoreFromPowerNodeState r nodeName w) (\<lambda>_ w. (w, Ok Done)))
                  else (w, Ok Done)
              | (matches, Some selected) \<Rightarrow>
                  applyUncoreConfig r selected nodeName (uncore_conflicts selected matches) w))))"

definition enqueueUncoreReconcile :: "reconciler \<Rightarrow> world \<Rightarrow> world \<times> (string \<times> string) list res" where
  "enqueueUncoreReconcile r w =
     catch_err (api_get (list_uncores (r_api r)) w) (\<lambda>_ w. (w, Ok []))
       (\<lambda>items w. (w, Ok (if length items = 0 then []
          else [(om_Namespace (un_Meta (items ! 0)), om_Name (un_Meta (items ! 0)))])))"

end
