(* ===== verification/Uncore_Props.thy ===== *)
theory Uncore_Props
  imports Uncore_Controller Example_Node
begin

text \<open>
  What the Uncore controller leaves in the files: for every die the frequencies of the most specific
  setting of the selected resource, and nothing of an earlier one.
\<close>

section \<open>The settings of a topology\<close>

definition pk_setting :: "topology \<Rightarrow> nat \<Rightarrow> uncoreFreq option" where
  "pk_setting t i = Option.bind (map_of (packages t) i) pk_uncore"

definition die_setting :: "topology \<Rightarrow> nat \<Rightarrow> nat \<Rightarrow> uncoreFreq option" where
  "die_setting t i j = Option.bind (map_of (packages t) i) (\<lambda>pk. Option.bind (map_of (pk_dies pk) j) d_uncore)"

definition has_die :: "topology \<Rightarrow> nat \<Rightarrow> nat \<Rightarrow> bool" where
  "has_die t i j = (\<exists>pk d. map_of (packages t) i = Some pk \<and> map_of (pk_dies pk) j = Some d)"

type_synonym settings = "uncoreFreq option \<times> (nat \<Rightarrow> uncoreFreq option) \<times> (nat \<Rightarrow> nat \<Rightarrow> uncoreFreq option)"

definition settings :: "topology \<Rightarrow> settings" where
  "settings t = (t_uncore t, pk_setting t, die_setting t)"

definition effective :: "pkgvars \<Rightarrow> settings \<Rightarrow> nat \<Rightarrow> nat \<Rightarrow> uncoreFreq" where
  "effective g = (\<lambda>(s, pk, die) i j.
     case die i j of Some u \<Rightarrow> u
     | None \<Rightarrow> (case pk i of Some u \<Rightarrow> u | None \<Rightarrow> (case s of Some u \<Rightarrow> u | None \<Rightarrow> defaultUncore g)))"

text \<open>\<open>in_line g ts\<close>: the topology is well formed and the files agree with its settings.\<close>

definition in_line :: "pkgvars \<Rightarrow> topology \<times> sys \<Rightarrow> bool" where
  "in_line g = (\<lambda>(t, sy). topo_ok t \<and> uncore_applied g t (files sy))"

lemma in_line_die:
  assumes "in_line g (t, sy)" and "has_die t i j"
  shows "die_has g i j (effective g (settings t) i j) (files sy)"
proof -
  obtain pk d where d: "map_of (packages t) i = Some pk" "map_of (pk_dies pk) j = Some d"
    using assms(2) by (auto simp: has_die_def)
  have "package_applied g t pk (files sy)"
    using assms(1) map_of_SomeD[OF d(1)] by (auto simp: in_line_def uncore_applied_def)
  then have "die_has g (pk_id pk) j (die_getEffectiveUncore g t pk d) (files sy)"
    using map_of_SomeD[OF d(2)] by (auto simp: package_applied_def)
  moreover have "pk_id pk = i" using topo_ok_package(1)[OF _ d(1)] assms(1) by (simp add: in_line_def)
  moreover have "die_getEffectiveUncore g t pk d = effective g (settings t) i j"
    using d by (simp add: effective_def settings_def die_setting_def pk_setting_def die_getEffectiveUncore_def
        package_getEffectiveUncore_def topology_getEffectiveUncore_def split: option.split)
  ultimately show ?thesis by simp
qed

text \<open>The effect of the three calls on the settings.\<close>

fun set_at :: "nat option \<Rightarrow> nat option \<Rightarrow> uncoreFreq option \<Rightarrow> settings \<Rightarrow> settings" where
  "set_at None _ u (s, pk, die) = (u, pk, die)"
| "set_at (Some i) None u (s, pk, die) = (s, pk(i := u), die)"
| "set_at (Some i) (Some j) u (s, pk, die) = (s, pk, die(i := (die i)(j := u)))"

definition step_ok :: "pkgvars \<Rightarrow> (settings \<Rightarrow> settings) \<Rightarrow> topology \<times> sys \<Rightarrow> topology \<times> sys \<Rightarrow> bool" where
  "step_ok g f ts ts' = (in_line g ts' \<and> settings (fst ts') = f (settings (fst ts)) \<and> has_die (fst ts') = has_die (fst ts))"

lemma step_okD:
  assumes "step_ok g f ts ts'"
  shows "in_line g ts'" and "settings (fst ts') = f (settings (fst ts))" and "has_die (fst ts') = has_die (fst ts)"
  using assms by (simp_all add: step_ok_def)

lemma step_ok_comp: "step_ok g f ts ts1 \<Longrightarrow> step_ok g f' ts1 ts2 \<Longrightarrow> step_ok g (\<lambda>x. f' (f x)) ts ts2"
  by (simp add: step_ok_def)

lemma topology_SetUncore_step:
  assumes "topo_ok (fst ts)" and "topology_SetUncore env g u ts = (ts', Ok ())"
  shows "step_ok g (set_at None None u) ts ts'"
proof -
  obtain t sy t' sy' where ts: "ts = (t, sy)" "ts' = (t', sy')" by (cases ts, cases ts')
  then have "t' = t\<lparr>t_uncore := u\<rparr>" using assms(2) by (auto simp: topology_SetUncore_def Let_def split: prod.splits)
  moreover have "in_line g ts'" using topology_SetUncore_Ok[of t env g u sy t' sy'] assms ts by (simp add: in_line_def)
  ultimately show ?thesis using ts
    by (simp add: step_ok_def settings_def pk_setting_def[abs_def] die_setting_def[abs_def] has_die_def[abs_def])
qed

lemma package_SetUncore_step:
  assumes "in_line g ts" and "package_SetUncore env g i u ts = (ts', Ok ())"
  shows "step_ok g (set_at (Some i) None u) ts ts'"
proof -
  obtain t sy t' sy' where ts: "ts = (t, sy)" "ts' = (t', sy')" by (cases ts, cases ts')
  obtain pk where pk: "map_of (packages t) i = Some pk" "t' = t\<lparr>packages := AList.update i (pk\<lparr>pk_uncore := u\<rparr>) (packages t)\<rparr>"
    using assms(2) ts by (auto simp: package_SetUncore_def Let_def split: option.splits prod.splits)
  then have m: "map_of (packages t') = (map_of (packages t))(i \<mapsto> pk\<lparr>pk_uncore := u\<rparr>)" by (simp add: update_conv')
  have "in_line g ts'" using package_SetUncore_Ok[of t g sy env i u t' sy'] assms ts by (simp add: in_line_def)
  then show ?thesis using ts pk m
    by (auto simp: step_ok_def settings_def pk_setting_def die_setting_def has_die_def fun_eq_iff)
qed

lemma die_SetUncore_step:
  assumes "in_line g ts" and "die_SetUncore env g i j u ts = (ts', Ok ())"
  shows "step_ok g (set_at (Some i) (Some j) u) ts ts'"
proof -
  obtain t sy t' sy' where ts: "ts = (t, sy)" "ts' = (t', sy')" by (cases ts, cases ts')
  obtain pk d where pk: "map_of (packages t) i = Some pk" "map_of (pk_dies pk) j = Some d"
      "t' = t\<lparr>packages := AList.update i (pk\<lparr>pk_dies := AList.update j (d\<lparr>d_uncore := u\<rparr>) (pk_dies pk)\<rparr>) (packages t)\<rparr>"
    using assms(2) ts by (auto simp: die_SetUncore_def Let_def split: option.splits prod.splits)
  then have m: "map_of (packages t') = (map_of (packages t))(i \<mapsto> pk\<lparr>pk_dies := AList.update j (d\<lparr>d_uncore := u\<rparr>) (pk_dies pk)\<rparr>)"
    by (simp add: update_conv')
  have "in_line g ts'" using die_SetUncore_Ok[of t g sy env i j u t' sy'] assms ts by (simp add: in_line_def)
  then show ?thesis using ts pk m
    by (auto simp: step_ok_def settings_def pk_setting_def die_setting_def has_die_def fun_eq_iff update_conv')
qed

section \<open>Reset\<close>

lemma reset_dies:
  assumes "in_line g ts" and "foreach (\<lambda>(j, d). die_SetUncore env g i j None) ds ts = (ts', Ok ())"
  shows "step_ok g (\<lambda>(s, pk, die). (s, pk, \<lambda>a b. if a = i \<and> b \<in> fst ` set ds then None else die a b)) ts ts'"
  using assms
proof (induction ds arbitrary: ts)
  case Nil
  then show ?case by (simp add: step_ok_def split_beta)
next
  case (Cons x ds)
  obtain j d where x: "x = (j, d)" by (cases x)
  obtain ts1 where t1: "die_SetUncore env g i j None ts = (ts1, Ok ())"
      "foreach (\<lambda>(j, d). die_SetUncore env g i j None) ds ts1 = (ts', Ok ())"
    using Cons.prems(2) x by (auto split: prod.splits res.splits)
  note s = die_SetUncore_step[OF Cons.prems(1) t1(1)]
  from step_ok_comp[OF s Cons.IH[OF step_okD(1)[OF s] t1(2)]] show ?case
    by (auto simp: step_ok_def split_beta x fun_eq_iff settings_def)
qed

lemma reset_packages:
  assumes "in_line g ts" and "foreach (reset_package env g) ps ts = (ts', Ok ())"
  shows "step_ok g (\<lambda>(s, pk, die). (s, \<lambda>a. if a \<in> fst ` set ps then None else pk a,
      \<lambda>a b. if (\<exists>x \<in> set ps. fst x = a \<and> b \<in> fst ` set (pk_dies (snd x))) then None else die a b)) ts ts'"
  using assms
proof (induction ps arbitrary: ts)
  case Nil
  then show ?case by (simp add: step_ok_def split_beta)
next
  case (Cons x ps)
  obtain i pk where x: "x = (i, pk)" by (cases x)
  obtain ts2 where t2: "reset_package env g x ts = (ts2, Ok ())" "foreach (reset_package env g) ps ts2 = (ts', Ok ())"
    using Cons.prems(2) by (auto split: prod.splits res.splits)
  obtain ts1 where t1: "package_SetUncore env g i None ts = (ts1, Ok ())"
      "foreach (\<lambda>(j, d). die_SetUncore env g i j None) (pk_dies pk) ts1 = (ts2, Ok ())"
    using t2(1) x by (auto simp: reset_package_def then_do_Ok_iff)
  note s1 = package_SetUncore_step[OF Cons.prems(1) t1(1)]
  note s2 = step_ok_comp[OF s1 reset_dies[OF step_okD(1)[OF s1] t1(2)]]
  from step_ok_comp[OF s2 Cons.IH[OF step_okD(1)[OF s2] t2(2)]] show ?case
    by (auto simp: step_ok_def split_beta x fun_eq_iff settings_def)
qed

lemma resetUncoreSettings_step:
  assumes "topo_ok (fst ts)" and "resetUncoreSettings env g ts = (ts', Ok ())"
  shows "step_ok g (\<lambda>_. (None, \<lambda>_. None, \<lambda>_ _. None)) ts ts'"
proof -
  obtain t1 sy1 where t1: "topology_SetUncore env g None ts = ((t1, sy1), Ok ())"
      "foreach (reset_package env g) (packages t1) (t1, sy1) = (ts', Ok ())"
    using assms(2) by (auto simp: resetUncoreSettings_def then_do_Ok_iff)
  note s1 = topology_SetUncore_step[OF assms(1) t1(1)]
  note s2 = reset_packages[OF step_okD(1)[OF s1] t1(2)]
  have "pk_setting t1 a = None" if "a \<notin> fst ` set (packages t1)" for a
    using that map_of_eq_None_iff[of "packages t1" a] by (simp add: pk_setting_def)
  moreover have "die_setting t1 a b = None" if "\<not> (\<exists>x \<in> set (packages t1). fst x = a \<and> b \<in> fst ` set (pk_dies (snd x)))" for a b
  proof (rule ccontr)
    assume "die_setting t1 a b \<noteq> None"
    then obtain pk d where "map_of (packages t1) a = Some pk" "map_of (pk_dies pk) b = Some d"
      by (auto simp: die_setting_def bind_eq_Some_conv)
    then show False using that by (metis fst_conv image_eqI map_of_SomeD snd_conv)
  qed
  moreover have "t_uncore t1 = None" using step_okD(2)[OF s1] by (simp add: settings_def)
  ultimately show ?thesis using step_okD[OF s1] step_okD[OF s2]
    by (simp add: step_ok_def settings_def fun_eq_iff)
qed

section \<open>The selectors\<close>

definition sel_freq :: "DieSelector \<Rightarrow> uncoreFreq" where
  "sel_freq ds = (normalizeUncoreFreq (the (ds_Min ds)), normalizeUncoreFreq (the (ds_Max ds)))"

definition sel_set :: "DieSelector \<Rightarrow> settings \<Rightarrow> settings" where
  "sel_set ds = set_at (Some (the (ds_Package ds))) (ds_Die ds) (Some (sel_freq ds))"

lemma NewUncore_Ok: "NewUncore g mn mx = Ok u \<Longrightarrow> u = (normalizeUncoreFreq mn, normalizeUncoreFreq mx)"
  by (auto simp: NewUncore_def split: if_splits)

lemma NewUncore_no_panic: "NewUncore g mn mx \<noteq> Panic m"
  by (simp add: NewUncore_def)

lemma apply_sys_step:
  assumes "topo_ok (fst ts)" and "apply_sys env g mn mx ts = (ts', Ok (Inr part))"
  shows "step_ok g (set_at None None (Some (normalizeUncoreFreq mn, normalizeUncoreFreq mx))) ts ts'"
proof -
  obtain u where u: "NewUncore g mn mx = Ok u" "topology_SetUncore env g (Some u) ts = (ts', Ok ())"
    using assms(2) by (auto simp: apply_sys_def catch_err_Ok_iff)
  show ?thesis using topology_SetUncore_step[OF assms(1) u(2)] NewUncore_Ok[OF u(1)] by simp
qed

lemma apply_die_selector_step:
  assumes "in_line g ts" and "apply_die_selector env g ds ts = (ts', Ok (Inr part))"
  shows "step_ok g (sel_set ds) ts ts' \<and> ds_Package ds \<noteq> None \<and> ds_Min ds \<noteq> None \<and> ds_Max ds \<noteq> None"
proof -
  obtain t sy where ts: "ts = (t, sy)" by (cases ts)
  obtain mx mn p where d: "ds_Max ds = Some mx" "ds_Min ds = Some mn" "ds_Package ds = Some p"
    using assms(2) by (auto simp: apply_die_selector_def split: option.splits)
  obtain u where u: "NewUncore g mn mx = Ok u" using assms(2) d NewUncore_no_panic
    by (cases "NewUncore g mn mx") (auto simp: apply_die_selector_def)
  then have f: "u = sel_freq ds" using NewUncore_Ok d by (simp add: sel_freq_def)
  obtain pkg where p: "map_of (packages t) p = Some pkg"
    using assms(2) d u ts by (cases "map_of (packages t) p") (auto simp: apply_die_selector_def)
  show ?thesis
  proof (cases "ds_Die ds")
    case None
    then have "package_SetUncore env g p (Some u) ts = (ts', Ok ())"
      using assms(2) d u p ts by (auto simp: apply_die_selector_def catch_err_Ok_iff)
    then show ?thesis using package_SetUncore_step[OF assms(1)] d f None by (simp add: sel_set_def)
  next
    case (Some j)
    then have "die_SetUncore env g p j (Some u) ts = (ts', Ok ())"
      using assms(2) d u p ts by (auto simp: apply_die_selector_def catch_err_Ok_iff split: if_splits)
    then show ?thesis using die_SetUncore_step[OF assms(1)] d f Some by (simp add: sel_set_def)
  qed
qed

lemma apply_errors_simps [simp]: "apply_errors [] = []" "apply_errors (Inr p # xs) = apply_errors xs"
  "apply_errors (Inl e # xs) = e # apply_errors xs" "apply_errors (xs @ ys) = apply_errors xs @ apply_errors ys"
  by (simp_all add: apply_errors_def)

lemma apply_selectors_step:
  assumes "in_line g ts" and "apply_selectors env g dss ts = (ts', Ok xs)" and "apply_errors xs = []"
  shows "step_ok g (fold sel_set dss) ts ts' \<and> (\<forall>ds \<in> set dss. ds_Package ds \<noteq> None \<and> ds_Min ds \<noteq> None \<and> ds_Max ds \<noteq> None)"
  using assms
proof (induction dss arbitrary: ts xs)
  case Nil
  then show ?case by (simp add: step_ok_def)
next
  case (Cons ds dss)
  obtain x ts1 ys where x: "apply_die_selector env g ds ts = (ts1, Ok x)" "apply_selectors env g dss ts1 = (ts', Ok ys)" "xs = x # ys"
    using Cons.prems(2) by (auto simp: then_do_Ok_iff)
  obtain part where part: "x = Inr part" using Cons.prems(3) x(3) by (cases x) simp_all
  have s: "step_ok g (sel_set ds) ts ts1" "ds_Package ds \<noteq> None \<and> ds_Min ds \<noteq> None \<and> ds_Max ds \<noteq> None"
    using apply_die_selector_step[OF Cons.prems(1)] x(1) part by blast+
  have i: "step_ok g (fold sel_set dss) ts1 ts'" "\<forall>ds \<in> set dss. ds_Package ds \<noteq> None \<and> ds_Min ds \<noteq> None \<and> ds_Max ds \<noteq> None"
    using Cons.IH[OF step_okD(1)[OF s(1)] x(2)] Cons.prems(3) x(3) part by simp_all
  from step_ok_comp[OF s(1) i(1)] s(2) i(2) show ?case by (simp add: step_ok_def)
qed

definition wanted_settings :: "UncoreSpec \<Rightarrow> settings" where
  "wanted_settings spec = fold sel_set (the_default [] (DieSelectors spec))
     ((case (SysMin spec, SysMax spec) of
         (Some mn, Some mx) \<Rightarrow> Some (normalizeUncoreFreq mn, normalizeUncoreFreq mx) | _ \<Rightarrow> None), \<lambda>_. None, \<lambda>_ _. None)"

definition complete :: "UncoreSpec \<Rightarrow> bool" where
  "complete spec = (\<forall>ds \<in> set (the_default [] (DieSelectors spec)). ds_Package ds \<noteq> None \<and> ds_Min ds \<noteq> None \<and> ds_Max ds \<noteq> None)"

lemma apply_settings_step:
  assumes "in_line g ts" and "settings (fst ts) = (None, \<lambda>_. None, \<lambda>_ _. None)"
    and "apply_settings env g spec ts = (ts', Ok xs)" and "apply_errors xs = []"
  shows "step_ok g (\<lambda>_. wanted_settings spec) ts ts' \<and> complete spec"
proof (cases "SysMin spec \<noteq> None \<and> SysMax spec \<noteq> None")
  case True
  then obtain mn mx where m: "SysMin spec = Some mn" "SysMax spec = Some mx" by blast
  obtain x ts1 ys where x: "apply_sys env g mn mx ts = (ts1, Ok x)"
      "apply_selectors env g (the_default [] (DieSelectors spec)) ts1 = (ts', Ok ys)" "xs = x # ys"
    using assms(3) m by (auto simp: apply_settings_def then_do_Ok_iff)
  obtain part where part: "x = Inr part" using assms(4) x(3) by (cases x) simp_all
  have "topo_ok (fst ts)" using assms(1) by (auto simp: in_line_def split_beta)
  from apply_sys_step[OF this] x(1) part have s: "step_ok g (set_at None None (Some (normalizeUncoreFreq mn, normalizeUncoreFreq mx))) ts ts1"
    by blast
  have i: "step_ok g (fold sel_set (the_default [] (DieSelectors spec))) ts1 ts'" "complete spec"
    using apply_selectors_step[OF step_okD(1)[OF s] x(2)] assms(4) x(3) part by (simp_all add: complete_def)
  show ?thesis using step_ok_comp[OF s i(1)] i(2) assms(2) m by (simp add: step_ok_def wanted_settings_def)
next
  case False
  then have "(case (SysMax spec, SysMin spec) of
                (Some mx, Some mn) \<Rightarrow> then_do (apply_sys env g mn mx ts) (\<lambda>x ts. (ts, Ok [x])) | _ \<Rightarrow> (ts, Ok [])) = (ts, Ok [])"
    by (auto split: option.split)
  then have "apply_selectors env g (the_default [] (DieSelectors spec)) ts = (ts', Ok xs)"
    using assms(3) by (auto simp: apply_settings_def then_do_Ok_iff)
  from apply_selectors_step[OF assms(1) this assms(4)] show ?thesis
    using False assms(2) by (auto simp: step_ok_def wanted_settings_def complete_def split: option.split)
qed

text \<open>What a resource asks for a die, without folding: the last selector of the die, then of the package.\<close>

definition selects :: "nat \<Rightarrow> nat option \<Rightarrow> DieSelector \<Rightarrow> bool" where
  "selects i j ds = (ds_Package ds = Some i \<and> ds_Die ds = j)"

definition wanted :: "pkgvars \<Rightarrow> UncoreSpec \<Rightarrow> nat \<Rightarrow> nat \<Rightarrow> uncoreFreq" where
  "wanted g spec i j =
     (let sels = rev (the_default [] (DieSelectors spec)) in
      case find (selects i (Some j)) sels of
        Some ds \<Rightarrow> sel_freq ds
      | None \<Rightarrow>
          (case find (selects i None) sels of
             Some ds \<Rightarrow> sel_freq ds
           | None \<Rightarrow>
               (case (SysMin spec, SysMax spec) of
                  (Some mn, Some mx) \<Rightarrow> (normalizeUncoreFreq mn, normalizeUncoreFreq mx)
                | _ \<Rightarrow> defaultUncore g)))"

lemma fold_sel_set:
  assumes "\<forall>ds \<in> set dss. ds_Package ds \<noteq> None"
  shows "fold sel_set dss (s, \<lambda>_. None, \<lambda>_ _. None) =
    (s, \<lambda>i. map_option sel_freq (find (selects i None) (rev dss)), \<lambda>i j. map_option sel_freq (find (selects i (Some j)) (rev dss)))"
  using assms
proof (induction dss rule: rev_induct)
  case (snoc ds dss)
  then obtain p where p: "ds_Package ds = Some p" by auto
  have "fold sel_set (dss @ [ds]) (s, \<lambda>_. None, \<lambda>_ _. None) = sel_set ds (fold sel_set dss (s, \<lambda>_. None, \<lambda>_ _. None))" by simp
  then show ?case using snoc p
    by (cases "ds_Die ds") (auto simp: sel_set_def selects_def fun_eq_iff)
qed simp

lemma effective_wanted: "complete spec \<Longrightarrow> effective g (wanted_settings spec) i j = wanted g spec i j"
  unfolding wanted_settings_def complete_def
  by (subst fold_sel_set) (auto simp: effective_def wanted_def Let_def split: option.split)

section \<open>Reconcile\<close>

text \<open>The calls on the topology leave the pools alone.\<close>

definition dies_at :: "pkgvars \<Rightarrow> (nat \<Rightarrow> nat \<Rightarrow> uncoreFreq) \<Rightarrow> host \<Rightarrow> host \<Rightarrow> bool" where
  "dies_at g u h h' =
     ((\<forall>i j. has_die (h_topo h) i j \<longrightarrow> die_has g i j (u i j) (files (hsys h'))) \<and>
      topo_ok (h_topo h') \<and> has_die (h_topo h') = has_die (h_topo h) \<and> (\<exists>t sy. h' = h\<lparr>h_topo := t, hsys := sy\<rparr>))"

lemma on_topo_Ok:
  assumes "on_topo f h = (h', Ok x)"
  shows "f (h_topo h, hsys h) = ((h_topo h', hsys h'), Ok x)" and "\<exists>t sy. h' = h\<lparr>h_topo := t, hsys := sy\<rparr>"
  using assms by (auto simp: on_topo_def split: prod.splits)

lemma reset_dies_at:
  assumes "topo_ok (h_topo h)" and "on_topo (resetUncoreSettings env g) h = (h', Ok ())"
  shows "dies_at g (\<lambda>_ _. defaultUncore g) h h'" and "in_line g (h_topo h', hsys h')"
    and "settings (h_topo h') = (None, \<lambda>_. None, \<lambda>_ _. None)"
proof -
  note o1 = on_topo_Ok[OF assms(2)]
  have "topo_ok (fst (h_topo h, hsys h))" using assms(1) by simp
  note s = step_okD[OF resetUncoreSettings_step[OF this o1(1)], simplified]
  show "in_line g (h_topo h', hsys h')" "settings (h_topo h') = (None, \<lambda>_. None, \<lambda>_ _. None)" using s by simp_all
  have "die_has g i j (defaultUncore g) (files (hsys h'))" if "has_die (h_topo h) i j" for i j
    using in_line_die[OF s(1), of i j] that s(2,3) by (simp add: effective_def)
  then show "dies_at g (\<lambda>_ _. defaultUncore g) h h'" using s(1,3) o1(2) by (simp add: dies_at_def in_line_def)
qed

lemma apply_dies_at:
  assumes "in_line g (h_topo h, hsys h)" and "settings (h_topo h) = (None, \<lambda>_. None, \<lambda>_ _. None)"
    and "on_topo (apply_settings env g spec) h = (h', Ok xs)" and "apply_errors xs = []"
  shows "dies_at g (wanted g spec) h h'"
proof -
  note o1 = on_topo_Ok[OF assms(3)]
  have "settings (fst (h_topo h, hsys h)) = (None, \<lambda>_. None, \<lambda>_ _. None)" using assms(2) by simp
  note a = apply_settings_step[OF assms(1) this o1(1) assms(4)]
  then have s: "in_line g (h_topo h', hsys h')" "settings (h_topo h') = wanted_settings spec" "has_die (h_topo h') = has_die (h_topo h)"
    using step_okD by fastforce+
  have "die_has g i j (wanted g spec i j) (files (hsys h'))" if "has_die (h_topo h) i j" for i j
    using in_line_die[OF s(1), of i j] that s(2,3) effective_wanted a by simp
  then show ?thesis using s(1,3) o1(2) by (simp add: dies_at_def in_line_def)
qed

lemma dies_at_trans:
  assumes "dies_at g u h h1" and "dies_at g v h1 h2" shows "dies_at g v h h2"
proof -
  obtain t1 sy1 where "h1 = h\<lparr>h_topo := t1, hsys := sy1\<rparr>" using assms(1) by (auto simp: dies_at_def)
  moreover obtain t2 sy2 where "h2 = h1\<lparr>h_topo := t2, hsys := sy2\<rparr>" using assms(2) by (auto simp: dies_at_def)
  ultimately have "h2 = h\<lparr>h_topo := t2, hsys := sy2\<rparr>" by simp
  then have "\<exists>t sy. h2 = h\<lparr>h_topo := t, hsys := sy\<rparr>" by blast
  then show ?thesis using assms unfolding dies_at_def by simp
qed

definition uncore_status :: "string \<Rightarrow> Uncore \<Rightarrow> string \<Rightarrow> string list \<Rightarrow> api_request" where
  "uncore_status nodeName u cfg errs =
     StatusApply (pns_name nodeName)
       (empty_status\<lparr>st_Uncore := Some \<lparr>nus_Name = om_Name (un_Meta u), nus_Config = cfg, nus_Errors = errs\<rparr>\<rparr>)
       FieldOwnerUncoreController"

lemma updateUncore_Ok:
  assumes "updateUncoreInPowerNodeState r nodeName (om_Name (un_Meta u)) cfg errs w = (w', Ok ())"
  shows "w_host w' = w_host w" and "last (w_requests w') = (uncore_status nodeName u cfg errs, None)"
  using assms
  by (auto simp: updateUncoreInPowerNodeState_def uncore_status_def api_send_def Let_def split: option.splits if_splits)

lemma applyUncoreConfig_Done:
  assumes "topo_ok (h_topo (w_host w))" and "applyUncoreConfig r u nodeName conflicts w = (w', Ok Done)"
  shows "dies_at (r_vars r) (wanted (r_vars r) (un_Spec u)) (w_host w) (w_host w') \<and>
    (\<exists>cfg. last (w_requests w') = (uncore_status nodeName u cfg conflicts, None))"
proof -
  let ?spec = "un_Spec u"
  have v: "(SysMax ?spec \<noteq> None \<and> SysMin ?spec \<noteq> None) \<or> the_default [] (DieSelectors ?spec) \<noteq> []"
  proof (rule ccontr)
    assume "\<not> ?thesis"
    then have "applyUncoreConfig r u nodeName conflicts w =
        then_do (updateUncoreInPowerNodeState r nodeName (om_Name (un_Meta u)) [] [no_valid_uncore] w)
             (\<lambda>_ w. (w, Error (Errorf no_valid_uncore)))"
      unfolding applyUncoreConfig_def Let_def by (intro if_P) blast
    then have "then_do (updateUncoreInPowerNodeState r nodeName (om_Name (un_Meta u)) [] [no_valid_uncore] w)
             (\<lambda>_ w. (w, Error (Errorf no_valid_uncore) :: Result res)) = (w', Ok Done)" using assms(2) by simp
    then show False unfolding then_do_Ok_iff by simp
  qed
  then have eq: "applyUncoreConfig r u nodeName conflicts w =
      then_do (on_host (on_topo (resetUncoreSettings (r_env r) (r_vars r))) w) (\<lambda>_ w.
             then_do (on_host (on_topo (apply_settings (r_env r) (r_vars r) ?spec)) w) (\<lambda>xs w.
               then_do (updateUncoreInPowerNodeState r nodeName (om_Name (un_Meta u)) (intercalate ''; '' (config_parts xs))
                          (conflicts @ apply_errors xs) w)
                 (\<lambda>_ w. if apply_errors xs \<noteq> [] then
                          (w, Error (Errorf (''errors applying uncore config: '' @ intercalate ''; '' (apply_errors xs))))
                        else (w, Ok Done))))"
    unfolding applyUncoreConfig_def Let_def by (intro if_not_P) blast
  obtain w1 w2 xs where s: "on_host (on_topo (resetUncoreSettings (r_env r) (r_vars r))) w = (w1, Ok ())"
      "on_host (on_topo (apply_settings (r_env r) (r_vars r) ?spec)) w1 = (w2, Ok xs)"
      "updateUncoreInPowerNodeState r nodeName (om_Name (un_Meta u)) (intercalate ''; '' (config_parts xs))
                          (conflicts @ apply_errors xs) w2 = (w', Ok ())" "apply_errors xs = []"
    using assms(2)[unfolded eq] by (auto simp: then_do_Ok_iff split: if_splits)
  have h1: "on_topo (resetUncoreSettings (r_env r) (r_vars r)) (w_host w) = (w_host w1, Ok ())"
    using s(1) by (auto simp: on_host_Ok_iff)
  have h2: "on_topo (apply_settings (r_env r) (r_vars r) ?spec) (w_host w1) = (w_host w2, Ok xs)"
    using s(2) by (auto simp: on_host_Ok_iff)
  note r1 = reset_dies_at[OF assms(1) h1]
  have "dies_at (r_vars r) (wanted (r_vars r) ?spec) (w_host w) (w_host w2)"
    by (rule dies_at_trans[OF r1(1) apply_dies_at[OF r1(2,3) h2 s(4)]])
  then show ?thesis using updateUncore_Ok[OF s(3)] s(4) by auto
qed

section \<open>Properties\<close>

text \<open>
  C14. Reconciling the Uncore resources of a node without an error: when one is selected, the uncore
  files of every die hold what that resource asks for it (the last selector of the die, else the
  last selector of its package, else the system wide values, else the hardware defaults, each
  cut to steps of 100 MHz), nothing of an earlier setting is left, the CPU pools are untouched,
  and the status names the resource and the conflicting ones. When none is selected although one
  was active, every die is back at the hardware defaults.
\<close>
theorem Uncore_Reconcile_correct:
  assumes "topo_ok (h_topo (w_host w))" and "r_node r \<noteq> []"
    and "getMatchingUncores r (r_node r) w = (w1, Ok ms)"
    and "getActiveResourceName r (r_node r) uncoreActiveName w1 = (w2, Ok active)"
    and "Uncore_Reconcile r PowerNamespace w = (w', Ok Done)"
  shows "case selectActiveOrOldest un_Meta ms active of
      (ms', Some u) \<Rightarrow>
        dies_at (r_vars r) (wanted (r_vars r) (un_Spec u)) (w_host w) (w_host w') \<and>
        (\<exists>cfg. last (w_requests w') = (uncore_status (r_node r) u cfg (uncore_conflicts u ms'), None))
    | (ms', None) \<Rightarrow>
        (if active = [] then w_host w' = w_host w
         else dies_at (r_vars r) (\<lambda>_ _. defaultUncore (r_vars r)) (w_host w) (w_host w'))"
proof -
  have "host_kept (getMatchingUncores r (r_node r))"
    unfolding getMatchingUncores_def by (intro host_kepts) simp
  then have h1: "w_host w1 = w_host w" using host_keptD(1)[of "getMatchingUncores r (r_node r)" w] assms(3) by simp
  have h2: "w_host w2 = w_host w"
    using host_keptD(1)[OF getActiveResourceName_kept, of r "r_node r" uncoreActiveName w1] assms(4) h1 by simp
  have t: "topo_ok (h_topo (w_host w2))" using assms(1) h2 by simp
  obtain ms' sel where sel: "selectActiveOrOldest un_Meta ms active = (ms', sel)" by (cases "selectActiveOrOldest un_Meta ms active")
  show ?thesis
  proof (cases sel)
    case (Some u)
    then have "applyUncoreConfig r u (r_node r) (uncore_conflicts u ms') w2 = (w', Ok Done)"
      using assms sel by (simp add: Uncore_Reconcile_def)
    from applyUncoreConfig_Done[OF t this] show ?thesis using sel Some h2 by simp
  next
    case None
    show ?thesis
    proof (cases "active = []")
      case True
      then show ?thesis using assms sel None h2 by (simp add: Uncore_Reconcile_def)
    next
      case False
      then obtain w3 where s: "on_host (on_topo (resetUncoreSettings (r_env r) (r_vars r))) w2 = (w3, Ok ())"
          "removeUncoreFromPowerNodeState r (r_node r) w3 = (w', Ok ())"
        using assms sel None by (auto simp: Uncore_Reconcile_def then_do_Ok_iff)
      have "on_topo (resetUncoreSettings (r_env r) (r_vars r)) (w_host w2) = (w_host w3, Ok ())"
        using s(1) by (auto simp: on_host_Ok_iff)
      note d = reset_dies_at(1)[OF t this]
      have "w_host w' = w_host w3" using s(2)
        by (auto simp: removeUncoreFromPowerNodeState_def api_send_def Let_def split: option.splits if_splits)
      then show ?thesis using sel None False d h2 by simp
    qed
  qed
qed

definition uncore_vars :: pkgvars where
  "uncore_vars = gold_vars\<lparr>defaultUncore := (800000, 2400000)\<rparr>"

definition die_uncore :: "string \<Rightarrow> Uncore" where
  "die_uncore name = \<lparr>un_Meta = meta0 name 1, un_Spec = \<lparr>us_NodeSelector = every_node, SysMax = Some 2000000, SysMin = Some 1000000,
     DieSelectors = Some [\<lparr>ds_Package = Some 0, ds_Die = Some 0, ds_Min = Some 1250000, ds_Max = Some 2250000\<rparr>]\<rparr>\<rparr>"

definition uncore_reconciler :: reconciler where
  "uncore_reconciler = \<lparr>r_env = env0, r_vars = uncore_vars, r_api = plain_api\<lparr>list_uncores := \<lambda>n. Inr [die_uncore ''a'']\<rparr>,
     r_node = ''node''\<rparr>"

definition one_package :: "topology \<Rightarrow> bool" where
  "one_package t = (\<exists>pk d. packages t = [(0, pk)] \<and> pk_dies pk = [(0, d)])"

lemma one_package_calls:
  assumes "one_package t"
  shows "\<exists>t' sy'. topology_SetUncore env0 g u (t, sy) = ((t', sy'), Ok ()) \<and> one_package t'"
    and "\<exists>t' sy'. package_SetUncore env0 g 0 u (t, sy) = ((t', sy'), Ok ()) \<and> one_package t'"
    and "\<exists>t' sy'. die_SetUncore env0 g 0 0 u (t, sy) = ((t', sy'), Ok ()) \<and> one_package t'"
  using assms
  by (auto simp: one_package_def topology_SetUncore_def topology_applyUncore_def package_applyUncore_def die_applyUncore_def
      package_SetUncore_def die_SetUncore_def uncore_write_def WriteFile_no_faults Let_def)

lemma one_package_reset:
  assumes "one_package t"
  shows "\<exists>t' sy'. resetUncoreSettings env0 g (t, sy) = ((t', sy'), Ok ()) \<and> one_package t'"
proof -
  obtain t1 sy1 where 1: "topology_SetUncore env0 g None (t, sy) = ((t1, sy1), Ok ())" "one_package t1"
    using one_package_calls(1)[OF assms] by blast
  obtain t2 sy2 where 2: "package_SetUncore env0 g 0 None (t1, sy1) = ((t2, sy2), Ok ())" "one_package t2"
    using one_package_calls(2)[OF 1(2)] by blast
  obtain t3 sy3 where 3: "die_SetUncore env0 g 0 0 None (t2, sy2) = ((t3, sy3), Ok ())" "one_package t3"
    using one_package_calls(3)[OF 2(2)] by blast
  show ?thesis using 1 2 3 by (auto simp: resetUncoreSettings_def reset_package_def one_package_def)
qed

lemma one_package_apply:
  assumes "one_package t"
  shows "\<exists>ts' xs. apply_settings env0 uncore_vars (un_Spec (die_uncore ''a'')) (t, sy) = (ts', Ok xs) \<and> apply_errors xs = []"
proof -
  have n: "NewUncore uncore_vars 1000000 2000000 = Ok (1000000, 2000000)" "NewUncore uncore_vars 1250000 2250000 = Ok (1200000, 2200000)"
    by (simp_all add: NewUncore_def uncore_vars_def normalizeUncoreFreq_def isFeatureIdSupported_def gold_vars_def hetero_def isSupported_def)
  obtain t1 sy1 where 1: "topology_SetUncore env0 uncore_vars (Some (1000000, 2000000)) (t, sy) = ((t1, sy1), Ok ())" "one_package t1"
    using one_package_calls(1)[OF assms] by blast
  obtain t2 sy2 where 2: "die_SetUncore env0 uncore_vars 0 0 (Some (1200000, 2200000)) (t1, sy1) = ((t2, sy2), Ok ())"
    using one_package_calls(3)[OF 1(2)] by blast
  show ?thesis using n 1 2
    by (auto simp: apply_settings_def apply_sys_def apply_die_selector_def die_uncore_def one_package_def)
qed

theorem Uncore_Reconcile_correct_witness:
  "\<exists>w'. Uncore_Reconcile uncore_reconciler PowerNamespace (plain_world (\<lambda>_. ReservedPool)) = (w', Ok Done) \<and>
     die_has uncore_vars 0 0 (1200000, 2200000) (files (hsys (w_host w')))"
proof -
  let ?r = uncore_reconciler and ?w = "plain_world (\<lambda>_. ReservedPool)" and ?u = "die_uncore ''a''"
  let ?w1 = "?w\<lparr>w_calls := 2\<rparr>" and ?w2 = "?w\<lparr>w_calls := 3\<rparr>"
  have r: "r_node ?r = ''node''" "r_vars ?r = uncore_vars" "r_env ?r = env0" by (simp_all add: uncore_reconciler_def)
  have m: "getMatchingUncores ?r ''node'' ?w = (?w1, Ok [?u])"
    by (simp add: getMatchingUncores_def uncore_reconciler_def plain_api_def api_get_def plain_world_def nodeMatchesSelector_def
        uncoreSelector_def die_uncore_def every_node_def empty_selector_def)
  have a: "getActiveResourceName ?r ''node'' uncoreActiveName ?w1 = (?w2, Ok [])"
    by (simp add: getActiveResourceName_def uncore_reconciler_def plain_api_def api_get_def plain_world_def uncoreActiveName_def empty_status_def)
  have s: "selectActiveOrOldest un_Meta [?u] [] = ([?u], Some ?u)" by (simp add: selectActiveOrOldest_def)
  have "one_package (h_topo (w_host ?w2))" by (simp add: one_package_def plain_host_def one_die_def)
  then obtain t1 sy1 where 1: "resetUncoreSettings env0 uncore_vars (h_topo (w_host ?w2), hsys (w_host ?w2)) = ((t1, sy1), Ok ())" "one_package t1"
    using one_package_reset by blast
  obtain t2 sy2 xs where 2: "apply_settings env0 uncore_vars (un_Spec ?u) (t1, sy1) = ((t2, sy2), Ok xs)" "apply_errors xs = []"
    using one_package_apply[OF 1(2), of sy1] by auto
  have "\<exists>w'. applyUncoreConfig ?r ?u ''node'' [] ?w2 = (w', Ok Done)"
    using 1 2 by (simp add: applyUncoreConfig_def on_host_def on_topo_def updateUncoreInPowerNodeState_def api_send_def r Let_def)
      (simp add: uncore_reconciler_def plain_api_def die_uncore_def)
  then obtain w' where w': "Uncore_Reconcile ?r PowerNamespace ?w = (w', Ok Done)"
    using m a s by (auto simp: Uncore_Reconcile_def r uncore_conflicts_def)
  have ok: "topo_ok (h_topo (w_host ?w))" by (simp add: topo_ok_def plain_host_def one_die_def new_package_def new_die_def)
  have "dies_at uncore_vars (wanted uncore_vars (un_Spec ?u)) (plain_host (\<lambda>_. ReservedPool)) (w_host w')"
    using Uncore_Reconcile_correct[OF ok _ _ _ w', unfolded r, OF _ m a] s by simp
  moreover have "has_die (h_topo (plain_host (\<lambda>_. ReservedPool))) 0 0" by (simp add: has_die_def plain_host_def one_die_def)
  moreover have "wanted uncore_vars (un_Spec ?u) 0 0 = (1200000, 2200000)"
    by (simp add: wanted_def die_uncore_def selects_def sel_freq_def normalizeUncoreFreq_def)
  ultimately have "die_has uncore_vars 0 0 (1200000, 2200000) (files (hsys (w_host w')))"
    unfolding dies_at_def by metis
  then show ?thesis using w' by blast
qed

end
