(* ===== verification/Watches.thy ===== *)
theory Watches
  imports Topology_Frame Uncore_Props
begin

text \<open>
  The \<open>SetupWithManager\<close> functions of the four controllers of the node agent: which changes of the
  cluster make the controller runtime call which \<open>Reconcile\<close>. An event carries the objects it is
  about; \<open>predicate.Funcs\<close> filters it, and a handler turns it into requests: the object itself
  (\<open>For\<close>), or what a function of the controller makes of it (\<open>Watches\<close>). Of a node the filters look at
  the name and the labels, of a PowerNodeState at the name and the status; objects that are filtered
  by \<open>GenerationChangedPredicate\<close> come with their generation.
\<close>

section \<open>Events, predicates and handlers of the controller runtime\<close>

type_synonym request = "string \<times> string"

datatype 'o event = CreateEvent 'o | UpdateEvent 'o 'o | DeleteEvent 'o | GenericEvent 'o

record 'o Funcs =
  CreateFunc :: "'o \<Rightarrow> bool"
  UpdateFunc :: "'o \<Rightarrow> 'o \<Rightarrow> bool"
  DeleteFunc :: "'o \<Rightarrow> bool"
  GenericFunc :: "'o \<Rightarrow> bool"

fun passes :: "'o Funcs \<Rightarrow> 'o event \<Rightarrow> bool" where
  "passes p (CreateEvent x) = CreateFunc p x"
| "passes p (UpdateEvent x y) = UpdateFunc p x y"
| "passes p (DeleteEvent x) = DeleteFunc p x"
| "passes p (GenericEvent x) = GenericFunc p x"

definition all_events :: "'o Funcs" where
  "all_events = \<lparr>CreateFunc = \<lambda>_. True, UpdateFunc = \<lambda>_ _. True, DeleteFunc = \<lambda>_. True, GenericFunc = \<lambda>_. True\<rparr>"

definition NewPredicateFuncs :: "('o \<Rightarrow> bool) \<Rightarrow> 'o Funcs" where
  "NewPredicateFuncs p = \<lparr>CreateFunc = p, UpdateFunc = \<lambda>old new. p new, DeleteFunc = p, GenericFunc = p\<rparr>"

definition GenerationChangedPredicate :: "(int \<times> 'o) Funcs" where
  "GenerationChangedPredicate = all_events\<lparr>UpdateFunc := \<lambda>old new. fst new \<noteq> fst old\<rparr>"

text \<open>A filter that lets updates through only.\<close>

definition update_only :: "('o \<Rightarrow> 'o \<Rightarrow> bool) \<Rightarrow> 'o Funcs" where
  "update_only p = \<lparr>CreateFunc = \<lambda>_. False, UpdateFunc = p, DeleteFunc = \<lambda>_. False, GenericFunc = \<lambda>_. False\<rparr>"

fun EnqueueRequestForObject :: "('o \<Rightarrow> ObjectMeta) \<Rightarrow> 'o event \<Rightarrow> request list" where
  "EnqueueRequestForObject meta (UpdateEvent old new) = [(om_Namespace (meta new), om_Name (meta new))]"
| "EnqueueRequestForObject meta (CreateEvent x) = [(om_Namespace (meta x), om_Name (meta x))]"
| "EnqueueRequestForObject meta (DeleteEvent x) = [(om_Namespace (meta x), om_Name (meta x))]"
| "EnqueueRequestForObject meta (GenericEvent x) = [(om_Namespace (meta x), om_Name (meta x))]"

text \<open>An update is mapped twice, for the old and for the new object.\<close>

fun EnqueueRequestsFromMapFunc ::
  "('o \<Rightarrow> world \<Rightarrow> world \<times> request list res) \<Rightarrow> 'o event \<Rightarrow> world \<Rightarrow> world \<times> request list res" where
  "EnqueueRequestsFromMapFunc f (UpdateEvent old new) w =
     then_do (f old w) (\<lambda>xs w. then_do (f new w) (\<lambda>ys w. (w, Ok (xs @ ys))))"
| "EnqueueRequestsFromMapFunc f (CreateEvent x) w = f x w"
| "EnqueueRequestsFromMapFunc f (DeleteEvent x) w = f x w"
| "EnqueueRequestsFromMapFunc f (GenericEvent x) w = f x w"

definition For :: "'o Funcs \<Rightarrow> ('o \<Rightarrow> ObjectMeta) \<Rightarrow> 'o event \<Rightarrow> world \<Rightarrow> world \<times> request list res" where
  "For p meta e w = (w, Ok (if passes p e then EnqueueRequestForObject meta e else []))"

definition Watches ::
  "'o Funcs \<Rightarrow> ('o \<Rightarrow> world \<Rightarrow> world \<times> request list res) \<Rightarrow> 'o event \<Rightarrow> world \<Rightarrow> world \<times> request list res" where
  "Watches p f e w = (if passes p e then EnqueueRequestsFromMapFunc f e w else (w, Ok []))"

section \<open>The objects and their comparisons\<close>

text \<open>
  A map of labels may be nil. \<open>reflect.DeepEqual\<close> tells a nil map from an empty one; \<open>maps.Equal\<close> and
  \<open>equality.Semantic.DeepEqual\<close> do not.
\<close>

type_synonym labels = "(string \<times> string) list option"

type_synonym watched_node = "string \<times> labels"

type_synonym watched_state = "string \<times> PowerNodeStateStatus"

datatype cluster_event =
    NodeEvent "watched_node event"
  | StateEvent "watched_state event"
  | ConfigEvent "PowerNodeConfig event"
  | ProfileEvent "(int \<times> PowerProfile) event"
  | UncoreEvent "(int \<times> Uncore) event"
  | PodEvent "Pod event"

definition included :: "(string \<times> string) list \<Rightarrow> (string \<times> string) list \<Rightarrow> bool" where
  "included xs ys = list_all (\<lambda>(k, v). map_of ys k = map_of xs k) xs"

definition maps_Equal :: "labels \<Rightarrow> labels \<Rightarrow> bool" where
  "maps_Equal l m = (included (the_default [] l) (the_default [] m) \<and> included (the_default [] m) (the_default [] l))"

definition reflect_DeepEqual :: "labels \<Rightarrow> labels \<Rightarrow> bool" where
  "reflect_DeepEqual l m = ((l = None \<longleftrightarrow> m = None) \<and> maps_Equal l m)"

definition pod_meta :: "Pod \<Rightarrow> ObjectMeta" where
  "pod_meta p = \<lparr>om_Name = pod_Name p, om_Namespace = pod_Namespace p, om_CreationTimestamp = 0\<rparr>"

section \<open>The filters\<close>

definition config_node_filter :: "string \<Rightarrow> watched_node Funcs" where
  "config_node_filter nodeName = update_only (\<lambda>old new.
     if fst new \<noteq> nodeName then False else \<not> reflect_DeepEqual (snd old) (snd new))"

definition config_state_filter :: "string \<Rightarrow> watched_state Funcs" where
  "config_state_filter nodeName = update_only (\<lambda>old new.
     if fst new \<noteq> pns_name nodeName then False
     else getExclusiveEntries (snd old) \<noteq> getExclusiveEntries (snd new))"

definition profile_node_filter :: "string \<Rightarrow> watched_node Funcs" where
  "profile_node_filter nodeName =
     \<lparr>CreateFunc = \<lambda>_. True,
      UpdateFunc = \<lambda>old new. if fst old \<noteq> nodeName then False else \<not> maps_Equal (snd new) (snd old),
      DeleteFunc = \<lambda>n. fst n = nodeName, GenericFunc = \<lambda>_. False\<rparr>"

definition node_labels_changed :: "string \<Rightarrow> watched_node \<Rightarrow> watched_node \<Rightarrow> bool" where
  "node_labels_changed nodeName old new =
     (if fst new \<noteq> nodeName then False else \<not> maps_Equal (snd old) (snd new))"

section \<open>SetupWithManager\<close>

definition PowerNodeConfig_SetupWithManager ::
  "reconciler \<Rightarrow> cluster_event \<Rightarrow> world \<Rightarrow> world \<times> request list res" where
  "PowerNodeConfig_SetupWithManager r e w =
     (case e of
        ConfigEvent e \<Rightarrow> For all_events pnc_Meta e w
      | NodeEvent e \<Rightarrow> Watches (config_node_filter (r_node r)) (\<lambda>_. enqueuePowerNodeConfigReconcile r) e w
      | StateEvent e \<Rightarrow> Watches (config_state_filter (r_node r)) (\<lambda>_. enqueueMatchingPowerNodeConfigReconcile r) e w
      | _ \<Rightarrow> (w, Ok []))"

definition PowerProfile_SetupWithManager ::
  "reconciler \<Rightarrow> cluster_event \<Rightarrow> world \<Rightarrow> world \<times> request list res" where
  "PowerProfile_SetupWithManager r e w =
     (case e of
        ProfileEvent e \<Rightarrow> For GenerationChangedPredicate (\<lambda>p. pp_Meta (snd p)) e w
      | NodeEvent e \<Rightarrow> Watches (profile_node_filter (r_node r)) (\<lambda>_. nodeToProfileRequests r) e w
      | _ \<Rightarrow> (w, Ok []))"

definition PowerPod_SetupWithManager ::
  "reconciler \<Rightarrow> cluster_event \<Rightarrow> world \<Rightarrow> world \<times> request list res" where
  "PowerPod_SetupWithManager r e w =
     (case e of
        PodEvent e \<Rightarrow> For (NewPredicateFuncs (\<lambda>p. PowerReleventPodPredicate (r_node r) (Some p))) pod_meta e w
      | ProfileEvent e \<Rightarrow> Watches (update_only (\<lambda>old new. scaling_policy_changed (snd old) (snd new)))
          (\<lambda>p. powerProfileToPodRequests r (om_Name (pp_Meta (snd p)))) e w
      | _ \<Rightarrow> (w, Ok []))"

definition Uncore_SetupWithManager ::
  "reconciler \<Rightarrow> cluster_event \<Rightarrow> world \<Rightarrow> world \<times> request list res" where
  "Uncore_SetupWithManager r e w =
     (case e of
        UncoreEvent e \<Rightarrow> For GenerationChangedPredicate (\<lambda>u. un_Meta (snd u)) e w
      | NodeEvent e \<Rightarrow> Watches (update_only (node_labels_changed (r_node r))) (\<lambda>_. enqueueUncoreReconcile r) e w
      | _ \<Rightarrow> (w, Ok []))"

section \<open>Requests that a call sends\<close>

definition sends :: "(api_request \<Rightarrow> bool) \<Rightarrow> world \<Rightarrow> world \<Rightarrow> bool" where
  "sends Q w w' = (\<exists>qs. w_requests w' = w_requests w @ qs \<and> (\<forall>q \<in> set qs. Q (fst q)))"

interpretation sends: frame "sends Q" for Q
proof
  show "sends Q w w" for w by (simp add: sends_def)
  show "sends Q w u" if vw: "sends Q w v" "sends Q v u" for w v u
  proof -
    obtain ps qs where "w_requests v = w_requests w @ ps" "w_requests u = w_requests v @ qs"
      "\<forall>q \<in> set (ps @ qs). Q (fst q)" using vw by (fastforce simp: sends_def)
    then show ?thesis unfolding sends_def by (intro exI[of _ "ps @ qs"]) simp
  qed
qed

named_theorems sends_rules \<open>calls whose requests have a given form\<close>

lemmas sends_compose [sends_rules] =
  sends.return sends.then_do sends.catch_err sends.wrap_err sends.cond sends.opt sends.pair sends.pair_at sends.foreach

lemma sends_api_get [sends_rules]: "steps (sends Q) (api_get f)"
  by (simp add: steps_def sends_def api_get_def)

lemma sends_on_host [sends_rules]: "steps (sends Q) (on_host f)"
  by (simp add: steps_def sends_def on_host_def split_beta)

lemma sends_api_send [sends_rules]: "Q q \<Longrightarrow> steps (sends Q) (api_send r q)"
  by (simp add: steps_def sends_def api_send_def Let_def)

text \<open>The PowerNodeConfig controller writes the shared and reserved pools under its own name only.\<close>

definition pool_patch :: "api_request \<Rightarrow> bool" where
  "pool_patch q = (\<exists>n s. q = StatusApply n s FieldOwnerPowerNodeConfigController \<and> getExclusiveEntries s = None)"

lemma update_sends [sends_rules]:
  "steps (sends pool_patch) (\<lambda>w. updatePowerNodeStatusPools r n c p (i w) x e w)"
  "steps (sends pool_patch) (removePowerNodeStatusPools r n)"
proof -
  have "pool_patch (StatusApply m (pools_status \<lparr>cps_Shared = a, cps_Reserved = b, cps_Exclusive = None\<rparr>)
      FieldOwnerPowerNodeConfigController)" for m a b
    by (simp add: pool_patch_def pools_status_def getExclusiveEntries_def)
  then have "steps (sends pool_patch) (updatePowerNodeStatusPools r n c p j x e)" for j
    unfolding updatePowerNodeStatusPools_def Let_def by (intro sends_rules)
  then show "steps (sends pool_patch) (\<lambda>w. updatePowerNodeStatusPools r n c p (i w) x e w)"
    by (intro stepsI) (rule stepsD)
  show "steps (sends pool_patch) (removePowerNodeStatusPools r n)"
    unfolding removePowerNodeStatusPools_def
    by (intro sends_rules) (simp add: pool_patch_def pools_status_def getExclusiveEntries_def)
qed

lemma quiet_sends: "quiet f \<Longrightarrow> steps (sends Q) f"
  by (simp add: quiet_def steps_def sends_def)

lemma validateConfig_sends [sends_rules]: "steps (sends Q) (validatePowerNodeConfigProfiles r config n)"
  unfolding validatePowerNodeConfigProfiles_def Let_def by (intro sends_rules quiet_sends validateProfile_quiet)

lemma apply_sends [sends_rules]: "steps (sends pool_patch) (applyPowerNodeConfig r config n errs)"
  unfolding applyPowerNodeConfig_def Let_def cleanupPowerNodeConfigPools_def by (intro sends_rules)

lemma conflict_errors_sends [sends_rules]: "steps (sends Q) (conflict_errors r sel ms)"
proof (induction ms)
  case (Cons m ms)
  have "steps (sends Q) (describeConflictingConfig r m)"
    unfolding describeConflictingConfig_def Let_def by (intro sends_rules)
  then show ?case unfolding conflict_errors.simps[abs_def] by (intro sends_rules Cons.IH)
qed (simp add: steps_def sends_def)

lemma PowerNodeConfig_Reconcile_sends: "steps (sends pool_patch) (PowerNodeConfig_Reconcile r room ns)"
proof -
  have "steps (sends pool_patch) (getMatchingPowerNodeConfigs r n)" for n
    unfolding getMatchingPowerNodeConfigs_def by (intro sends_rules)
  moreover have "steps (sends pool_patch) (getActiveResourceName r n f)" for n f
    unfolding getActiveResourceName_def by (intro sends_rules)
  ultimately show ?thesis unfolding PowerNodeConfig_Reconcile_def Let_def cleanupPowerNodeConfigPools_def
    by (intro sends_rules)
qed

section \<open>Facts\<close>

lemma included_iff: "included xs ys \<longleftrightarrow> map_of xs \<subseteq>\<^sub>m map_of ys"
proof -
  have "included xs ys \<longleftrightarrow> (\<forall>k \<in> dom (map_of xs). map_of ys k = map_of xs k)"
    by (auto simp: included_def list_all_iff dom_map_of_conv_image_fst)
  then show ?thesis unfolding map_le_def by metis
qed

lemma maps_Equal_iff: "maps_Equal l m \<longleftrightarrow> map_of (the_default [] l) = map_of (the_default [] m)"
  by (auto simp: maps_Equal_def included_iff intro: map_le_antisym)

text \<open>A function of a controller that answers an event with an error-free list.\<close>

definition answers :: "(world \<Rightarrow> world \<times> 'a res) \<Rightarrow> bool" where
  "answers f = (\<forall>w. \<exists>w' a. f w = (w', Ok a))"

lemma answers_list: "answers (\<lambda>w. catch_err (api_get f w) (\<lambda>_ w. (w, Ok [])) (\<lambda>x w. (w, Ok (k x))))"
proof -
  have "\<exists>w' a. catch_err (api_get f w) (\<lambda>_ w. (w, Ok [])) (\<lambda>x w. (w, Ok (k x))) = (w', Ok a)" for w
    by (cases "f (w_calls w)") (simp_all add: api_get_def)
  then show ?thesis by (simp add: answers_def)
qed

lemma enqueue_answers:
  "answers (enqueuePowerNodeConfigReconcile r)" "answers (nodeToProfileRequests r)" "answers (enqueueUncoreReconcile r)"
  unfolding enqueuePowerNodeConfigReconcile_def nodeToProfileRequests_def enqueueUncoreReconcile_def
  by (rule answers_list)+

lemma update_mapped:
  assumes "answers f" and "f w = (w1, Ok xs)"
  shows "\<exists>w' ys. EnqueueRequestsFromMapFunc (\<lambda>_. f) (UpdateEvent old new) w = (w', Ok (xs @ ys))"
  using assms(1)[unfolded answers_def, rule_format, of w1] assms(2) by auto

section \<open>Properties\<close>

text \<open>
  C13. A change of the labels of the node wakes the controllers whose choice depends on them: when the
  agent's own node is updated and its labels differ as maps, the PowerProfile controller gets a
  request for every profile that is listed, and the PowerNodeConfig and the Uncore controller get
  one for a resource that is listed, if there is any (they look at all of them then). An update of another node
  wakes none of the three.
\<close>
theorem label_change_wakes_controllers:
  assumes "map_of (the_default [] l) \<noteq> map_of (the_default [] l')"
    and "list_configs (r_api r) (w_calls w) = Inr (c # cs)"
    and "list_profiles (r_api r) (w_calls w) = Inr ps"
    and "list_uncores (r_api r) (w_calls w) = Inr (u # us)"
  shows "\<exists>w1 w2 w3 cqs pqs uqs.
      PowerNodeConfig_SetupWithManager r (NodeEvent (UpdateEvent (n, l) (n, l'))) w = (w1, Ok cqs) \<and>
      PowerProfile_SetupWithManager r (NodeEvent (UpdateEvent (n, l) (n, l'))) w = (w2, Ok pqs) \<and>
      Uncore_SetupWithManager r (NodeEvent (UpdateEvent (n, l) (n, l'))) w = (w3, Ok uqs) \<and>
      (if n = r_node r then
         (om_Namespace (pnc_Meta c), om_Name (pnc_Meta c)) \<in> set cqs \<and>
         (\<forall>p \<in> set ps. (om_Namespace (pp_Meta p), om_Name (pp_Meta p)) \<in> set pqs) \<and>
         (om_Namespace (un_Meta u), om_Name (un_Meta u)) \<in> set uqs
       else cqs = [] \<and> pqs = [] \<and> uqs = [])"
proof (cases "n = r_node r")
  case True
  let ?w = "w\<lparr>w_calls := Suc (w_calls w)\<rparr>"
  have f: "enqueuePowerNodeConfigReconcile r w = (?w, Ok [(om_Namespace (pnc_Meta c), om_Name (pnc_Meta c))])"
    "nodeToProfileRequests r w = (?w, Ok (map (\<lambda>p. (om_Namespace (pp_Meta p), om_Name (pp_Meta p))) ps))"
    "enqueueUncoreReconcile r w = (?w, Ok [(om_Namespace (un_Meta u), om_Name (un_Meta u))])"
    using assms(2-4) by (simp_all add: enqueuePowerNodeConfigReconcile_def nodeToProfileRequests_def
        enqueueUncoreReconcile_def api_get_def)
  have d: "\<not> maps_Equal l l'" "\<not> maps_Equal l' l" "\<not> reflect_DeepEqual l l'"
    using assms(1) by (auto simp: maps_Equal_iff reflect_DeepEqual_def)
  note m = update_mapped[OF enqueue_answers(1) f(1)] update_mapped[OF enqueue_answers(2) f(2)] update_mapped[OF enqueue_answers(3) f(3)]
  obtain w1 cqs where "PowerNodeConfig_SetupWithManager r (NodeEvent (UpdateEvent (n, l) (n, l'))) w = (w1, Ok cqs)"
    "(om_Namespace (pnc_Meta c), om_Name (pnc_Meta c)) \<in> set cqs"
    using m(1)[of "(n, l)" "(n, l')"] d True
    by (auto simp: PowerNodeConfig_SetupWithManager_def Watches_def config_node_filter_def update_only_def)
  moreover obtain w2 pqs where "PowerProfile_SetupWithManager r (NodeEvent (UpdateEvent (n, l) (n, l'))) w = (w2, Ok pqs)"
    "\<forall>p \<in> set ps. (om_Namespace (pp_Meta p), om_Name (pp_Meta p)) \<in> set pqs"
    using m(2)[of "(n, l)" "(n, l')"] d True
    by (auto simp: PowerProfile_SetupWithManager_def Watches_def profile_node_filter_def)
  moreover obtain w3 uqs where "Uncore_SetupWithManager r (NodeEvent (UpdateEvent (n, l) (n, l'))) w = (w3, Ok uqs)"
    "(om_Namespace (un_Meta u), om_Name (un_Meta u)) \<in> set uqs"
    using m(3)[of "(n, l)" "(n, l')"] d True
    by (auto simp: Uncore_SetupWithManager_def Watches_def node_labels_changed_def update_only_def)
  ultimately show ?thesis using True by auto
next
  case False
  then show ?thesis
    by (simp add: PowerNodeConfig_SetupWithManager_def PowerProfile_SetupWithManager_def Uncore_SetupWithManager_def
        Watches_def config_node_filter_def profile_node_filter_def node_labels_changed_def update_only_def)
qed

definition watched_reconciler :: reconciler where
  "watched_reconciler = plain_reconciler\<lparr>r_api := plain_api\<lparr>list_configs := \<lambda>n. Inr [one_reserved],
     list_uncores := \<lambda>n. Inr [die_uncore ''a'']\<rparr>\<rparr>"

theorem label_change_wakes_controllers_witness:
  "\<exists>w' qs. PowerNodeConfig_SetupWithManager watched_reconciler
       (NodeEvent (UpdateEvent (''node'', None) (''node'', Some [(''zone'', ''a'')]))) (plain_world (\<lambda>_. ReservedPool)) = (w', Ok qs) \<and>
     (PowerNamespace, ''config'') \<in> set qs"
proof -
  have "map_of (the_default [] None) \<noteq> map_of (the_default [] (Some [(''zone'', ''a'')]))" by (simp add: fun_eq_iff)
  note this label_change_wakes_controllers[OF this, of watched_reconciler "plain_world (\<lambda>_. ReservedPool)" one_reserved "[]"
      "[perf_profile]" "die_uncore ''a''" "[]" "''node''"]
  then show ?thesis by (auto simp: watched_reconciler_def plain_api_def plain_reconciler_def one_reserved_def meta0_def)
qed

text \<open>
  C12. The PowerNodeConfig controller does not wake itself. Whatever \<open>Reconcile\<close> does, and whatever it
  returns, every request it sends is a patch of the status of a PowerNodeState under the
  controller's own name that has no exclusive pools; on an API server that leaves the exclusive pools,
  which this name never owns, alone when it applies such a patch, the event of that change is filtered out. A change
  of the exclusive pools on this node, on the other hand, leads to a request for the configuration that
  comes first among those that match the node.
\<close>
theorem config_controller_does_not_wake_itself:
  assumes "\<And>name patch st. getExclusiveEntries patch = None \<Longrightarrow>
      getExclusiveEntries (server (StatusApply name patch FieldOwnerPowerNodeConfigController) st) = getExclusiveEntries st"
  shows "(\<exists>qs. w_requests (fst (PowerNodeConfig_Reconcile r room ns w)) = w_requests w @ qs \<and>
      (\<forall>q \<in> set qs. \<forall>name st v. PowerNodeConfig_SetupWithManager r
         (StateEvent (UpdateEvent (name, st) (name, server (fst q) st))) v = (v, Ok []))) \<and>
    (\<forall>st st' v v' c cs. getExclusiveEntries st \<noteq> getExclusiveEntries st' \<longrightarrow>
       getMatchingPowerNodeConfigs r (r_node r) v = (v', Ok (c # cs)) \<longrightarrow>
       (case PowerNodeConfig_SetupWithManager r
          (StateEvent (UpdateEvent (pns_name (r_node r), st) (pns_name (r_node r), st'))) v of
          (_, Ok qs) \<Rightarrow> (om_Namespace (pnc_Meta c), om_Name (pnc_Meta c)) \<in> set qs
        | (_, x) \<Rightarrow> False))"
proof -
  obtain qs where qs: "w_requests (fst (PowerNodeConfig_Reconcile r room ns w)) = w_requests w @ qs" "\<forall>q \<in> set qs. pool_patch (fst q)"
    using stepsD[OF PowerNodeConfig_Reconcile_sends, of w r room ns] by (auto simp: sends_def)
  have "PowerNodeConfig_SetupWithManager r (StateEvent (UpdateEvent (name, st) (name, server (fst q) st))) v = (v, Ok [])"
    if "q \<in> set qs" for q name st v
    using qs(2) that assms
    by (auto simp: pool_patch_def PowerNodeConfig_SetupWithManager_def Watches_def config_state_filter_def update_only_def)
  moreover have "case PowerNodeConfig_SetupWithManager r
          (StateEvent (UpdateEvent (pns_name (r_node r), st) (pns_name (r_node r), st'))) v of
          (_, Ok qs) \<Rightarrow> (om_Namespace (pnc_Meta c), om_Name (pnc_Meta c)) \<in> set qs | (_, x) \<Rightarrow> False"
    if "getExclusiveEntries st \<noteq> getExclusiveEntries st'" "getMatchingPowerNodeConfigs r (r_node r) v = (v', Ok (c # cs))" for st st' v v' c cs
  proof -
    have "enqueueMatchingPowerNodeConfigReconcile r v = (v', Ok [(om_Namespace (pnc_Meta c), om_Name (pnc_Meta c))])"
      using that(2) by (simp add: enqueueMatchingPowerNodeConfigReconcile_def)
    moreover have "answers (enqueueMatchingPowerNodeConfigReconcile r)" unfolding answers_def
    proof
      fix u
      obtain u' x where "getMatchingPowerNodeConfigs r (r_node r) u = (u', x)" by (cases "getMatchingPowerNodeConfigs r (r_node r) u")
      then show "\<exists>u' a. enqueueMatchingPowerNodeConfigReconcile r u = (u', Ok a)"
        using host_keptD(2)[OF getMatching_kept, of r "r_node r" u] by (cases x) (simp_all add: enqueueMatchingPowerNodeConfigReconcile_def)
    qed
    ultimately show ?thesis using update_mapped[of "enqueueMatchingPowerNodeConfigReconcile r" v] that(1)
      by (fastforce simp: PowerNodeConfig_SetupWithManager_def Watches_def config_state_filter_def update_only_def)
  qed
  ultimately show ?thesis using qs(1) by blast
qed

text \<open>A server that replaces the shared and reserved pools and nothing else.\<close>

definition merging_server :: "api_request \<Rightarrow> PowerNodeStateStatus \<Rightarrow> PowerNodeStateStatus" where
  "merging_server q st =
     (case q of
        StatusApply name patch owner \<Rightarrow>
          (case st_CPUPools patch of
             None \<Rightarrow> st
           | Some pl \<Rightarrow> st\<lparr>st_CPUPools := Some (pl\<lparr>cps_Exclusive := getExclusiveEntries st\<rparr>)\<rparr>)
      | _ \<Rightarrow> st)"

theorem config_controller_does_not_wake_itself_witness:
  "\<exists>qs. w_requests (fst (PowerNodeConfig_Reconcile watched_reconciler (\<lambda>_. True) PowerNamespace (plain_world (\<lambda>_. ReservedPool)))) = [] @ qs \<and>
     (\<forall>q \<in> set qs. PowerNodeConfig_SetupWithManager watched_reconciler
         (StateEvent (UpdateEvent (''node-power-state'', empty_status) (''node-power-state'', merging_server (fst q) empty_status)))
         (plain_world (\<lambda>_. ReservedPool)) = (plain_world (\<lambda>_. ReservedPool), Ok []))"
proof -
  have "getExclusiveEntries (merging_server (StatusApply name patch FieldOwnerPowerNodeConfigController) st) = getExclusiveEntries st"
    for name patch st
    by (simp add: merging_server_def getExclusiveEntries_def split: option.split)
  from config_controller_does_not_wake_itself[of merging_server watched_reconciler "\<lambda>_. True" PowerNamespace "plain_world (\<lambda>_. ReservedPool)", OF this]
  have "\<exists>qs. w_requests (fst (PowerNodeConfig_Reconcile watched_reconciler (\<lambda>_. True) PowerNamespace (plain_world (\<lambda>_. ReservedPool)))) =
      w_requests (plain_world (\<lambda>_. ReservedPool)) @ qs \<and> (\<forall>q \<in> set qs. \<forall>name st v. PowerNodeConfig_SetupWithManager watched_reconciler
         (StateEvent (UpdateEvent (name, st) (name, merging_server (fst q) st))) v = (v, Ok []))" by (rule conjunct1)
  then show ?thesis by (auto simp: plain_world_def)
qed

end
