(* ===== verification/Uncore_Frame.thy ===== *)
theory Uncore_Frame
  imports Uncore_Props
begin

text \<open>
  The Uncore controller whatever fails: its calls keep the topology well formed and its packages and
  dies the same, touch no pool, and do not panic.
\<close>

section \<open>Calls that keep an invariant and do not panic\<close>

definition tame :: "('s \<Rightarrow> bool) \<Rightarrow> ('s \<Rightarrow> 's \<times> 'a res) \<Rightarrow> bool" where
  "tame I f = (\<forall>s. I s \<longrightarrow> I (fst (f s)) \<and> \<not> is_panic (snd (f s)))"

named_theorems tames \<open>calls that keep an invariant and do not panic\<close>

lemma tameI: "(\<And>s. I s \<Longrightarrow> I (fst (f s)) \<and> \<not> is_panic (snd (f s))) \<Longrightarrow> tame I f"
  unfolding tame_def by blast

lemma tameD: "tame I f \<Longrightarrow> I s \<Longrightarrow> I (fst (f s)) \<and> \<not> is_panic (snd (f s))"
  unfolding tame_def by blast

lemma tame_return [tames]: "\<not> is_panic x \<Longrightarrow> tame I (\<lambda>s. (s, x))"
  unfolding tame_def by simp

lemma tame_if [tames]: "(b \<Longrightarrow> tame I f) \<Longrightarrow> (\<not> b \<Longrightarrow> tame I k) \<Longrightarrow> tame I (\<lambda>s. if b then f s else k s)"
  by (cases b) simp_all

lemma tame_option [tames]:
  "(x = None \<Longrightarrow> tame I f) \<Longrightarrow> (\<And>a. x = Some a \<Longrightarrow> tame I (k a)) \<Longrightarrow> tame I (\<lambda>s. case x of None \<Rightarrow> f s | Some a \<Rightarrow> k a s)"
  by (cases x) simp_all

lemma tame_pair [tames]: "(\<And>a b. p = (a, b) \<Longrightarrow> tame I (f a b)) \<Longrightarrow> tame I (\<lambda>s. case p of (a, b) \<Rightarrow> f a b s)"
  by (cases p) simp

lemma tame_then_do [tames]:
  assumes "tame I f" and "\<And>a. tame I (k a)"
  shows "tame I (\<lambda>s. then_do (f s) k)"
proof (rule tameI)
  fix s assume s: "I s"
  obtain t x where x: "f s = (t, x)" by (cases "f s")
  have t: "I t" "\<not> is_panic x" using tameD[OF assms(1) s] x by simp_all
  show "I (fst (then_do (f s) k)) \<and> \<not> is_panic (snd (then_do (f s) k))"
    using t tameD[OF assms(2) t(1)] x by (cases x) simp_all
qed

lemma tame_catch_err [tames]:
  assumes "tame I f" and "\<And>e. tame I (handle e)" and "\<And>a. tame I (k a)"
  shows "tame I (\<lambda>s. catch_err (f s) handle k)"
proof (rule tameI)
  fix s assume s: "I s"
  obtain t x where x: "f s = (t, x)" by (cases "f s")
  have t: "I t" "\<not> is_panic x" using tameD[OF assms(1) s] x by simp_all
  show "I (fst (catch_err (f s) handle k)) \<and> \<not> is_panic (snd (catch_err (f s) handle k))"
    using t tameD[OF assms(2) t(1)] tameD[OF assms(3) t(1)] x by (cases x) simp_all
qed

lemma tame_foreach:
  assumes "\<And>x. x \<in> set xs \<Longrightarrow> tame I (f x)" shows "tame I (foreach f xs)"
proof (intro tameI conjI)
  fix s assume s: "I s"
  show "I (fst (foreach f xs s))" by (rule foreach_inv[where I = I]) (use s tameD[OF assms] in auto)
  show "\<not> is_panic (snd (foreach f xs s))"
    by (rule foreach_panic[where I = I]) (use s tameD[OF assms] in auto)
qed

section \<open>The shape of a topology\<close>

definition topo_shape :: "topology \<Rightarrow> nat \<Rightarrow> nat set option" where
  "topo_shape t i = map_option (\<lambda>pk. fst ` set (pk_dies pk)) (map_of (packages t) i)"

definition fits :: "(nat \<Rightarrow> nat set option) \<Rightarrow> topology \<times> sys \<Rightarrow> bool" where
  "fits sh s = (topo_ok (fst s) \<and> topo_shape (fst s) = sh)"

section \<open>The library\<close>

lemma set_update_subset: "set (AList.update k x kvs) \<subseteq> insert (k, x) (set kvs)"
  by (induction kvs) auto

lemma write_no_panic: "\<not> is_panic (snd (uncore_write env g u i j sy))"
proof -
  obtain s x where x: "WriteFile env (uncore_path g i j uncoreMaxFreqFile) (nat_str (snd u)) sy = (s, x)"
    by (cases "WriteFile env (uncore_path g i j uncoreMaxFreqFile) (nat_str (snd u)) sy")
  have "x \<noteq> Panic m" for m using x WriteFile_no_panic by (metis snd_conv)
  then show ?thesis using x by (cases x) (auto simp: uncore_write_def is_panic_iff)
qed

lemma apply_no_panic:
  "\<not> is_panic (snd (die_applyUncore env g t pk d sy))" "\<not> is_panic (snd (package_applyUncore env g t pk sy))"
  "\<not> is_panic (snd (topology_applyUncore env g t sy))"
proof -
  show d: "\<not> is_panic (snd (die_applyUncore env g t pk d sy))" for pk d sy
    by (simp add: die_applyUncore_def write_no_panic)
  show p: "\<not> is_panic (snd (package_applyUncore env g t pk sy))" for pk sy
    unfolding package_applyUncore_def by (rule foreach_panic[where I = "\<lambda>_. True"]) (simp_all add: d)
  show "\<not> is_panic (snd (topology_applyUncore env g t sy))"
    unfolding topology_applyUncore_def by (rule foreach_panic[where I = "\<lambda>_. True"]) (simp_all add: p)
qed

lemma topology_SetUncore_tame [tames]: "tame (fits sh) (topology_SetUncore env g u)"
  using apply_no_panic(3)[of env g]
  by (auto simp: tame_def fits_def topology_SetUncore_def Let_def split_beta topo_ok_def topo_shape_def fun_eq_iff)

definition package_keys :: "nat \<Rightarrow> package \<Rightarrow> bool" where
  "package_keys i pk = (pk_id pk = i \<and> distinct (map fst (pk_dies pk)) \<and> (\<forall>(j, d) \<in> set (pk_dies pk). d_id d = j))"

lemma topo_ok_iff: "topo_ok t \<longleftrightarrow> distinct (map fst (packages t)) \<and> (\<forall>(i, pk) \<in> set (packages t). package_keys i pk)"
  by (simp add: topo_ok_def package_keys_def)

lemma update_package_fits:
  assumes "fits sh (t, sy)" and "map_of (packages t) i = Some pk" and "package_keys i pk'"
    and "fst ` set (pk_dies pk') = fst ` set (pk_dies pk)"
  shows "fits sh (t\<lparr>packages := AList.update i pk' (packages t)\<rparr>, sy')"
proof -
  have "topo_ok (t\<lparr>packages := AList.update i pk' (packages t)\<rparr>)"
    using assms(1,3) set_update_subset[of i pk' "packages t"] unfolding fits_def topo_ok_iff by (auto simp: distinct_update)
  moreover have "topo_shape (t\<lparr>packages := AList.update i pk' (packages t)\<rparr>) = topo_shape t"
    using assms(2,4) by (auto simp: topo_shape_def fun_eq_iff update_conv)
  ultimately show ?thesis using assms(1) by (simp add: fits_def)
qed

lemma fits_package:
  assumes "fits sh (t, sy)" and "map_of (packages t) i = Some pk" shows "package_keys i pk"
  using assms map_of_SomeD[OF assms(2)] by (auto simp: fits_def topo_ok_iff)

lemma package_SetUncore_tame:
  assumes "sh i \<noteq> None" shows "tame (fits sh) (package_SetUncore env g i u)"
  unfolding tame_def
proof (intro allI impI)
  fix s assume s: "fits sh s"
  obtain t sy where t: "s = (t, sy)" by (cases s)
  obtain pk where pk: "map_of (packages t) i = Some pk" using assms s by (auto simp: t topo_shape_def fits_def)
  have "package_keys i (pk\<lparr>pk_uncore := u\<rparr>)" using fits_package[OF s[unfolded t] pk] by (simp add: package_keys_def)
  from update_package_fits[OF s[unfolded t] pk this]
  show "fits sh (fst (package_SetUncore env g i u s)) \<and> \<not> is_panic (snd (package_SetUncore env g i u s))"
    using pk apply_no_panic(2)[of env g] by (simp add: t package_SetUncore_def Let_def split_beta)
qed

lemma die_SetUncore_tame:
  assumes "sh i = Some js" and "j \<in> js" shows "tame (fits sh) (die_SetUncore env g i j u)"
  unfolding tame_def
proof (intro allI impI)
  fix s assume s: "fits sh s"
  obtain t sy where t: "s = (t, sy)" by (cases s)
  obtain pk where pk: "map_of (packages t) i = Some pk" and js: "js = fst ` set (pk_dies pk)"
    using assms s by (auto simp: t topo_shape_def fits_def)
  obtain d where d: "map_of (pk_dies pk) j = Some d" using assms(2) js by (metis map_of_eq_None_iff not_None_eq)
  have wf: "package_keys i pk" by (rule fits_package[OF s[unfolded t] pk])
  let ?pk = "pk\<lparr>pk_dies := AList.update j (d\<lparr>d_uncore := u\<rparr>) (pk_dies pk)\<rparr>"
  have "d_id d = j" using wf map_of_SomeD[OF d] by (auto simp: package_keys_def)
  then have "package_keys i ?pk" using wf set_update_subset[of j "d\<lparr>d_uncore := u\<rparr>" "pk_dies pk"]
    by (auto simp: package_keys_def distinct_update)
  moreover have "fst ` set (pk_dies ?pk) = fst ` set (pk_dies pk)"
    using d by (auto simp: dom_map_of_conv_image_fst[symmetric] update_conv')
  ultimately have "fits sh (t\<lparr>packages := AList.update i ?pk (packages t)\<rparr>, sy')" for sy'
    by (rule update_package_fits[OF s[unfolded t] pk])
  then show "fits sh (fst (die_SetUncore env g i j u s)) \<and> \<not> is_panic (snd (die_SetUncore env g i j u s))"
    using pk d apply_no_panic(1)[of env g] by (simp add: t die_SetUncore_def Let_def split_beta)
qed

section \<open>The controller\<close>

lemma reset_tame: "tame (fits sh) (resetUncoreSettings env g)"
proof -
  have "tame (fits sh) (\<lambda>(t, sy). foreach (reset_package env g) (packages t) (t, sy))"
  proof (rule tameI)
    fix s assume s: "fits sh s"
    obtain t sy where t: "s = (t, sy)" by (cases s)
    have "tame (fits sh) (reset_package env g x)" if x: "x \<in> set (packages t)" for x
    proof -
      obtain i pk where i: "x = (i, pk)" by (cases x)
      have "map_of (packages t) i = Some pk" using s x by (simp add: t i fits_def topo_ok_def)
      then have sh: "sh i = Some (fst ` set (pk_dies pk))" using s by (auto simp: t fits_def topo_shape_def)
      have "tame (fits sh) (\<lambda>ts. then_do (package_SetUncore env g i None ts)
          (\<lambda>_. foreach (\<lambda>(j, d). die_SetUncore env g i j None) (pk_dies pk)))"
        by (intro tame_then_do package_SetUncore_tame tame_foreach)
           (use sh in \<open>auto intro!: die_SetUncore_tame[where sh = sh and i = i, OF sh] image_eqI[of _ fst] split: prod.split\<close>)
      then show ?thesis by (simp add: reset_package_def i)
    qed
    then show "fits sh (fst (case s of (t, sy) \<Rightarrow> foreach (reset_package env g) (packages t) (t, sy))) \<and>
        \<not> is_panic (snd (case s of (t, sy) \<Rightarrow> foreach (reset_package env g) (packages t) (t, sy)))"
      using tameD[where I = "fits sh", OF tame_foreach[of "packages t" "fits sh" "reset_package env g"] s] unfolding t by simp
  qed
  then show ?thesis unfolding resetUncoreSettings_def by (intro tames)
qed

lemma NewUncore_tame [tames]: "tame I (\<lambda>s. (s, NewUncore g mn mx))"
  by (rule tame_return) (metis NewUncore_no_panic is_panic_iff)

lemma apply_sys_tame [tames]: "tame (fits sh) (apply_sys env g mn mx)"
  unfolding apply_sys_def by (intro tames) simp_all

lemma apply_die_selector_tame [tames]: "tame (fits sh) (apply_die_selector env g ds)"
proof -
  have "tame (fits sh) (\<lambda>(t, sy).
               (case map_of (packages t) p of
                  None \<Rightarrow> ((t, sy), Ok (Inl (''invalid package: '' @ nat_str p)))
                | Some pkg \<Rightarrow>
                    (case ds_Die ds of
                       None \<Rightarrow>
                         catch_err (package_SetUncore env g p (Some u) (t, sy))
                           (\<lambda>e ts. (ts, Ok (Inl (''error setting uncore for package '' @ nat_str p @ '': '' @ err_msg e))))
                           (\<lambda>_ ts. (ts, Ok (Inr (''Package '' @ nat_str p @ min_max_text mn mx))))
                     | Some d \<Rightarrow>
                         if map_of (pk_dies pkg) d = None then ((t, sy), Ok (Inl (''invalid die: '' @ nat_str d)))
                         else catch_err (die_SetUncore env g p d (Some u) (t, sy))
                           (\<lambda>e ts. (ts, Ok (Inl (''error setting uncore for package '' @ nat_str p @ '' die '' @ nat_str d @
                              '': '' @ err_msg e))))
                           (\<lambda>_ ts. (ts, Ok (Inr (''Package '' @ nat_str p @ '' Die '' @ nat_str d @ min_max_text mn mx)))))))"
    (is "tame _ ?f") for p u mn mx
  proof (rule tameI)
    fix s assume s: "fits sh s"
    obtain t sy where t: "s = (t, sy)" by (cases s)
    have q: "tame (fits sh) (\<lambda>s. catch_err (f s) (\<lambda>e ts. (ts, Ok (Inl (m e)))) (\<lambda>_ ts. (ts, Ok (Inr m'))))"
      if "tame (fits sh) f" for f :: "topology \<times> sys \<Rightarrow> (topology \<times> sys) \<times> unit res" and m and m' :: string
      by (intro tames that) simp_all
    show "fits sh (fst (?f s)) \<and> \<not> is_panic (snd (?f s))"
    proof (cases "map_of (packages t) p")
      case (Some pkg)
      then have sh: "sh p = Some (fst ` set (pk_dies pkg))" using s by (auto simp: t fits_def topo_shape_def)
      show ?thesis
      proof (cases "ds_Die ds")
        case None
        have "sh p \<noteq> None" using sh by simp
        from tameD[OF q[OF package_SetUncore_tame[where sh = sh and i = p, OF this]] s] show ?thesis using Some None by (simp add: t)
      next
        case (Some d)
        show ?thesis
        proof (cases "map_of (pk_dies pkg) d")
          case (Some x)
          then have "d \<in> fst ` set (pk_dies pkg)" by (metis map_of_eq_None_iff option.distinct(1))
          from tameD[OF q[OF die_SetUncore_tame[where sh = sh and i = p, OF sh this]] s] show ?thesis
            using Some \<open>ds_Die ds = Some d\<close> \<open>map_of (packages t) p = Some pkg\<close> by (simp add: t)
        qed (use s Some \<open>map_of (packages t) p = Some pkg\<close> in \<open>simp add: t\<close>)
      qed
    qed (use s in \<open>simp add: t\<close>)
  qed
  then show ?thesis unfolding apply_die_selector_def
    by (cases "ds_Max ds"; cases "ds_Min ds"; cases "ds_Package ds"; simp only: option.case prod.case) (intro tames; simp)+
qed

lemma apply_selectors_tame [tames]: "tame (fits sh) (apply_selectors env g dss)"
proof (induction dss)
  case (Cons ds dss)
  show ?case unfolding apply_selectors.simps[abs_def] by (intro tames Cons.IH) simp
qed (simp add: tame_def)

lemma apply_settings_tame: "tame (fits sh) (apply_settings env g spec)"
  unfolding apply_settings_def
  by (cases "SysMax spec"; cases "SysMin spec"; simp only: option.case prod.case) (intro tames; simp)+

text \<open>The pools of the host stay as in \<open>h\<close>.\<close>

definition uncore_part :: "host \<Rightarrow> world \<Rightarrow> bool" where
  "uncore_part h w = (fits (topo_shape (h_topo h)) (h_topo (w_host w), hsys (w_host w)) \<and>
     (\<exists>t sy. w_host w = h\<lparr>h_topo := t, hsys := sy\<rparr>))"

lemma on_topo_tame:
  assumes "tame (fits (topo_shape (h_topo h))) f" shows "tame (uncore_part h) (on_host (on_topo f))"
proof (rule tameI)
  fix w assume w: "uncore_part h w"
  then have "fits (topo_shape (h_topo h)) (h_topo (w_host w), hsys (w_host w))" by (simp add: uncore_part_def)
  from tameD[OF assms this] show "uncore_part h (fst (on_host (on_topo f) w)) \<and> \<not> is_panic (snd (on_host (on_topo f) w))"
    using w unfolding uncore_part_def on_host_def on_topo_def by (auto simp: split_beta) blast
qed

lemma kept_tame: "host_kept f \<Longrightarrow> tame (uncore_part h) f"
  by (simp add: host_kept_def tame_def uncore_part_def)

lemma Uncore_Reconcile_tame: "tame (uncore_part h) (Uncore_Reconcile r ns)"
proof -
  have m: "host_kept (getMatchingUncores r n)" for n
    unfolding getMatchingUncores_def by (intro host_kepts) simp
  have u: "host_kept (updateUncoreInPowerNodeState r n a b c)" "host_kept (removeUncoreFromPowerNodeState r n)" for n a b c
    unfolding updateUncoreInPowerNodeState_def removeUncoreFromPowerNodeState_def by (intro host_kepts; simp)+
  have a: "tame (uncore_part h) (applyUncoreConfig r x n c)" for x n c
    unfolding applyUncoreConfig_def Let_def
    by (intro tames kept_tame[OF u(1)] on_topo_tame reset_tame apply_settings_tame) simp_all
  show ?thesis unfolding Uncore_Reconcile_def Let_def
    by (intro tames kept_tame[OF m] kept_tame[OF getActiveResourceName_kept] kept_tame[OF u(2)] on_topo_tame reset_tame a) simp_all
qed

lemma uncore_part_refl: "topo_ok (h_topo (w_host w)) \<Longrightarrow> uncore_part (w_host w) w"
  unfolding uncore_part_def fits_def
  by (simp, rule exI[of _ "h_topo (w_host w)"], rule exI[of _ "hsys (w_host w)"]) simp

end
