(* ===== verification/Pod_Frame.thy ===== *)
theory Pod_Frame
  imports Topology_Frame
begin

text \<open>
  The pod controller whatever fails: it keeps the invariant of the library, the remembered pods, and
  the telemetry client and scaling workers in order. The first part needs no more than the
  invariant; the second one needs policies and frequency limits that make sense, which is what the
  validation of the custom resource and the discovery provide.
\<close>

section \<open>The library\<close>

definition keeps_lib :: "pkgvars \<Rightarrow> pod_world \<Rightarrow> pod_world \<Rightarrow> bool" where
  "keeps_lib g s s' = (lib_inv g (pw_host s) \<longrightarrow> lib_inv g (pw_host s') \<and> allCpus (pw_host s') = allCpus (pw_host s))"

interpretation pod_lib: frame "keeps_lib g" for g
  by unfold_locales (auto simp: keeps_lib_def)

lemmas pod_lib_rules = pod_lib.return pod_lib.then_do pod_lib.catch_err pod_lib.cond pod_lib.opt pod_lib.sum pod_lib.pair_at

lemma pod_lib_same: "(\<And>s. pw_host (fst (f s)) = pw_host s) \<Longrightarrow> steps (keeps_lib g) f"
  by (simp add: steps_def keeps_lib_def)

lemma move_shared_lib: "steps (keeps_lib g) (on_world (on_host (foreach (\<lambda>c. MoveCpuIDs env g SharedPool (ids c)) cs)))"
proof (rule stepsI)
  fix s
  let ?I = "\<lambda>h. lib_inv g (pw_host s) \<longrightarrow> lib_inv g h \<and> allCpus h = allCpus (pw_host s)"
  have m: "?I (fst (MoveCpuIDs env g SharedPool xs h))" if "?I h" for xs h
    using that MoveCpus_safe(1,2)[of g h _ SharedPool env] ManyByIDs_Ok[of "allCpus h" xs]
    by (cases "ManyByIDs (allCpus h) xs") (auto simp: MoveCpuIDs_def)
  have "?I (fst (foreach (\<lambda>c. MoveCpuIDs env g SharedPool (ids c)) cs (pw_host s)))"
    by (rule foreach_inv[where I = ?I]) (use m in auto)
  then show "keeps_lib g s (fst (on_world (on_host (foreach (\<lambda>c. MoveCpuIDs env g SharedPool (ids c)) cs)) s))"
    by (simp add: keeps_lib_def on_world_def on_host_def split_beta)
qed

lemma forget_lib: "steps (keeps_lib g) (forget_pod n ns)"
  by (rule pod_lib_same) (simp add: forget_pod_def split: option.split)

lemma send_lib: "steps (keeps_lib g) (on_world (removePowerNodeStatusExclusiveEntry r n uid))"
proof (rule pod_lib_same)
  have "host_kept (removePowerNodeStatusExclusiveEntry r n uid)"
    unfolding removePowerNodeStatusExclusiveEntry_def applyPowerNodeStateExclusiveStatus_def by (intro host_kepts) simp_all
  then show "pw_host (fst (on_world (removePowerNodeStatusExclusiveEntry r n uid) s)) = pw_host s" for s
    by (simp add: on_world_fst host_kept_def)
qed

lemma get_lib: "steps (keeps_lib g) (on_world (api_get f))"
  by (rule pod_lib_same) (simp add: on_world_fst api_get_def)

lemma release_pod_lib: "steps (keeps_lib (r_vars r)) (release_pod r pod)"
proof -
  have "steps (keeps_lib (r_vars r)) (\<lambda>s. (stop_scaling uid ids s, Ok ()))" for uid ids
    by (rule pod_lib_same) (simp add: stop_scaling_rest)
  then have "steps (keeps_lib (r_vars r)) (release_cpus r uid pns)" for uid pns
    unfolding release_cpus_def Let_def by (intro pod_lib_rules move_shared_lib)
  then show ?thesis unfolding release_pod_def by (intro pod_lib_rules forget_lib get_lib send_lib)
qed

lemma PowerPod_Reconcile_lib: "steps (keeps_lib (r_vars r)) (PowerPod_Reconcile r prc ns name)"
proof -
  have "steps (keeps_lib (r_vars r)) (reconcile_pod r prc pod)" for pod
  proof (cases "pod_Deleted pod \<or> pod_Phase pod = ''Succeeded''")
    case True
    then have "reconcile_pod r prc pod = release_pod r pod" by (auto simp: reconcile_pod_def)
    then show ?thesis using release_pod_lib by simp
  next
    case False
    then show ?thesis using reconcile_pod_taken[of r _ pod prc] by (auto simp: steps_def keeps_lib_def taken_def)
  qed
  then show ?thesis unfolding PowerPod_Reconcile_def by (intro pod_lib_rules forget_lib get_lib)
qed

section \<open>Remembered pods, telemetry and scaling\<close>

definition policies_ok :: "api \<Rightarrow> bool" where
  "policies_ok a = (\<forall>n x p pol. get_profile a n x = Inr p \<longrightarrow> pps_CPUScalingPolicy (pp_Spec p) = Some pol \<longrightarrow>
     (\<exists>pct. FallbackFreqPercent pol = Some pct \<and> 0 \<le> pct \<and> pct \<le> 100))"

definition limits_ok :: "pkgvars \<Rightarrow> nat list \<Rightarrow> bool" where
  "limits_ok g cs = (\<forall>c \<in> set cs. \<forall>lo hi. GetAbsMinMax g c = Ok (lo, hi) \<longrightarrow> lo \<le> hi \<and> hi < 2 ^ 57)"

definition manager_ok :: "nat list \<Rightarrow> manager \<Rightarrow> bool" where
  "manager_ok cs m = (\<forall>c w. map_of (workers m) c = Some w \<longrightarrow> c \<in> set cs \<and> worker_inv c w)"

definition tools_ok :: "decoders \<Rightarrow> nat list \<Rightarrow> pod_world \<Rightarrow> bool" where
  "tools_ok d cs s =
     (allCpus (pw_host s) = cs \<and> podstate_ok (pw_state s) \<and>
      (\<forall>cl. pw_dpdk s = Some cl \<longrightarrow> client_reachable d cl) \<and> (\<forall>m. pw_manager s = Some m \<longrightarrow> manager_ok cs m))"

definition keeps_tools :: "decoders \<Rightarrow> nat list \<Rightarrow> pod_world \<Rightarrow> pod_world \<Rightarrow> bool" where
  "keeps_tools d cs s s' = (tools_ok d cs s \<longrightarrow> tools_ok d cs s')"

interpretation pod_tools: frame "keeps_tools d cs" for d cs
  by unfold_locales (auto simp: keeps_tools_def)

lemmas pod_tools_rules =
  pod_tools.return pod_tools.then_do pod_tools.catch_err pod_tools.cond pod_tools.opt pod_tools.sum
  pod_tools.pair pod_tools.pair_at

lemma manager_ok_add:
  assumes "manager_ok cs m" and "\<forall>opts \<in> set os. opts_ok opts \<and> target_ok opts \<and> so_CPU opts \<in> set cs"
  shows "manager_ok cs (AddCPUScaling os m)"
  using assms unfolding AddCPUScaling_def
proof (induction os arbitrary: m)
  case (Cons opts os)
  have "opts \<in> good_opts (so_CPU opts)" using Cons.prems(2) by (simp add: good_opts_def)
  then have "manager_ok cs (add_scaling opts m)"
    using Cons.prems
    by (auto simp: manager_ok_def add_scaling_def getCPUScalingWorker_def update_conv NewCPUScalingWorker_def UpdateOpts_def
        worker_inv_def less_Suc_eq split: option.splits if_splits)
  then show ?case using Cons.IH Cons.prems(2) by simp
qed simp

lemma manager_ok_remove: "manager_ok cs m \<Longrightarrow> manager_ok cs (fst (RemoveCPUScaling ids m))"
proof (induction ids m rule: RemoveCPUScaling.induct)
  case (2 c ids m)
  have "manager_ok cs (m\<lparr>workers := AList.delete c (workers m)\<rparr>)"
    using 2(3) by (auto simp: manager_ok_def delete_conv split: if_splits)
  then show ?case using 2 by (auto split: option.split prod.split)
qed simp

lemma tools_world:
  assumes "steps same_wtopo f" shows "steps (keeps_tools d cs) (on_world f)"
  using stepsD[OF assms] by (simp add: steps_def keeps_tools_def tools_ok_def on_world_def same_defs split_beta)

lemma start_scaling_tools:
  assumes "FallbackFreqPercent pol = Some pct" and "0 \<le> pct" and "pct \<le> 100" and "limits_ok (r_vars r) cs"
  shows "steps (keeps_tools d cs) (start_scaling r uid pol c)"
proof (rule stepsI)
  fix s :: pod_world
  let ?s = "s\<lparr>pw_dpdk := map_option (EnsureConnection uid (pc_CPUIDs c)) (pw_dpdk s)\<rparr>"
  show "keeps_tools d cs s (fst (start_scaling r uid pol c s))"
    unfolding keeps_tools_def
  proof
    assume t: "tools_ok d cs s"
    have t1: "tools_ok d cs ?s"
      using t client_reachable.step[OF _ client_step.ensure] by (auto simp: tools_ok_def)
    show "tools_ok d cs (fst (start_scaling r uid pol c s))"
    proof (cases "generateCPUScalingOpts (r_vars r) (pw_host ?s) pol (pc_CPUIDs c)")
      case (Ok x)
      obtain os e where x: "x = (os, e)" by (cases x)
      obtain ms where l: "opts_loop (r_vars r) cs pol (pc_CPUIDs c) = Ok (os, ms)"
        using Ok t by (cases "opts_loop (r_vars r) cs pol (pc_CPUIDs c)") (auto simp: x generateCPUScalingOpts_def tools_ok_def)
      have "\<forall>opts \<in> set os. opts_ok opts \<and> target_ok opts \<and> so_CPU opts \<in> set cs"
        using opts_loop_ok[OF l assms(1-3)] assms(4) by (auto simp: limits_ok_def)
      then have "tools_ok d cs (?s\<lparr>pw_manager := map_option (AddCPUScaling os) (pw_manager s)\<rparr>)"
        using t1 manager_ok_add by (auto simp: tools_ok_def)
      then show ?thesis using t1 Ok by (simp add: start_scaling_def Let_def x)
    qed (use t1 in \<open>simp_all add: start_scaling_def Let_def\<close>)
  qed
qed

lemma setup_scaling_tools:
  assumes "policies_ok (r_api r)" and "limits_ok (r_vars r) cs"
  shows "steps (keeps_tools d cs) (setup_scaling r uid a c)"
proof (rule stepsI)
  fix s :: pod_world
  let ?g = "\<lambda>n. get_profile (r_api r) n (pc_PowerProfile c)"
  let ?s = "s\<lparr>pw_world := (pw_world s)\<lparr>w_calls := Suc (w_calls (pw_world s))\<rparr>\<rparr>"
  have get: "on_world (api_get ?g) s = (?s, reply (?g (w_calls (pw_world s))))"
    by (simp add: on_world_def api_get_def)
  have t: "keeps_tools d cs s ?s" by (simp add: keeps_tools_def tools_ok_def)
  show "keeps_tools d cs s (fst (setup_scaling r uid a c s))"
  proof (cases "?g (w_calls (pw_world s))")
    case (Inr p)
    have k: "keeps_tools d cs ?s (fst (start_scaling r uid pol c ?s))" if "pps_CPUScalingPolicy (pp_Spec p) = Some pol" for pol
      using assms(1) Inr that start_scaling_tools[OF _ _ _ assms(2)] unfolding policies_ok_def by (blast intro: stepsD)
    show ?thesis using t pod_tools.trans[OF t k] get Inr
      by (auto simp: setup_scaling_def keeps_tools_def split: option.split)
  qed (use t get in \<open>auto simp: setup_scaling_def Let_def keeps_tools_def\<close>)
qed

lemma container_step_tools:
  assumes "policies_ok (r_api r)" and "limits_ok (r_vars r) cs"
  shows "steps (keeps_tools d cs) (container_step r uid a c)"
proof -
  have "steps (keeps_tools d cs) (\<lambda>s. on_world (on_host (MoveCpuIDs (r_env r) (r_vars r) p (ids s))) s)" for p ids
    by (rule stepsI) (rule stepsD[OF tools_world[OF on_host_topo[OF MoveCpuIDs_topo]]])
  then show ?thesis unfolding container_step_def Let_def by (intro pod_tools_rules setup_scaling_tools[OF assms])
qed

lemma container_loop_tools:
  assumes "policies_ok (r_api r)" and "limits_ok (r_vars r) cs"
  shows "steps (keeps_tools d cs) (container_loop r uid a pcs)"
proof (induction pcs arbitrary: a)
  case (Cons c pcs)
  show ?case unfolding container_loop.simps[abs_def] by (intro pod_tools_rules Cons.IH container_step_tools[OF assms])
qed (simp add: steps_def keeps_tools_def)

lemma admit_pod_tools:
  assumes "policies_ok (r_api r)" and "limits_ok (r_vars r) cs"
  shows "steps (keeps_tools d cs) (admit_pod r pod pcs es)"
proof -
  have "keeps_tools d cs s (s\<lparr>pw_state := UpdateStateGuaranteedPods p (pw_state s)\<rparr>)" for s p
    using podstate_ok_update by (simp add: keeps_tools_def tools_ok_def)
  then have "steps (keeps_tools d cs) (\<lambda>s. (let s = s\<lparr>pw_state := UpdateStateGuaranteedPods p (pw_state s)\<rparr>
      in case j of None \<Rightarrow> (s, Ok Done) | Some e \<Rightarrow> (s, Error (Wrapf ''recoverable errors encountered'' e))))" for p j
    by (simp add: steps_def Let_def split: option.split)
  moreover have "steps (keeps_tools d cs) (on_world (addPowerNodeStatusExclusiveEntry r n u k x))" for n u k x
    unfolding addPowerNodeStatusExclusiveEntry_def applyPowerNodeStateExclusiveStatus_def by (intro tools_world topo_keeps)
  ultimately show ?thesis unfolding admit_pod_def by (intro pod_tools_rules container_loop_tools[OF assms])
qed

lemma forget_pod_tools: "steps (keeps_tools d cs) (forget_pod n ns)"
  using podstate_ok_delete by (auto simp: steps_def keeps_tools_def tools_ok_def forget_pod_def split: option.split)

lemma stop_scaling_tools: "steps (keeps_tools d cs) (\<lambda>s. (stop_scaling uid ids s, Ok ()))"
  using client_reachable.step[OF _ client_step.close] manager_ok_remove
  by (auto simp: steps_def keeps_tools_def tools_ok_def stop_scaling_def)

lemma PowerPod_Reconcile_tools:
  assumes "policies_ok (r_api r)" and "limits_ok (r_vars r) cs"
  shows "steps (keeps_tools d cs) (PowerPod_Reconcile r prc ns name)"
proof -
  have "steps (keeps_tools d cs) (release_cpus r uid pns)" for uid pns
    unfolding release_cpus_def Let_def by (intro pod_tools_rules stop_scaling_tools tools_world topo_keeps)
  then have "steps (keeps_tools d cs) (release_pod r pod)" for pod
    unfolding release_pod_def removePowerNodeStatusExclusiveEntry_def applyPowerNodeStateExclusiveStatus_def
    by (intro pod_tools_rules forget_pod_tools tools_world topo_keeps)
  then have "steps (keeps_tools d cs) (reconcile_pod r prc pod)" for pod
    unfolding reconcile_pod_def
    by (intro pod_tools_rules admit_pod_tools[OF assms] tools_world quiet_topo[OF admissible_quiet] quiet_topo[OF requests_quiet])
  then show ?thesis unfolding PowerPod_Reconcile_def by (intro pod_tools_rules forget_pod_tools tools_world topo_keeps)
qed

end
