(* ===== verification/Node_Agent.thy ===== *)
theory Node_Agent
  imports Host Watches Uncore_Frame Pod_Frame
begin

text \<open>
  \<open>build/nodeagent/main.go\<close>: the process that runs on every node. \<open>nodeagent_main\<close> starts the library, the
  clients and the four controllers, and gives up where the code exits; what the controller runtime
  does from then on is \<open>agent_step\<close>: a change of the cluster puts requests into the queue of a
  controller, a controller takes a request and calls \<open>Reconcile\<close>, scaling workers tick, telemetry
  arrives, and the kernel and other programs change files. An error of \<open>mgr.Start\<close> ends the process. Calls of \<open>Reconcile\<close> of different
  controllers are taken one after the other here; the interleaving of their calls of the library
  is the subject of theory \<open>Locks\<close>.
\<close>

section \<open>Start\<close>

datatype controller = ProfileController | ConfigController | PodController | UncoreController

text \<open>What the start needs of the controller runtime and of gRPC: an error, or none.\<close>

record platform =
  pl_NewManager :: "err option"
  pl_dial :: dialer
  pl_Add :: "err option"
  pl_IndexField :: "err option"
  pl_Complete :: "controller \<Rightarrow> err option"

record agent =
  ag_reconciler :: reconciler
  ag_prc :: PodResourcesClient
  ag_world :: pod_world
  ag_queue :: "controller \<Rightarrow> request list"

datatype outcome = Exit string | Crash string | Running agent

text \<open>The error that \<open>SetupWithManager\<close> of a controller returns.\<close>

definition setup_error :: "platform \<Rightarrow> controller \<Rightarrow> err option" where
  "setup_error pl c =
     (case (c, pl_IndexField pl) of
        (PodController, Some e) \<Rightarrow> Some (Wrapf ''failed to create pod node name field index'' e)
      | _ \<Rightarrow> pl_Complete pl c)"

definition controller_name :: "controller \<Rightarrow> string" where
  "controller_name c =
     (case c of ProfileController \<Rightarrow> ''PowerProfile'' | ConfigController \<Rightarrow> ''PowerNodeConfig''
      | PodController \<Rightarrow> ''PowerPod'' | UncoreController \<Rightarrow> ''Uncore'')"

fun setup_controllers :: "platform \<Rightarrow> controller list \<Rightarrow> outcome \<Rightarrow> outcome" where
  "setup_controllers pl [] started = started"
| "setup_controllers pl (c # cs) started =
     (case setup_error pl c of
        Some e \<Rightarrow> Exit (''unable to create controller '' @ controller_name c)
      | None \<Rightarrow> setup_controllers pl cs started)"

definition new_agent :: "env \<Rightarrow> pkgvars \<Rightarrow> api \<Rightarrow> string \<Rightarrow> PodResourcesClient \<Rightarrow> host \<Rightarrow> agent" where
  "new_agent env g a nodeName prc h =
     \<lparr>ag_reconciler = \<lparr>r_env = env, r_vars = g, r_api = a, r_node = nodeName\<rparr>, ag_prc = prc,
      ag_world = \<lparr>pw_world = \<lparr>w_host = h, w_calls = 0, w_requests = []\<rparr>, pw_state = NewState,
        pw_dpdk = Some NewDPDKTelemetryClient, pw_manager = Some NewCPUScalingManager\<rparr>,
      ag_queue = (\<lambda>_. [])\<rparr>"

definition setup_order :: "controller list" where
  "setup_order = [ProfileController, ConfigController, PodController, UncoreController]"

text \<open>An error of \<open>CreateInstance\<close> that comes with a host is ignored.\<close>

definition nodeagent_main ::
  "platform \<Rightarrow> env \<Rightarrow> (string \<Rightarrow> (string \<times> string) res) \<Rightarrow> featureID list \<Rightarrow> api \<Rightarrow> string \<Rightarrow> pkgvars \<times> sys \<Rightarrow> outcome" where
  "nodeagent_main pl env cmd order a nodeName s =
     (if pl_NewManager pl \<noteq> None then Exit ''unable to start manager''
      else
        (case CreateInstance env cmd order nodeName s of
           (_, Panic m) \<Rightarrow> Crash m
         | (_, Error e) \<Rightarrow> Exit ''unable to create Power Library instance''
         | (_, Ok (None, e)) \<Rightarrow> Exit ''unable to create Power Library instance''
         | ((g, sy), Ok (Some powerLibrary, e)) \<Rightarrow>
             (case NewDualSocketPodClient (pl_dial pl) of
                Panic m \<Rightarrow> Crash m
              | Error e \<Rightarrow> Exit ''unable to create internal client''
              | Ok podResourcesClient \<Rightarrow>
                  if pl_Add pl \<noteq> None then Exit ''unable to register runnable''
                  else setup_controllers pl setup_order
                    (Running (new_agent env g a nodeName podResourcesClient powerLibrary)))))"

section \<open>Running\<close>

text \<open>The watches and the \<open>Reconcile\<close> of a controller; \<open>room\<close> as in theory \<open>NodeConfig_Controller\<close>.\<close>

definition setup_watches :: "controller \<Rightarrow> reconciler \<Rightarrow> cluster_event \<Rightarrow> world \<Rightarrow> world \<times> request list res" where
  "setup_watches c =
     (case c of ProfileController \<Rightarrow> PowerProfile_SetupWithManager | ConfigController \<Rightarrow> PowerNodeConfig_SetupWithManager
      | PodController \<Rightarrow> PowerPod_SetupWithManager | UncoreController \<Rightarrow> Uncore_SetupWithManager)"

definition call_Reconcile ::
  "controller \<Rightarrow> (pool_ref \<Rightarrow> bool) \<Rightarrow> agent \<Rightarrow> request \<Rightarrow> pod_world \<Rightarrow> pod_world \<times> Result res" where
  "call_Reconcile c room a q =
     (case c of
        ProfileController \<Rightarrow> on_world (PowerProfile_Reconcile (ag_reconciler a) (fst q) (snd q))
      | ConfigController \<Rightarrow> on_world (PowerNodeConfig_Reconcile (ag_reconciler a) room (fst q))
      | PodController \<Rightarrow> PowerPod_Reconcile (ag_reconciler a) (ag_prc a) (fst q) (snd q)
      | UncoreController \<Rightarrow> on_world (Uncore_Reconcile (ag_reconciler a) (fst q)))"

text \<open>
  A request is in a queue once. It stays there, to be taken up again later, unless \<open>Reconcile\<close> returned
  no error and asked for no other call; a panic is recovered by the runtime and is an error.
\<close>

definition enqueue :: "request list \<Rightarrow> request list \<Rightarrow> request list" where
  "enqueue qs queue = fold (\<lambda>q xs. if q \<in> set xs then xs else xs @ [q]) qs queue"

definition after_Reconcile :: "request \<Rightarrow> Result res \<Rightarrow> request list \<Rightarrow> request list" where
  "after_Reconcile q x queue = (if x = Ok Done then removeAll q queue else enqueue [q] (removeAll q queue))"

definition with_worker :: "nat \<Rightarrow> worker \<Rightarrow> manager \<Rightarrow> manager" where
  "with_worker c w m = m\<lparr>workers := AList.update c w (workers m)\<rparr>"

definition with_sys :: "sys \<Rightarrow> pod_world \<Rightarrow> pod_world" where
  "with_sys sy s = s\<lparr>pw_world := (pw_world s)\<lparr>w_host := (pw_host s)\<lparr>hsys := sy\<rparr>\<rparr>\<rparr>"

text \<open>The context is cancelled: the workers are stopped, and \<open>main\<close> closes the connections as it returns.\<close>

definition shut_down :: "pod_world \<Rightarrow> pod_world" where
  "shut_down s = s\<lparr>pw_manager := map_option (fst \<circ> Manager_stop) (pw_manager s), pw_dpdk := map_option Client_Close (pw_dpdk s)\<rparr>"

inductive agent_step :: "decoders \<Rightarrow> agent \<Rightarrow> agent \<Rightarrow> bool" for d where
  event: "setup_watches c (ag_reconciler a) e (pw_world (ag_world a)) = (w, Ok qs) \<Longrightarrow>
    agent_step d a (a\<lparr>ag_world := (ag_world a)\<lparr>pw_world := w\<rparr>, ag_queue := (ag_queue a)(c := enqueue qs (ag_queue a c))\<rparr>)"
| reconcile: "q \<in> set (ag_queue a c) \<Longrightarrow> call_Reconcile c room a q (ag_world a) = (s, x) \<Longrightarrow>
    agent_step d a (a\<lparr>ag_world := s, ag_queue := (ag_queue a)(c := after_Reconcile q x (ag_queue a c))\<rparr>)"
| worker_start: "pw_manager (ag_world a) = Some m \<Longrightarrow> map_of (workers m) c = Some w \<Longrightarrow> w_running w \<Longrightarrow> w_local w = None \<Longrightarrow>
    agent_step d a (a\<lparr>ag_world := (ag_world a)\<lparr>pw_manager := Some (with_worker c (loop_start w) m)\<rparr>\<rparr>)"
| worker_tick: "pw_manager (ag_world a) = Some m \<Longrightarrow> pw_dpdk (ag_world a) = Some cl \<Longrightarrow> map_of (workers m) c = Some w \<Longrightarrow>
    w_running w \<Longrightarrow> w_local w = Some i \<Longrightarrow>
    loop_tick (r_env (ag_reconciler a)) (r_vars (ag_reconciler a)) (GetUsagePercent cl) i (w, hsys (pw_host (ag_world a))) = (w', sy) \<Longrightarrow>
    agent_step d a (a\<lparr>ag_world := with_sys sy ((ag_world a)\<lparr>pw_manager := Some (with_worker c w' m)\<rparr>)\<rparr>)"
| telemetry: "pw_dpdk (ag_world a) = Some cl \<Longrightarrow> map_of (connections cl) podUID = Some k \<Longrightarrow>
    conn_handle d e (k, deltaUsage cl) = Ok y \<Longrightarrow>
    agent_step d a (a\<lparr>ag_world := (ag_world a)\<lparr>pw_dpdk := Some (on_connection podUID y cl)\<rparr>\<rparr>)"
| files: "agent_step d a (a\<lparr>ag_world := with_sys sy (ag_world a)\<rparr>)"
| stop: "agent_step d a (a\<lparr>ag_world := shut_down (ag_world a)\<rparr>)"

inductive_cases agent_stepE [elim]: "agent_step d a a'"

inductive agent_reachable :: "decoders \<Rightarrow> agent \<Rightarrow> agent \<Rightarrow> bool" for d a0 where
  init: "agent_reachable d a0 a0"
| step: "agent_reachable d a0 a \<Longrightarrow> agent_step d a a' \<Longrightarrow> agent_reachable d a0 a'"

section \<open>The invariant\<close>

text \<open>What the agent relies on of the API server and its validation, and of the machine.\<close>

definition api_ok :: "api \<Rightarrow> bool" where
  "api_ok a =
     ((\<forall>n x node. get_node a n x = Inr node \<longrightarrow> nd_Capacity node \<noteq> None) \<and>
      (\<forall>n cs. list_configs a n = Inr cs \<longrightarrow> (\<forall>c \<in> set cs. small_cores c)) \<and> policies_ok a)"

definition agent_inv :: "decoders \<Rightarrow> nat list \<Rightarrow> agent \<Rightarrow> bool" where
  "agent_inv d cs a =
     (lib_inv (r_vars (ag_reconciler a)) (pw_host (ag_world a)) \<and> topo_ok (h_topo (pw_host (ag_world a))) \<and>
      tools_ok d cs (ag_world a) \<and> (\<forall>c. distinct (ag_queue a c)))"

lemma lib_inv_topo_sys: "lib_inv g (h\<lparr>h_topo := t\<rparr>) = lib_inv g h" "lib_inv g (h\<lparr>hsys := sy\<rparr>) = lib_inv g h"
proof -
  have "pool_name (h\<lparr>h_topo := t\<rparr>) = pool_name h" "pool_name (h\<lparr>hsys := sy\<rparr>) = pool_name h"
    by (simp_all add: pool_name_def fun_eq_iff)
  then show "lib_inv g (h\<lparr>h_topo := t\<rparr>) = lib_inv g h" "lib_inv g (h\<lparr>hsys := sy\<rparr>) = lib_inv g h"
    by (simp_all add: lib_inv_def host_inv_def pool_inv_def listed_def)
qed

lemma distinct_enqueue: "distinct queue \<Longrightarrow> distinct (enqueue qs queue)"
  unfolding enqueue_def by (induction qs arbitrary: queue) auto

lemma distinct_after: "distinct queue \<Longrightarrow> distinct (after_Reconcile q x queue)"
  by (simp add: after_Reconcile_def distinct_enqueue distinct_removeAll)

lemma lib_inv_coreTypes:
  assumes "lib_inv g h" and "allCpus h \<noteq> []"
  shows "isFeatureIdSupported g FrequencyScalingFeature \<longrightarrow> coreTypes g \<noteq> []"
  using assms by (cases "allCpus h") (auto simp: lib_inv_def host_inv_def lib_ok_def)

lemma mapped_kept: "(\<And>x. host_kept (f x)) \<Longrightarrow> host_kept (Watches p f e)"
  unfolding Watches_def
proof (intro host_kept_if host_kept_return)
  assume f: "\<And>x. host_kept (f x)"
  show "host_kept (EnqueueRequestsFromMapFunc f e)"
    by (cases e; simp add: EnqueueRequestsFromMapFunc.simps[abs_def] f)
       (intro host_kept_then_do f host_kept_return; simp)
qed simp

lemma setup_kept: "host_kept (setup_watches c r e)"
proof -
  have l: "host_kept (enqueuePowerNodeConfigReconcile r)" "host_kept (nodeToProfileRequests r)"
    "host_kept (enqueueUncoreReconcile r)" "host_kept (enqueueMatchingPowerNodeConfigReconcile r)" "\<And>n. host_kept (powerProfileToPodRequests r n)"
    unfolding enqueuePowerNodeConfigReconcile_def nodeToProfileRequests_def enqueueUncoreReconcile_def
      enqueueMatchingPowerNodeConfigReconcile_def powerProfileToPodRequests_def
    by (intro host_kepts getMatching_kept; simp)+
  have f: "host_kept (For p meta x)" for p :: "'o Funcs" and meta x
    unfolding For_def by (intro host_kept_return) simp
  show ?thesis
    by (cases c; cases e)
       (simp_all add: setup_watches_def PowerProfile_SetupWithManager_def[abs_def] PowerNodeConfig_SetupWithManager_def[abs_def]
         PowerPod_SetupWithManager_def[abs_def] Uncore_SetupWithManager_def[abs_def] f mapped_kept l host_kept_return)
qed

text \<open>A call of the world of the library: what the invariant needs of the new one.\<close>

lemma agent_inv_world:
  assumes "agent_inv d cs a" and "lib_inv (r_vars (ag_reconciler a)) (w_host w)" and "topo_ok (h_topo (w_host w))"
    and "allCpus (w_host w) = cs"
  shows "agent_inv d cs (a\<lparr>ag_world := (ag_world a)\<lparr>pw_world := w\<rparr>\<rparr>)"
  using assms by (simp add: agent_inv_def tools_ok_def)

lemma sound_call_inv:
  assumes "agent_inv d cs a" and "sound (r_vars (ag_reconciler a)) f" and "steps same_wtopo f" and "on_world f (ag_world a) = (s, x)"
  shows "agent_inv d cs (a\<lparr>ag_world := s\<rparr>) \<and> \<not> is_panic x"
proof -
  let ?w = "pw_world (ag_world a)"
  obtain v where v: "f ?w = (v, x)" "s = (ag_world a)\<lparr>pw_world := v\<rparr>"
    using assms(4) by (cases "f ?w") (simp add: on_world_def)
  have "same_wtopo ?w v" using stepsD_eq[OF assms(3) v(1)] .
  moreover have "lib_inv (r_vars (ag_reconciler a)) (w_host v) \<and> \<not> is_panic x"
    using assms(1,2) v(1) unfolding sound_on_def agent_inv_def by (metis fst_conv snd_conv)
  ultimately show ?thesis
    using assms(1) by (simp add: v(2) agent_inv_def tools_ok_def same_defs)
qed

lemma uncore_call_inv:
  assumes "agent_inv d cs a" and "on_world (Uncore_Reconcile r ns) (ag_world a) = (s, x)"
  shows "agent_inv d cs (a\<lparr>ag_world := s\<rparr>) \<and> \<not> is_panic x"
proof -
  let ?w = "pw_world (ag_world a)"
  obtain v where v: "Uncore_Reconcile r ns ?w = (v, x)" "s = (ag_world a)\<lparr>pw_world := v\<rparr>"
    using assms(2) by (cases "Uncore_Reconcile r ns ?w") (simp add: on_world_def)
  have "uncore_part (w_host ?w) v \<and> \<not> is_panic x"
    using tameD[OF Uncore_Reconcile_tame uncore_part_refl, of ?w r ns] assms(1) v(1) by (simp add: agent_inv_def)
  then obtain t sy where "w_host v = (w_host ?w)\<lparr>h_topo := t, hsys := sy\<rparr>" "topo_ok (h_topo (w_host v))" "\<not> is_panic x"
    by (auto simp: uncore_part_def fits_def)
  then show ?thesis using assms(1) by (auto simp: v(2) agent_inv_def tools_ok_def lib_inv_topo_sys)
qed

lemma pod_call_inv:
  assumes "agent_inv d cs a" and "policies_ok (r_api (ag_reconciler a))" and "limits_ok (r_vars (ag_reconciler a)) cs"
    and "PowerPod_Reconcile (ag_reconciler a) prc ns name (ag_world a) = (s, x)"
  shows "agent_inv d cs (a\<lparr>ag_world := s\<rparr>)"
proof -
  have "keeps_lib (r_vars (ag_reconciler a)) (ag_world a) s" by (rule stepsD_eq[OF PowerPod_Reconcile_lib assms(4)])
  moreover have "same_ptopo (ag_world a) s" by (rule stepsD_eq[OF PowerPod_Reconcile_topo assms(4)])
  moreover have "keeps_tools d cs (ag_world a) s" by (rule stepsD_eq[OF PowerPod_Reconcile_tools[OF assms(2,3)] assms(4)])
  ultimately show ?thesis using assms(1) by (simp add: agent_inv_def keeps_lib_def keeps_tools_def same_defs)
qed

lemma call_Reconcile_inv:
  assumes "agent_inv d cs a" and "api_ok (r_api (ag_reconciler a))" and "limits_ok (r_vars (ag_reconciler a)) cs" and "cs \<noteq> []"
    and "call_Reconcile c room a q (ag_world a) = (s, x)"
  shows "agent_inv d cs (a\<lparr>ag_world := s\<rparr>) \<and> (c \<noteq> PodController \<longrightarrow> \<not> is_panic x)"
proof -
  let ?r = "ag_reconciler a"
  have "isFeatureIdSupported (r_vars ?r) FrequencyScalingFeature \<longrightarrow> coreTypes (r_vars ?r) \<noteq> []"
    using lib_inv_coreTypes[of "r_vars ?r" "pw_host (ag_world a)"] assms(1,4) by (simp add: agent_inv_def tools_ok_def)
  then have p: "sound (r_vars ?r) (PowerProfile_Reconcile ?r ns n)" for ns n
    using assms(2) by (intro PowerProfile_Reconcile_sound) (auto simp: api_ok_def)
  have n: "sound (r_vars ?r) (PowerNodeConfig_Reconcile ?r room ns)" for ns
    using assms(2) by (intro PowerNodeConfig_Reconcile_sound) (auto simp: api_ok_def)
  show ?thesis using assms(2,5) sound_call_inv[OF assms(1) p PowerProfile_Reconcile_topo]
      sound_call_inv[OF assms(1) n PowerNodeConfig_Reconcile_topo] uncore_call_inv[OF assms(1)] pod_call_inv[OF assms(1) _ assms(3)]
    by (cases c) (simp_all add: call_Reconcile_def api_ok_def)
qed

section \<open>Every step keeps it\<close>

lemma manager_ok_with:
  assumes "manager_ok cs m" and "map_of (workers m) c = Some w" and "worker_inv c w'"
  shows "manager_ok cs (with_worker c w' m)"
  using assms by (auto simp: manager_ok_def with_worker_def update_conv)

lemma agent_inv_sys: "agent_inv d cs (a\<lparr>ag_world := with_sys sy s\<rparr>) = agent_inv d cs (a\<lparr>ag_world := s\<rparr>)"
  by (simp add: agent_inv_def tools_ok_def with_sys_def lib_inv_topo_sys)

lemma agent_step_inv:
  assumes "agent_step d a a'" and "agent_inv d cs a" and "api_ok (r_api (ag_reconciler a))"
    and "limits_ok (r_vars (ag_reconciler a)) cs" and "cs \<noteq> []"
  shows "agent_inv d cs a'"
  using assms(1)
proof cases
  case (event c e w qs)
  have "w_host w = pw_host (ag_world a)" using host_keptD(1)[OF setup_kept] event(2) by (metis fst_conv)
  then show ?thesis using assms(2) distinct_enqueue by (simp add: event(1) agent_inv_def tools_ok_def)
next
  case (reconcile q c room s x)
  have "agent_inv d cs (a\<lparr>ag_world := s\<rparr>)" using call_Reconcile_inv[OF assms(2-5) reconcile(3)] ..
  then show ?thesis using distinct_after by (simp add: reconcile(1) agent_inv_def tools_ok_def)
next
  case (worker_start m c w)
  then have m: "manager_ok cs m" using assms(2) by (simp add: agent_inv_def tools_ok_def)
  then have "worker_inv c (loop_start w)" using worker_start(3) by (auto simp: manager_ok_def worker_inv_def loop_start_def)
  from manager_ok_with[OF m worker_start(3) this] show ?thesis using assms(2) by (simp add: worker_start(1) agent_inv_def tools_ok_def)
next
  case (worker_tick m cl c w i w' sy)
  then have m: "manager_ok cs m" using assms(2) by (simp add: agent_inv_def tools_ok_def)
  then have "worker_inv c w" using worker_tick(4) by (auto simp: manager_ok_def)
  from manager_ok_with[OF m worker_tick(4) worker_inv_tick(1)[OF this worker_tick(6,7)]]
  show ?thesis using assms(2) unfolding worker_tick(1) agent_inv_sys by (simp add: agent_inv_def tools_ok_def)
next
  case (telemetry cl podUID k e y)
  then have "client_reachable d cl" using assms(2) by (simp add: agent_inv_def tools_ok_def)
  from client_reachable.step[OF this client_step.event[OF telemetry(3,4)]]
  show ?thesis using assms(2) by (simp add: telemetry(1) agent_inv_def tools_ok_def)
next
  case (files sy)
  then show ?thesis using assms(2) by (simp add: agent_inv_sys)
next
  case stop
  have "manager_ok cs (fst (Manager_stop m))" if "manager_ok cs m" for m
    using that by (simp add: Manager_stop_def manager_ok_remove)
  then show ?thesis using assms(2) client_reachable.step[OF _ client_step.close_all]
    by (auto simp: stop agent_inv_def tools_ok_def shut_down_def)
qed

lemma agent_step_reconciler: "agent_step d a a' \<Longrightarrow> ag_reconciler a' = ag_reconciler a"
  by (induction rule: agent_step.induct) simp_all

lemma agent_reachable_inv:
  assumes "agent_reachable d a0 a" and "agent_inv d cs a0" and "api_ok (r_api (ag_reconciler a0))"
    and "limits_ok (r_vars (ag_reconciler a0)) cs" and "cs \<noteq> []"
  shows "agent_inv d cs a \<and> ag_reconciler a = ag_reconciler a0"
  using assms(1)
proof induction
  case init
  then show ?case using assms(2) by simp
next
  case (step a a')
  then show ?case using agent_step_inv[OF step(2)] agent_step_reconciler[OF step(2)] assms(3-5) by simp
qed

section \<open>The start establishes it\<close>

lemma setup_controllers_Running:
  "setup_controllers pl cs (Running a) = Running b \<longleftrightarrow> b = a \<and> (\<forall>c \<in> set cs. setup_error pl c = None)"
  by (induction cs) (auto split: option.split)

lemma setup_controllers_cases: "setup_controllers pl cs (Running a) \<noteq> Crash m"
  by (induction cs) (auto split: option.split)

lemma setup_errors:
  "(\<forall>c \<in> set setup_order. setup_error pl c = None) \<longleftrightarrow> pl_IndexField pl = None \<and> (\<forall>c. pl_Complete pl c = None)"
proof -
  have "setup_error pl c = (if c = PodController \<and> pl_IndexField pl \<noteq> None
      then Some (Wrapf ''failed to create pod node name field index'' (the (pl_IndexField pl))) else pl_Complete pl c)" for c
    by (cases c) (auto simp: setup_error_def split: option.split)
  moreover have "c \<in> set setup_order" for c by (cases c) (simp_all add: setup_order_def)
  ultimately show ?thesis by auto
qed

lemma dual_client:
  "NewDualSocketPodClient dial =
     (case (dial socket_path maxMessage, dial cPlaneSocket maxMessage) of
        (Inl e, _) \<Rightarrow> Error (ServiceUnavailable (''failed to create podresources client: '' @
          err_msg (Wrapf (''error creating client for socket '' @ socket_path) e)))
      | (Inr l, Inl e) \<Rightarrow> Panic ''nil pointer dereference''
      | (Inr l, Inr l') \<Rightarrow> Ok \<lparr>prc_Client = l, CPUControlPlaneClient = Some l'\<rparr>)"
  by (auto simp: NewDualSocketPodClient_def NewPodResourcesClient_def NewControlPlaneClient_def newClient_def getV1Client_def
      split: sum.split)

lemma nodeagent_main_Running:
  "nodeagent_main pl env cmd order a nodeName s = Running a0 \<longleftrightarrow>
     pl_NewManager pl = None \<and> pl_Add pl = None \<and> pl_IndexField pl = None \<and> (\<forall>c. pl_Complete pl c = None) \<and>
     (\<exists>g sy h e l l'. CreateInstance env cmd order nodeName s = ((g, sy), Ok (Some h, e)) \<and>
        pl_dial pl socket_path maxMessage = Inr l \<and> pl_dial pl cPlaneSocket maxMessage = Inr l' \<and>
        a0 = new_agent env g a nodeName \<lparr>prc_Client = l, CPUControlPlaneClient = Some l'\<rparr> h)"
  unfolding nodeagent_main_def
  by (auto simp: dual_client setup_controllers_Running setup_errors
      split: prod.splits res.splits option.splits sum.splits)

lemma CreateInstance_agent_inv:
  assumes "no_read_faults env" and "\<not> isFeatureIdSupported g FrequencyScalingFeature"
    and "CreateInstance env cmd order nodeName (g, sy) = ((g', sy'), Ok (Some h, e))"
  shows "agent_inv d [0..<snd (getNumberOfCpus env g sy)] (new_agent env g' a nodeName prc h)"
  using CreateInstance_establishes_invariant[OF assms]
  by (auto simp: agent_inv_def new_agent_def tools_ok_def lib_inv_def listed_def podstate_ok_def NewState_def
      NewCPUScalingManager_def manager_ok_def intro: client_reachable.init)

section \<open>Properties\<close>

text \<open>
  C1. The node agent, from \<open>main\<close> on. Suppose it starts on a machine whose files can be read while the library
  discovers it, with at least one CPU and frequency limits that are in order, against an API server
  that enforces the schemas and gives nodes a capacity. Then after any sequence of cluster events, calls of
  \<open>Reconcile\<close> with whatever outcome, ticks of scaling workers, telemetry, and changes of files by others:
  the CPUs are those that were discovered, each is in the list of exactly one pool, and that pool is
  the one the CPU names and still usable; the topology is well formed; \<open>Reconcile\<close> of the profile, configuration
  and uncore controllers does not panic; telemetry readings are percentages; and scaling workers belong to CPUs
  of the node and have all their targets within the limits of the CPU.
\<close>
theorem node_agent_safe:
  assumes "nodeagent_main pl env cmd order a nodeName (g, sy) = Running a0" and "agent_reachable d a0 ag"
    and "no_read_faults env" and "\<not> isFeatureIdSupported g FrequencyScalingFeature"
    and "n = snd (getNumberOfCpus env g sy)" and "0 < n"
    and "limits_ok (r_vars (ag_reconciler a0)) [0..<n]" and "api_ok a"
  shows "allCpus (pw_host (ag_world ag)) = [0..<n] \<and>
    (\<forall>c < n. \<exists>!p. c \<in> set (p_cpus (pools (pw_host (ag_world ag)) p))) \<and>
    (\<forall>c p. c \<in> set (p_cpus (pools (pw_host (ag_world ag)) p)) \<longrightarrow>
       c < n \<and> cpu_pool (pw_host (ag_world ag)) c = p \<and> usable p (pw_host (ag_world ag))) \<and>
    topo_ok (h_topo (pw_host (ag_world ag))) \<and>
    (\<forall>c room q. c \<noteq> PodController \<longrightarrow> \<not> is_panic (snd (call_Reconcile c room ag q (ag_world ag)))) \<and>
    (\<forall>cl c u. pw_dpdk (ag_world ag) = Some cl \<longrightarrow> GetUsagePercent cl c = Ok u \<longrightarrow> 0 \<le> u \<and> u \<le> 100) \<and>
    (\<forall>m c w. pw_manager (ag_world ag) = Some m \<longrightarrow> map_of (workers m) c = Some w \<longrightarrow> c < n \<and> worker_inv c w)"
proof -
  obtain g' sy' h e prc where ci: "CreateInstance env cmd order nodeName (g, sy) = ((g', sy'), Ok (Some h, e))"
    and a0: "a0 = new_agent env g' a nodeName prc h"
    using assms(1) by (auto simp: nodeagent_main_Running)
  have "agent_inv d [0..<n] a0" unfolding a0 assms(5) by (rule CreateInstance_agent_inv[OF assms(3,4) ci])
  moreover have api: "api_ok (r_api (ag_reconciler a0))" using assms(8) by (simp add: a0 new_agent_def)
  ultimately have inv: "agent_inv d [0..<n] ag" "ag_reconciler ag = ag_reconciler a0"
    using agent_reachable_inv[OF assms(2) _ _ assms(7)] assms(6) by simp_all
  let ?h = "pw_host (ag_world ag)"
  have lib: "pool_inv ?h" "listed ?h" and cs: "allCpus ?h = [0..<n]" and t: "topo_ok (h_topo ?h)" "tools_ok d [0..<n] (ag_world ag)"
    using inv(1) by (simp_all add: agent_inv_def lib_inv_def host_inv_def tools_ok_def)
  have p: "c \<in> set (p_cpus (pools ?h p)) \<longleftrightarrow> c < n \<and> cpu_pool ?h c = p" for c p
    using lib(1) cs by (auto simp: pool_inv_def)
  have "usable (cpu_pool ?h c) ?h" if "c < n" for c using lib(2) cs that by (auto simp: listed_def)
  then have u: "c \<in> set (p_cpus (pools ?h p)) \<longrightarrow> c < n \<and> cpu_pool ?h c = p \<and> usable p ?h" for c p by (auto simp: p)
  have pan: "\<not> is_panic (snd (call_Reconcile c room ag q (ag_world ag)))" (is "\<not> is_panic (snd ?x)") if "c \<noteq> PodController" for c room q
    using call_Reconcile_inv[OF inv(1), of c room q "fst ?x" "snd ?x"] that api assms(6,7) inv(2) by simp
  have "c < n \<and> worker_inv c w" if "pw_manager (ag_world ag) = Some m" "map_of (workers m) c = Some w" for m c w
    using t(2) that by (auto simp: tools_ok_def manager_ok_def)
  moreover have "0 \<le> x \<and> x \<le> 100" if "pw_dpdk (ag_world ag) = Some cl" "GetUsagePercent cl c = Ok x" for cl c x
    using t(2) that by (intro reachable_usage_range[of d cl c x]) (auto simp: tools_ok_def)
  moreover have "\<forall>c < n. \<exists>!p. c \<in> set (p_cpus (pools ?h p))" using p by auto
  ultimately show ?thesis using cs u t(1) pan by (intro conjI allI impI) simp_all
qed

text \<open>
  The agent on the machine of \<open>boot_sys\<close>; both sockets can be dialled, and the API server has nothing.
\<close>

definition boot_platform :: platform where
  "boot_platform = \<lparr>pl_NewManager = None, pl_dial = \<lambda>target n. Inr (\<lambda>_. Inr []), pl_Add = None, pl_IndexField = None,
     pl_Complete = \<lambda>_. None\<rparr>"

definition empty_api :: api where
  "empty_api = plain_api\<lparr>get_node := \<lambda>n x. Inl (NotFound x), get_profile := \<lambda>n x. Inl (NotFound x), list_configs := \<lambda>n. Inr []\<rparr>"

lemma boot_limits:
  "case CreateInstance env0 (lscpu ''x86_64'') all_features ''n'' (boot_vars, boot_sys) of
     ((g, sy), Ok (Some h, e)) \<Rightarrow> GetAbsMinMax g 0 = Ok (2, 9) | _ \<Rightarrow> False"
  by code_simp

lemma boot_agent:
  obtains a0 where "nodeagent_main boot_platform env0 (lscpu ''x86_64'') all_features empty_api ''n'' (boot_vars, boot_sys) = Running a0"
    and "limits_ok (r_vars (ag_reconciler a0)) [0..<1]"
proof -
  let ?c = "CreateInstance env0 (lscpu ''x86_64'') all_features ''n'' (boot_vars, boot_sys)"
  obtain g sy h e where c: "?c = ((g, sy), Ok (Some h, e))" and l: "GetAbsMinMax g 0 = Ok (2, 9)"
    using boot_limits by (cases ?c) (auto split: prod.splits res.splits option.splits)
  let ?a = "new_agent env0 g empty_api ''n'' \<lparr>prc_Client = \<lambda>_. Inr [], CPUControlPlaneClient = Some (\<lambda>_. Inr [])\<rparr> h"
  have "nodeagent_main boot_platform env0 (lscpu ''x86_64'') all_features empty_api ''n'' (boot_vars, boot_sys) = Running ?a"
    unfolding nodeagent_main_Running using c by (auto simp: boot_platform_def)
  moreover have "limits_ok (r_vars (ag_reconciler ?a)) [0..<1]" using l by (simp add: limits_ok_def new_agent_def)
  ultimately show ?thesis by (rule that)
qed

theorem node_agent_safe_witness:
  "\<exists>a0. nodeagent_main boot_platform env0 (lscpu ''x86_64'') all_features empty_api ''n'' (boot_vars, boot_sys) = Running a0 \<and>
     (\<forall>d ag. agent_reachable d a0 ag \<longrightarrow> allCpus (pw_host (ag_world ag)) = [0..<1])"
proof -
  obtain a0 where a0: "nodeagent_main boot_platform env0 (lscpu ''x86_64'') all_features empty_api ''n'' (boot_vars, boot_sys) = Running a0"
    "limits_ok (r_vars (ag_reconciler a0)) [0..<1]" by (rule boot_agent)
  have n: "snd (getNumberOfCpus env0 boot_vars boot_sys) = 1" by (simp add: getNumberOfCpus_def boot_vars_def)
  have f: "no_read_faults env0" "\<not> isFeatureIdSupported boot_vars FrequencyScalingFeature" "api_ok empty_api"
    by (simp_all add: no_read_faults_def env0_def boot_vars_def isFeatureIdSupported_def isSupported_def api_ok_def
        policies_ok_def empty_api_def)
  have "allCpus (pw_host (ag_world ag)) = [0..<1]" if "agent_reachable d a0 ag" for d ag
    using node_agent_safe[OF a0(1) that f(1,2) n[symmetric] _ a0(2) f(3)] by simp
  then show ?thesis using a0(1) by blast
qed

text \<open>
  C21. How the start of the node agent ends. It runs exactly when the manager, the library, both clients of the
  pod resources, the registration of the scaling manager, the field index and all four controllers
  could be set up, and then the controller of the pods has a client for the control plane. It crashes
  exactly when the start of the library panics or when the client for the kubelet can be created and the one for
  the control plane cannot: that client is used before its error is looked at. In all other cases it exits with a message.
\<close>
theorem nodeagent_main_outcome:
  "((\<exists>a0. nodeagent_main pl env cmd order a nodeName s = Running a0) \<longleftrightarrow>
      pl_NewManager pl = None \<and> (\<exists>s' h e. CreateInstance env cmd order nodeName s = (s', Ok (Some h, e))) \<and>
      \<not> isl (pl_dial pl socket_path maxMessage) \<and> \<not> isl (pl_dial pl cPlaneSocket maxMessage) \<and>
      pl_Add pl = None \<and> pl_IndexField pl = None \<and> (\<forall>c. pl_Complete pl c = None)) \<and>
   (\<forall>a0. nodeagent_main pl env cmd order a nodeName s = Running a0 \<longrightarrow> CPUControlPlaneClient (ag_prc a0) \<noteq> None) \<and>
   ((\<exists>m. nodeagent_main pl env cmd order a nodeName s = Crash m) \<longleftrightarrow>
      pl_NewManager pl = None \<and>
      ((\<exists>s' m. CreateInstance env cmd order nodeName s = (s', Panic m)) \<or>
       (\<exists>s' h e. CreateInstance env cmd order nodeName s = (s', Ok (Some h, e))) \<and>
         \<not> isl (pl_dial pl socket_path maxMessage) \<and> isl (pl_dial pl cPlaneSocket maxMessage)))"
proof -
  let ?c = "CreateInstance env cmd order nodeName s"
  let ?d = "(pl_dial pl socket_path maxMessage, pl_dial pl cPlaneSocket maxMessage)"
  have "(\<exists>m. nodeagent_main pl env cmd order a nodeName s = Crash m) \<longleftrightarrow> pl_NewManager pl = None \<and>
      ((\<exists>s' m. ?c = (s', Panic m)) \<or> (\<exists>s' h e. ?c = (s', Ok (Some h, e))) \<and> \<not> isl (fst ?d) \<and> isl (snd ?d))"
    unfolding nodeagent_main_def
    by (auto simp: dual_client setup_controllers_cases split: prod.splits res.splits option.splits sum.splits)
  moreover have "\<not> isl x \<longleftrightarrow> (\<exists>l. x = Inr l)" for x :: "err + lister" by (cases x) simp_all
  ultimately show ?thesis by (auto simp: nodeagent_main_Running new_agent_def)
qed

theorem nodeagent_main_outcome_witness:
  "\<exists>a0 m. nodeagent_main boot_platform env0 (lscpu ''x86_64'') all_features empty_api ''n'' (boot_vars, boot_sys) = Running a0 \<and>
     CPUControlPlaneClient (ag_prc a0) \<noteq> None \<and>
     nodeagent_main (boot_platform\<lparr>pl_dial := \<lambda>target n. if target = cPlaneSocket then Inl (Errorf ''no socket'') else Inr (\<lambda>_. Inr [])\<rparr>)
       env0 (lscpu ''x86_64'') all_features empty_api ''n'' (boot_vars, boot_sys) = Crash m"
proof -
  let ?pl = "boot_platform\<lparr>pl_dial := \<lambda>target n. if target = cPlaneSocket then Inl (Errorf ''no socket'') else Inr (\<lambda>_. Inr [])\<rparr>"
  note o = nodeagent_main_outcome[of _ env0 "lscpu ''x86_64''" all_features empty_api "''n''" "(boot_vars, boot_sys)"]
  obtain a0 where a0: "nodeagent_main boot_platform env0 (lscpu ''x86_64'') all_features empty_api ''n'' (boot_vars, boot_sys) = Running a0"
    by (rule boot_agent)
  have "socket_path \<noteq> cPlaneSocket" by (simp add: socket_path_def cPlaneSocket_def)
  moreover have "\<exists>s' h e. CreateInstance env0 (lscpu ''x86_64'') all_features ''n'' (boot_vars, boot_sys) = (s', Ok (Some h, e))"
    using iffD1[OF conjunct1[OF o[of boot_platform]]] a0 by blast
  ultimately have "\<exists>m. nodeagent_main ?pl env0 (lscpu ''x86_64'') all_features empty_api ''n'' (boot_vars, boot_sys) = Crash m"
    using conjunct2[OF conjunct2[OF o[of ?pl]]] by (simp add: boot_platform_def)
  moreover have "CPUControlPlaneClient (ag_prc a0) \<noteq> None" using conjunct1[OF conjunct2[OF o[of boot_platform]]] a0 by simp
  ultimately show ?thesis using a0 by blast
qed

end
