(* ===== verification/Webhooks.thy ===== *)
theory Webhooks
  imports NodeConfig_Controller Uncore_Controller
begin

text \<open>
  The validating webhooks of \<open>api/v1alpha1\<close>. They read the cluster through a client, which is a
  parameter as the API server of theory \<open>Cluster\<close> is: its answers may depend on the number of
  calls made before, which the functions pass on. A map of peers is an association list; nil and
  empty maps of labels are not told apart. The texts that the field error library builds from the
  values are left out, the paths and details are kept.
\<close>

datatype field_error =
    FieldInvalid string string
  | FieldDuplicate string string
  | FieldNotFound string string
  | FieldInternal string err

text \<open>The error of a webhook: an object of another type, or the two API errors with the kind or resource and the name.\<close>

datatype webhook_error =
    UnexpectedType string
  | NewInvalid string string "field_error list"
  | NewForbidden string string string

record webhook_api =
  wa_asSelector :: "LabelSelector \<Rightarrow> err + ((string \<times> string) list \<Rightarrow> bool)"
  wa_nodes :: "nat \<Rightarrow> ((string \<times> string) list \<Rightarrow> bool) \<Rightarrow> err + Node list"
  wa_uncores :: "nat \<Rightarrow> string \<Rightarrow> err + Uncore list"
  wa_configs :: "nat \<Rightarrow> string \<Rightarrow> err + PowerNodeConfig list"
  wa_profile :: "nat \<Rightarrow> string \<times> string \<Rightarrow> err + PowerProfile"
  wa_pods :: "nat \<Rightarrow> string \<Rightarrow> err + Pod list"

section \<open>Helpers\<close>

definition defaultCPMNamespace :: string where
  "defaultCPMNamespace = ''power-manager''"

text \<open>The argument is the value of the environment variable.\<close>

definition GetCPMNamespace :: "string \<Rightarrow> string" where
  "GetCPMNamespace ns = (if ns \<noteq> [] then ns else defaultCPMNamespace)"

definition dquote :: "string \<Rightarrow> string" where
  "dquote s = [CHR 0x22] @ s @ [CHR 0x22]"

definition validateNamespace :: "string \<Rightarrow> string \<Rightarrow> string \<Rightarrow> field_error option" where
  "validateNamespace resourceNamespace expectedNamespace kind =
     (if resourceNamespace \<noteq> expectedNamespace then
        Some (FieldInvalid ''metadata.namespace'' (kind @ '' must be created in namespace '' @ dquote expectedNamespace))
      else None)"

definition joinQuoted :: "string list \<Rightarrow> string" where
  "joinQuoted names = intercalate '', '' (map dquote names)"

text \<open>\<open>reflect.DeepEqual\<close>: the labels are compared as maps.\<close>

definition same_selector :: "NodeSelector \<Rightarrow> NodeSelector \<Rightarrow> bool" where
  "same_selector a b =
     (set (MatchLabels (ns_LabelSelector a)) = set (MatchLabels (ns_LabelSelector b)) \<and>
      MatchExpressions (ns_LabelSelector a) = MatchExpressions (ns_LabelSelector b))"

definition selector_path :: string where
  "selector_path = ''spec.nodeSelector''"

text \<open>The loop over the peers that have to be checked on the nodes; \<open>Inl\<close> ends the function.\<close>

fun node_conflicts ::
  "webhook_api \<Rightarrow> Node list \<Rightarrow> (string \<times> NodeSelector) list \<Rightarrow> field_error + string list" where
  "node_conflicts a nodes [] = Inr []"
| "node_conflicts a nodes ((peerName, sel) # ps) =
     (case wa_asSelector a (ns_LabelSelector sel) of
        Inl e \<Rightarrow> Inl (FieldInternal selector_path (Wrapf (''parsing nodeSelector for '' @ peerName) e))
      | Inr Matches \<Rightarrow>
          (let matchingNodes = map nd_Name (filter (\<lambda>node. Matches (nd_Labels node)) nodes)
           in case node_conflicts a nodes ps of
                Inl e \<Rightarrow> Inl e
              | Inr cs \<Rightarrow>
                  Inr ((if matchingNodes \<noteq> [] then
                          [''conflicts with '' @ dquote peerName @ '': both select node(s) '' @ joinQuoted matchingNodes]
                        else []) @ cs)))"

definition selector_errors :: "string list \<Rightarrow> field_error list" where
  "selector_errors conflicts = (if conflicts \<noteq> [] then [FieldInvalid selector_path (intercalate ''; '' conflicts)] else [])"

definition findNodeSelectorConflicts ::
  "webhook_api \<Rightarrow> NodeSelector \<Rightarrow> (string \<times> NodeSelector) list \<Rightarrow> nat \<Rightarrow> nat \<times> field_error list" where
  "findNodeSelectorConflicts a selfSelector peerSelectors n =
     (case wa_asSelector a (ns_LabelSelector selfSelector) of
        Inl e \<Rightarrow> (n, [FieldInvalid (selector_path @ ''.labelSelector'') (''invalid label selector: '' @ err_msg e)])
      | Inr selfLabelSelector \<Rightarrow>
          (let conflicts = map (\<lambda>(peerName, s). ''conflicts with '' @ dquote peerName @ '': identical nodeSelector'')
                             (filter (\<lambda>(peerName, s). same_selector selfSelector s) peerSelectors);
               needNodeCheck = filter (\<lambda>(peerName, s). \<not> same_selector selfSelector s) peerSelectors
           in if needNodeCheck = [] then (n, selector_errors conflicts)
              else
                (case wa_nodes a n selfLabelSelector of
                   Inl e \<Rightarrow> (Suc n, [FieldInternal selector_path (Wrapf ''listing nodes'' e)])
                 | Inr nodes \<Rightarrow>
                     (case node_conflicts a nodes needNodeCheck of
                        Inl e \<Rightarrow> (Suc n, [e])
                      | Inr cs \<Rightarrow> (Suc n, selector_errors (conflicts @ cs))))))"

text \<open>The peers of a resource: the last item with a name counts, as in a map.\<close>

definition peer_selectors :: "('t \<Rightarrow> string) \<Rightarrow> ('t \<Rightarrow> NodeSelector) \<Rightarrow> string \<Rightarrow> 't list \<Rightarrow> (string \<times> NodeSelector) list" where
  "peer_selectors name sel self items =
     fold (\<lambda>item ps. if name item = self then ps else AList.update (name item) (sel item) ps) items []"

section \<open>Uncore\<close>

definition index_path :: "string \<Rightarrow> nat \<Rightarrow> string" where
  "index_path p i = p @ ''['' @ nat_str i @ '']''"

text \<open>The maps of the packages and dies seen so far, with the index where.\<close>

fun die_selectors_loop ::
  "nat \<Rightarrow> (nat \<times> nat) list \<Rightarrow> ((nat \<times> nat) \<times> nat) list \<Rightarrow> DieSelector list \<Rightarrow> field_error list" where
  "die_selectors_loop i seenPkgLevel seenDieLevel [] = []"
| "die_selectors_loop i seenPkgLevel seenDieLevel (ds # dss) =
     (let idxPath = index_path ''spec.dieSelector'' i;
          order_errs =
            (case (ds_Min ds, ds_Max ds) of
               (Some mn, Some mx) \<Rightarrow>
                 if mx < mn then [FieldInvalid (idxPath @ ''.min'') (''min ('' @ nat_str mn @ '') must be <= max ('' @ nat_str mx @ '')'')]
                 else []
             | _ \<Rightarrow> [])
      in case (ds_Package ds, ds_Die ds) of
           (None, _) \<Rightarrow> order_errs @ die_selectors_loop (Suc i) seenPkgLevel seenDieLevel dss
         | (Some p, None) \<Rightarrow>
             (case map_of seenPkgLevel p of
                Some prevIdx \<Rightarrow>
                  order_errs @ [FieldDuplicate idxPath (''duplicate: package '' @ nat_str p @ '' already specified in dieSelector['' @
                    nat_str prevIdx @ '']'')] @ die_selectors_loop (Suc i) seenPkgLevel seenDieLevel dss
              | None \<Rightarrow> order_errs @ die_selectors_loop (Suc i) ((p, i) # seenPkgLevel) seenDieLevel dss)
         | (Some p, Some d) \<Rightarrow>
             (case map_of seenDieLevel (p, d) of
                Some prevIdx \<Rightarrow>
                  order_errs @ [FieldDuplicate idxPath (''duplicate: package '' @ nat_str p @ '', die '' @ nat_str d @
                    '' already specified in dieSelector['' @ nat_str prevIdx @ '']'')] @
                    die_selectors_loop (Suc i) seenPkgLevel seenDieLevel dss
              | None \<Rightarrow> order_errs @ die_selectors_loop (Suc i) seenPkgLevel (((p, d), i) # seenDieLevel) dss))"

definition validateDieSelectors :: "DieSelector list \<Rightarrow> field_error list" where
  "validateDieSelectors selectors = die_selectors_loop 0 [] [] selectors"

definition Uncore_validateNodeSelectorConflicts ::
  "webhook_api \<Rightarrow> string \<Rightarrow> Uncore \<Rightarrow> nat \<Rightarrow> nat \<times> field_error list" where
  "Uncore_validateNodeSelectorConflicts a ns uncore n =
     (case wa_uncores a n ns of
        Inl e \<Rightarrow> (Suc n, [FieldInternal selector_path e])
      | Inr items \<Rightarrow>
          findNodeSelectorConflicts a (us_NodeSelector (un_Spec uncore))
            (peer_selectors (\<lambda>u. om_Name (un_Meta u)) (\<lambda>u. us_NodeSelector (un_Spec u)) (om_Name (un_Meta uncore)) items) (Suc n))"

definition sys_order_errors :: "UncoreSpec \<Rightarrow> field_error list" where
  "sys_order_errors spec =
     (case (SysMin spec, SysMax spec) of
        (Some mn, Some mx) \<Rightarrow>
          if mx < mn then [FieldInvalid ''spec.sysMin'' (''sysMin ('' @ nat_str mn @ '') must be <= sysMax ('' @ nat_str mx @ '')'')]
          else []
      | _ \<Rightarrow> [])"

definition Uncore_validateCreateOrUpdate ::
  "webhook_api \<Rightarrow> string \<Rightarrow> Uncore \<Rightarrow> nat \<Rightarrow> nat \<times> webhook_error option" where
  "Uncore_validateCreateOrUpdate a ns uncore n =
     (case Uncore_validateNodeSelectorConflicts a ns uncore n of
        (n, conflictErrs) \<Rightarrow>
          (let allErrs = sys_order_errors (un_Spec uncore) @
                 (case DieSelectors (un_Spec uncore) of None \<Rightarrow> [] | Some dss \<Rightarrow> validateDieSelectors dss) @ conflictErrs
           in (n, if allErrs \<noteq> [] then Some (NewInvalid ''Uncore'' (om_Name (un_Meta uncore)) allErrs) else None)))"

text \<open>\<open>None\<close> is an object of another type.\<close>

definition Uncore_ValidateCreate ::
  "webhook_api \<Rightarrow> string \<Rightarrow> Uncore option \<Rightarrow> nat \<Rightarrow> nat \<times> webhook_error option" where
  "Uncore_ValidateCreate a ns obj n =
     (case obj of
        None \<Rightarrow> (n, Some (UnexpectedType ''Uncore''))
      | Some uncore \<Rightarrow>
          (case validateNamespace (om_Namespace (un_Meta uncore)) ns ''Uncore'' of
             Some e \<Rightarrow> (n, Some (NewInvalid ''Uncore'' (om_Name (un_Meta uncore)) [e]))
           | None \<Rightarrow> Uncore_validateCreateOrUpdate a ns uncore n))"

definition Uncore_ValidateUpdate ::
  "webhook_api \<Rightarrow> string \<Rightarrow> Uncore option \<Rightarrow> nat \<Rightarrow> nat \<times> webhook_error option" where
  "Uncore_ValidateUpdate a ns newObj n =
     (case newObj of
        None \<Rightarrow> (n, Some (UnexpectedType ''Uncore''))
      | Some uncore \<Rightarrow> Uncore_validateCreateOrUpdate a ns uncore n)"

definition Uncore_ValidateDelete :: "Uncore option \<Rightarrow> nat \<Rightarrow> nat \<times> webhook_error option" where
  "Uncore_ValidateDelete obj n = (n, None)"

section \<open>PowerNodeConfig\<close>

fun reserved_loop :: "(nat \<times> nat) list \<Rightarrow> nat \<Rightarrow> nat list \<Rightarrow> (nat \<times> nat) list \<times> field_error list" where
  "reserved_loop seen i [] = (seen, [])"
| "reserved_loop seen i (core # cores) =
     (case map_of seen core of
        Some prevIdx \<Rightarrow>
          (case reserved_loop seen i cores of
             (seen, errs) \<Rightarrow>
               (seen, FieldInvalid (index_path ''spec.reservedCPUs'' i @ ''.cores'')
                        (''CPU '' @ nat_str core @ '' already appears in reservedCPUs['' @ nat_str prevIdx @ '']'') # errs))
      | None \<Rightarrow> reserved_loop ((core, i) # seen) i cores)"

fun disjoint_loop :: "(nat \<times> nat) list \<Rightarrow> nat \<Rightarrow> ReservedSpec list \<Rightarrow> field_error list" where
  "disjoint_loop seen i [] = []"
| "disjoint_loop seen i (rc # rcs) =
     (case reserved_loop seen i (rs_Cores rc) of (seen, errs) \<Rightarrow> errs @ disjoint_loop seen (Suc i) rcs)"

definition validateReservedCPUDisjoint :: "ReservedSpec list \<Rightarrow> field_error list" where
  "validateReservedCPUDisjoint reserved = disjoint_loop [] 0 reserved"

definition profile_error :: "string \<Rightarrow> string \<Rightarrow> err \<Rightarrow> field_error" where
  "profile_error path name e = (if IsNotFound e then FieldNotFound path name else FieldInternal path e)"

fun reserved_profiles_loop :: "webhook_api \<Rightarrow> string \<Rightarrow> nat \<Rightarrow> ReservedSpec list \<Rightarrow> nat \<Rightarrow> nat \<times> field_error list" where
  "reserved_profiles_loop a ns i [] n = (n, [])"
| "reserved_profiles_loop a ns i (rc # rcs) n =
     (case reserved_profiles_loop a ns (Suc i) rcs (Suc n) of
        (n', errs) \<Rightarrow>
          (n', (case wa_profile a n (ns, rs_PowerProfile rc) of
                  Inl e \<Rightarrow> [profile_error (index_path ''spec.reservedCPUs'' i @ ''.powerProfile'') (rs_PowerProfile rc) e]
                | Inr _ \<Rightarrow> []) @ errs))"

definition validatePowerProfiles :: "webhook_api \<Rightarrow> string \<Rightarrow> PowerNodeConfig \<Rightarrow> nat \<Rightarrow> nat \<times> field_error list" where
  "validatePowerProfiles a ns config n =
     (let shared = SharedPowerProfile (pnc_Spec config);
          shared_errs =
            (case wa_profile a n (ns, shared) of
               Inl e \<Rightarrow> [profile_error ''spec.sharedPowerProfile'' shared e]
             | Inr p \<Rightarrow> if \<not> Shared (pp_Spec p) then
                          [FieldInvalid ''spec.sharedPowerProfile'' ''referenced PowerProfile must have spec.shared set to true'']
                        else [])
      in case reserved_profiles_loop a ns 0 (ReservedCPUs (pnc_Spec config)) (Suc n) of
           (n, errs) \<Rightarrow> (n, shared_errs @ errs))"

definition Config_validateNodeSelectorConflicts ::
  "webhook_api \<Rightarrow> string \<Rightarrow> PowerNodeConfig \<Rightarrow> nat \<Rightarrow> nat \<times> field_error list" where
  "Config_validateNodeSelectorConflicts a ns config n =
     (case wa_configs a n ns of
        Inl e \<Rightarrow> (Suc n, [FieldInternal selector_path e])
      | Inr items \<Rightarrow>
          findNodeSelectorConflicts a (pncs_NodeSelector (pnc_Spec config))
            (peer_selectors (\<lambda>c. om_Name (pnc_Meta c)) (\<lambda>c. pncs_NodeSelector (pnc_Spec c)) (om_Name (pnc_Meta config)) items) (Suc n))"

definition Config_validateCreateOrUpdate ::
  "webhook_api \<Rightarrow> string \<Rightarrow> PowerNodeConfig \<Rightarrow> nat \<Rightarrow> nat \<times> webhook_error option" where
  "Config_validateCreateOrUpdate a ns config n =
     (case validatePowerProfiles a ns config n of
        (n, profileErrs) \<Rightarrow>
          (case Config_validateNodeSelectorConflicts a ns config n of
             (n, conflictErrs) \<Rightarrow>
               (let allErrs = validateReservedCPUDisjoint (ReservedCPUs (pnc_Spec config)) @ profileErrs @ conflictErrs
                in (n, if allErrs \<noteq> [] then Some (NewInvalid ''PowerNodeConfig'' (om_Name (pnc_Meta config)) allErrs) else None))))"

definition Config_ValidateCreate ::
  "webhook_api \<Rightarrow> string \<Rightarrow> PowerNodeConfig option \<Rightarrow> nat \<Rightarrow> nat \<times> webhook_error option" where
  "Config_ValidateCreate a ns obj n =
     (case obj of
        None \<Rightarrow> (n, Some (UnexpectedType ''PowerNodeConfig''))
      | Some config \<Rightarrow>
          (case validateNamespace (om_Namespace (pnc_Meta config)) ns ''PowerNodeConfig'' of
             Some e \<Rightarrow> (n, Some (NewInvalid ''PowerNodeConfig'' (om_Name (pnc_Meta config)) [e]))
           | None \<Rightarrow> Config_validateCreateOrUpdate a ns config n))"

definition Config_ValidateUpdate ::
  "webhook_api \<Rightarrow> string \<Rightarrow> PowerNodeConfig option \<Rightarrow> nat \<Rightarrow> nat \<times> webhook_error option" where
  "Config_ValidateUpdate a ns newObj n =
     (case newObj of
        None \<Rightarrow> (n, Some (UnexpectedType ''PowerNodeConfig''))
      | Some config \<Rightarrow> Config_validateCreateOrUpdate a ns config n)"

definition Config_ValidateDelete :: "PowerNodeConfig option \<Rightarrow> nat \<Rightarrow> nat \<times> webhook_error option" where
  "Config_ValidateDelete obj n = (n, None)"

section \<open>PowerProfile\<close>

definition extendedResourcePrefix :: string where
  "extendedResourcePrefix = ''power.cluster-power-manager.github.io'' @ ''/''"

definition extractPowerProfiles :: "Pod \<Rightarrow> string list" where
  "extractPowerProfiles pod =
     (if pod_Phase pod = ''Succeeded'' \<or> pod_Phase pod = ''Failed'' then []
      else concat (map (\<lambda>c. map (\<lambda>(rName, q). TrimPrefix rName extendedResourcePrefix)
             (filter (\<lambda>(rName, q). HasPrefix rName extendedResourcePrefix) (ctr_Requests c)))
           (pod_InitContainers pod @ pod_Containers pod)))"

text \<open>The first entry of the reserved CPUs with the profile, with its index.\<close>

fun reserved_ref :: "string \<Rightarrow> nat \<Rightarrow> ReservedSpec list \<Rightarrow> nat option" where
  "reserved_ref name i [] = None"
| "reserved_ref name i (rc # rcs) = (if rs_PowerProfile rc = name then Some i else reserved_ref name (Suc i) rcs)"

definition config_refs :: "string \<Rightarrow> bool \<Rightarrow> PowerNodeConfig \<Rightarrow> string list" where
  "config_refs name sharedOnly pnc =
     (if SharedPowerProfile (pnc_Spec pnc) = name then [om_Name (pnc_Meta pnc) @ '' (sharedPowerProfile)'']
      else if sharedOnly then []
      else (case reserved_ref name 0 (ReservedCPUs (pnc_Spec pnc)) of
              None \<Rightarrow> []
            | Some i \<Rightarrow> [om_Name (pnc_Meta pnc) @ '' (reservedCPUs['' @ nat_str i @ ''])'']))"

definition validatePowerNodeConfigReferences ::
  "webhook_api \<Rightarrow> string \<Rightarrow> PowerProfile \<Rightarrow> bool \<Rightarrow> nat \<Rightarrow> nat \<times> err option" where
  "validatePowerNodeConfigReferences a ns profile sharedOnly n =
     (Suc n,
      case wa_configs a n ns of
        Inl e \<Rightarrow> Some (Wrapf ''listing PowerNodeConfigs'' e)
      | Inr items \<Rightarrow>
          (let refs = concat (map (config_refs (om_Name (pp_Meta profile)) sharedOnly) items)
           in if refs \<noteq> [] then Some (Errorf (''referenced by PowerNodeConfig(s): '' @ intercalate '', '' refs)) else None))"

definition validatePodReferences :: "webhook_api \<Rightarrow> PowerProfile \<Rightarrow> nat \<Rightarrow> nat \<times> err option" where
  "validatePodReferences a profile n =
     (Suc n,
      case wa_pods a n (om_Name (pp_Meta profile)) of
        Inl e \<Rightarrow> Some (Wrapf ''listing Pods'' e)
      | Inr pods \<Rightarrow>
          (let refs = map (\<lambda>pod. pod_Namespace pod @ ''/'' @ pod_Name pod) pods
           in if refs \<noteq> [] then Some (Errorf (''referenced by Pod(s): '' @ intercalate '', '' refs)) else None))"

definition Profile_ValidateCreate :: "string \<Rightarrow> PowerProfile option \<Rightarrow> nat \<Rightarrow> nat \<times> webhook_error option" where
  "Profile_ValidateCreate ns obj n =
     (case obj of
        None \<Rightarrow> (n, Some (UnexpectedType ''PowerProfile''))
      | Some profile \<Rightarrow>
          (case validateNamespace (om_Namespace (pp_Meta profile)) ns ''PowerProfile'' of
             Some e \<Rightarrow> (n, Some (NewInvalid ''PowerProfile'' (om_Name (pp_Meta profile)) [e]))
           | None \<Rightarrow> (n, None)))"

definition Profile_ValidateUpdate ::
  "webhook_api \<Rightarrow> string \<Rightarrow> PowerProfile option \<Rightarrow> PowerProfile option \<Rightarrow> nat \<Rightarrow> nat \<times> webhook_error option" where
  "Profile_ValidateUpdate a ns oldObj newObj n =
     (case (oldObj, newObj) of
        (Some oldProfile, Some newProfile) \<Rightarrow>
          if Shared (pp_Spec oldProfile) \<and> \<not> Shared (pp_Spec newProfile) then
            (case validatePowerNodeConfigReferences a ns newProfile True n of
               (n, Some e) \<Rightarrow> (n, Some (NewForbidden ''powerprofiles'' (om_Name (pp_Meta newProfile))
                  (''cannot change spec.shared from true to false, '' @ err_msg e)))
             | (n, None) \<Rightarrow> (n, None))
          else (n, None)
      | _ \<Rightarrow> (n, Some (UnexpectedType ''PowerProfile'')))"

definition Profile_ValidateDelete ::
  "webhook_api \<Rightarrow> string \<Rightarrow> PowerProfile option \<Rightarrow> nat \<Rightarrow> nat \<times> webhook_error option" where
  "Profile_ValidateDelete a ns obj n =
     (case obj of
        None \<Rightarrow> (n, Some (UnexpectedType ''PowerProfile''))
      | Some profile \<Rightarrow>
          (case validatePowerNodeConfigReferences a ns profile False n of
             (n, e1) \<Rightarrow>
               (case validatePodReferences a profile n of
                  (n, e2) \<Rightarrow>
                    (let reasons = map err_msg (somes [e1, e2])
                     in if reasons \<noteq> [] then
                          (n, Some (NewForbidden ''powerprofiles'' (om_Name (pp_Meta profile))
                             (''cannot delete PowerProfile, '' @ intercalate ''; '' reasons)))
                        else (n, None)))))"

end
