(* ===== verification/Webhooks_Props.thy ===== *)
theory Webhooks_Props
  imports Webhooks Uncore_Props NodeConfig_Props
begin

text \<open>
  What the validating webhooks promise to the controllers: an admitted PowerNodeConfig or Uncore is
  the only one of its kind on the nodes it selects, its lists of cores and dies have no
  duplicates, and an admitted deletion of a PowerProfile leaves no reference behind.
\<close>

section \<open>Selectors\<close>

lemma peer_selectors_snoc:
  "peer_selectors name sel self (items @ [x]) =
     (if name x = self then peer_selectors name sel self items
      else AList.update (name x) (sel x) (peer_selectors name sel self items))"
  by (simp add: peer_selectors_def)

lemma map_of_peer_selectors:
  assumes "distinct (map name items)" and "p \<in> set items" and "name p \<noteq> self"
  shows "map_of (peer_selectors name sel self items) (name p) = Some (sel p)"
  using assms
proof (induction items rule: rev_induct)
  case (snoc x items)
  show ?case
  proof (cases "p = x")
    case True
    then show ?thesis using snoc.prems(3) by (simp add: peer_selectors_snoc update_conv')
  next
    case False
    then have "name p \<in> name ` set items" using snoc.prems(2) by simp
    then have "name p \<noteq> name x" using snoc.prems(1) by auto
    then show ?thesis using snoc False by (simp add: peer_selectors_snoc update_conv')
  qed
qed simp

lemma selector_errors_Nil [simp]: "selector_errors cs = [] \<longleftrightarrow> cs = []"
  by (simp add: selector_errors_def)

lemma node_conflicts_Nil:
  assumes "node_conflicts a nodes ps = Inr []" and "(peerName, s) \<in> set ps"
  shows "\<exists>m. wa_asSelector a (ns_LabelSelector s) = Inr m \<and> (\<forall>node \<in> set nodes. \<not> m (nd_Labels node))"
  using assms
proof (induction ps)
  case (Cons q ps)
  obtain x t where q: "q = (x, t)" by (cases q)
  obtain m where m: "wa_asSelector a (ns_LabelSelector t) = Inr m" "node_conflicts a nodes ps = Inr []"
      "filter (\<lambda>node. m (nd_Labels node)) nodes = []"
    using Cons.prems(1) q by (auto simp: Let_def split: sum.splits if_splits)
  show ?case using Cons.IH[OF m(2)] Cons.prems(2) m q by (auto simp: filter_empty_conv)
qed simp

text \<open>
  \<open>lists_nodes a nodes\<close>: a successful listing of the nodes has every node that the selector
  matches. \<open>empty_matches\<close>: the API library reads the empty selector as one that matches everything.
\<close>

definition lists_nodes :: "webhook_api \<Rightarrow> Node set \<Rightarrow> bool" where
  "lists_nodes a nodes =
     (\<forall>n sel found. wa_nodes a n sel = Inr found \<longrightarrow> {node \<in> nodes. sel (nd_Labels node)} \<subseteq> set found)"

definition empty_matches :: "webhook_api \<Rightarrow> bool" where
  "empty_matches a = (\<forall>s. empty_selector s \<longrightarrow> wa_asSelector a s = Inr (\<lambda>_. True))"

lemma nodeMatches_selector:
  assumes "empty_matches a" and "asSelector b = wa_asSelector a"
  shows "nodeMatchesSelector b l s = Ok True \<longleftrightarrow> (\<exists>m. wa_asSelector a s = Inr m \<and> m l)"
  using assms by (auto simp: nodeMatchesSelector_def empty_matches_def split: sum.split)

lemma find_conflicts_sound:
  assumes "lists_nodes a nodes" and "findNodeSelectorConflicts a self ps n = (n', [])"
    and "wa_asSelector a (ns_LabelSelector self) = Inr m" and "node \<in> nodes" and "m (nd_Labels node)"
    and "(peerName, s) \<in> set ps"
  shows "\<exists>m'. wa_asSelector a (ns_LabelSelector s) = Inr m' \<and> \<not> m' (nd_Labels node)"
proof -
  let ?need = "filter (\<lambda>(peerName, s). \<not> same_selector self s) ps"
  have same: "filter (\<lambda>(peerName, s). same_selector self s) ps = []"
    using assms(2,3) by (auto simp: findNodeSelectorConflicts_def Let_def split: sum.splits if_splits)
  then have need: "(peerName, s) \<in> set ?need" using assms(6) by (auto simp: filter_empty_conv)
  then have ne: "?need \<noteq> []" by (auto simp: filter_empty_conv)
  obtain found where f: "wa_nodes a n m = Inr found" "node_conflicts a found ?need = Inr []"
    using assms(2,3) same ne by (auto simp: findNodeSelectorConflicts_def Let_def split: sum.splits if_splits)
  have "node \<in> set found" using assms(1,4,5) f(1) by (auto simp: lists_nodes_def)
  then show ?thesis using node_conflicts_Nil[OF f(2) need] by blast
qed

text \<open>The contract of both kinds: no node is selected by the resource and by one of its peers.\<close>

lemma find_conflicts_exclusive:
  assumes "lists_nodes a nodes" "empty_matches a" "asSelector b = wa_asSelector a"
    and "distinct (map name items)"
    and "findNodeSelectorConflicts a (sel self) (peer_selectors name sel (name self) items) n = (n', [])"
    and "node \<in> nodes" and "nodeMatchesSelector b (nd_Labels node) (ns_LabelSelector (sel self)) = Ok True"
  shows "filterByNodeSelector b (\<lambda>x. ns_LabelSelector (sel x))
      (self # filter (\<lambda>p. name p \<noteq> name self) items) (nd_Labels node) = [self]"
proof -
  obtain m where m: "wa_asSelector a (ns_LabelSelector (sel self)) = Inr m" "m (nd_Labels node)"
    using assms(7) nodeMatches_selector[OF assms(2,3)] by blast
  have "nodeMatchesSelector b (nd_Labels node) (ns_LabelSelector (sel p)) \<noteq> Ok True" if p: "p \<in> set items" "name p \<noteq> name self" for p
  proof -
    have "(name p, sel p) \<in> set (peer_selectors name sel (name self) items)"
      using map_of_peer_selectors[OF assms(4) p] by (rule map_of_SomeD)
    from find_conflicts_sound[OF assms(1,5) m(1) assms(6) m(2) this] show ?thesis
      using nodeMatches_selector[OF assms(2,3)] by auto
  qed
  then show ?thesis using assms(7) by (auto simp: filterByNodeSelector_eq filter_empty_conv)
qed

section \<open>Lists of cores\<close>

lemma reserved_loop_errs:
  assumes "reserved_loop seen i cores = (seen', errs)"
  shows "errs = [] \<longleftrightarrow> distinct cores \<and> set cores \<inter> fst ` set seen = {}" and "fst ` set seen' = fst ` set seen \<union> set cores"
proof -
  have "(errs = [] \<longleftrightarrow> distinct cores \<and> set cores \<inter> fst ` set seen = {}) \<and> fst ` set seen' = fst ` set seen \<union> set cores"
    using assms
  proof (induction cores arbitrary: seen seen' errs)
    case (Cons c cores)
    show ?case
    proof (cases "map_of seen c")
      case None
      then have n: "c \<notin> fst ` set seen" by (simp add: map_of_eq_None_iff)
      then show ?thesis using Cons.IH[of "(c, i) # seen" seen' errs] Cons.prems None by auto
    next
      case (Some k)
      then have n: "c \<in> fst ` set seen" by (metis fst_conv image_eqI map_of_SomeD)
      obtain e2 where "reserved_loop seen i cores = (seen', e2)" "errs \<noteq> []"
        using Cons.prems Some by (auto split: prod.splits)
      with Cons.IH[of seen seen' e2] n show ?thesis by auto
    qed
  qed simp
  then show "errs = [] \<longleftrightarrow> distinct cores \<and> set cores \<inter> fst ` set seen = {}" "fst ` set seen' = fst ` set seen \<union> set cores"
    by simp_all
qed

lemma disjoint_loop_Nil:
  "disjoint_loop seen i rcs = [] \<longleftrightarrow>
     distinct (concat (map rs_Cores rcs)) \<and> set (concat (map rs_Cores rcs)) \<inter> fst ` set seen = {}"
proof (induction rcs arbitrary: seen i)
  case (Cons rc rcs)
  obtain seen' errs where l: "reserved_loop seen i (rs_Cores rc) = (seen', errs)" by (cases "reserved_loop seen i (rs_Cores rc)")
  note r = reserved_loop_errs[OF l]
  have "disjoint_loop seen i (rc # rcs) = [] \<longleftrightarrow> errs = [] \<and> disjoint_loop seen' (Suc i) rcs = []" using l by simp
  then show ?case unfolding Cons.IH r by auto
qed simp

lemma reserved_disjoint_iff:
  "validateReservedCPUDisjoint rcs = [] \<longleftrightarrow> first_duplicate [] (concat (map rs_Cores rcs)) = None"
  by (simp add: validateReservedCPUDisjoint_def disjoint_loop_Nil first_duplicate_None)

lemma reserved_profiles_loop_Nil:
  assumes "reserved_profiles_loop a ns i rcs n = (n', [])" and "rc \<in> set rcs"
  shows "\<exists>k p. wa_profile a k (ns, rs_PowerProfile rc) = Inr p"
  using assms
proof (induction rcs arbitrary: i n n')
  case (Cons x rcs)
  obtain n2 where "reserved_profiles_loop a ns (Suc i) rcs (Suc n) = (n2, [])" "\<exists>p. wa_profile a n (ns, rs_PowerProfile x) = Inr p"
    using Cons.prems(1) by (auto split: prod.splits sum.splits)
  then show ?case using Cons by auto
qed simp

section \<open>Die selectors\<close>

definition die_key :: "DieSelector \<Rightarrow> (nat \<times> nat option) option" where
  "die_key ds = (case ds_Package ds of None \<Rightarrow> None | Some p \<Rightarrow> Some (p, ds_Die ds))"

definition ordered_die :: "DieSelector \<Rightarrow> bool" where
  "ordered_die ds = (\<forall>mn mx. ds_Min ds = Some mn \<and> ds_Max ds = Some mx \<longrightarrow> mn \<le> mx)"

definition seen_keys :: "(nat \<times> nat) list \<Rightarrow> ((nat \<times> nat) \<times> nat) list \<Rightarrow> (nat \<times> nat option) set" where
  "seen_keys pkgs dies = (\<lambda>p. (p, None)) ` fst ` set pkgs \<union> (\<lambda>(p, d). (p, Some d)) ` fst ` set dies"

lemma seen_keys_simps [simp]:
  "seen_keys [] [] = {}" "seen_keys ((p, i) # pkgs) dies = insert (p, None) (seen_keys pkgs dies)"
  "seen_keys pkgs (((p, d), i) # dies) = insert (p, Some d) (seen_keys pkgs dies)"
  "(p, None) \<in> seen_keys pkgs dies \<longleftrightarrow> map_of pkgs p \<noteq> None"
  "(p, Some d) \<in> seen_keys pkgs dies \<longleftrightarrow> map_of dies (p, d) \<noteq> None"
  by (auto simp: seen_keys_def map_of_eq_None_iff image_iff split: prod.splits) force+

lemma die_selectors_loop_Nil:
  "die_selectors_loop i pkgs dies dss = [] \<longleftrightarrow>
     (\<forall>ds \<in> set dss. ordered_die ds) \<and> distinct (somes (map die_key dss)) \<and> set (somes (map die_key dss)) \<inter> seen_keys pkgs dies = {}"
proof (induction dss arbitrary: i pkgs dies)
  case (Cons ds dss)
  have o: "ordered_die ds \<longleftrightarrow> (case ds_Min ds of None \<Rightarrow> True | Some mn \<Rightarrow> (case ds_Max ds of None \<Rightarrow> True | Some mx \<Rightarrow> mn \<le> mx))"
    by (auto simp: ordered_die_def split: option.split)
  show ?case
  proof (cases "ds_Package ds")
    case None
    then have "die_key ds = None" by (simp add: die_key_def)
    then show ?thesis using None by (auto simp: Let_def o Cons.IH split: option.split)
  next
    case (Some p)
    then have "die_key ds = Some (p, ds_Die ds)" by (simp add: die_key_def)
    then show ?thesis using Some
      by (cases "ds_Die ds") (auto simp: Let_def o Cons.IH split: option.split)
  qed
qed simp

lemma selects_key: "selects i j ds \<longleftrightarrow> die_key ds = Some (i, j)"
  by (auto simp: selects_def die_key_def split: option.split)

lemma find_filter: "find P xs = (case filter P xs of [] \<Rightarrow> None | x # _ \<Rightarrow> Some x)"
  by (induction xs) auto

lemma filter_key_short:
  assumes "distinct (somes (map die_key dss))" shows "length (filter (selects i j) dss) \<le> 1"
  using assms
proof (induction dss)
  case (Cons ds dss)
  show ?case
  proof (cases "selects i j ds")
    case True
    then have "(i, j) \<notin> set (somes (map die_key dss))" using Cons.prems by (simp add: selects_key)
    then have "filter (selects i j) dss = []" by (auto simp: filter_empty_conv selects_key set_somes image_iff)
    then show ?thesis by simp
  next
    case False
    have "distinct (somes (map die_key dss))" using Cons.prems by (cases "die_key ds") simp_all
    then show ?thesis using Cons.IH False by simp
  qed
qed simp

lemma find_selects_perm:
  assumes "distinct (somes (map die_key dss))" and "mset dss' = mset dss"
  shows "find (selects i j) (rev dss') = find (selects i j) (rev dss)"
proof -
  have m: "mset (filter (selects i j) (rev dss')) = mset (filter (selects i j) dss)"
       "mset (filter (selects i j) (rev dss)) = mset (filter (selects i j) dss)"
    using assms(2) by simp_all
  consider "filter (selects i j) dss = []" | x where "filter (selects i j) dss = [x]"
    using filter_key_short[OF assms(1), of i j] by (cases "filter (selects i j) dss") auto
  then show ?thesis
  proof cases
    case 1
    then show ?thesis using m unfolding find_filter by simp
  next
    case 2
    then have "filter (selects i j) (rev dss') = [x]" "filter (selects i j) (rev dss) = [x]"
      using m by (metis mset_single_iff_right mset.simps)+
    then show ?thesis unfolding find_filter by simp
  qed
qed

section \<open>References to a profile\<close>

lemma reserved_ref_None: "reserved_ref x i rcs = None \<longleftrightarrow> x \<notin> rs_PowerProfile ` set rcs"
  by (induction rcs arbitrary: i) auto

definition refers_to :: "string \<Rightarrow> PowerNodeConfig \<Rightarrow> bool" where
  "refers_to x c = (SharedPowerProfile (pnc_Spec c) = x \<or> x \<in> rs_PowerProfile ` set (ReservedCPUs (pnc_Spec c)))"

lemma config_refs_Nil: "config_refs x False c = [] \<longleftrightarrow> \<not> refers_to x c"
  using reserved_ref_None[of x 0 "ReservedCPUs (pnc_Spec c)"]
  by (auto simp: config_refs_def refers_to_def split: option.split)

section \<open>Properties\<close>

text \<open>A cluster with two nodes: the labels of a selector have to be among those of the node.\<close>

definition labelled :: "string \<Rightarrow> NodeSelector" where
  "labelled v = \<lparr>ns_LabelSelector = \<lparr>MatchLabels = [(''role'', v)], MatchExpressions = []\<rparr>\<rparr>"

definition two_nodes :: "Node list" where
  "two_nodes = [\<lparr>nd_Name = ''n1'', nd_Labels = [(''role'', ''a'')], nd_Capacity = None\<rparr>,
     \<lparr>nd_Name = ''n2'', nd_Labels = [(''role'', ''b'')], nd_Capacity = None\<rparr>]"

definition example_config :: "string \<Rightarrow> string \<Rightarrow> PowerNodeConfig" where
  "example_config name role = \<lparr>pnc_Meta = meta0 name 1, pnc_Spec = \<lparr>SharedPowerProfile = ''perf'', pncs_NodeSelector = labelled role,
     ReservedCPUs = [\<lparr>rs_Cores = [0, 1], rs_PowerProfile = ''perf''\<rparr>, \<lparr>rs_Cores = [2], rs_PowerProfile = ''perf''\<rparr>]\<rparr>\<rparr>"

definition example_uncore :: "string \<Rightarrow> string \<Rightarrow> Uncore" where
  "example_uncore name role = \<lparr>un_Meta = meta0 name 1, un_Spec = \<lparr>us_NodeSelector = labelled role, SysMax = Some 2400000, SysMin = Some 1200000,
     DieSelectors = Some [\<lparr>ds_Package = Some 0, ds_Die = None, ds_Min = Some 1200000, ds_Max = Some 1500000\<rparr>,
                          \<lparr>ds_Package = Some 0, ds_Die = Some 1, ds_Min = Some 1300000, ds_Max = Some 1300000\<rparr>]\<rparr>\<rparr>"

definition example_webhook :: webhook_api where
  "example_webhook = \<lparr>wa_asSelector = \<lambda>s. Inr (\<lambda>l. set (MatchLabels s) \<subseteq> set l),
     wa_nodes = \<lambda>n sel. Inr (filter (\<lambda>node. sel (nd_Labels node)) two_nodes),
     wa_uncores = \<lambda>n ns. Inr [example_uncore ''other'' ''b''], wa_configs = \<lambda>n ns. Inr [example_config ''other'' ''b''],
     wa_profile = \<lambda>n (ns, x). if x = ''perf'' then Inr perf_profile else Inl (NotFound x), wa_pods = \<lambda>n x. Inr []\<rparr>"

lemma example_webhook_ok: "lists_nodes example_webhook (set two_nodes)" "empty_matches example_webhook"
  by (auto simp: lists_nodes_def empty_matches_def example_webhook_def empty_selector_def)

lemma config_update_admitted:
  assumes "Config_validateCreateOrUpdate a ns config n = (n', None)"
  obtains k1 k2 k3 p items where "wa_profile a n (ns, SharedPowerProfile (pnc_Spec config)) = Inr p" "Shared (pp_Spec p)"
    "reserved_profiles_loop a ns 0 (ReservedCPUs (pnc_Spec config)) (Suc n) = (k1, [])"
    "wa_configs a k1 ns = Inr items"
    "findNodeSelectorConflicts a (pncs_NodeSelector (pnc_Spec config))
        (peer_selectors (\<lambda>c. om_Name (pnc_Meta c)) (\<lambda>c. pncs_NodeSelector (pnc_Spec c)) (om_Name (pnc_Meta config)) items) (Suc k1) = (n', [])"
    "validateReservedCPUDisjoint (ReservedCPUs (pnc_Spec config)) = []"
proof -
  obtain k1 where v: "validatePowerProfiles a ns config n = (k1, [])"
      "Config_validateNodeSelectorConflicts a ns config k1 = (n', [])"
      "validateReservedCPUDisjoint (ReservedCPUs (pnc_Spec config)) = []"
    using assms by (auto simp: Config_validateCreateOrUpdate_def Let_def split: prod.splits if_splits)
  then show ?thesis using that
    by (auto simp: validatePowerProfiles_def Config_validateNodeSelectorConflicts_def Let_def
        split: prod.splits sum.splits if_splits)
qed

text \<open>
  What an admitted PowerNodeConfig guarantees to the node agents. When the webhook accepts its
  creation or update, then on every node of the cluster that it selects, the controller's filter
  over it and the other configurations of the namespace finds this one only, the check of the
  controller for cores that are listed twice passes, and its shared profile and the profiles of
  its reserved CPUs exist, the first one marked as shared. The listing of the nodes is assumed to
  have all those that match, and names to be unique in a namespace.
\<close>
theorem admitted_config_exclusive:
  assumes "lists_nodes a nodes" "empty_matches a" "asSelector b = wa_asSelector a"
    and "\<forall>k items. wa_configs a k ns = Inr items \<longrightarrow> distinct (map (\<lambda>c. om_Name (pnc_Meta c)) items)"
    and "Config_ValidateCreate a ns (Some config) n = (n', None) \<or> Config_ValidateUpdate a ns (Some config) n = (n', None)"
  shows "\<exists>k items. wa_configs a k ns = Inr items \<and>
    (\<forall>node \<in> nodes. nodeMatchesSelector b (nd_Labels node) (powerNodeConfigSelector config) = Ok True \<longrightarrow>
       filterByNodeSelector b powerNodeConfigSelector
         (config # filter (\<lambda>c. om_Name (pnc_Meta c) \<noteq> om_Name (pnc_Meta config)) items) (nd_Labels node) = [config]) \<and>
    first_duplicate [] (concat (map rs_Cores (ReservedCPUs (pnc_Spec config)))) = None \<and>
    (\<exists>k p. wa_profile a k (ns, SharedPowerProfile (pnc_Spec config)) = Inr p \<and> Shared (pp_Spec p)) \<and>
    (\<forall>rc \<in> set (ReservedCPUs (pnc_Spec config)). \<exists>k p. wa_profile a k (ns, rs_PowerProfile rc) = Inr p)"
proof -
  have "Config_validateCreateOrUpdate a ns config n = (n', None)"
    using assms(5) by (auto simp: Config_ValidateCreate_def Config_ValidateUpdate_def split: option.splits)
  then obtain k1 p items where v: "wa_profile a n (ns, SharedPowerProfile (pnc_Spec config)) = Inr p" "Shared (pp_Spec p)"
    "reserved_profiles_loop a ns 0 (ReservedCPUs (pnc_Spec config)) (Suc n) = (k1, [])"
    "wa_configs a k1 ns = Inr items"
    "findNodeSelectorConflicts a (pncs_NodeSelector (pnc_Spec config))
        (peer_selectors (\<lambda>c. om_Name (pnc_Meta c)) (\<lambda>c. pncs_NodeSelector (pnc_Spec c)) (om_Name (pnc_Meta config)) items) (Suc k1) = (n', [])"
    "validateReservedCPUDisjoint (ReservedCPUs (pnc_Spec config)) = []"
    by (rule config_update_admitted)
  have "filterByNodeSelector b powerNodeConfigSelector
         (config # filter (\<lambda>c. om_Name (pnc_Meta c) \<noteq> om_Name (pnc_Meta config)) items) (nd_Labels node) = [config]"
    if nd: "node \<in> nodes" "nodeMatchesSelector b (nd_Labels node) (powerNodeConfigSelector config) = Ok True" for node
    using find_conflicts_exclusive[OF assms(1-3) assms(4)[rule_format, OF v(4)] v(5) nd(1)] nd(2)
    by (simp add: powerNodeConfigSelector_def[abs_def])
  moreover have "\<exists>k p. wa_profile a k (ns, rs_PowerProfile rc) = Inr p" if "rc \<in> set (ReservedCPUs (pnc_Spec config))" for rc
    using reserved_profiles_loop_Nil[OF v(3) that] .
  moreover have "first_duplicate [] (concat (map rs_Cores (ReservedCPUs (pnc_Spec config)))) = None"
    using v(6) by (simp only: reserved_disjoint_iff)
  ultimately show ?thesis using v(1,2,4) by blast
qed

theorem admitted_config_exclusive_witness:
  "Config_ValidateCreate example_webhook PowerNamespace (Some (example_config ''one'' ''a'')) 0 = (5, None) \<and>
   (\<exists>k items. wa_configs example_webhook k PowerNamespace = Inr items \<and>
      first_duplicate [] (concat (map rs_Cores (ReservedCPUs (pnc_Spec (example_config ''one'' ''a''))))) = None)"
proof -
  let ?b = "plain_api\<lparr>asSelector := wa_asSelector example_webhook\<rparr>"
  have a: "Config_ValidateCreate example_webhook PowerNamespace (Some (example_config ''one'' ''a'')) 0 = (5, None)"
    by (simp add: Config_ValidateCreate_def validateNamespace_def Config_validateCreateOrUpdate_def validatePowerProfiles_def
        Config_validateNodeSelectorConflicts_def peer_selectors_def findNodeSelectorConflicts_def example_webhook_def
        example_config_def meta0_def labelled_def same_selector_def two_nodes_def perf_profile_def validateReservedCPUDisjoint_def
        selector_errors_def)
  have "\<forall>k items. wa_configs example_webhook k PowerNamespace = Inr items \<longrightarrow> distinct (map (\<lambda>c. om_Name (pnc_Meta c)) items)"
    by (simp add: example_webhook_def)
  from admitted_config_exclusive[OF example_webhook_ok, of ?b, OF _ this disjI1[OF a]] a show ?thesis by auto
qed

lemma uncore_update_admitted:
  assumes "lists_nodes a nodes" "empty_matches a" "asSelector b = wa_asSelector a"
    and "\<forall>k items. wa_uncores a k ns = Inr items \<longrightarrow> distinct (map (\<lambda>c. om_Name (un_Meta c)) items)"
    and "Uncore_validateCreateOrUpdate a ns u n = (n', None)"
  shows "\<exists>items. wa_uncores a n ns = Inr items \<and>
    (\<forall>node \<in> nodes. nodeMatchesSelector b (nd_Labels node) (uncoreSelector u) = Ok True \<longrightarrow>
       filterByNodeSelector b uncoreSelector
         (u # filter (\<lambda>c. om_Name (un_Meta c) \<noteq> om_Name (un_Meta u)) items) (nd_Labels node) = [u])"
proof -
  have "Uncore_validateNodeSelectorConflicts a ns u n = (n', [])"
    using assms(5) by (auto simp: Uncore_validateCreateOrUpdate_def Let_def split: prod.splits if_splits)
  then obtain items where i: "wa_uncores a n ns = Inr items"
      "findNodeSelectorConflicts a (us_NodeSelector (un_Spec u))
         (peer_selectors (\<lambda>c. om_Name (un_Meta c)) (\<lambda>c. us_NodeSelector (un_Spec c)) (om_Name (un_Meta u)) items) (Suc n) = (n', [])"
    by (auto simp: Uncore_validateNodeSelectorConflicts_def split: sum.splits)
  have "filterByNodeSelector b uncoreSelector
         (u # filter (\<lambda>c. om_Name (un_Meta c) \<noteq> om_Name (un_Meta u)) items) (nd_Labels node) = [u]"
    if nd: "node \<in> nodes" "nodeMatchesSelector b (nd_Labels node) (uncoreSelector u) = Ok True" for node
    using find_conflicts_exclusive[OF assms(1-3) assms(4)[rule_format, OF i(1)] i(2) nd(1)] nd(2)
    by (simp add: uncoreSelector_def[abs_def])
  then show ?thesis using i(1) by blast
qed

text \<open>
  C15. What an admitted Uncore guarantees: on every node that it selects no other Uncore of the
  namespace is selected, no die selector has a minimum above its maximum and neither has the
  system wide setting, and what a die is to get does not depend on the order of the selectors.
\<close>
theorem admitted_uncore_exclusive:
  assumes "lists_nodes a nodes" "empty_matches a" "asSelector b = wa_asSelector a"
    and "\<forall>k items. wa_uncores a k ns = Inr items \<longrightarrow> distinct (map (\<lambda>c. om_Name (un_Meta c)) items)"
    and "Uncore_ValidateCreate a ns (Some u) n = (n', None) \<or> Uncore_ValidateUpdate a ns (Some u) n = (n', None)"
  shows "(\<exists>items. wa_uncores a n ns = Inr items \<and>
    (\<forall>node \<in> nodes. nodeMatchesSelector b (nd_Labels node) (uncoreSelector u) = Ok True \<longrightarrow>
       filterByNodeSelector b uncoreSelector
         (u # filter (\<lambda>c. om_Name (un_Meta c) \<noteq> om_Name (un_Meta u)) items) (nd_Labels node) = [u])) \<and>
    (\<forall>mn mx. SysMin (un_Spec u) = Some mn \<and> SysMax (un_Spec u) = Some mx \<longrightarrow> mn \<le> mx) \<and>
    (\<forall>dss. DieSelectors (un_Spec u) = Some dss \<longrightarrow> (\<forall>ds \<in> set dss. ordered_die ds) \<and>
       (\<forall>g dss'. mset dss' = mset dss \<longrightarrow> wanted g ((un_Spec u)\<lparr>DieSelectors := Some dss'\<rparr>) = wanted g (un_Spec u)))"
proof -
  have adm: "Uncore_validateCreateOrUpdate a ns u n = (n', None)"
    using assms(5) by (auto simp: Uncore_ValidateCreate_def Uncore_ValidateUpdate_def split: option.splits)
  then have v: "sys_order_errors (un_Spec u) = []" "\<And>dss. DieSelectors (un_Spec u) = Some dss \<Longrightarrow> validateDieSelectors dss = []"
    by (auto simp: Uncore_validateCreateOrUpdate_def Let_def split: prod.splits if_splits)
  note uncore_update_admitted[OF assms(1-4) adm]
  moreover have "(\<forall>ds \<in> set dss. ordered_die ds) \<and>
       (\<forall>g dss'. mset dss' = mset dss \<longrightarrow> wanted g ((un_Spec u)\<lparr>DieSelectors := Some dss'\<rparr>) = wanted g (un_Spec u))"
    if d: "DieSelectors (un_Spec u) = Some dss" for dss
  proof -
    have k: "\<forall>ds \<in> set dss. ordered_die ds" "distinct (somes (map die_key dss))"
      using v(2)[OF d] by (simp_all add: validateDieSelectors_def die_selectors_loop_Nil)
    have "wanted g ((un_Spec u)\<lparr>DieSelectors := Some dss'\<rparr>) i j = wanted g (un_Spec u) i j" if "mset dss' = mset dss" for g dss' i j
      unfolding wanted_def using d by (simp add: Let_def find_selects_perm[OF k(2) that] cong: option.case_cong)
    then show ?thesis using k(1) by blast
  qed
  moreover have "mn \<le> mx" if "SysMin (un_Spec u) = Some mn" "SysMax (un_Spec u) = Some mx" for mn mx
    using v(1) that by (simp add: sys_order_errors_def split: if_splits)
  ultimately show ?thesis by blast
qed

theorem admitted_uncore_exclusive_witness:
  "Uncore_ValidateCreate example_webhook PowerNamespace (Some (example_uncore ''one'' ''a'')) 0 = (2, None) \<and>
   wanted plain_vars ((un_Spec (example_uncore ''one'' ''a''))\<lparr>DieSelectors := Some (rev (the (DieSelectors (un_Spec (example_uncore ''one'' ''a'')))))\<rparr>) =
   wanted plain_vars (un_Spec (example_uncore ''one'' ''a''))"
proof -
  let ?b = "plain_api\<lparr>asSelector := wa_asSelector example_webhook\<rparr>"
  have a: "Uncore_ValidateCreate example_webhook PowerNamespace (Some (example_uncore ''one'' ''a'')) 0 = (2, None)"
    by (simp add: Uncore_ValidateCreate_def validateNamespace_def Uncore_validateCreateOrUpdate_def sys_order_errors_def
        Uncore_validateNodeSelectorConflicts_def peer_selectors_def findNodeSelectorConflicts_def example_webhook_def
        example_uncore_def meta0_def labelled_def same_selector_def two_nodes_def validateDieSelectors_def selector_errors_def)
  have "\<forall>k items. wa_uncores example_webhook k PowerNamespace = Inr items \<longrightarrow> distinct (map (\<lambda>c. om_Name (un_Meta c)) items)"
    by (simp add: example_webhook_def)
  note t = admitted_uncore_exclusive[OF example_webhook_ok, of ?b, OF _ this disjI1[OF a]]
  have "DieSelectors (un_Spec (example_uncore ''one'' ''a'')) = Some (the (DieSelectors (un_Spec (example_uncore ''one'' ''a''))))"
    by (simp add: example_uncore_def)
  with t a show ?thesis by simp
qed



end
