(* ===== verification/PowerConfig_Controller.thy ===== *)
theory PowerConfig_Controller
  imports Controllers_Common Pkg_State
begin

text \<open>
  \<open>controllers/powerconfig_controller.go\<close>, which runs in the manager and not on the nodes: it deploys
  the node agent and creates a PowerNodeState for every selected node, and takes everything down
  with the last PowerConfig. The API server is a parameter whose answers may depend on the number
  of calls made before; the requests that change the cluster are recorded with their outcome. The
  manifest of the DaemonSet (the file read and decoded) is a parameter too. A nil map of labels
  is \<open>None\<close>.
\<close>

section \<open>State\<close>

type_synonym selector = "(string \<times> string) list option"

record PowerConfig =
  pcf_Meta :: ObjectMeta
  PowerNodeSelector :: selector

text \<open>What the controller reads and writes of a DaemonSet; \<open>dset_Rest\<close> stands for the rest of it.\<close>

record DaemonSet =
  dset_Name :: string
  dset_NodeSelector :: selector
  dset_Rest :: string

definition empty_DaemonSet :: DaemonSet where
  "empty_DaemonSet = \<lparr>dset_Name = [], dset_NodeSelector = None, dset_Rest = []\<rparr>"

definition NodeAgentDSName :: string where
  "NodeAgentDSName = ''power-node-agent''"

definition FieldOwnerPowerConfigController :: string where
  "FieldOwnerPowerConfigController = ''powerconfig-controller''"

datatype config_request =
    DeleteConfig ObjectMeta
  | DeleteProfile ObjectMeta
  | DeleteNodeState "string \<times> string"
  | DeleteDaemonSet DaemonSet
  | CreateDaemonSet DaemonSet
  | UpdateDaemonSet DaemonSet
  | CreateNodeState string
  | ApplyNodeInfo string NodeInfo string
  | PatchConfigNodes ObjectMeta "string list"

text \<open>\<open>cfg_manifest\<close> is \<open>None\<close> when the file holds an object of another type.\<close>

record config_api =
  cfg_list :: "nat \<Rightarrow> err + PowerConfig list"
  cfg_get :: "nat \<Rightarrow> string \<times> string \<Rightarrow> err + PowerConfig"
  cfg_profiles :: "nat \<Rightarrow> err + PowerProfile list"
  cfg_states :: "nat \<Rightarrow> err + (string \<times> string) list"
  cfg_daemonset :: "nat \<Rightarrow> err + DaemonSet"
  cfg_nodes :: "nat \<Rightarrow> selector \<Rightarrow> err + Node list"
  cfg_state :: "nat \<Rightarrow> string \<Rightarrow> err + unit"
  cfg_manifest :: "err + DaemonSet option"
  cfg_send :: "nat \<Rightarrow> config_request \<Rightarrow> err option"

record config_world =
  cw_State :: PowerNodeData
  cw_calls :: nat
  cw_requests :: "(config_request \<times> err option) list"

definition cfg_read :: "(nat \<Rightarrow> err + 'a) \<Rightarrow> config_world \<Rightarrow> config_world \<times> 'a res" where
  "cfg_read f w = (w\<lparr>cw_calls := Suc (cw_calls w)\<rparr>, reply (f (cw_calls w)))"

definition cfg_write :: "config_api \<Rightarrow> config_request \<Rightarrow> config_world \<Rightarrow> config_world \<times> unit res" where
  "cfg_write a q w =
     (let e = cfg_send a (cw_calls w) q
      in (w\<lparr>cw_calls := Suc (cw_calls w), cw_requests := cw_requests w @ [(q, e)]\<rparr>,
          case e of None \<Rightarrow> Ok () | Some e \<Rightarrow> Error e))"

section \<open>The DaemonSet\<close>

text \<open>\<open>reflect.DeepEqual\<close> on maps of labels: nil and the empty map differ.\<close>

definition same_labels :: "selector \<Rightarrow> selector \<Rightarrow> bool" where
  "same_labels x y = (map_option set x = map_option set y)"

definition createDaemonSetFromManifest :: "config_api \<Rightarrow> DaemonSet res" where
  "createDaemonSetFromManifest a =
     (case cfg_manifest a of
        Inl e \<Rightarrow> Error e
      | Inr None \<Rightarrow> Panic ''interface conversion''
      | Inr (Some d) \<Rightarrow> Ok d)"

definition update_daemonset :: "config_api \<Rightarrow> PowerConfig \<Rightarrow> DaemonSet \<Rightarrow> config_world \<Rightarrow> config_world \<times> unit res" where
  "update_daemonset a powerConfig daemonSet w =
     (if \<not> same_labels (dset_NodeSelector daemonSet) (PowerNodeSelector powerConfig) then
        cfg_write a (UpdateDaemonSet (daemonSet\<lparr>dset_NodeSelector := PowerNodeSelector powerConfig\<rparr>)) w
      else (w, Ok ()))"

text \<open>An error of the lookup other than NotFound is dropped, and the code goes on with the empty object.\<close>

definition createDaemonSetIfNotPresent :: "config_api \<Rightarrow> PowerConfig \<Rightarrow> config_world \<Rightarrow> config_world \<times> unit res" where
  "createDaemonSetIfNotPresent a powerConfig w =
     catch_err (cfg_read (cfg_daemonset a) w)
       (\<lambda>e w. if IsNotFound e then
                then_do (w, createDaemonSetFromManifest a) (\<lambda>daemonSet w.
                  cfg_write a (CreateDaemonSet
                    (if the_default [] (PowerNodeSelector powerConfig) \<noteq> []
                     then daemonSet\<lparr>dset_NodeSelector := PowerNodeSelector powerConfig\<rparr> else daemonSet)) w)
              else update_daemonset a powerConfig empty_DaemonSet w)
       (update_daemonset a powerConfig)"

section \<open>Nodes\<close>

definition node_info :: "Node \<Rightarrow> NodeInfo" where
  "node_info node =
     \<lparr>ni_CPUCapacity = Quantity_Value (the_default 0 (map_of (the_default [] (nd_Capacity node)) ''cpu'')),
      ni_Architecture = the_default [] (map_of (nd_Labels node) ''kubernetes.io/arch'')\<rparr>"

definition applyNodeInfo :: "config_api \<Rightarrow> Node \<Rightarrow> string \<Rightarrow> config_world \<Rightarrow> config_world \<times> unit res" where
  "applyNodeInfo a node powerNodeStateName w =
     cfg_write a (ApplyNodeInfo powerNodeStateName (node_info node) FieldOwnerPowerConfigController) w"

definition ensure_node_state :: "config_api \<Rightarrow> Node \<Rightarrow> config_world \<Rightarrow> config_world \<times> unit res" where
  "ensure_node_state a node w =
     (let w = w\<lparr>cw_State := UpdatePowerNodeData (nd_Name node) (cw_State w)\<rparr>; name = pns_name (nd_Name node)
      in catch_err (cfg_read (\<lambda>n. cfg_state a n name) w)
           (\<lambda>e w. if IsNotFound e then
                    then_do (cfg_write a (CreateNodeState name) w) (\<lambda>_ w. applyNodeInfo a node name w)
                  else (w, Error e))
           (\<lambda>_ w. (w, Ok ())))"

section \<open>Reconcile\<close>

definition take_down :: "config_api \<Rightarrow> config_world \<Rightarrow> config_world \<times> Result res" where
  "take_down a w =
     then_do (cfg_read (cfg_profiles a) w) (\<lambda>profiles w.
       then_do (foreach (\<lambda>p. cfg_write a (DeleteProfile (pp_Meta p))) profiles w) (\<lambda>_ w.
         then_do (cfg_read (cfg_states a) w) (\<lambda>states w.
           then_do (foreach (\<lambda>s. cfg_write a (DeleteNodeState s)) states w) (\<lambda>_ w.
             catch_err (cfg_read (cfg_daemonset a) w)
               (\<lambda>e w. if \<not> IsNotFound e then (w, Error e) else (w, Ok Done))
               (\<lambda>daemonSet w. then_do (cfg_write a (DeleteDaemonSet daemonSet) w) (\<lambda>_ w. (w, Ok Done)))))))"

definition deploy :: "config_api \<Rightarrow> PowerConfig \<Rightarrow> config_world \<Rightarrow> config_world \<times> Result res" where
  "deploy a config w =
     then_do (createDaemonSetIfNotPresent a config w) (\<lambda>_ w.
       then_do (cfg_read (\<lambda>n. cfg_nodes a n (PowerNodeSelector config)) w) (\<lambda>nodes w.
         then_do (foreach (ensure_node_state a) nodes w) (\<lambda>_ w.
           then_do (cfg_write a (PatchConfigNodes (pcf_Meta config) (PowerNodeList (cw_State w))) w)
             (\<lambda>_ w. (w, Ok (RequeueAfter (5 * 10 ^ 9)))))))"

definition PowerConfig_Reconcile ::
  "config_api \<Rightarrow> string \<times> string \<Rightarrow> config_world \<Rightarrow> config_world \<times> Result res" where
  "PowerConfig_Reconcile a req w =
     (if fst req \<noteq> PowerNamespace then (w, Error (Errorf ''incorrect namespace''))
      else then_do (cfg_read (cfg_list a) w) (\<lambda>configs w.
        catch_err (cfg_read (\<lambda>n. cfg_get a n req) w)
          (\<lambda>e w. if IsNotFound e then (if length configs = 0 then take_down a w else (w, Ok Done)) else (w, Error e))
          (\<lambda>config w.
             if 1 < length configs then
               then_do (cfg_write a (DeleteConfig (pcf_Meta config)) w) (\<lambda>_ w. (w, Ok Done))
             else deploy a config w)))"

end
