(* ===== verification/PowerConfig_Props.thy ===== *)
theory PowerConfig_Props
  imports PowerConfig_Controller Example_Node
begin

text \<open>What the PowerConfig controller asks of the cluster, on each of its three ways.\<close>

section \<open>Requests\<close>

text \<open>\<open>asked w qs w'\<close>: between the two states exactly the requests \<open>qs\<close> were made, and all succeeded.\<close>

definition asked :: "config_world \<Rightarrow> config_request list \<Rightarrow> config_world \<Rightarrow> bool" where
  "asked w qs w' = (cw_requests w' = cw_requests w @ map (\<lambda>q. (q, None)) qs)"

lemma asked_refl [simp]: "asked w [] w"
  by (simp add: asked_def)

lemma asked_trans: "asked w qs w1 \<Longrightarrow> asked w1 qs' w2 \<Longrightarrow> asked w (qs @ qs') w2"
  by (simp add: asked_def)

lemma asked_cong: "cw_requests w1 = cw_requests w \<Longrightarrow> asked w1 qs w' = asked w qs w'"
  by (simp add: asked_def)

lemma cfg_read_Ok:
  assumes "cfg_read f w = (w', Ok x)"
  shows "f (cw_calls w) = Inr x" and "cw_requests w' = cw_requests w" and "cw_State w' = cw_State w"
  using assms by (auto simp: cfg_read_def elim: reply.elims)

lemma cfg_read_Error:
  assumes "cfg_read f w = (w', Error e)"
  shows "f (cw_calls w) = Inl e" and "cw_requests w' = cw_requests w" and "cw_State w' = cw_State w"
  using assms by (auto simp: cfg_read_def elim: reply.elims)

lemma cfg_write_Ok:
  assumes "cfg_write a q w = (w', Ok ())"
  shows "asked w [q] w'" and "cw_State w' = cw_State w"
  using assms by (auto simp: cfg_write_def Let_def asked_def split: option.splits)

lemma foreach_write_Ok:
  assumes "foreach (\<lambda>x. cfg_write a (f x)) xs w = (w', Ok ())"
  shows "asked w (map f xs) w'"
  using assms
proof (induction xs arbitrary: w)
  case (Cons x xs)
  obtain w1 where "cfg_write a (f x) w = (w1, Ok ())" "foreach (\<lambda>x. cfg_write a (f x)) xs w1 = (w', Ok ())"
    using Cons.prems by (auto split: prod.splits res.splits)
  from asked_trans[OF cfg_write_Ok(1)[OF this(1)] Cons.IH[OF this(2)]] show ?case by simp
qed simp

section \<open>Nodes\<close>

definition creates :: "Node \<Rightarrow> config_request list" where
  "creates node = [CreateNodeState (pns_name (nd_Name node)),
     ApplyNodeInfo (pns_name (nd_Name node)) (node_info node) FieldOwnerPowerConfigController]"

text \<open>A node has its state: it was found, or it was created and described.\<close>

definition has_state :: "config_api \<Rightarrow> config_request list \<Rightarrow> Node \<Rightarrow> bool" where
  "has_state a qs node =
     ((\<exists>k. cfg_state a k (pns_name (nd_Name node)) = Inr ()) \<or>
      ((\<exists>k e. cfg_state a k (pns_name (nd_Name node)) = Inl e \<and> IsNotFound e) \<and> set (creates node) \<subseteq> set qs))"

lemma has_state_mono: "has_state a qs node \<Longrightarrow> set qs \<subseteq> set qs' \<Longrightarrow> has_state a qs' node"
  by (auto simp: has_state_def)

lemma ensure_node_state_Ok:
  assumes "ensure_node_state a node w = (w', Ok ())"
  shows "\<exists>qs. asked w qs w' \<and> qs \<in> {[], creates node} \<and> has_state a qs node"
    and "cw_State w' = UpdatePowerNodeData (nd_Name node) (cw_State w)"
proof -
  define w0 where "w0 = w\<lparr>cw_State := UpdatePowerNodeData (nd_Name node) (cw_State w)\<rparr>"
  let ?name = "pns_name (nd_Name node)"
  obtain w1 r where r: "cfg_read (\<lambda>n. cfg_state a n ?name) w0 = (w1, r)" by (cases "cfg_read (\<lambda>n. cfg_state a n ?name) w0")
  have "(\<exists>qs. asked w qs w' \<and> qs \<in> {[], creates node} \<and> has_state a qs node) \<and> cw_State w' = cw_State w0"
  proof (cases r)
    case (Ok u)
    then have "w' = w1" using assms r by (simp add: ensure_node_state_def Let_def w0_def)
    moreover have "\<exists>k. cfg_state a k ?name = Inr ()" using cfg_read_Ok(1)[OF r[unfolded Ok]] by auto
    then have "has_state a [] node" by (simp add: has_state_def)
    moreover have "asked w [] w1" using cfg_read_Ok(2)[OF r[unfolded Ok]] by (simp add: asked_def w0_def)
    ultimately show ?thesis using cfg_read_Ok(3)[OF r[unfolded Ok]] by auto
  next
    case (Error e)
    have n: "IsNotFound e" using assms r Error by (auto simp: ensure_node_state_def Let_def w0_def split: if_splits)
    obtain w2 where w: "cfg_write a (CreateNodeState ?name) w1 = (w2, Ok ())" "applyNodeInfo a node ?name w2 = (w', Ok ())"
      using assms r Error n by (auto simp: ensure_node_state_def Let_def w0_def then_do_Ok_iff)
    note c1 = cfg_write_Ok[OF w(1)] and c2 = cfg_write_Ok[OF w(2)[unfolded applyNodeInfo_def]]
    have "asked w1 (creates node) w'" using asked_trans[OF c1(1) c2(1)] by (simp add: creates_def)
    then have "asked w (creates node) w'" using cfg_read_Error(2)[OF r[unfolded Error]] by (simp add: asked_def w0_def)
    moreover have "has_state a (creates node) node" using cfg_read_Error(1)[OF r[unfolded Error]] n by (auto simp: has_state_def)
    ultimately show ?thesis using c1(2) c2(2) cfg_read_Error(3)[OF r[unfolded Error]] by auto
  next
    case (Panic m)
    then show ?thesis using assms r by (simp add: ensure_node_state_def Let_def w0_def)
  qed
  then show "\<exists>qs. asked w qs w' \<and> qs \<in> {[], creates node} \<and> has_state a qs node"
    "cw_State w' = UpdatePowerNodeData (nd_Name node) (cw_State w)" by (simp_all add: w0_def)
qed

lemma ensure_nodes_Ok:
  assumes "foreach (ensure_node_state a) nodes w = (w', Ok ())"
  shows "\<exists>qs. asked w qs w' \<and> set qs \<subseteq> (\<Union>node \<in> set nodes. set (creates node)) \<and> (\<forall>node \<in> set nodes. has_state a qs node)"
    and "cw_State w' = fold (\<lambda>node. UpdatePowerNodeData (nd_Name node)) nodes (cw_State w)"
proof -
  have "(\<exists>qs. asked w qs w' \<and> set qs \<subseteq> (\<Union>node \<in> set nodes. set (creates node)) \<and> (\<forall>node \<in> set nodes. has_state a qs node)) \<and>
    cw_State w' = fold (\<lambda>node. UpdatePowerNodeData (nd_Name node)) nodes (cw_State w)"
    using assms
  proof (induction nodes arbitrary: w)
    case (Cons x nodes)
    obtain w1 where w1: "ensure_node_state a x w = (w1, Ok ())" "foreach (ensure_node_state a) nodes w1 = (w', Ok ())"
      using Cons.prems by (auto split: prod.splits res.splits)
    obtain qs where q: "asked w qs w1" "qs \<in> {[], creates x}" "has_state a qs x" using ensure_node_state_Ok(1)[OF w1(1)] by blast
    obtain qs' where q': "asked w1 qs' w'" "set qs' \<subseteq> (\<Union>node \<in> set nodes. set (creates node))" "\<forall>node \<in> set nodes. has_state a qs' node"
      using Cons.IH[OF w1(2)] by blast
    have "asked w (qs @ qs') w'" using asked_trans q(1) q'(1) by blast
    moreover have "set (qs @ qs') \<subseteq> (\<Union>node \<in> set (x # nodes). set (creates node))" using q(2) q'(2) by auto
    moreover have "\<forall>node \<in> set (x # nodes). has_state a (qs @ qs') node"
      using has_state_mono[OF q(3), of "qs @ qs'"] q'(3) has_state_mono[of a qs' _ "qs @ qs'"] by auto
    moreover have "cw_State w' = fold (\<lambda>node. UpdatePowerNodeData (nd_Name node)) (x # nodes) (cw_State w)"
      using ensure_node_state_Ok(2)[OF w1(1)] Cons.IH[OF w1(2)] by simp
    ultimately show ?case by (intro conjI exI[of _ "qs @ qs'"])
  qed simp
  then show "\<exists>qs. asked w qs w' \<and> set qs \<subseteq> (\<Union>node \<in> set nodes. set (creates node)) \<and> (\<forall>node \<in> set nodes. has_state a qs node)"
    "cw_State w' = fold (\<lambda>node. UpdatePowerNodeData (nd_Name node)) nodes (cw_State w)" by blast+
qed

lemma fold_UpdatePowerNodeData:
  defines "upd \<equiv> \<lambda>node. UpdatePowerNodeData (nd_Name node)"
  shows "set (PowerNodeList (fold upd nodes nd)) = set (PowerNodeList nd) \<union> nd_Name ` set nodes"
    and "distinct (PowerNodeList nd) \<Longrightarrow> distinct (PowerNodeList (fold upd nodes nd))"
proof -
  have "set (PowerNodeList (fold upd nodes nd)) = set (PowerNodeList nd) \<union> nd_Name ` set nodes \<and>
      (distinct (PowerNodeList nd) \<longrightarrow> distinct (PowerNodeList (fold upd nodes nd)))"
    by (induction nodes arbitrary: nd) (auto simp: upd_def UpdatePowerNodeData_def)
  then show "set (PowerNodeList (fold upd nodes nd)) = set (PowerNodeList nd) \<union> nd_Name ` set nodes"
    "distinct (PowerNodeList nd) \<Longrightarrow> distinct (PowerNodeList (fold upd nodes nd))" by blast+
qed

section \<open>The DaemonSet\<close>

definition with_selector :: "PowerConfig \<Rightarrow> DaemonSet \<Rightarrow> DaemonSet" where
  "with_selector config d = d\<lparr>dset_NodeSelector := PowerNodeSelector config\<rparr>"

text \<open>What is asked for the DaemonSet, when its lookup answers with the DaemonSet or NotFound.\<close>

definition daemonset_requests :: "config_api \<Rightarrow> PowerConfig \<Rightarrow> err + DaemonSet \<Rightarrow> config_request list \<Rightarrow> bool" where
  "daemonset_requests a config found qs =
     (case found of
        Inr d \<Rightarrow> qs = (if same_labels (dset_NodeSelector d) (PowerNodeSelector config) then []
                      else [UpdateDaemonSet (with_selector config d)])
      | Inl e \<Rightarrow> \<exists>d. cfg_manifest a = Inr (Some d) \<and>
          qs = [CreateDaemonSet (if the_default [] (PowerNodeSelector config) = [] then d else with_selector config d)])"

lemma update_daemonset_Ok:
  assumes "update_daemonset a config d w = (w', Ok ())"
  shows "\<exists>qs. asked w qs w' \<and> daemonset_requests a config (Inr d) qs" and "cw_State w' = cw_State w"
  using assms cfg_write_Ok[of a _ w w']
  by (auto simp: update_daemonset_def daemonset_requests_def with_selector_def split: if_splits)

lemma daemonset_Ok:
  assumes "createDaemonSetIfNotPresent a config w = (w', Ok ())"
    and "\<forall>k e. cfg_daemonset a k = Inl e \<longrightarrow> IsNotFound e"
  shows "\<exists>k qs. asked w qs w' \<and> daemonset_requests a config (cfg_daemonset a k) qs" and "cw_State w' = cw_State w"
proof -
  obtain w1 r where r: "cfg_read (cfg_daemonset a) w = (w1, r)" by (cases "cfg_read (cfg_daemonset a) w")
  have "(\<exists>k qs. asked w qs w' \<and> daemonset_requests a config (cfg_daemonset a k) qs) \<and> cw_State w' = cw_State w"
  proof (cases r)
    case (Ok d)
    note o = cfg_read_Ok[OF r[unfolded Ok]]
    have "update_daemonset a config d w1 = (w', Ok ())" using assms(1) r Ok by (simp add: createDaemonSetIfNotPresent_def)
    from update_daemonset_Ok[OF this] show ?thesis using o asked_cong[OF o(2)] by (metis (no_types))
  next
    case (Error e)
    note o = cfg_read_Error[OF r[unfolded Error]]
    have n: "IsNotFound e" using assms(2) o(1) by blast
    obtain d where d: "cfg_manifest a = Inr (Some d)"
        "cfg_write a (CreateDaemonSet (if the_default [] (PowerNodeSelector config) \<noteq> []
           then d\<lparr>dset_NodeSelector := PowerNodeSelector config\<rparr> else d)) w1 = (w', Ok ())"
      using assms(1) r Error n
      by (auto simp: createDaemonSetIfNotPresent_def then_do_Ok_iff createDaemonSetFromManifest_def
          split: sum.splits option.splits)
    have "daemonset_requests a config (Inl e) [CreateDaemonSet (if the_default [] (PowerNodeSelector config) = [] then d else with_selector config d)]"
      using d(1) by (simp add: daemonset_requests_def)
    moreover have "asked w [CreateDaemonSet (if the_default [] (PowerNodeSelector config) = [] then d else with_selector config d)] w'"
      using cfg_write_Ok(1)[OF d(2)] asked_cong[OF o(2)] by (simp add: with_selector_def split: if_splits)
    ultimately show ?thesis using cfg_write_Ok(2)[OF d(2)] o(1,3) by metis
  next
    case (Panic m)
    then show ?thesis using assms r by (simp add: createDaemonSetIfNotPresent_def)
  qed
  then show "\<exists>k qs. asked w qs w' \<and> daemonset_requests a config (cfg_daemonset a k) qs" "cw_State w' = cw_State w" by blast+
qed

section \<open>Taking down\<close>

lemma foreach_write_State:
  assumes "foreach (\<lambda>x. cfg_write a (f x)) xs w = (w', Ok ())"
  shows "cw_State w' = cw_State w"
proof -
  have "cw_State (fst (foreach (\<lambda>x. cfg_write a (f x)) xs w)) = cw_State w"
    by (rule foreach_inv[where I = "\<lambda>v. cw_State v = cw_State w"]) (simp_all add: cfg_write_def Let_def)
  then show ?thesis using assms by simp
qed

text \<open>Everything listed was deleted: the profiles, the states of the nodes, and the DaemonSet if there is one.\<close>

definition taken_down :: "config_api \<Rightarrow> config_world \<Rightarrow> config_world \<Rightarrow> bool" where
  "taken_down a w w' =
     (\<exists>profiles states k1 k2 k3. cfg_profiles a k1 = Inr profiles \<and> cfg_states a k2 = Inr states \<and>
        (case cfg_daemonset a k3 of
           Inr d \<Rightarrow> asked w (map (\<lambda>p. DeleteProfile (pp_Meta p)) profiles @ map DeleteNodeState states @ [DeleteDaemonSet d]) w'
         | Inl e \<Rightarrow> IsNotFound e \<and> asked w (map (\<lambda>p. DeleteProfile (pp_Meta p)) profiles @ map DeleteNodeState states) w'))"

lemma taken_down_cong:
  assumes "cw_requests w1 = cw_requests w"
  shows "taken_down a w1 w' = taken_down a w w'"
proof -
  have "asked w1 = asked w" using assms by (simp add: asked_def[abs_def] fun_eq_iff)
  then show ?thesis by (simp only: taken_down_def)
qed

lemma take_down_Ok:
  assumes "take_down a w = (w', Ok Done)"
  shows "taken_down a w w'" and "cw_State w' = cw_State w"
proof -
  obtain w1 w2 w3 w4 profiles states where s: "cfg_read (cfg_profiles a) w = (w1, Ok profiles)"
      "foreach (\<lambda>p. cfg_write a (DeleteProfile (pp_Meta p))) profiles w1 = (w2, Ok ())"
      "cfg_read (cfg_states a) w2 = (w3, Ok states)"
      "foreach (\<lambda>s. cfg_write a (DeleteNodeState s)) states w3 = (w4, Ok ())"
      "catch_err (cfg_read (cfg_daemonset a) w4)
               (\<lambda>e w. if \<not> IsNotFound e then (w, Error e) else (w, Ok Done))
               (\<lambda>daemonSet w. then_do (cfg_write a (DeleteDaemonSet daemonSet) w) (\<lambda>_ w. (w, Ok Done))) = (w', Ok Done)"
    using assms by (auto simp: take_down_def then_do_Ok_iff)
  note o = cfg_read_Ok[OF s(1)] foreach_write_Ok[OF s(2)] cfg_read_Ok[OF s(3)] foreach_write_Ok[OF s(4)]
    foreach_write_State[OF s(2)] foreach_write_State[OF s(4)]
  let ?qs = "map (\<lambda>p. DeleteProfile (pp_Meta p)) profiles @ map DeleteNodeState states"
  have a4: "asked w ?qs w4" "cw_State w4 = cw_State w" using o by (simp_all add: asked_def)
  obtain w5 r where r: "cfg_read (cfg_daemonset a) w4 = (w5, r)" by (cases "cfg_read (cfg_daemonset a) w4")
  have d: "(case cfg_daemonset a (cw_calls w4) of
       Inr d \<Rightarrow> asked w (map (\<lambda>p. DeleteProfile (pp_Meta p)) profiles @ map DeleteNodeState states @ [DeleteDaemonSet d]) w' | Inl e \<Rightarrow> IsNotFound e \<and> asked w ?qs w') \<and> cw_State w' = cw_State w"
  proof (cases r)
    case (Ok d)
    note p = cfg_read_Ok[OF r[unfolded Ok]]
    have w: "cfg_write a (DeleteDaemonSet d) w5 = (w', Ok ())" using s(5) r Ok by (auto simp: then_do_Ok_iff)
    have "asked w (map (\<lambda>p. DeleteProfile (pp_Meta p)) profiles @ map DeleteNodeState states @ [DeleteDaemonSet d]) w'" using a4(1) p(2) cfg_write_Ok(1)[OF w] by (simp add: asked_def)
    then show ?thesis using p cfg_write_Ok(2)[OF w] a4(2) by simp
  next
    case (Error e)
    note p = cfg_read_Error[OF r[unfolded Error]]
    have "IsNotFound e" "w' = w5" using s(5) r Error by (auto split: if_splits)
    then show ?thesis using p a4 by (simp add: asked_def)
  next
    case (Panic m)
    then show ?thesis using s(5) r by simp
  qed
  then show "cw_State w' = cw_State w" by blast
  have "cfg_profiles a (cw_calls w) = Inr profiles" "cfg_states a (cw_calls w2) = Inr states" using o by simp_all
  then show "taken_down a w w'" unfolding taken_down_def using d by blast
qed

text \<open>A cluster with one node, before and after its PowerConfig.\<close>

definition one_config :: PowerConfig where
  "one_config = \<lparr>pcf_Meta = meta0 ''config'' 1, PowerNodeSelector = Some [(''power'', ''yes'')]\<rparr>"

definition one_node :: Node where
  "one_node = \<lparr>nd_Name = ''n1'', nd_Labels = [(''power'', ''yes''), (''kubernetes.io/arch'', ''amd64'')], nd_Capacity = Some [(''cpu'', NewQuantity 8)]\<rparr>"

definition agent :: DaemonSet where
  "agent = \<lparr>dset_Name = NodeAgentDSName, dset_NodeSelector = None, dset_Rest = []\<rparr>"

definition fresh_cluster :: config_api where
  "fresh_cluster = \<lparr>cfg_list = \<lambda>n. Inr [one_config], cfg_get = \<lambda>n x. Inr one_config, cfg_profiles = \<lambda>n. Inr [], cfg_states = \<lambda>n. Inr [],
     cfg_daemonset = \<lambda>n. Inl (NotFound NodeAgentDSName), cfg_nodes = \<lambda>n sel. Inr [one_node], cfg_state = \<lambda>n x. Inl (NotFound x),
     cfg_manifest = Inr (Some agent), cfg_send = \<lambda>n q. None\<rparr>"

definition last_cluster :: config_api where
  "last_cluster = fresh_cluster\<lparr>cfg_list := \<lambda>n. Inr [], cfg_get := \<lambda>n x. Inl (NotFound (snd x)), cfg_profiles := \<lambda>n. Inr [perf_profile],
     cfg_states := \<lambda>n. Inr [(PowerNamespace, ''n1-power-state'')], cfg_daemonset := \<lambda>n. Inr agent\<rparr>"

definition no_requests :: config_world where
  "no_requests = \<lparr>cw_State = NewPowerNodeData, cw_calls = 0, cw_requests = []\<rparr>"

lemmas config_run = PowerConfig_Reconcile_def take_down_def deploy_def createDaemonSetIfNotPresent_def createDaemonSetFromManifest_def
  ensure_node_state_def applyNodeInfo_def cfg_read_def cfg_write_def Let_def NewPowerNodeData_def UpdatePowerNodeData_def

section \<open>Properties\<close>



text \<open>
  C23. Taking down. When no PowerConfig is left, a successful \<open>Reconcile\<close> of the deleted one has
  deleted every listed PowerProfile, then every listed PowerNodeState, then the DaemonSet of the
  node agent if there is one, and has asked for nothing else. While other PowerConfigs are left
  it asks for nothing, and a second PowerConfig is deleted itself, with nothing deployed for it.
\<close>
theorem PowerConfig_Reconcile_takes_down:
  assumes "PowerConfig_Reconcile a req w = (w', Ok Done)"
  shows "\<exists>configs. cfg_list a (cw_calls w) = Inr configs \<and>
    (case cfg_get a (Suc (cw_calls w)) req of
       Inr config \<Rightarrow> 1 < length configs \<and> asked w [DeleteConfig (pcf_Meta config)] w'
     | Inl e \<Rightarrow> IsNotFound e \<and>
         (if configs \<noteq> [] then asked w [] w'
          else taken_down a w w')) \<and>
    cw_State w' = cw_State w"
proof -
  obtain configs w1 where c: "cfg_read (cfg_list a) w = (w1, Ok configs)"
    using assms by (auto simp: PowerConfig_Reconcile_def then_do_Ok_iff split: if_splits)
  note c' = cfg_read_Ok[OF c]
  have n: "cw_calls w1 = Suc (cw_calls w)" using c by (auto simp: cfg_read_def)
  obtain w2 r where g: "cfg_read (\<lambda>n. cfg_get a n req) w1 = (w2, r)" by (cases "cfg_read (\<lambda>n. cfg_get a n req) w1")
  show ?thesis
  proof (cases r)
    case (Ok config)
    note o = cfg_read_Ok[OF g[unfolded Ok]]
    have "1 < length configs" "cfg_write a (DeleteConfig (pcf_Meta config)) w2 = (w', Ok ())"
      using assms c g Ok by (auto simp: PowerConfig_Reconcile_def then_do_Ok_iff deploy_def split: if_splits)
    then show ?thesis using cfg_write_Ok[of a _ w2 w'] o c' n by (auto simp: asked_def)
  next
    case (Error e)
    note o = cfg_read_Error[OF g[unfolded Error]]
    have e: "IsNotFound e" "configs \<noteq> [] \<longrightarrow> w' = w2" "configs = [] \<longrightarrow> take_down a w2 = (w', Ok Done)"
      using assms c g Error by (auto simp: PowerConfig_Reconcile_def then_do_Ok_iff split: if_splits)
    show ?thesis
    proof (cases "configs = []")
      case True
      then have "take_down a w2 = (w', Ok Done)" using e(3) by simp
      note t = take_down_Ok[OF this]
      have "taken_down a w w'" using t(1) taken_down_cong[of w2 w] o(2) c'(2) by simp
      then show ?thesis using t(2) o c' n e(1) True by simp
    next
      case False
      then show ?thesis using e o c' n by (auto simp: asked_def)
    qed
  next
    case (Panic m)
    then show ?thesis using assms c g by (simp add: PowerConfig_Reconcile_def split: if_splits)
  qed
qed

theorem PowerConfig_Reconcile_takes_down_witness:
  "\<exists>w'. PowerConfig_Reconcile last_cluster (PowerNamespace, ''config'') no_requests = (w', Ok Done) \<and>
     taken_down last_cluster no_requests w'"
proof -
  let ?w = "fst (PowerConfig_Reconcile last_cluster (PowerNamespace, ''config'') no_requests)"
  have r: "PowerConfig_Reconcile last_cluster (PowerNamespace, ''config'') no_requests = (?w, Ok Done)"
    by (simp add: config_run fresh_cluster_def last_cluster_def no_requests_def)
  have g: "cfg_get last_cluster n x = Inl (NotFound (snd x))" "cfg_list last_cluster n = Inr []" for n x
    by (simp_all add: last_cluster_def)
  from PowerConfig_Reconcile_takes_down[OF r] have "taken_down last_cluster no_requests ?w" by (simp add: g)
  then show ?thesis using r by blast
qed

end
