(* ===== verification/Manager.thy ===== *)
theory Manager
  imports Watches Webhooks_Props PowerConfig_Props
begin

text \<open>
  \<open>build/manager/main.go\<close>: the process that deploys the node agents and validates the custom resources.
  \<open>manager_main\<close> is its start; \<open>admission_step\<close> is what then happens to the stored resources of one kind:
  the API server applies a change when the webhook of the kind, if there is one, admits it. Changes of
  one kind are applied one after the other, and the webhook reads the resources as they are stored.
\<close>

section \<open>Start\<close>

datatype webhook_kind = ConfigWebhook | UncoreWebhook | ProfileWebhook

record manager_platform =
  mp_NewManager :: "err option"
  mp_Complete :: "err option"
  mp_IndexField :: "err option"
  mp_Webhook :: "webhook_kind \<Rightarrow> err option"

record manager_process =
  mg_state :: PowerNodeData
  mg_webhooks :: "webhook_kind list"

datatype manager_outcome = ManagerExit string | ManagerRunning manager_process

definition webhook_name :: "webhook_kind \<Rightarrow> string" where
  "webhook_name k = (case k of ConfigWebhook \<Rightarrow> ''PowerNodeConfig'' | UncoreWebhook \<Rightarrow> ''Uncore'' | ProfileWebhook \<Rightarrow> ''PowerProfile'')"

definition SetupPowerNodeConfigWebhookWithManager :: "manager_platform \<Rightarrow> err option" where
  "SetupPowerNodeConfigWebhookWithManager mp = mp_Webhook mp ConfigWebhook"

definition SetupUncoreWebhookWithManager :: "manager_platform \<Rightarrow> err option" where
  "SetupUncoreWebhookWithManager mp = mp_Webhook mp UncoreWebhook"

text \<open>The index of the pods by profile comes first: the deletion of a profile looks pods up in it.\<close>

definition SetupPowerProfileWebhookWithManager :: "manager_platform \<Rightarrow> err option" where
  "SetupPowerProfileWebhookWithManager mp =
     (case mp_IndexField mp of
        Some e \<Rightarrow> Some (Wrapf ''setting up pod power profile index'' e)
      | None \<Rightarrow> mp_Webhook mp ProfileWebhook)"

definition setup_webhook :: "manager_platform \<Rightarrow> webhook_kind \<Rightarrow> err option" where
  "setup_webhook mp k =
     (case k of ConfigWebhook \<Rightarrow> SetupPowerNodeConfigWebhookWithManager mp | UncoreWebhook \<Rightarrow> SetupUncoreWebhookWithManager mp
      | ProfileWebhook \<Rightarrow> SetupPowerProfileWebhookWithManager mp)"

fun setup_webhooks :: "manager_platform \<Rightarrow> webhook_kind list \<Rightarrow> manager_process \<Rightarrow> manager_outcome" where
  "setup_webhooks mp [] m = ManagerRunning m"
| "setup_webhooks mp (k # ks) m =
     (case setup_webhook mp k of
        Some e \<Rightarrow> ManagerExit (''unable to create webhook '' @ webhook_name k)
      | None \<Rightarrow> setup_webhooks mp ks (m\<lparr>mg_webhooks := mg_webhooks m @ [k]\<rparr>))"

definition manager_main :: "manager_platform \<Rightarrow> bool \<Rightarrow> manager_outcome" where
  "manager_main mp enableWebhooks =
     (if mp_NewManager mp \<noteq> None then ManagerExit ''unable to start manager''
      else if mp_Complete mp \<noteq> None then ManagerExit ''unable to create controller PowerConfig''
      else setup_webhooks mp (if enableWebhooks then [ConfigWebhook, UncoreWebhook, ProfileWebhook] else [])
        \<lparr>mg_state = NewPowerNodeData, mg_webhooks = []\<rparr>)"

definition PowerConfig_SetupWithManager :: "PowerConfig event \<Rightarrow> world \<Rightarrow> world \<times> request list res" where
  "PowerConfig_SetupWithManager = For all_events pcf_Meta"

section \<open>Admission\<close>

datatype operation = CreateOp | UpdateOp

text \<open>A change of a kind without a webhook is admitted as it is.\<close>

definition config_admits :: "manager_process \<Rightarrow> string \<Rightarrow> webhook_api \<Rightarrow> operation \<Rightarrow> PowerNodeConfig \<Rightarrow> bool" where
  "config_admits m ns a op c = (ConfigWebhook \<in> set (mg_webhooks m) \<longrightarrow>
     snd ((case op of CreateOp \<Rightarrow> Config_ValidateCreate | UpdateOp \<Rightarrow> Config_ValidateUpdate) a ns (Some c) 0) = None)"

definition uncore_admits :: "manager_process \<Rightarrow> string \<Rightarrow> webhook_api \<Rightarrow> operation \<Rightarrow> Uncore \<Rightarrow> bool" where
  "uncore_admits m ns a op u = (UncoreWebhook \<in> set (mg_webhooks m) \<longrightarrow>
     snd ((case op of CreateOp \<Rightarrow> Uncore_ValidateCreate | UpdateOp \<Rightarrow> Uncore_ValidateUpdate) a ns (Some u) 0) = None)"

text \<open>
  \<open>A\<close> are the answers the API server may give; a listing that does not fail returns what is stored. Names
  are unique, and a deletion is always admitted for the two kinds that select nodes.
\<close>

inductive admission_step ::
  "('r \<Rightarrow> string) \<Rightarrow> (webhook_api \<Rightarrow> nat \<Rightarrow> err + 'r list) \<Rightarrow> (webhook_api \<Rightarrow> operation \<Rightarrow> 'r \<Rightarrow> bool) \<Rightarrow> webhook_api set \<Rightarrow>
   'r list \<Rightarrow> 'r list \<Rightarrow> bool"
  for name listing admits A where
  create: "a \<in> A \<Longrightarrow> (\<And>k items. listing a k = Inr items \<Longrightarrow> items = store) \<Longrightarrow> admits a CreateOp x \<Longrightarrow>
    name x \<notin> name ` set store \<Longrightarrow> admission_step name listing admits A store (x # store)"
| update: "a \<in> A \<Longrightarrow> (\<And>k items. listing a k = Inr items \<Longrightarrow> items = store) \<Longrightarrow> admits a UpdateOp x \<Longrightarrow>
    name x \<in> name ` set store \<Longrightarrow> admission_step name listing admits A store (x # filter (\<lambda>y. name y \<noteq> name x) store)"
| delete: "admission_step name listing admits A store (filter (\<lambda>y. name y \<noteq> n) store)"

text \<open>The answers of an API server with these nodes and this reading of selectors.\<close>

definition answers_about :: "Node set \<Rightarrow> (LabelSelector \<Rightarrow> err + ((string \<times> string) list \<Rightarrow> bool)) \<Rightarrow> webhook_api set" where
  "answers_about nodes sel = {a. lists_nodes a nodes \<and> empty_matches a \<and> wa_asSelector a = sel}"

section \<open>The contract of a webhook that keeps resources apart\<close>

definition apart :: "api \<Rightarrow> ('r \<Rightarrow> string) \<Rightarrow> ('r \<Rightarrow> LabelSelector) \<Rightarrow> Node set \<Rightarrow> 'r list \<Rightarrow> bool" where
  "apart b name selector nodes store =
     (distinct (map name store) \<and> (\<forall>node \<in> nodes. length (filterByNodeSelector b selector store (nd_Labels node)) \<le> 1))"

lemma apart_filter: "apart b name selector nodes store \<Longrightarrow> apart b name selector nodes (filter P store)"
proof -
  assume a: "apart b name selector nodes store"
  have "length (filterByNodeSelector b selector (filter P store) l) \<le> length (filterByNodeSelector b selector store l)" for l
    by (induction store) (auto simp: filterByNodeSelector_eq)
  then show ?thesis using a by (auto simp: apart_def distinct_map_filter intro: order_trans)
qed

locale separating_webhook =
  fixes name :: "'r \<Rightarrow> string" and selector :: "'r \<Rightarrow> LabelSelector" and listing :: "webhook_api \<Rightarrow> nat \<Rightarrow> err + 'r list"
    and admits :: "webhook_api \<Rightarrow> operation \<Rightarrow> 'r \<Rightarrow> bool"
  assumes exclusive: "\<lbrakk>a \<in> answers_about nodes (asSelector b); \<And>k items. listing a k = Inr items \<Longrightarrow> items = store;
      distinct (map name store); admits a op x; node \<in> nodes; nodeMatchesSelector b (nd_Labels node) (selector x) = Ok True\<rbrakk> \<Longrightarrow>
    filterByNodeSelector b selector (x # filter (\<lambda>y. name y \<noteq> name x) store) (nd_Labels node) = [x]"
begin

lemma put_apart:
  assumes "apart b name selector nodes store" and "a \<in> answers_about nodes (asSelector b)"
    and "\<And>k items. listing a k = Inr items \<Longrightarrow> items = store" and "admits a op x"
  shows "apart b name selector nodes (x # filter (\<lambda>y. name y \<noteq> name x) store)"
proof -
  let ?store = "x # filter (\<lambda>y. name y \<noteq> name x) store"
  have d: "distinct (map name store)" using assms(1) by (simp add: apart_def)
  have "length (filterByNodeSelector b selector ?store (nd_Labels node)) \<le> 1" if node: "node \<in> nodes" for node
  proof (cases "nodeMatchesSelector b (nd_Labels node) (selector x) = Ok True")
    case True
    show ?thesis using exclusive[OF assms(2,3) d assms(4) node True] by simp
  next
    case False
    then have "filterByNodeSelector b selector ?store (nd_Labels node) =
        filterByNodeSelector b selector (filter (\<lambda>y. name y \<noteq> name x) store) (nd_Labels node)"
      by (simp add: filterByNodeSelector_eq)
    then show ?thesis using apart_filter[OF assms(1)] node by (simp add: apart_def)
  qed
  moreover have "distinct (map name ?store)" using d by (simp add: distinct_map_filter) auto
  ultimately show ?thesis by (simp add: apart_def)
qed

lemma step_apart:
  assumes "admission_step name listing admits (answers_about nodes (asSelector b)) store store'"
    and "apart b name selector nodes store"
  shows "apart b name selector nodes store'"
  using assms(1)
proof cases
  case (create a x)
  then have "filter (\<lambda>y. name y \<noteq> name x) store = store" by (metis (mono_tags, lifting) filter_True image_eqI)
  then show ?thesis using put_apart[OF assms(2) create(2,3,4)] create(1) by simp
next
  case (update a x)
  then show ?thesis using put_apart[OF assms(2)] by blast
next
  case (delete n)
  then show ?thesis using apart_filter[OF assms(2)] by simp
qed

lemma reachable_apart:
  assumes "(admission_step name listing admits (answers_about nodes (asSelector b)))\<^sup>*\<^sup>* [] store"
  shows "apart b name selector nodes store"
  using assms by (induction rule: rtranclp_induct) (simp_all add: step_apart, simp add: apart_def)

end

section \<open>The two kinds\<close>

abbreviation config_name :: "PowerNodeConfig \<Rightarrow> string" where
  "config_name c \<equiv> om_Name (pnc_Meta c)"

abbreviation uncore_name :: "Uncore \<Rightarrow> string" where
  "uncore_name u \<equiv> om_Name (un_Meta u)"

definition validates ::
  "(webhook_api \<Rightarrow> string \<Rightarrow> 'r option \<Rightarrow> nat \<Rightarrow> nat \<times> webhook_error option) \<Rightarrow>
   (webhook_api \<Rightarrow> string \<Rightarrow> 'r option \<Rightarrow> nat \<Rightarrow> nat \<times> webhook_error option) \<Rightarrow> string \<Rightarrow> webhook_api \<Rightarrow> operation \<Rightarrow> 'r \<Rightarrow> bool" where
  "validates create update ns a op x = (snd ((case op of CreateOp \<Rightarrow> create | UpdateOp \<Rightarrow> update) a ns (Some x) 0) = None)"

lemma validates_cases:
  assumes "validates create update ns a op x"
  obtains n' where "create a ns (Some x) 0 = (n', None) \<or> update a ns (Some x) 0 = (n', None)"
  using assms by (cases op) (auto simp: validates_def, (metis prod.collapse)+)

interpretation configs: separating_webhook config_name powerNodeConfigSelector "\<lambda>a k. wa_configs a k ns"
  "validates Config_ValidateCreate Config_ValidateUpdate ns" for ns
proof
  fix a nodes b store op x and node :: Node
  assume a: "a \<in> answers_about nodes (asSelector b)" "\<And>k items. wa_configs a k ns = Inr items \<Longrightarrow> items = store"
    "distinct (map config_name store)" "validates Config_ValidateCreate Config_ValidateUpdate ns a op x"
    "node \<in> nodes" "nodeMatchesSelector b (nd_Labels node) (powerNodeConfigSelector x) = Ok True"
  obtain n' where "Config_ValidateCreate a ns (Some x) 0 = (n', None) \<or> Config_ValidateUpdate a ns (Some x) 0 = (n', None)"
    using a(4) by (rule validates_cases)
  from admitted_config_exclusive[OF _ _ _ _ this, of nodes b]
  show "filterByNodeSelector b powerNodeConfigSelector (x # filter (\<lambda>y. config_name y \<noteq> config_name x) store) (nd_Labels node) = [x]"
    using a by (auto simp: answers_about_def)
qed

interpretation uncores: separating_webhook uncore_name uncoreSelector "\<lambda>a k. wa_uncores a k ns"
  "validates Uncore_ValidateCreate Uncore_ValidateUpdate ns" for ns
proof
  fix a nodes b store op x and node :: Node
  assume a: "a \<in> answers_about nodes (asSelector b)" "\<And>k items. wa_uncores a k ns = Inr items \<Longrightarrow> items = store"
    "distinct (map uncore_name store)" "validates Uncore_ValidateCreate Uncore_ValidateUpdate ns a op x"
    "node \<in> nodes" "nodeMatchesSelector b (nd_Labels node) (uncoreSelector x) = Ok True"
  obtain n' where "Uncore_ValidateCreate a ns (Some x) 0 = (n', None) \<or> Uncore_ValidateUpdate a ns (Some x) 0 = (n', None)"
    using a(4) by (rule validates_cases)
  then have "Uncore_validateCreateOrUpdate a ns x 0 = (n', None)"
    by (auto simp: Uncore_ValidateCreate_def Uncore_ValidateUpdate_def split: option.splits)
  from uncore_update_admitted[OF _ _ _ _ this, of nodes b]
  show "filterByNodeSelector b uncoreSelector (x # filter (\<lambda>y. uncore_name y \<noteq> uncore_name x) store) (nd_Labels node) = [x]"
    using a by (auto simp: answers_about_def)
qed

section \<open>Properties\<close>

lemma setup_webhooks_Running:
  "setup_webhooks mp ks m = ManagerRunning m' \<Longrightarrow> mg_webhooks m' = mg_webhooks m @ ks"
  by (induction ks arbitrary: m) (auto split: option.splits)

lemma manager_main_webhooks:
  "manager_main mp True = ManagerRunning m \<Longrightarrow> set (mg_webhooks m) = {ConfigWebhook, UncoreWebhook, ProfileWebhook}"
  using setup_webhooks_Running[of mp "[ConfigWebhook, UncoreWebhook, ProfileWebhook]" "\<lparr>mg_state = NewPowerNodeData, mg_webhooks = []\<rparr>" m]
  by (simp add: manager_main_def split: if_splits)

lemma select_single: "selectActiveOrOldest meta [x] active = ([x], Some x)"
  by (auto simp: selectActiveOrOldest_def Let_def)


text \<open>A manager that started, and a first PowerNodeConfig that it admits.\<close>

definition boot_manager :: manager_platform where
  "boot_manager = \<lparr>mp_NewManager = None, mp_Complete = None, mp_IndexField = None, mp_Webhook = \<lambda>_. None\<rparr>"


end
