(* ===== verification/Spec2Isabelle.thy ===== *)
theory Spec2Isabelle
  imports Cpuset Locks Pool_Kinds Topology_Access Node_Agent Manager
begin

text \<open>
  A verification library for the Kubernetes Power Manager (the Go code under \<open>src/\<close>).

  \<^bold>\<open>The program.\<close> The manager deploys a node agent on the selected nodes (PowerConfig) and validates
  the custom resources (webhooks). The agent of a node runs controllers over one instance of the
  power optimization library: a PowerProfile becomes a pool with a profile and an extended
  resource of the node, a PowerNodeConfig sets the profile of the shared pool and the reserved
  CPUs, a pod that requests a profile gets its CPUs moved from the shared pool to the pool of the
  profile and back when it is deleted, an Uncore sets uncore frequencies, and a scaling policy
  starts workers that follow the usage DPDK reports. What happened is reported in the
  PowerNodeState of the node. The library keeps every CPU in one pool (reserved, shared,
  exclusive) and writes the files of sysfs that configure it.

  \<^bold>\<open>Conventions.\<close> A call is a function from the state it starts in to the state it leaves and a result
  (\<open>Go_Prelude.res\<close>: \<open>Ok\<close>, \<open>Error\<close>, \<open>Panic\<close>), so what a failing call leaves behind is part of the
  model; \<open>then_do\<close>, \<open>catch_err\<close>, \<open>wrap_err\<close> and \<open>foreach\<close> are the ways the code composes calls. Names are
  those of the source where Isabelle allows it; fields have a prefix. Integers keep their width
  where it matters (\<open>to_int32\<close>, \<open>to_int64\<close>, \<open>to_uint64\<close>, words for the cycle counters), floating point
  numbers are rounded as \<open>float64\<close> (\<open>Float64\<close>). Maps are association lists, in whose order loops
  run; slices that are edited while they are read are modelled with their aliasing (\<open>Go_Slices\<close>).
  A loop that need not end is \<open>None\<close> where it does not (\<open>int_loop\<close>, a \<^theory_text>\<open>partial_function\<close>); no fuel
  is used elsewhere. The two places where a slice may or may not be reallocated take the room left
  in it as an argument.

  \<^bold>\<open>The power library\<close> (\<open>power-optimization-library/pkg/power\<close>).
  \<^item> \<open>Power_Base\<close>: files as a map with faults for any operation, package variables, features
    (\<open>power.go\<close>).
  \<^item> \<open>IntStr\<close>, \<open>PStates\<close>, \<open>CStates\<close>, \<open>Profile\<close>: frequencies, idle states and profiles (\<open>p_states.go\<close>,
    \<open>c_states.go\<close>, \<open>power_profile.go\<close>). Percentages computed through floating point are exact, written
    frequencies stay within the limits of the CPU, the disable files agree with the profile, an
    accepted profile is well formed and can be applied.
  \<^item> \<open>Topology\<close>: packages, dies, clusters, cores, and the three levels of uncore settings
    (\<open>topology.go\<close>, \<open>uncore.go\<close>).
  \<^item> \<open>Pools\<close>, \<open>Mover\<close>, \<open>Pool_Props\<close>, \<open>Pool_Library\<close>: CPUs and pools (\<open>cpu.go\<close>, \<open>pool.go\<close>). The state is the
    record \<open>host\<close>; \<open>pool_inv\<close> says that the lists of the pools and the pools of the CPUs agree. The
    locale \<open>cpu_mover\<close> is the contract of \<open>SetPool\<close>, under which the loops of \<open>SetCpus\<close> are proved to
    follow a plan. \<open>Pool_Library\<close> is the interface the controllers rest on.
  \<^item> \<open>Pool_Kinds\<close>: the three types behind the interface \<open>Pool\<close> as tables of methods; a call through the
    interface is the operation of \<open>Pools\<close> on that pool, and never a virtual method.
  \<^item> \<open>Locks\<close>: the same operations as goroutines that interleave between their lock operations.
    Every interleaving keeps the lists; the locale \<open>lock_order\<close> is the contract for the absence
    of deadlocks, which one-way calls satisfy and mixed calls do not.
  \<^item> \<open>Host\<close>: discovery (\<open>host.go\<close>, \<open>power.go\<close>, \<open>topology.go\<close>), which establishes the invariant;
    \<open>Topology_Access\<close>: the accessors of the topology, and that what discovery builds is a tree over the CPUs.

  \<^bold>\<open>Packages of the agent.\<close> \<open>Cpuset\<close> (\<open>pkg/cpuset\<close>), \<open>Pkg_State\<close> (\<open>pkg/podstate\<close>, \<open>pkg/state\<close>, \<open>pkg/util\<close>),
  \<open>Pod_Resources\<close> (\<open>pkg/podresourcesclient\<close>), \<open>Dpdk_Client\<close> and \<open>Scaling\<close> (\<open>internal/scaling\<close>, the goroutines
  of connections and workers as machines over their events). \<open>CPU_List\<close> and \<open>Core_Lists\<close> have the
  contract of the texts that list CPUs, a codec, and its two implementations.

  \<^bold>\<open>Controllers\<close> (\<open>controllers/\<close>). \<open>Cluster\<close> has the custom resources and the API server, a parameter
  whose answers may depend on the number of calls made before, so that every theorem holds for
  any interleaving with other clients; requests that change the cluster are recorded. The locale
  facts are used through \<open>lib_inv\<close> and \<open>sound\<close>: no controller breaks the invariant of the library or
  panics, whatever the server and the files do.
  \<^item> \<open>Controllers_Common\<close>, \<open>NodeConfig_Controller\<close>, \<open>Profile_Controller\<close>, \<open>PowerPod_Controller\<close>,
    \<open>Uncore_Controller\<close>, \<open>PowerConfig_Controller\<close>: one definition per function, the whole of \<open>Reconcile\<close>
    included; the theories \<open>NodeConfig_Props\<close>, \<open>Profile_Controller_Props\<close>, \<open>PowerPod_Props\<close>,
    \<open>Uncore_Props\<close>, \<open>PowerConfig_Props\<close> have what a reconciliation that returns without an error has
    done to the pools, the files, the status and the cluster.
  \<^item> \<open>Webhooks\<close>, \<open>Webhooks_Props\<close> (\<open>api/v1alpha1/*_webhook.go\<close>, \<open>webhook_helpers.go\<close>): what an admitted
    resource guarantees to the controllers.
  \<^item> \<open>Watches\<close>: the \<open>SetupWithManager\<close> functions, as what an event of the cluster puts into the queue of a
    controller: which changes wake which controller, and that the PowerNodeConfig controller does not
    wake itself.
  \<^item> \<open>Example_Node\<close>: the concrete node that the witnesses of the properties use.

  \<^bold>\<open>The two processes\<close> (\<open>build/\<close>).
  \<^item> \<open>Frames\<close> (locale \<open>frame\<close>: a relation between the states before and after a call that composition keeps),
    \<open>Topology_Frame\<close>, \<open>Uncore_Frame\<close>, \<open>Pod_Frame\<close>: what each controller leaves alone whatever it returns, by
    interpretations of that locale on the states of the controllers.
  \<^item> \<open>Node_Agent\<close> (\<open>build/nodeagent/main.go\<close>): the start with each of its exits, and the running agent as a
    step relation: events, calls of \<open>Reconcile\<close> with requeueing, worker ticks, telemetry, changes of
    files. Every state that can be reached from \<open>main\<close> satisfies the invariants of the library, of the
    topology and of the scaling workers. The steps of different controllers are calls of \<open>Reconcile\<close> as
    a whole; what happens between the lock operations of the library is in \<open>Locks\<close>.
  \<^item> \<open>Manager\<close> (\<open>build/manager/main.go\<close>): the start, and the changes of the stored resources that the webhooks
    admit one after the other (locale \<open>separating_webhook\<close>, interpreted for PowerNodeConfigs and
    Uncores): no two of a kind ever select the same node.

  \<^bold>\<open>Not modelled.\<close> The generated deep copies (values of HOL are not shared, so a copy is the value), the
  registration of the API group, the controller runtime, gRPC and sockets, JSON and label selector
  libraries (parameters, with what is relied on as hypotheses), logging, metrics, leader election, the
  flags that configure them, and test hooks. Getters that return a field are reads of the field. Reads the library makes without a
  lock are outside \<open>Locks\<close>.
\<close>

section \<open>Readers of CPU lists\<close>



end
